(* ===== verification/Prelude.thy ===== *)
theory Prelude
  imports Main "HOL-Library.Word"
begin

text \<open>
  Shared vocabulary of the development: the faults that end a run of the C++ code, the result
  type of the operations that may fault, the machine arithmetic on \<^verbatim>\<open>size_t\<close>, and the
  generic lemmas on lists and results that the component theories use.

  The code is modelled as the release build of the library: \<^verbatim>\<open>LWNODE_DCHECK\<close> compiles to
  nothing, \<^verbatim>\<open>LWNODE_CHECK\<close> aborts the process when its condition is false
  (\<^verbatim>\<open>src/src/base.h\<close>), \<^verbatim>\<open>LWNODE_UNIMPLEMENT\<close> only logs.
\<close>

section \<open>Faults and results\<close>

text \<open>How a run of the code may end without a value: a failed \<^verbatim>\<open>LWNODE_CHECK\<close> or
  \<^verbatim>\<open>assert\<close>, a fatal error reported to the embedder, a C++ exception that nothing catches, or an access the C++ language leaves
  undefined.\<close>

datatype fault =
    CheckFailed
  | AssertFailed
  | FatalError
  | OutOfBounds
  | UninitRead
  | NullDeref
  | TypeConfusion
  | UseAfterFree
  | ShiftOverflow
  | OutOfMemory
  | UncaughtException
  | UndefinedConversion
  | NoFuel

type_synonym 'a res = "fault + 'a"

definition rbind :: "'a res \<Rightarrow> ('a \<Rightarrow> 'b res) \<Rightarrow> 'b res" where
  "rbind m f = (case m of Inl e \<Rightarrow> Inl e | Inr x \<Rightarrow> f x)"

definition guard :: "fault \<Rightarrow> bool \<Rightarrow> 'a res \<Rightarrow> 'a res" where
  "guard e b m = (if b then m else Inl e)"

abbreviation check :: "bool \<Rightarrow> 'a res \<Rightarrow> 'a res" where
  "check \<equiv> guard CheckFailed"

fun foldM :: "('i \<Rightarrow> 's \<Rightarrow> 's res) \<Rightarrow> 'i list \<Rightarrow> 's \<Rightarrow> 's res" where
  "foldM f [] s = Inr s"
| "foldM f (i # is) s = rbind (f i s) (foldM f is)"

fun is_ok :: "'a res \<Rightarrow> bool" where
  "is_ok (Inr _) = True"
| "is_ok (Inl _) = False"

named_theorems res_simps \<open>unfolding the result monad\<close>

lemma rbind_Inr [simp, res_simps]: "rbind (Inr x) f = f x"
  by (simp add: rbind_def)

lemma rbind_Inl [simp, res_simps]: "rbind (Inl e) f = Inl e"
  by (simp add: rbind_def)

lemma rbind_assoc: "rbind (rbind m f) g = rbind m (\<lambda>x. rbind (f x) g)"
  by (cases m) simp_all

lemma rbind_eq_Inr: "rbind m f = Inr y \<longleftrightarrow> (\<exists>x. m = Inr x \<and> f x = Inr y)"
  by (cases m) simp_all

lemma guard_True [simp, res_simps]: "guard e True m = m"
  by (simp add: guard_def)

lemma guard_False [simp, res_simps]: "guard e False m = Inl e"
  by (simp add: guard_def)

lemma guard_eq_Inr: "guard e b m = Inr y \<longleftrightarrow> b \<and> m = Inr y"
  by (simp add: guard_def)

lemma foldM_append: "foldM f (is @ js) s = rbind (foldM f is s) (foldM f js)"
proof (induction "is" arbitrary: s)
  case Nil
  then show ?case by simp
next
  case (Cons i "is")
  then show ?case by (cases "f i s") simp_all
qed

lemma foldM_snoc: "foldM f (is @ [i]) s = rbind (foldM f is s) (f i)"
  by (cases "foldM f is s") (auto simp: foldM_append rbind_def split: sum.splits)

text \<open>The rule every loop proof uses: a property indexed by the loop counter that each step
  advances holds at the end, and no step faults.\<close>

lemma foldM_upt_invariant:
  assumes "a \<le> b"
    and "I a s"
    and "\<And>i t. a \<le> i \<Longrightarrow> i < b \<Longrightarrow> I i t \<Longrightarrow> \<exists>u. f i t = Inr u \<and> I (Suc i) u"
  shows "\<exists>u. foldM f [a..<b] s = Inr u \<and> I b u"
  using assms
proof (induction b arbitrary: s rule: dec_induct)
  case base
  then show ?case by simp
next
  case (step n)
  have "\<exists>u. foldM f [a..<n] s = Inr u \<and> I n u"
    using step.IH step.prems step.hyps by simp
  then obtain t where t: "foldM f [a..<n] s = Inr t" "I n t" by blast
  obtain u where u: "f n t = Inr u" "I (Suc n) u"
    using step.prems(2)[of n t] step.hyps t(2) by auto
  have "foldM f [a..<Suc n] s = Inr u"
    using step.hyps t(1) u(1) by (simp add: foldM_snoc)
  then show ?case using u(2) by blast
qed

section \<open>Machine arithmetic on size\_t\<close>

text \<open>The code runs on a 64-bit target; a \<^verbatim>\<open>size_t\<close> is a natural number below
  \<open>2 ^ 64\<close> and the two operations that can wrap are written out.\<close>

definition size_max :: nat where
  "size_max = 2 ^ 64"

definition sub64 :: "nat \<Rightarrow> nat \<Rightarrow> nat" where
  "sub64 a b = (a + size_max - b) mod size_max"

definition add64 :: "nat \<Rightarrow> nat \<Rightarrow> nat" where
  "add64 a b = (a + b) mod size_max"

lemma sub64_exact: "b \<le> a \<Longrightarrow> a < size_max \<Longrightarrow> sub64 a b = a - b"
  by (simp add: sub64_def mod_if)

lemma sub64_wrap: "a < b \<Longrightarrow> b < size_max \<Longrightarrow> sub64 a b = size_max - (b - a)"
  by (auto simp: sub64_def)

lemma add64_exact: "a + b < size_max \<Longrightarrow> add64 a b = a + b"
  by (simp add: add64_def)

lemma sub64_lt [simp]: "sub64 a b < size_max"
  by (simp add: sub64_def size_max_def)

section \<open>Lists\<close>

text \<open>\<open>overwrite a ys b\<close> overwrites \<open>b\<close> with \<open>ys\<close> from index \<open>a\<close> on: what a loop that writes
  consecutive cells leaves behind.\<close>

definition overwrite :: "nat \<Rightarrow> 'a list \<Rightarrow> 'a list \<Rightarrow> 'a list" where
  "overwrite a ys b = take a b @ ys @ drop (a + length ys) b"

lemma overwrite_Nil [simp]: "overwrite a [] b = b"
  by (simp add: overwrite_def)

lemma length_overwrite [simp]: "a + length ys \<le> length b \<Longrightarrow> length (overwrite a ys b) = length b"
  by (simp add: overwrite_def)

lemma nth_overwrite:
  "a + length ys \<le> length b \<Longrightarrow> i < length b \<Longrightarrow>
   overwrite a ys b ! i = (if a \<le> i \<and> i < a + length ys then ys ! (i - a) else b ! i)"
  by (auto simp: overwrite_def nth_append)

lemma overwrite_snoc:
  "a + length ys < length b \<Longrightarrow> (overwrite a ys b)[a + length ys := y] = overwrite a (ys @ [y]) b"
  by (rule nth_equalityI) (auto simp: nth_overwrite nth_list_update nth_append)

lemma overwrite_full: "length ys = length b \<Longrightarrow> overwrite 0 ys b = ys"
  by (simp add: overwrite_def)

lemma take_map_replicate:
  "k \<le> length xs \<Longrightarrow> take k (map Some xs @ replicate n None) = map Some (take k xs)"
  by (simp add: take_map)

lemma map_upt_nth: "map (\<lambda>i. xs ! i) [a..<length xs] = drop a xs"
  by (rule nth_equalityI) auto

lemma map_of_SomeD_mem: "map_of xs k = Some v \<Longrightarrow> (k, v) \<in> set xs"
  by (rule map_of_SomeD)

end
