(* ===== verification/SfVector.thy ===== *)
theory SfVector
  imports Prelude
begin

text \<open>
  \<^verbatim>\<open>Starfish::Vector\<close> of \<^verbatim>\<open>src/src/api/utils/sf-vector.h\<close>, the array under every
  \<^verbatim>\<open>GCVector\<close> of the library. The buffer is a list of cells, \<open>Some x\<close> for a live object
  and \<open>None\<close> for raw memory; the null buffer is the empty list. The fields keep the source's names.
  The ghost field \<open>misuse\<close> counts the operations the C++ object model forbids on a cell:
  assigning to or destroying raw memory, and constructing over a live object. They do nothing for the
  pointer types the library stores, so the count does not influence the other fields.
\<close>

record 'a vec =
  m_buffer :: "'a option list"
  m_size :: nat
  m_capacity :: nat
  misuse :: nat

section \<open>Cells\<close>

definition read_at :: "'a vec \<Rightarrow> nat \<Rightarrow> 'a res" where
  "read_at v i = (if i < length (m_buffer v)
     then (case m_buffer v ! i of Some x \<Rightarrow> Inr x | None \<Rightarrow> Inl UninitRead)
     else Inl OutOfBounds)"

definition construct_at :: "nat \<Rightarrow> 'a \<Rightarrow> 'a vec \<Rightarrow> 'a vec res" where
  "construct_at i x v = guard OutOfBounds (i < length (m_buffer v))
     (Inr (v\<lparr>m_buffer := (m_buffer v)[i := Some x],
             misuse := misuse v + (if m_buffer v ! i = None then 0 else 1)\<rparr>))"

definition assign_at :: "nat \<Rightarrow> 'a \<Rightarrow> 'a vec \<Rightarrow> 'a vec res" where
  "assign_at i x v = guard OutOfBounds (i < length (m_buffer v))
     (Inr (v\<lparr>m_buffer := (m_buffer v)[i := Some x],
             misuse := misuse v + (if m_buffer v ! i = None then 1 else 0)\<rparr>))"

definition destroy_at :: "nat \<Rightarrow> 'a vec \<Rightarrow> 'a vec res" where
  "destroy_at i v = guard OutOfBounds (i < length (m_buffer v))
     (Inr (v\<lparr>m_buffer := (m_buffer v)[i := None],
             misuse := misuse v + (if m_buffer v ! i = None then 1 else 0)\<rparr>))"

section \<open>Allocation\<close>

definition emptyVec :: "'a vec" where
  "emptyVec = \<lparr>m_buffer = [], m_size = 0, m_capacity = 0, misuse = 0\<rparr>"

text \<open>\<^verbatim>\<open>log2l(size)\<close> converted to \<^verbatim>\<open>size_t\<close>.\<close>

fun floor_log2 :: "nat \<Rightarrow> nat" where
  "floor_log2 n = (if n < 2 then 0 else Suc (floor_log2 (n div 2)))"

declare floor_log2.simps [simp del]

text \<open>\<^verbatim>\<open>1 << (base + 1)\<close> shifts a 32-bit \<^verbatim>\<open>int\<close>: the result is a positive capacity only
  below the sign bit.\<close>

definition toCapacity :: "nat \<Rightarrow> nat res" where
  "toCapacity n = (if n = 0 then Inr 1
     else let base = floor_log2 n in guard ShiftOverflow (base + 1 < 31) (Inr (2 ^ (base + 1))))"

definition allocate :: "nat \<Rightarrow> ('a option list \<times> nat) res" where
  "allocate n = rbind (toCapacity n) (\<lambda>capacity. Inr (replicate capacity None, capacity))"

definition deallocate :: "'a vec \<Rightarrow> 'a vec res" where
  "deallocate v = rbind (foldM destroy_at [0..<m_size v] v)
     (\<lambda>v. Inr (v\<lparr>m_buffer := [], m_size := 0, m_capacity := 0\<rparr>))"

definition makeEmpty :: "'a vec \<Rightarrow> 'a vec res" where
  "makeEmpty v = deallocate v"

definition clear :: "'a vec \<Rightarrow> 'a vec res" where
  "clear v = makeEmpty v"

definition resetBuffer :: "'a option list \<times> nat \<Rightarrow> 'a vec \<Rightarrow> 'a vec res" where
  "resetBuffer info v = rbind (deallocate v)
     (\<lambda>v. Inr (v\<lparr>m_buffer := fst info, m_capacity := snd info\<rparr>))"

definition setLen :: "nat \<Rightarrow> 'a vec \<Rightarrow> 'a vec res" where
  "setLen newLen v = rbind (foldM destroy_at [newLen..<m_size v] v)
     (\<lambda>v. Inr (v\<lparr>m_size := newLen\<rparr>))"

text \<open>Copying cells of the old buffer into a new one: \<open>copy_cell v d i\<close> constructs cell \<open>i - d\<close> of
  the new buffer from cell \<open>i\<close> of the old one.\<close>

definition copy_cell :: "'a vec \<Rightarrow> nat \<Rightarrow> nat \<Rightarrow> 'a option list \<Rightarrow> 'a option list res" where
  "copy_cell v d i buf = rbind (read_at v i) (\<lambda>x. guard OutOfBounds (i - d < length buf)
     (Inr (buf[i - d := Some x])))"

definition reserve :: "nat \<Rightarrow> 'a vec \<Rightarrow> 'a vec res" where
  "reserve newSize v = (if newSize \<le> m_capacity v then Inr v else
     let oldSize = m_size v in
     rbind (allocate newSize) (\<lambda>(buf, cap).
     rbind (foldM (copy_cell v 0) [0..<m_size v] buf) (\<lambda>buf.
     rbind (resetBuffer (buf, cap) v) (setLen oldSize))))"

section \<open>Insertion\<close>

definition pushBack :: "'a \<Rightarrow> 'a vec \<Rightarrow> 'a vec res" where
  "pushBack x v = (let newLen = m_size v + 1 in
     rbind (reserve newLen v) (\<lambda>v.
     rbind (construct_at (newLen - 1) x v) (setLen newLen)))"

definition shift_right_cell :: "nat \<Rightarrow> 'a vec \<Rightarrow> 'a vec res" where
  "shift_right_cell i v = rbind (read_at v (i - 1)) (\<lambda>x. assign_at i x v)"

definition insertImpl :: "nat \<Rightarrow> 'a \<Rightarrow> 'a vec \<Rightarrow> 'a vec res" where
  "insertImpl pos x v = guard AssertFailed (pos \<le> m_size v)
     (let newLen = m_size v + 1 in
      rbind (if m_capacity v < newLen then reserve newLen v else Inr v) (\<lambda>v.
      rbind (foldM shift_right_cell (rev [pos + 1..<m_size v + 1]) v) (\<lambda>v.
      rbind (construct_at pos x v) (setLen newLen))))"

definition push_back :: "'a \<Rightarrow> 'a vec \<Rightarrow> 'a vec res" where
  "push_back x v = pushBack x v"

definition insert_pos :: "nat \<Rightarrow> 'a \<Rightarrow> 'a vec \<Rightarrow> 'a vec res" where
  "insert_pos pos x v = guard AssertFailed (pos \<le> m_size v) (insertImpl pos x v)"

fun insert_range_from :: "nat \<Rightarrow> nat \<Rightarrow> 'a list \<Rightarrow> 'a vec \<Rightarrow> 'a vec res" where
  "insert_range_from npos i [] v = Inr v"
| "insert_range_from npos i (x # xs) v =
     rbind (insertImpl (i + npos) x v) (insert_range_from npos (i + 1) xs)"

definition insert_range :: "nat \<Rightarrow> 'a list \<Rightarrow> 'a vec \<Rightarrow> 'a vec res" where
  "insert_range npos xs v = insert_range_from npos 0 xs v"

definition assign_range :: "'a list \<Rightarrow> 'a vec \<Rightarrow> 'a vec res" where
  "assign_range xs v = rbind (clear v) (insert_range 0 xs)"

text \<open>\<open>new (&m_buffer[i]) T\<close> of \<^verbatim>\<open>resize\<close>: \<open>d\<close> is the default-constructed element.\<close>

definition resize :: "'a \<Rightarrow> nat \<Rightarrow> 'a vec \<Rightarrow> 'a vec res" where
  "resize d newSize v = rbind (reserve newSize v) (\<lambda>v.
     rbind (foldM (\<lambda>i. construct_at i d) [m_size v..<newSize] v) (setLen newSize))"

section \<open>Erasure\<close>

definition realloc_without :: "nat \<Rightarrow> nat \<Rightarrow> nat \<Rightarrow> 'a vec \<Rightarrow> 'a vec res" where
  "realloc_without start end' newLen v =
     (let c = end' - start in
      rbind (allocate newLen) (\<lambda>(buf, cap).
      rbind (foldM (copy_cell v 0) [0..<start] buf) (\<lambda>buf.
      rbind (foldM (copy_cell v c) [end'..<m_size v] buf) (\<lambda>buf.
      rbind (foldM destroy_at [0..<m_size v] v) (\<lambda>v.
      Inr (v\<lparr>m_buffer := buf, m_capacity := cap, m_size := newLen\<rparr>))))))"

text \<open>The body shared by the two shifting loops of \<^verbatim>\<open>eraseImpl\<close>: the first runs it on the cells
  to erase, the second on the cells after them.\<close>

definition shift_left_cell :: "nat \<Rightarrow> nat \<Rightarrow> 'a vec \<Rightarrow> 'a vec res" where
  "shift_left_cell sizeToErase idx v =
     (let nextIdx = idx + sizeToErase in
      if nextIdx < m_size v
      then rbind (read_at v nextIdx) (\<lambda>x. rbind (assign_at idx x v) (destroy_at nextIdx))
      else destroy_at idx v)"

definition eraseImpl :: "nat \<Rightarrow> nat \<Rightarrow> 'a vec \<Rightarrow> 'a vec res" where
  "eraseImpl start sizeToErase v =
     (let end' = add64 start sizeToErase in
      guard AssertFailed (start < end') (guard AssertFailed (end' \<le> m_size v)
      (let c = end' - start; newLen = m_size v - c in
       if newLen = 0 then clear v
       else if newLen < m_capacity v div 2 then realloc_without start end' newLen v
       else
         rbind (foldM (\<lambda>i. shift_left_cell sizeToErase (i + start)) [0..<sizeToErase] v) (\<lambda>v.
         rbind (foldM (shift_left_cell sizeToErase) [end'..<m_size v] v) (\<lambda>v.
         Inr (v\<lparr>m_size := newLen\<rparr>))))))"

definition eraseStrictImpl :: "nat \<Rightarrow> nat \<Rightarrow> 'a vec \<Rightarrow> 'a vec res" where
  "eraseStrictImpl start sizeToErase v =
     (let end' = add64 start sizeToErase in
      guard AssertFailed (start < end') (guard AssertFailed (end' \<le> m_size v)
      (let c = end' - start; newLen = m_size v - c in
       if newLen > 0 then realloc_without start end' newLen v else clear v)))"

definition erase :: "bool \<Rightarrow> nat \<Rightarrow> nat \<Rightarrow> 'a vec \<Rightarrow> 'a vec res" where
  "erase isEraseStrategyStrict start end' v =
     (if start = end' then Inr v
      else guard AssertFailed (end' \<le> m_size v)
       (let howMuch = sub64 end' start; newLen = sub64 (m_size v) howMuch in
        if howMuch = 0 then Inr v
        else if newLen = 0 then clear v
        else if isEraseStrategyStrict then eraseStrictImpl start howMuch v
        else eraseImpl start howMuch v))"

text \<open>The iterator overload returns the iterator at the first element after the erased ones.\<close>

definition erase_iter :: "bool \<Rightarrow> nat \<Rightarrow> nat \<Rightarrow> 'a vec \<Rightarrow> ('a vec \<times> nat) res" where
  "erase_iter strict start end' v = rbind (erase strict start end' v) (\<lambda>v. Inr (v, start))"

definition erase_pos :: "bool \<Rightarrow> nat \<Rightarrow> 'a vec \<Rightarrow> 'a vec res" where
  "erase_pos strict pos v = erase strict pos (add64 pos 1) v"

definition pop_back :: "bool \<Rightarrow> 'a vec \<Rightarrow> 'a vec res" where
  "pop_back strict v = erase_pos strict (sub64 (m_size v) 1) v"

text \<open>The reverse-iterator overloads: \<open>d\<close> is \<^verbatim>\<open>std::distance(rbegin(), pos)\<close>.\<close>

definition erase_rpos :: "bool \<Rightarrow> nat \<Rightarrow> 'a vec \<Rightarrow> 'a vec res" where
  "erase_rpos strict d v =
     (let start = sub64 (sub64 (m_size v) d) 1; end' = add64 start 1 in erase strict start end' v)"

definition erase_rrange :: "bool \<Rightarrow> nat \<Rightarrow> nat \<Rightarrow> 'a vec \<Rightarrow> 'a vec res" where
  "erase_rrange strict d d2 v =
     (let start = sub64 (sub64 (m_size v) d) 1; end' = sub64 (sub64 (m_size v) d2) 1
      in erase strict start end' v)"

section \<open>Access, copy, comparison\<close>

definition size_vec :: "'a vec \<Rightarrow> nat" where
  "size_vec v = m_size v"

definition vec_empty :: "'a vec \<Rightarrow> bool" where
  "vec_empty v = (m_size v = 0)"

definition vec_at :: "nat \<Rightarrow> 'a vec \<Rightarrow> 'a res" where
  "vec_at idx v = guard AssertFailed (idx < m_size v) (read_at v idx)"

definition vec_front :: "'a vec \<Rightarrow> 'a res" where
  "vec_front v = read_at v 0"

definition vec_back :: "'a vec \<Rightarrow> 'a res" where
  "vec_back v = read_at v (sub64 (m_size v) 1)"

text \<open>\<^verbatim>\<open>_construct\<close> from a forward range; the range is the list of the values it yields.\<close>

definition construct :: "'a list \<Rightarrow> 'a vec \<Rightarrow> 'a vec res" where
  "construct xs v = (let distance = length xs in
     rbind (allocate distance) (\<lambda>info.
     rbind (resetBuffer info v) (\<lambda>v.
     rbind (foldM (\<lambda>len. construct_at len (xs ! len)) [0..<distance] v) (setLen distance))))"

text \<open>The values a vector's own iterators yield.\<close>

definition elements :: "'a vec \<Rightarrow> 'a list res" where
  "elements v = foldM (\<lambda>i xs. rbind (read_at v i) (\<lambda>x. Inr (xs @ [x]))) [0..<m_size v] []"

definition copy_vec :: "'a vec \<Rightarrow> 'a vec res" where
  "copy_vec other = (if m_size other > 0
     then rbind (elements other) (\<lambda>xs. construct xs emptyVec)
     else makeEmpty emptyVec)"

definition assign_vec :: "'a vec \<Rightarrow> 'a vec \<Rightarrow> 'a vec res" where
  "assign_vec other v = (if m_size other > 0
     then rbind (deallocate v) (\<lambda>v. rbind (elements other) (\<lambda>xs. construct xs v))
     else clear v)"

text \<open>\<^verbatim>\<open>v = v\<close>: \<^verbatim>\<open>other\<close> is the deallocated vector itself when it is read.\<close>

definition self_assign :: "'a vec \<Rightarrow> 'a vec res" where
  "self_assign v = (if m_size v > 0
     then rbind (deallocate v) (\<lambda>v. rbind (elements v) (\<lambda>xs. construct xs v))
     else clear v)"

text \<open>The move constructor: the new vector and what is left of the source.\<close>

definition move_vec :: "'a vec \<Rightarrow> 'a vec \<times> 'a vec" where
  "move_vec other =
     (emptyVec\<lparr>m_buffer := m_buffer other, m_size := m_size other, m_capacity := m_capacity other\<rparr>,
      other\<lparr>m_buffer := [], m_size := 0, m_capacity := 0\<rparr>)"

definition swap_vec :: "'a vec \<times> 'a vec \<Rightarrow> 'a vec \<times> 'a vec" where
  "swap_vec p = (case p of (a, b) \<Rightarrow>
     (a\<lparr>m_buffer := m_buffer b, m_capacity := m_capacity b, m_size := m_size b\<rparr>,
      b\<lparr>m_buffer := m_buffer a, m_capacity := m_capacity a, m_size := m_size a\<rparr>))"

definition eq_vec :: "'a vec \<Rightarrow> 'a vec \<Rightarrow> bool res" where
  "eq_vec v other = (if m_size v \<noteq> m_size other then Inr False
     else if vec_empty other then Inr True
     else rbind (elements v) (\<lambda>xs. rbind (elements other) (\<lambda>ys. Inr (xs = ys))))"

section \<open>Contents of a vector\<close>

text \<open>\<open>vec_rep v xs\<close>: the vector holds the list \<open>xs\<close>, its cells beyond are raw, and its capacity is
  one that \<^verbatim>\<open>toCapacity\<close> can return.\<close>

definition vec_rep :: "'a vec \<Rightarrow> 'a list \<Rightarrow> bool" where
  "vec_rep v xs \<longleftrightarrow> m_size v = length xs \<and> length xs \<le> m_capacity v \<and> m_capacity v \<le> 2 ^ 30 \<and>
     m_buffer v = map Some xs @ replicate (m_capacity v - length xs) None"

section \<open>Loops over cells\<close>

lemma read_at_live: "i < length (m_buffer v) \<Longrightarrow> m_buffer v ! i = Some x \<Longrightarrow> read_at v i = Inr x"
  by (simp add: read_at_def)

lemma destroy_range:
  assumes "a \<le> b" "b \<le> length (m_buffer v)" "\<And>i. a \<le> i \<Longrightarrow> i < b \<Longrightarrow> m_buffer v ! i \<noteq> None"
  shows "foldM destroy_at [a..<b] v = Inr (v\<lparr>m_buffer := overwrite a (replicate (b - a) None) (m_buffer v)\<rparr>)"
  using assms
proof (induction b rule: dec_induct)
  case base
  then show ?case by simp
next
  case (step n)
  have "replicate (Suc n - a) None = replicate (n - a) None @ [None :: 'a option]"
    using step.hyps by (simp add: Suc_diff_le replicate_append_same)
  moreover have "(overwrite a (replicate (n - a) None) (m_buffer v))[n := None]
      = overwrite a (replicate (n - a) None @ [None]) (m_buffer v)"
    using overwrite_snoc[of a "replicate (n - a) None" "m_buffer v" None] step.hyps step.prems by simp
  ultimately show ?case
    using step by (simp add: foldM_snoc destroy_at_def nth_overwrite)
qed

lemma copy_range:
  assumes "a \<le> b" "d \<le> a" "b \<le> length xs" "b - d \<le> length buf"
    and "\<And>i. i < length xs \<Longrightarrow> read_at v i = Inr (xs ! i)"
  shows "foldM (copy_cell v d) [a..<b] buf = Inr (overwrite (a - d) (map Some (drop a (take b xs))) buf)"
  using assms
proof (induction b rule: dec_induct)
  case base
  then show ?case by simp
next
  case (step n)
  have "drop a (take (Suc n) xs) = drop a (take n xs) @ [xs ! n]"
    using step.hyps step.prems by (simp add: take_Suc_conv_app_nth)
  moreover have "(overwrite (a - d) (map Some (drop a (take n xs))) buf)[n - d := Some (xs ! n)]
      = overwrite (a - d) (map Some (drop a (take n xs)) @ [Some (xs ! n)]) buf"
    using overwrite_snoc[of "a - d" "map Some (drop a (take n xs))" buf "Some (xs ! n)"] step.hyps step.prems
    by simp
  moreover have "n - d < length buf" using step.hyps step.prems by linarith
  ultimately show ?case
    using step by (simp add: foldM_snoc copy_cell_def guard_def)
qed

lemma construct_range:
  assumes "a \<le> b" "b \<le> length (m_buffer v)" "\<And>i. a \<le> i \<Longrightarrow> i < b \<Longrightarrow> m_buffer v ! i = None"
  shows "foldM (\<lambda>i. construct_at i (f i)) [a..<b] v =
    Inr (v\<lparr>m_buffer := overwrite a (map (\<lambda>i. Some (f i)) [a..<b]) (m_buffer v)\<rparr>)"
  using assms
proof (induction b rule: dec_induct)
  case base
  then show ?case by simp
next
  case (step n)
  have "(overwrite a (map (\<lambda>i. Some (f i)) [a..<n]) (m_buffer v))[n := Some (f n)]
      = overwrite a (map (\<lambda>i. Some (f i)) [a..<n] @ [Some (f n)]) (m_buffer v)"
    using overwrite_snoc[of a "map (\<lambda>i. Some (f i)) [a..<n]" "m_buffer v" "Some (f n)"] step.hyps step.prems
    by simp
  then show ?case
    using step by (simp add: foldM_snoc construct_at_def nth_overwrite)
qed

lemma vec_rep_length [simp]: "vec_rep v xs \<Longrightarrow> length (m_buffer v) = m_capacity v"
  by (simp add: vec_rep_def)

lemma vec_rep_size: "vec_rep v xs \<Longrightarrow> m_size v = length xs"
  by (simp add: vec_rep_def)

lemma vec_rep_nth:
  "vec_rep v xs \<Longrightarrow> i < m_capacity v \<Longrightarrow> m_buffer v ! i = (if i < length xs then Some (xs ! i) else None)"
  by (simp add: vec_rep_def nth_append)

lemma vec_rep_read: "vec_rep v xs \<Longrightarrow> i < length xs \<Longrightarrow> read_at v i = Inr (xs ! i)"
  by (auto simp: read_at_def vec_rep_def nth_append)

lemma vec_repI:
  assumes "m_size v = length xs" "length xs \<le> m_capacity v" "m_capacity v \<le> 2 ^ 30"
    "length (m_buffer v) = m_capacity v"
    "\<And>i. i < m_capacity v \<Longrightarrow> m_buffer v ! i = (if i < length xs then Some (xs ! i) else None)"
  shows "vec_rep v xs"
  unfolding vec_rep_def using assms by (auto intro!: nth_equalityI simp: nth_append)

lemma floor_log2_bounds: "0 < n \<Longrightarrow> 2 ^ floor_log2 n \<le> n \<and> n < 2 ^ (floor_log2 n + 1)"
proof (induction n rule: floor_log2.induct)
  case (1 n)
  show ?case
  proof (cases "n < 2")
    case True
    then show ?thesis using 1 by (subst (1 2) floor_log2.simps) auto
  next
    case False
    then have "2 ^ floor_log2 (n div 2) \<le> n div 2 \<and> n div 2 < 2 ^ (floor_log2 (n div 2) + 1)"
      using 1 by auto
    then show ?thesis using False by (subst (1 2) floor_log2.simps) auto
  qed
qed

lemma floor_log2_less:
  assumes "0 < n" "n < 2 ^ k"
  shows "floor_log2 n < k"
proof (rule ccontr)
  assume "\<not> floor_log2 n < k"
  then have "(2 :: nat) ^ k \<le> 2 ^ floor_log2 n" by (simp add: power_increasing)
  then show False using floor_log2_bounds[OF assms(1)] assms(2) by linarith
qed

lemma toCapacity_ok:
  assumes "n < 2 ^ 30"
  shows "\<exists>c. toCapacity n = Inr c \<and> n < c \<and> c \<le> 2 * max n 1 \<and> c \<le> 2 ^ 30"
proof (cases "n = 0")
  case True
  then show ?thesis by (simp add: toCapacity_def)
next
  case False
  let ?b = "floor_log2 n"
  have b: "?b < 30" using floor_log2_less[of n 30] assms False by simp
  have "(2 :: nat) ^ (?b + 1) \<le> 2 ^ 30" using b by (intro power_increasing) auto
  then show ?thesis
    using floor_log2_bounds[of n] False b
    by (auto simp: toCapacity_def Let_def guard_def)
qed

lemma deallocate_rep:
  assumes "vec_rep v xs"
  shows "deallocate v = Inr (v\<lparr>m_buffer := [], m_size := 0, m_capacity := 0\<rparr>)"
proof -
  have "foldM destroy_at [0..<m_size v] v =
      Inr (v\<lparr>m_buffer := overwrite 0 (replicate (m_size v - 0) None) (m_buffer v)\<rparr>)"
    using assms by (intro destroy_range) (auto simp: vec_rep_def nth_append)
  then show ?thesis by (simp add: deallocate_def)
qed

lemma clear_rep:
  "vec_rep v xs \<Longrightarrow> \<exists>v'. clear v = Inr v' \<and> vec_rep v' [] \<and> misuse v' = misuse v"
  using deallocate_rep[of v xs] by (simp add: clear_def makeEmpty_def vec_rep_def)

lemma setLen_same: "setLen (m_size v) v = Inr v"
  by (simp add: setLen_def)

lemma setLen_grow: "m_size v \<le> n \<Longrightarrow> setLen n v = Inr (v\<lparr>m_size := n\<rparr>)"
  by (simp add: setLen_def)

lemma vec_rep_resized:
  assumes "length xs \<le> cap" "cap \<le> 2 ^ 30"
  shows "vec_rep \<lparr>m_buffer = overwrite 0 (map Some xs) (replicate cap None), m_size = length xs,
    m_capacity = cap, misuse = k\<rparr> xs"
  using assms by (intro vec_repI) (auto simp: nth_overwrite)

lemma reserve_rep:
  assumes rep: "vec_rep v xs" and n: "n < 2 ^ 30"
  shows "\<exists>v'. reserve n v = Inr v' \<and> vec_rep v' xs \<and> n \<le> m_capacity v' \<and> misuse v' = misuse v \<and>
    m_capacity v \<le> m_capacity v'"
proof (cases "n \<le> m_capacity v")
  case True
  then show ?thesis using rep by (simp add: reserve_def)
next
  case False
  obtain c where c: "toCapacity n = Inr c" "n < c" "c \<le> 2 ^ 30" using toCapacity_ok[OF n] by blast
  have len: "length xs \<le> m_capacity v" "m_size v = length xs" using rep by (auto simp: vec_rep_def)
  have "foldM (copy_cell v 0) [0..<length xs] (replicate c None) =
      Inr (overwrite (0 - 0) (map Some (drop 0 (take (length xs) xs))) (replicate c None))"
    using rep c False len by (intro copy_range) (auto simp: vec_rep_read)
  then have "reserve n v = Inr (v\<lparr>m_buffer := overwrite 0 (map Some xs) (replicate c None),
      m_size := length xs, m_capacity := c\<rparr>)"
    using False c len by (simp add: reserve_def allocate_def resetBuffer_def deallocate_rep[OF rep] setLen_grow)
  moreover have "vec_rep (v\<lparr>m_buffer := overwrite 0 (map Some xs) (replicate c None),
      m_size := length xs, m_capacity := c\<rparr>) xs"
    using c len False by (intro vec_repI) (auto simp: nth_overwrite)
  ultimately show ?thesis using c False by simp
qed

lemma construct_end:
  assumes "vec_rep v xs" "length xs < m_capacity v"
  shows "\<exists>v'. rbind (construct_at (length xs) x v) (setLen (Suc (length xs))) = Inr v' \<and>
    vec_rep v' (xs @ [x]) \<and> misuse v' = misuse v"
proof -
  have "rbind (construct_at (length xs) x v) (setLen (Suc (length xs))) =
      Inr (v\<lparr>m_buffer := (m_buffer v)[length xs := Some x], m_size := Suc (length xs)\<rparr>)"
    using assms by (auto simp: construct_at_def vec_rep_nth setLen_def vec_rep_size)
  moreover have "vec_rep (v\<lparr>m_buffer := (m_buffer v)[length xs := Some x], m_size := Suc (length xs)\<rparr>) (xs @ [x])"
    using assms by (intro vec_repI) (auto simp: vec_rep_nth nth_append nth_list_update vec_rep_def)
  ultimately show ?thesis by simp
qed

lemma pushBack_rep:
  assumes "vec_rep v xs" "length xs + 1 < 2 ^ 30"
  shows "\<exists>v'. pushBack x v = Inr v' \<and> vec_rep v' (xs @ [x]) \<and> misuse v' = misuse v"
proof -
  obtain u where u: "reserve (length xs + 1) v = Inr u" "vec_rep u xs" "length xs + 1 \<le> m_capacity u"
    "misuse u = misuse v"
    using reserve_rep[OF assms] by blast
  have "length xs < m_capacity u" using u(3) by simp
  from construct_end[OF u(2) this, of x] show ?thesis
    using u vec_rep_size[OF assms(1)] by (simp add: pushBack_def Let_def)
qed

lemma shift_right_range:
  assumes "pos \<le> m" "m < length (m_buffer v)" "\<And>i. pos \<le> i \<Longrightarrow> i < m \<Longrightarrow> m_buffer v ! i \<noteq> None"
  shows "\<exists>v'. foldM shift_right_cell (rev [pos + 1..<m + 1]) v = Inr v' \<and>
    m_size v' = m_size v \<and> m_capacity v' = m_capacity v \<and> length (m_buffer v') = length (m_buffer v) \<and>
    (\<forall>p < length (m_buffer v). m_buffer v' ! p = (if pos < p \<and> p \<le> m then m_buffer v ! (p - 1) else m_buffer v ! p)) \<and>
    misuse v' = misuse v + (if pos < m \<and> m_buffer v ! m = None then 1 else 0)"
  using assms
proof (induction m arbitrary: v rule: dec_induct)
  case base
  then show ?case by auto
next
  case (step n)
  let ?B = "m_buffer v"
  obtain x where x: "?B ! n = Some x" using step.prems(2)[of n] step.hyps by auto
  have upt: "rev [pos + 1..<Suc n + 1] = Suc n # rev [pos + 1..<n + 1]"
    using step.hyps by simp
  let ?u = "v\<lparr>m_buffer := ?B[Suc n := Some x], misuse := misuse v + (if ?B ! Suc n = None then 1 else 0)\<rparr>"
  have first: "shift_right_cell (Suc n) v = Inr ?u"
    using step.prems(1) x by (simp add: shift_right_cell_def read_at_def assign_at_def)
  have "\<exists>v'. foldM shift_right_cell (rev [pos + 1..<n + 1]) ?u = Inr v' \<and>
    m_size v' = m_size ?u \<and> m_capacity v' = m_capacity ?u \<and> length (m_buffer v') = length (m_buffer ?u) \<and>
    (\<forall>p < length (m_buffer ?u). m_buffer v' ! p = (if pos < p \<and> p \<le> n then m_buffer ?u ! (p - 1) else m_buffer ?u ! p)) \<and>
    misuse v' = misuse ?u + (if pos < n \<and> m_buffer ?u ! n = None then 1 else 0)"
    using step.prems by (intro step.IH) (auto simp: nth_list_update)
  then obtain w where w: "foldM shift_right_cell (rev [pos + 1..<n + 1]) ?u = Inr w"
    "m_size w = m_size v" "m_capacity w = m_capacity v" "length (m_buffer w) = length ?B"
    "\<And>p. p < length ?B \<Longrightarrow> m_buffer w ! p = (if pos < p \<and> p \<le> n then ?B[Suc n := Some x] ! (p - 1) else ?B[Suc n := Some x] ! p)"
    "misuse w = misuse v + (if ?B ! Suc n = None then 1 else 0)"
    using x by (auto simp: nth_list_update)
  have "m_buffer w ! p = (if pos < p \<and> p \<le> Suc n then ?B ! (p - 1) else ?B ! p)" if "p < length ?B" for p
    using w(5)[OF that] that x step.hyps by (cases "p = Suc n") (auto simp: nth_list_update)
  moreover have "foldM shift_right_cell (rev [pos + 1..<Suc n + 1]) v = Inr w"
    unfolding upt using first w(1) by simp
  ultimately show ?case using w step.hyps by auto
qed

lemma vec_rep_cap: "vec_rep v xs \<Longrightarrow> m_capacity v \<le> 2 ^ 30"
  by (simp add: vec_rep_def)

lemma vec_rep_le: "vec_rep v xs \<Longrightarrow> length xs \<le> m_capacity v"
  by (simp add: vec_rep_def)

lemma nth_insert:
  "pos \<le> length xs \<Longrightarrow> i \<le> length xs \<Longrightarrow>
   (take pos xs @ x # drop pos xs) ! i = (if i < pos then xs ! i else if i = pos then x else xs ! (i - 1))"
  by (auto simp: nth_append nth_Cons' min_def)

lemma insertImpl_rep:
  assumes rep: "vec_rep v xs" and pos: "pos \<le> length xs" and len: "length xs + 1 < 2 ^ 30"
  shows "\<exists>v'. insertImpl pos x v = Inr v' \<and> vec_rep v' (take pos xs @ x # drop pos xs) \<and>
    misuse v' = misuse v + (if pos < length xs then 2 else 0)"
proof -
  obtain u where u: "(if m_capacity v < length xs + 1 then reserve (length xs + 1) v else Inr v) = Inr u"
    "vec_rep u xs" "length xs + 1 \<le> m_capacity u" "misuse u = misuse v"
    using reserve_rep[OF rep len] rep by (cases "m_capacity v < length xs + 1") force+
  obtain w where w: "foldM shift_right_cell (rev [pos + 1..<length xs + 1]) u = Inr w"
    "m_size w = length xs" "m_capacity w = m_capacity u" "length (m_buffer w) = m_capacity u"
    "\<And>p. p < m_capacity u \<Longrightarrow> m_buffer w ! p =
       (if pos < p \<and> p \<le> length xs then m_buffer u ! (p - 1) else m_buffer u ! p)"
    "misuse w = misuse u + (if pos < length xs \<and> m_buffer u ! length xs = None then 1 else 0)"
    using shift_right_range[of pos "length xs" u] u pos by (auto simp: vec_rep_nth vec_rep_size)
  let ?r = "w\<lparr>m_buffer := (m_buffer w)[pos := Some x],
    misuse := misuse w + (if m_buffer w ! pos = None then 0 else 1), m_size := length xs + 1\<rparr>"
  have "insertImpl pos x v = rbind (rbind (Inr w) (construct_at pos x)) (setLen (length xs + 1))"
    unfolding insertImpl_def Let_def vec_rep_size[OF rep] u(1)
    using pos w(1) by (simp add: rbind_assoc vec_rep_size[OF u(2)] del: upt_Suc)
  then have "insertImpl pos x v = Inr ?r"
    using u w pos by (simp add: construct_at_def setLen_grow)
  moreover have "vec_rep ?r (take pos xs @ x # drop pos xs)"
    using u(2,3) w(2-5) pos vec_rep_cap[OF u(2)]
    by (intro vec_repI) (auto simp: vec_rep_nth nth_insert nth_list_update)
  moreover have "misuse ?r = misuse v + (if pos < length xs then 2 else 0)"
    using u(2-4) w(5,6) pos by (auto simp: vec_rep_nth)
  ultimately show ?thesis by blast
qed

lemma insert_range_from_rep:
  assumes "vec_rep v xs" "i + npos \<le> length xs" "length xs + length ys < 2 ^ 30"
  shows "\<exists>v'. insert_range_from npos i ys v = Inr v' \<and>
    vec_rep v' (take (i + npos) xs @ ys @ drop (i + npos) xs)"
  using assms
proof (induction ys arbitrary: v xs i)
  case Nil
  then show ?case by auto
next
  case (Cons y ys)
  obtain u where u: "insertImpl (i + npos) y v = Inr u"
    "vec_rep u (take (i + npos) xs @ y # drop (i + npos) xs)"
    using insertImpl_rep[of v xs "i + npos" y] Cons.prems by auto
  have "\<exists>v'. insert_range_from npos (i + 1) ys u = Inr v' \<and>
    vec_rep v' (take (i + 1 + npos) (take (i + npos) xs @ y # drop (i + npos) xs) @ ys @
      drop (i + 1 + npos) (take (i + npos) xs @ y # drop (i + npos) xs))"
    using u Cons.prems by (intro Cons.IH) auto
  then show ?case using u Cons.prems by (simp add: min_def Suc_diff_le)
qed

lemma shift_left_range:
  assumes rep: "vec_rep v xs" and k: "0 < k" "s + k \<le> length xs" and j: "s \<le> j" "j \<le> length xs"
  shows "\<exists>v'. foldM (shift_left_cell k) [s..<j] v = Inr v' \<and>
    m_size v' = length xs \<and> m_capacity v' = m_capacity v \<and> length (m_buffer v') = m_capacity v \<and>
    (\<forall>p < m_capacity v. m_buffer v' ! p =
       (if p < s then m_buffer v ! p
        else if p < j then (if p + k < length xs then m_buffer v ! (p + k) else None)
        else if s + k \<le> p \<and> p < j + k then None else m_buffer v ! p)) \<and>
    misuse v' = misuse v + (j - (s + k))" (is "\<exists>v'. _ \<and> ?I j v'")
proof -
  have "\<exists>v'. foldM (shift_left_cell k) [s..<j] v = Inr v' \<and> ?I j v'"
  proof (rule foldM_upt_invariant[OF j(1)])
    show "?I s v" using rep by (auto simp: vec_rep_size)
  next
    fix i t assume i: "s \<le> i" "i < j" and I: "?I i t"
    have cap: "length xs \<le> m_capacity v" using rep by (simp add: vec_rep_def)
    have here: "m_buffer t ! i = (if s + k \<le> i then None else Some (xs ! i))"
      using I i j k cap rep by (auto simp: vec_rep_nth)
    show "\<exists>u. shift_left_cell k i t = Inr u \<and> ?I (Suc i) u"
    proof (cases "i + k < length xs")
      case True
      have next_cell: "m_buffer t ! (i + k) = Some (xs ! (i + k))"
        using I i k True cap rep by (auto simp: vec_rep_nth)
      show ?thesis
        using I i j k True cap rep here next_cell
        by (auto simp: shift_left_cell_def read_at_def assign_at_def destroy_at_def nth_list_update vec_rep_nth Let_def)
    next
      case False
      show ?thesis
        using I i j k False cap rep here
        by (auto simp: shift_left_cell_def destroy_at_def nth_list_update vec_rep_nth Let_def)
    qed
  qed
  then show ?thesis .
qed

lemma realloc_without_rep:
  assumes rep: "vec_rep v xs" and r: "s < e" "e \<le> length xs" and len: "length xs < 2 ^ 30"
  shows "\<exists>v'. realloc_without s e (length xs - (e - s)) v = Inr v' \<and>
    vec_rep v' (take s xs @ drop e xs) \<and> misuse v' = misuse v"
proof -
  let ?n = "length xs - (e - s)"
  have "?n < 2 ^ 30" using len by simp
  from toCapacity_ok[OF this] obtain c where c: "toCapacity ?n = Inr c" "?n < c" "c \<le> 2 ^ 30" by blast
  let ?A = "replicate c (None :: 'a option)"
  have rd: "\<And>i. i < length xs \<Longrightarrow> read_at v i = Inr (xs ! i)" using rep by (rule vec_rep_read)
  let ?B1 = "overwrite (0 - 0) (map Some (drop 0 (take s xs))) ?A"
  let ?B2 = "overwrite (e - (e - s)) (map Some (drop e (take (length xs) xs))) ?B1"
  have B1: "foldM (copy_cell v 0) [0..<s] ?A = Inr ?B1"
    using rd c r by (intro copy_range) auto
  have B2: "foldM (copy_cell v (e - s)) [e..<length xs] ?B1 = Inr ?B2"
    using rd c r by (intro copy_range) auto
  have D: "foldM destroy_at [0..<length xs] v =
      Inr (v\<lparr>m_buffer := overwrite 0 (replicate (length xs - 0) None) (m_buffer v)\<rparr>)"
    using rep by (intro destroy_range) (auto simp: vec_rep_def nth_append)
  let ?r = "v\<lparr>m_buffer := ?B2, m_capacity := c, m_size := ?n\<rparr>"
  have "realloc_without s e ?n v = Inr ?r"
    using c(1) B1 B2 D vec_rep_size[OF rep] by (simp add: realloc_without_def allocate_def)
  moreover have "vec_rep ?r (take s xs @ drop e xs)"
    using c r by (intro vec_repI) (auto simp: nth_overwrite nth_append)
  ultimately show ?thesis by simp
qed

lemma shift_branch:
  "foldM (\<lambda>i. f (i + s)) [0..<k] v = foldM f [s..<s + k] v"
  by (induction k) (simp_all add: foldM_snoc add.commute)

lemma eraseImpl_rep:
  assumes rep: "vec_rep v xs" and r: "0 < k" "s + k \<le> length xs" and len: "length xs < 2 ^ 30"
  shows "\<exists>v'. eraseImpl s k v = Inr v' \<and> vec_rep v' (take s xs @ drop (s + k) xs) \<and>
    misuse v' = misuse v + (if k < length xs \<and> m_capacity v div 2 \<le> length xs - k then length xs - (s + k) else 0)"
proof -
  have e: "add64 s k = s + k" using r len by (intro add64_exact) (auto simp: size_max_def)
  have n: "m_size v = length xs" using rep by (rule vec_rep_size)
  consider (all) "length xs - k = 0" | (small) "length xs - k \<noteq> 0" "length xs - k < m_capacity v div 2"
    | (shift) "length xs - k \<noteq> 0" "\<not> length xs - k < m_capacity v div 2" by blast
  then show ?thesis
  proof cases
    case all
    then have "s = 0" "k = length xs" using r by auto
    then show ?thesis using clear_rep[OF rep] all r n e by (auto simp: eraseImpl_def Let_def)
  next
    case small
    then show ?thesis using realloc_without_rep[OF rep, of s "s + k"] r len n e
      by (simp add: eraseImpl_def Let_def)
  next
    case shift
    obtain w where w: "foldM (shift_left_cell k) [s..<length xs] v = Inr w" "m_size w = length xs"
      "m_capacity w = m_capacity v" "length (m_buffer w) = m_capacity v"
      "\<And>p. p < m_capacity v \<Longrightarrow> m_buffer w ! p = (if p < s then m_buffer v ! p
        else if p < length xs then (if p + k < length xs then m_buffer v ! (p + k) else None)
        else if s + k \<le> p \<and> p < length xs + k then None else m_buffer v ! p)"
      "misuse w = misuse v + (length xs - (s + k))"
      using shift_left_range[OF rep r, of "length xs"] r by auto
    have split: "[s..<length xs] = [s..<s + k] @ [s + k..<length xs]"
      using r by (metis le_add_diff_inverse le_add1 upt_add_eq_append)
    obtain u where u: "foldM (shift_left_cell k) [s..<s + k] v = Inr u"
      "foldM (shift_left_cell k) [s + k..<length xs] u = Inr w"
      using w(1) by (auto simp: split foldM_append rbind_eq_Inr)
    have "m_size u = length xs"
      using shift_left_range[OF rep r, of "s + k"] r u(1) by auto
    then have "eraseImpl s k v = Inr (w\<lparr>m_size := length xs - k\<rparr>)"
      using shift r n e u by (simp add: eraseImpl_def Let_def shift_branch)
    moreover have cell: "m_buffer w ! p =
        (if p < s then Some (xs ! p) else if p + k < length xs then Some (xs ! (p + k)) else None)"
      if "p < m_capacity v" for p
      using w(5)[OF that] that r vec_rep_nth[OF rep, of p] vec_rep_nth[OF rep, of "p + k"] rep
      by (auto simp: vec_rep_def[of v xs])
    have "vec_rep (w\<lparr>m_size := length xs - k\<rparr>) (take s xs @ drop (s + k) xs)"
      using w(2-4) r rep by (intro vec_repI) (auto simp: cell nth_append vec_rep_def add.commute)
    then show ?thesis using shift w(6) r calculation by auto
  qed
qed

lemma eraseStrictImpl_rep:
  assumes rep: "vec_rep v xs" and r: "0 < k" "s + k \<le> length xs" and len: "length xs < 2 ^ 30"
  shows "\<exists>v'. eraseStrictImpl s k v = Inr v' \<and> vec_rep v' (take s xs @ drop (s + k) xs) \<and>
    misuse v' = misuse v"
proof -
  have e: "add64 s k = s + k" using r len by (intro add64_exact) (auto simp: size_max_def)
  have n: "m_size v = length xs" using rep by (rule vec_rep_size)
  show ?thesis
  proof (cases "length xs - k = 0")
    case True
    then have "s = 0" "k = length xs" using r by auto
    then show ?thesis using clear_rep[OF rep] True r n e by (auto simp: eraseStrictImpl_def Let_def)
  next
    case False
    then show ?thesis using realloc_without_rep[OF rep, of s "s + k"] r len n e
      by (simp add: eraseStrictImpl_def Let_def)
  qed
qed

lemma erase_rep:
  assumes rep: "vec_rep v xs" and r: "s \<le> e" "e \<le> length xs" and len: "length xs < 2 ^ 30"
  shows "\<exists>v'. erase strict s e v = Inr v' \<and> vec_rep v' (take s xs @ drop e xs)"
proof (cases "s = e")
  case True
  then show ?thesis using rep by (simp add: erase_def)
next
  case False
  have n: "m_size v = length xs" using rep by (rule vec_rep_size)
  have h: "sub64 e s = e - s" "sub64 (length xs) (e - s) = length xs - (e - s)"
    using r len sub64_exact[of s e] sub64_exact[of "e - s" "length xs"] by (auto simp: size_max_def)
  have all: "s = 0 \<and> e = length xs" if "length xs \<le> e - s"
    using that r by auto
  have k: "0 < e - s" "s + (e - s) \<le> length xs" "s + (e - s) = e" using False r by auto
  show ?thesis
  proof (cases "length xs \<le> e - s")
    case True
    then show ?thesis using clear_rep[OF rep] \<open>s \<noteq> e\<close> r n h all[OF True] by (auto simp: erase_def Let_def)
  next
    case False
    then show ?thesis
      using eraseImpl_rep[OF rep k(1,2) len] eraseStrictImpl_rep[OF rep k(1,2) len] r n h k
      by (cases strict) (auto simp: erase_def Let_def)
  qed
qed

lemma resize_rep:
  assumes rep: "vec_rep v xs" and n: "n < 2 ^ 30"
  shows "\<exists>v'. resize d n v = Inr v' \<and> vec_rep v' (take n xs @ replicate (n - length xs) d) \<and>
    misuse v' = misuse v"
proof -
  obtain u where u: "reserve n v = Inr u" "vec_rep u xs" "n \<le> m_capacity u" "misuse u = misuse v"
    using reserve_rep[OF rep n] by blast
  note facts = vec_rep_cap[OF u(2)] vec_rep_size[OF u(2)] vec_rep_le[OF u(2)]
  show ?thesis
  proof (cases "length xs \<le> n")
    case True
    let ?w = "u\<lparr>m_buffer := overwrite (length xs) (map (\<lambda>i. Some d) [length xs..<n]) (m_buffer u)\<rparr>"
    have "foldM (\<lambda>i. construct_at i d) [length xs..<n] u = Inr ?w"
      using True u by (intro construct_range) (auto simp: vec_rep_nth)
    then have "resize d n v = Inr (?w\<lparr>m_size := n\<rparr>)"
      using u facts True by (simp add: resize_def setLen_grow)
    moreover have "vec_rep (?w\<lparr>m_size := n\<rparr>) (take n xs @ replicate (n - length xs) d)"
      using True u facts by (intro vec_repI) (auto simp: nth_overwrite vec_rep_nth nth_append)
    ultimately show ?thesis using u by simp
  next
    case False
    let ?w = "u\<lparr>m_buffer := overwrite n (replicate (length xs - n) None) (m_buffer u)\<rparr>"
    have "foldM destroy_at [n..<length xs] u = Inr ?w"
      using False u facts by (intro destroy_range) (auto simp: vec_rep_nth)
    then have "resize d n v = Inr (?w\<lparr>m_size := n\<rparr>)"
      using u facts False by (simp add: resize_def setLen_def)
    moreover have "vec_rep (?w\<lparr>m_size := n\<rparr>) (take n xs @ replicate (n - length xs) d)"
      using False u facts
      by (intro vec_repI) (auto simp: nth_overwrite vec_rep_nth)
    ultimately show ?thesis using u by simp
  qed
qed

lemma elements_rep:
  assumes "vec_rep v xs"
  shows "elements v = Inr xs"
proof -
  have "\<exists>ys. foldM (\<lambda>i xs. rbind (read_at v i) (\<lambda>x. Inr (xs @ [x]))) [0..<length xs] [] = Inr ys \<and>
      ys = take (length xs) xs"
    using assms by (intro foldM_upt_invariant) (auto simp: vec_rep_read take_Suc_conv_app_nth)
  then show ?thesis by (simp add: elements_def vec_rep_size[OF assms])
qed

lemma construct_rep:
  assumes rep: "vec_rep v ys" and len: "length xs < 2 ^ 30"
  shows "\<exists>v'. construct xs v = Inr v' \<and> vec_rep v' xs \<and> misuse v' = misuse v"
proof -
  obtain c where c: "toCapacity (length xs) = Inr c" "length xs < c" "c \<le> 2 ^ 30"
    using toCapacity_ok[OF len] by blast
  let ?u = "v\<lparr>m_size := 0, m_buffer := replicate c None, m_capacity := c\<rparr>"
  let ?w = "?u\<lparr>m_buffer := overwrite 0 (map (\<lambda>i. Some (xs ! i)) [0..<length xs]) (m_buffer ?u)\<rparr>"
  have "foldM (\<lambda>i. construct_at i (xs ! i)) [0..<length xs] ?u = Inr ?w"
    using c by (intro construct_range) auto
  then have "construct xs v = Inr (?w\<lparr>m_size := length xs\<rparr>)"
    using c by (simp add: construct_def Let_def allocate_def resetBuffer_def deallocate_rep[OF rep] setLen_grow)
  moreover have "vec_rep (?w\<lparr>m_size := length xs\<rparr>) xs"
    using c by (intro vec_repI) (auto simp: nth_overwrite)
  ultimately show ?thesis by simp
qed

lemma emptyVec_rep: "vec_rep emptyVec []"
  by (simp add: emptyVec_def vec_rep_def)

lemma copy_vec_rep:
  assumes "vec_rep v xs" "length xs < 2 ^ 30"
  shows "\<exists>w. copy_vec v = Inr w \<and> vec_rep w xs"
proof (cases "xs = []")
  case True
  then show ?thesis using assms(1) clear_rep[OF emptyVec_rep]
    by (auto simp: copy_vec_def vec_rep_size clear_def)
next
  case False
  then show ?thesis
    using assms construct_rep[OF emptyVec_rep assms(2)] elements_rep[OF assms(1)]
    by (auto simp: copy_vec_def vec_rep_size)
qed

lemma deallocated_rep: "vec_rep (v\<lparr>m_buffer := [], m_size := 0, m_capacity := 0\<rparr>) []"
  by (simp add: vec_rep_def)

lemma assign_vec_rep:
  assumes "vec_rep other xs" "vec_rep v ys" "length xs < 2 ^ 30"
  shows "\<exists>w. assign_vec other v = Inr w \<and> vec_rep w xs"
proof (cases "xs = []")
  case True
  then show ?thesis using assms clear_rep[OF assms(2)] by (auto simp: assign_vec_def vec_rep_size)
next
  case False
  then have "assign_vec other v = construct xs (v\<lparr>m_buffer := [], m_size := 0, m_capacity := 0\<rparr>)"
    by (simp add: assign_vec_def vec_rep_size[OF assms(1)] elements_rep[OF assms(1)] deallocate_rep[OF assms(2)])
  then show ?thesis using construct_rep[OF deallocated_rep assms(3), of v] by auto
qed

lemma pushBack_rep':
  "vec_rep v xs \<Longrightarrow> length xs + 1 < 2 ^ 30 \<Longrightarrow> \<exists>v'. pushBack x v = Inr v' \<and> vec_rep v' (xs @ [x])"
  by (drule (1) pushBack_rep[where x = x]) auto

lemma pop_back_rep:
  assumes "vec_rep v (xs @ [x])" "length xs + 1 < 2 ^ 30"
  shows "\<exists>v'. pop_back strict v = Inr v' \<and> vec_rep v' xs"
proof -
  have "sub64 (m_size v) 1 = length xs" "add64 (length xs) 1 = length xs + 1"
    using assms vec_rep_size[OF assms(1)] sub64_exact[of 1 "m_size v"] add64_exact[of "length xs" 1]
    by (auto simp: size_max_def)
  then show ?thesis
    using erase_rep[OF assms(1), of "length xs" "length xs + 1" strict] assms
    by (simp add: pop_back_def erase_pos_def)
qed

lemma vec_back_rep:
  assumes "vec_rep v (xs @ [x])" "length xs + 1 < 2 ^ 30"
  shows "vec_back v = Inr x"
proof -
  have "sub64 (m_size v) 1 = length xs"
    using assms vec_rep_size[OF assms(1)] sub64_exact[of 1 "m_size v"] by (auto simp: size_max_def)
  then show ?thesis using vec_rep_read[OF assms(1), of "length xs"] by (simp add: vec_back_def)
qed

section \<open>The stack contract\<close>

text \<open>What the scope stacks of the isolate ask of the container they live in.\<close>

locale stack_store =
  fixes rep :: "'s \<Rightarrow> 'a list \<Rightarrow> bool"
    and push :: "'a \<Rightarrow> 's \<Rightarrow> 's res"
    and pop :: "'s \<Rightarrow> 's res"
    and top :: "'s \<Rightarrow> 'a res"
    and bound :: nat
  assumes push_law: "rep s xs \<Longrightarrow> length xs < bound \<Longrightarrow> \<exists>s'. push x s = Inr s' \<and> rep s' (xs @ [x])"
    and pop_law: "rep s (xs @ [x]) \<Longrightarrow> length xs < bound \<Longrightarrow> \<exists>s'. pop s = Inr s' \<and> rep s' xs"
    and top_law: "rep s (xs @ [x]) \<Longrightarrow> length xs < bound \<Longrightarrow> top s = Inr x"
begin

lemma pushes_rep:
  "rep s xs \<Longrightarrow> length xs + length ys \<le> bound \<Longrightarrow> \<exists>s'. foldM push ys s = Inr s' \<and> rep s' (xs @ ys)"
proof (induction ys arbitrary: s xs)
  case Nil
  then show ?case by simp
next
  case (Cons y ys)
  obtain t where t: "push y s = Inr t" "rep t (xs @ [y])" using push_law[of s xs y] Cons.prems by auto
  then show ?case using Cons.IH[OF t(2)] Cons.prems by simp
qed

lemma pops_rep:
  "rep s (xs @ ys) \<Longrightarrow> length xs + length ys \<le> bound \<Longrightarrow>
   \<exists>s'. foldM (\<lambda>_. pop) ys s = Inr s' \<and> rep s' xs"
proof (induction ys arbitrary: s rule: rev_induct)
  case Nil
  then show ?case by simp
next
  case (snoc y ys)
  obtain t where t: "pop s = Inr t" "rep t (xs @ ys)" using pop_law[of s "xs @ ys" y] snoc.prems by auto
  have swap: "foldM (\<lambda>_. pop) (ys @ [y]) s = foldM (\<lambda>_. pop) (y # ys) s"
    for y :: 'a and ys s
  proof (induction ys arbitrary: s)
    case Nil
    then show ?case by simp
  next
    case (Cons z zs)
    then show ?case by (cases "pop s") (simp_all add: foldM_append rbind_def)
  qed
  show ?case using snoc.IH[OF t(2)] snoc.prems t(1) by (simp add: swap)
qed

lemma nested_restores:
  assumes "rep s xs" "length xs + length ys \<le> bound"
  shows "\<exists>s'. rbind (foldM push ys s) (foldM (\<lambda>_. pop) ys) = Inr s' \<and> rep s' xs"
proof -
  obtain t where t: "foldM push ys s = Inr t" "rep t (xs @ ys)" using pushes_rep[OF assms] by blast
  show ?thesis using pops_rep[OF t(2) assms(2)] t(1) by simp
qed

lemma top_after_pushes:
  assumes "rep s xs" "length xs + length ys < bound" "ys \<noteq> []"
  shows "rbind (foldM push ys s) top = Inr (last ys)"
proof -
  have "length xs + length ys \<le> bound" using assms(2) by simp
  then obtain t where t: "foldM push ys s = Inr t" "rep t (xs @ ys)" using pushes_rep[OF assms(1)] by blast
  moreover have "xs @ ys = (xs @ butlast ys) @ [last ys]" using assms(3) by simp
  moreover have "length (xs @ butlast ys) < bound" using assms(2) by simp
  ultimately show ?thesis using top_law by (metis rbind_Inr)
qed

end

interpretation lazy_stack: stack_store vec_rep pushBack "pop_back False" vec_back "2 ^ 30 - 1"
proof unfold_locales
  fix s :: "'a vec" and xs x
  show "vec_rep s xs \<Longrightarrow> length xs < 2 ^ 30 - 1 \<Longrightarrow> \<exists>s'. pushBack x s = Inr s' \<and> vec_rep s' (xs @ [x])"
    by (rule pushBack_rep') auto
  show "vec_rep s (xs @ [x]) \<Longrightarrow> length xs < 2 ^ 30 - 1 \<Longrightarrow> \<exists>s'. pop_back False s = Inr s' \<and> vec_rep s' xs"
    by (rule pop_back_rep) auto
  show "vec_rep s (xs @ [x]) \<Longrightarrow> length xs < 2 ^ 30 - 1 \<Longrightarrow> vec_back s = Inr x"
    by (rule vec_back_rep) auto
qed

interpretation strict_stack: stack_store vec_rep pushBack "pop_back True" vec_back "2 ^ 30 - 1"
proof unfold_locales
  fix s :: "'a vec" and xs x
  show "vec_rep s xs \<Longrightarrow> length xs < 2 ^ 30 - 1 \<Longrightarrow> \<exists>s'. pushBack x s = Inr s' \<and> vec_rep s' (xs @ [x])"
    by (rule pushBack_rep') auto
  show "vec_rep s (xs @ [x]) \<Longrightarrow> length xs < 2 ^ 30 - 1 \<Longrightarrow> \<exists>s'. pop_back True s = Inr s' \<and> vec_rep s' xs"
    by (rule pop_back_rep) auto
  show "vec_rep s (xs @ [x]) \<Longrightarrow> length xs < 2 ^ 30 - 1 \<Longrightarrow> vec_back s = Inr x"
    by (rule vec_back_rep) auto
qed

section \<open>Properties\<close>

lemma reversed_range_fails:
  assumes "end' < start" "start < m_size v" "m_size v < 2 ^ 30"
  shows "erase strict start end' v = Inl AssertFailed"
proof -
  have h: "sub64 end' start = size_max - (start - end')"
    using assms by (intro sub64_wrap) (auto simp: size_max_def)
  have n: "sub64 (m_size v) (size_max - (start - end')) = m_size v + (start - end')"
    using assms by (auto simp: sub64_def size_max_def)
  have e: "add64 start (size_max - (start - end')) = end'"
    using assms by (auto simp: add64_def size_max_def)
  show ?thesis
    using assms h n e
    by (auto simp: erase_def eraseImpl_def eraseStrictImpl_def Let_def size_max_def)
qed

text \<open>C2. Erasing the range from \<open>s\<close> to \<open>e\<close> of a vector that holds \<open>xs\<close> never faults and leaves
  \<open>take s xs @ drop e xs\<close>, whatever branch is taken: clearing, reallocating into a smaller buffer,
  or shifting in place. The lazy and the strict erase strategies agree.\<close>

theorem vec_erase_correct:
  assumes "vec_rep v xs" "s \<le> e" "e \<le> length xs" "length xs < 2 ^ 30"
  shows "\<exists>w w'. erase False s e v = Inr w \<and> erase True s e v = Inr w' \<and>
    vec_rep w (take s xs @ drop e xs) \<and> vec_rep w' (take s xs @ drop e xs) \<and>
    elements w = elements w'"
proof -
  from erase_rep[OF assms, of False] erase_rep[OF assms, of True] obtain w w' where
    "erase False s e v = Inr w" "vec_rep w (take s xs @ drop e xs)"
    "erase True s e v = Inr w'" "vec_rep w' (take s xs @ drop e xs)" by blast
  then show ?thesis by (auto simp: elements_rep)
qed

definition vec3 :: "nat vec" where
  "vec3 = \<lparr>m_buffer = [Some 10, Some 20, Some 30, None], m_size = 3, m_capacity = 4, misuse = 0\<rparr>"

lemma vec3_rep: "vec_rep vec3 [10, 20, 30]"
  by (simp add: vec3_def vec_rep_def)

theorem vec_erase_correct_witness:
  "\<exists>w w'. erase False 0 1 vec3 = Inr w \<and> erase True 0 1 vec3 = Inr w' \<and>
    vec_rep w [20, 30] \<and> vec_rep w' [20, 30] \<and> elements w = elements w'"
  using vec_erase_correct[OF vec3_rep, of 0 1] by simp

text \<open>C9. Inserting a range at \<open>pos\<close> never faults and keeps the elements on both sides, in order.\<close>

theorem vec_insert_correct:
  assumes "vec_rep v xs" "pos \<le> length xs" "length xs + length ys < 2 ^ 30"
  shows "\<exists>w. insert_range pos ys v = Inr w \<and> elements w = Inr (take pos xs @ ys @ drop pos xs)"
proof -
  from insert_range_from_rep[of v xs 0 pos ys] assms obtain w where
    "insert_range_from pos 0 ys v = Inr w" "vec_rep w (take pos xs @ ys @ drop pos xs)" by auto
  then show ?thesis by (auto simp: insert_range_def elements_rep)
qed

theorem vec_insert_correct_witness:
  "\<exists>w. insert_range 1 [7, 8] vec3 = Inr w \<and> elements w = Inr [10, 7, 8, 20, 30]"
  using vec_insert_correct[OF vec3_rep, of 1 "[7, 8]"] by simp

text \<open>The shifting branch of \<^verbatim>\<open>eraseImpl\<close> moves into and destroys cells it has already
  destroyed: once per element behind the erased range. An element type with a destructor that matters
  would be destroyed twice.\<close>

theorem vec_shift_misuses_tail:
  assumes "vec_rep v xs" "0 < k" "s + k < length xs" "length xs < 2 ^ 30"
    "m_capacity v div 2 \<le> length xs - k"
  shows "\<exists>w. eraseImpl s k v = Inr w \<and> misuse w = misuse v + (length xs - (s + k)) \<and> misuse v < misuse w"
  using eraseImpl_rep[of v xs k s] assms by auto

theorem vec_shift_misuses_tail_witness:
  "\<exists>w. eraseImpl 0 1 vec3 = Inr w \<and> misuse w = misuse vec3 + 2 \<and> misuse vec3 < misuse w"
  using vec_shift_misuses_tail[OF vec3_rep, of 1 0] by (simp add: vec3_def)

text \<open>The reverse-iterator range overload of \<^verbatim>\<open>erase\<close> computes its bounds in the wrong order: no
  non-empty range is ever erased, the assertions of the forward overload fail instead.\<close>

theorem vec_erase_rrange_fails:
  assumes "m_size v < 2 ^ 30" "d < d2" "d2 \<le> m_size v"
  shows "erase_rrange strict d d2 v = Inl AssertFailed"
proof -
  have s: "sub64 (sub64 (m_size v) d) 1 = m_size v - d - 1"
    using assms by (simp add: sub64_exact size_max_def)
  show ?thesis
  proof (cases "d2 = m_size v")
    case True
    then have "sub64 (sub64 (m_size v) d2) 1 = size_max - 1"
      by (simp add: sub64_def size_max_def)
    then show ?thesis using assms s by (simp add: erase_rrange_def erase_def size_max_def Let_def)
  next
    case False
    then have "sub64 (sub64 (m_size v) d2) 1 = m_size v - d2 - 1"
      using assms by (simp add: sub64_exact size_max_def)
    then show ?thesis using reversed_range_fails[of "m_size v - d2 - 1" "m_size v - d - 1" v strict] assms False s
      by (simp add: erase_rrange_def)
  qed
qed

theorem vec_erase_rrange_fails_witness: "erase_rrange False 0 1 vec3 = Inl AssertFailed"
  using vec_erase_rrange_fails[of vec3 0 1 False] by (simp add: vec3_def)

text \<open>Copying: a copy of a vector compares equal to it and holds the same elements, but assigning
  a vector to itself loses them, because \<^verbatim>\<open>operator=\<close> frees its buffer before it reads the source.\<close>

theorem vec_copy_and_self_assign:
  assumes "vec_rep v xs" "length xs < 2 ^ 30"
  shows "(\<exists>w. copy_vec v = Inr w \<and> eq_vec v w = Inr True \<and> elements w = Inr xs) \<and>
    (\<exists>w. self_assign v = Inr w \<and> elements w = Inr [])"
proof
  obtain w where w: "copy_vec v = Inr w" "vec_rep w xs" using copy_vec_rep[OF assms] by blast
  then show "\<exists>w. copy_vec v = Inr w \<and> eq_vec v w = Inr True \<and> elements w = Inr xs"
    using elements_rep[OF w(2)] elements_rep[OF assms(1)] vec_rep_size[OF w(2)] vec_rep_size[OF assms(1)]
    by (auto simp: eq_vec_def)
  show "\<exists>w. self_assign v = Inr w \<and> elements w = Inr []"
  proof (cases "xs = []")
    case True
    then show ?thesis using clear_rep[OF assms(1)] vec_rep_size[OF assms(1)]
      by (auto simp: self_assign_def elements_rep)
  next
    case False
    then have "self_assign v = construct [] (v\<lparr>m_buffer := [], m_size := 0, m_capacity := 0\<rparr>)"
      by (simp add: self_assign_def vec_rep_size[OF assms(1)] deallocate_rep[OF assms(1)] elements_rep[OF deallocated_rep])
    then show ?thesis using construct_rep[OF deallocated_rep, of "[]" v] by (auto simp: elements_rep)
  qed
qed

theorem vec_copy_and_self_assign_witness:
  "(\<exists>w. copy_vec vec3 = Inr w \<and> eq_vec vec3 w = Inr True \<and> elements w = Inr [10, 20, 30]) \<and>
   (\<exists>w. self_assign vec3 = Inr w \<and> elements w = Inr [])"
  using vec_copy_and_self_assign[OF vec3_rep] by simp

text \<open>As a stack: after any sequence of \<^verbatim>\<open>push_back\<close> the last value is \<^verbatim>\<open>back()\<close>, and as many
  \<^verbatim>\<open>pop_back\<close> restore the elements, with either erase strategy.\<close>

theorem vec_stack_discipline:
  assumes "vec_rep v xs" "length xs + length ys < 2 ^ 30 - 1" "ys \<noteq> []"
  shows "rbind (foldM pushBack ys v) vec_back = Inr (last ys) \<and>
    (\<exists>w. rbind (foldM pushBack ys v) (foldM (\<lambda>_. pop_back False) ys) = Inr w \<and> elements w = Inr xs) \<and>
    (\<exists>w. rbind (foldM pushBack ys v) (foldM (\<lambda>_. pop_back True) ys) = Inr w \<and> elements w = Inr xs)"
proof -
  have le: "length xs + length ys \<le> 2 ^ 30 - 1" using assms(2) by simp
  show ?thesis
    using lazy_stack.top_after_pushes[OF assms] lazy_stack.nested_restores[OF assms(1) le]
      strict_stack.nested_restores[OF assms(1) le] elements_rep by blast
qed

theorem vec_stack_discipline_witness:
  "rbind (foldM pushBack [1, 2] vec3) vec_back = Inr 2 \<and>
    (\<exists>w. rbind (foldM pushBack [1, 2] vec3) (foldM (\<lambda>_. pop_back False) [1, 2 :: nat]) = Inr w \<and>
      elements w = Inr [10, 20, 30]) \<and>
    (\<exists>w. rbind (foldM pushBack [1, 2] vec3) (foldM (\<lambda>_. pop_back True) [1, 2 :: nat]) = Inr w \<and>
      elements w = Inr [10, 20, 30])"
  using vec_stack_discipline[OF vec3_rep, of "[1, 2]"] by simp

end
