(* ===== verification/Serializer.thy ===== *)
theory Serializer
  imports Prelude
begin

unbundle bit_operations_syntax

text \<open>
  The writer of the wire format, \<^verbatim>\<open>EscargotShim::ValueSerializer\<close> of
  \<^verbatim>\<open>src/src/api/serializer.h\<close> and \<^verbatim>\<open>serializer.cc\<close>, with the entry points of
  \<^verbatim>\<open>src/src/api-experimental-serialization.cc\<close>.

  A JavaScript value is a tree of what the engine's predicates (\<^verbatim>\<open>isUInt32\<close>, \<^verbatim>\<open>isString\<close>, ...)
  and accessors report of it: the constructor of a value is the first predicate of
  \<^verbatim>\<open>WriteValue\<close> that holds of it, an array is the list of the values its indices yield, an object
  the list of its own property keys and values in enumeration order. Memory allocation, the delegate
  and the engine's string conversions are not under \<^verbatim>\<open>src/\<close>: they are the fields of
  the environment record.
\<close>

type_synonym byte = "8 word"
type_synonym unit16 = "16 word"

section \<open>Values\<close>

datatype element_kind = Uint8 | Int8 | Uint16 | Int16 | Uint32 | Int32 | Float32 | Float64
  | Uint8Clamped | BigUint64 | BigInt64

fun element_size :: "element_kind \<Rightarrow> nat" where
  "element_size Uint8 = 1"
| "element_size Int8 = 1"
| "element_size Uint16 = 2"
| "element_size Int16 = 2"
| "element_size Uint32 = 4"
| "element_size Int32 = 4"
| "element_size Float32 = 4"
| "element_size Float64 = 8"
| "element_size Uint8Clamped = 1"
| "element_size BigUint64 = 8"
| "element_size BigInt64 = 8"

text \<open>\<open>VString b us\<close>: a string of the code units \<open>us\<close>, held by the engine with 8-bit content iff
  \<open>b\<close>. \<open>VTyped k buf off len\<close>: a typed array of \<open>len\<close> elements over the buffer \<open>buf\<close> from
  byte \<open>off\<close>. \<open>VNumber\<close> carries the bits of a double. \<open>VHost\<close> is an object with internal
  fields. \<open>VUnimplemented\<close> stands for BigInt, DataView, Symbol and Function values.\<close>

datatype 'h jsval =
    VUndefined
  | VNull
  | VBool bool
  | VUint32 "32 word"
  | VInt32 "32 word"
  | VNumber "64 word"
  | VUnimplemented
  | VArrayBuffer "byte list"
  | VString bool "unit16 list"
  | VTyped element_kind "byte list" nat nat
  | VArray "'h jsval list"
  | VHost 'h
  | VObject "('h jsval \<times> 'h jsval) list"

section \<open>Tags\<close>

datatype SerializationTag = KVersion | KPadding | KVerifyObjectCount | KTheHole | KUndefined | KNull
  | KTrue | KFalse | KInt32 | KUint32 | KDouble | KBigInt | KUtf8String | KOneByteString
  | KTwoByteString | KObjectReference | KBeginJSObject | KEndJSObject | KBeginSparseJSArray
  | KEndSparseJSArray | KBeginDenseJSArray | KEndDenseJSArray | KDate | KTrueObject | KFalseObject
  | KNumberObject | KBigIntObject | KStringObject | KRegExp | KBeginJSMap | KEndJSMap | KBeginJSSet
  | KEndJSSet | KArrayBuffer | KArrayBufferTransfer | KArrayBufferView | KSharedArrayBuffer
  | KWasmModuleTransfer | KHostObject | KWasmMemoryTransfer | KError | KLegacyReservedMessagePort
  | KLegacyReservedBlob | KLegacyReservedBlobIndex | KLegacyReservedFile | KLegacyReservedFileIndex
  | KLegacyReservedDOMFileSystem | KLegacyReservedFileList | KLegacyReservedFileListIndex
  | KLegacyReservedImageData | KLegacyReservedImageBitmap | KLegacyReservedImageBitmapTransfer
  | KLegacyReservedOffscreenCanvas | KLegacyReservedCryptoKey | KLegacyReservedRTCCertificate

fun tag_char :: "SerializationTag \<Rightarrow> char" where
  "tag_char KVersion = CHR 0xFF"
| "tag_char KPadding = CHR 0x00"
| "tag_char KVerifyObjectCount = CHR ''?''"
| "tag_char KTheHole = CHR ''-''"
| "tag_char KUndefined = CHR ''_''"
| "tag_char KNull = CHR ''0''"
| "tag_char KTrue = CHR ''T''"
| "tag_char KFalse = CHR ''F''"
| "tag_char KInt32 = CHR ''I''"
| "tag_char KUint32 = CHR ''U''"
| "tag_char KDouble = CHR ''N''"
| "tag_char KBigInt = CHR ''Z''"
| "tag_char KUtf8String = CHR ''S''"
| "tag_char KOneByteString = CHR 0x22"
| "tag_char KTwoByteString = CHR ''c''"
| "tag_char KObjectReference = CHR ''^''"
| "tag_char KBeginJSObject = CHR ''o''"
| "tag_char KEndJSObject = CHR 0x7B"
| "tag_char KBeginSparseJSArray = CHR ''a''"
| "tag_char KEndSparseJSArray = CHR ''@''"
| "tag_char KBeginDenseJSArray = CHR ''A''"
| "tag_char KEndDenseJSArray = CHR ''$''"
| "tag_char KDate = CHR ''D''"
| "tag_char KTrueObject = CHR ''y''"
| "tag_char KFalseObject = CHR ''x''"
| "tag_char KNumberObject = CHR ''n''"
| "tag_char KBigIntObject = CHR ''z''"
| "tag_char KStringObject = CHR ''s''"
| "tag_char KRegExp = CHR ''R''"
| "tag_char KBeginJSMap = CHR '';''"
| "tag_char KEndJSMap = CHR '':''"
| "tag_char KBeginJSSet = CHR 0x27"
| "tag_char KEndJSSet = CHR '',''"
| "tag_char KArrayBuffer = CHR ''B''"
| "tag_char KArrayBufferTransfer = CHR ''t''"
| "tag_char KArrayBufferView = CHR ''V''"
| "tag_char KSharedArrayBuffer = CHR ''u''"
| "tag_char KWasmModuleTransfer = CHR ''w''"
| "tag_char KHostObject = CHR 0x5C"
| "tag_char KWasmMemoryTransfer = CHR ''m''"
| "tag_char KError = CHR ''r''"
| "tag_char KLegacyReservedMessagePort = CHR ''M''"
| "tag_char KLegacyReservedBlob = CHR ''b''"
| "tag_char KLegacyReservedBlobIndex = CHR ''i''"
| "tag_char KLegacyReservedFile = CHR ''f''"
| "tag_char KLegacyReservedFileIndex = CHR ''e''"
| "tag_char KLegacyReservedDOMFileSystem = CHR ''d''"
| "tag_char KLegacyReservedFileList = CHR ''l''"
| "tag_char KLegacyReservedFileListIndex = CHR ''L''"
| "tag_char KLegacyReservedImageData = CHR ''#''"
| "tag_char KLegacyReservedImageBitmap = CHR ''g''"
| "tag_char KLegacyReservedImageBitmapTransfer = CHR ''G''"
| "tag_char KLegacyReservedOffscreenCanvas = CHR ''H''"
| "tag_char KLegacyReservedCryptoKey = CHR ''K''"
| "tag_char KLegacyReservedRTCCertificate = CHR ''k''"

definition tag_code :: "SerializationTag \<Rightarrow> byte" where
  "tag_code t = of_char (tag_char t)"

fun view_tag_char :: "element_kind \<Rightarrow> char" where
  "view_tag_char Int8 = CHR ''b''"
| "view_tag_char Uint8 = CHR ''B''"
| "view_tag_char Uint8Clamped = CHR ''C''"
| "view_tag_char Int16 = CHR ''w''"
| "view_tag_char Uint16 = CHR ''W''"
| "view_tag_char Int32 = CHR ''d''"
| "view_tag_char Uint32 = CHR ''D''"
| "view_tag_char Float32 = CHR ''f''"
| "view_tag_char Float64 = CHR ''F''"
| "view_tag_char BigInt64 = CHR ''q''"
| "view_tag_char BigUint64 = CHR ''Q''"

definition view_tag_code :: "element_kind \<Rightarrow> byte" where
  "view_tag_code k = of_char (view_tag_char k)"

section \<open>State and environment\<close>

text \<open>\<open>data\<close> is the allocated memory, \<open>capacity\<close> bytes long.\<close>

record SerializerBuffer =
  data :: "byte list"
  bsize :: nat
  capacity :: nat
  position :: nat

record ValueSerializer =
  buffer :: SerializerBuffer
  out_of_memory :: bool
  data_clone_errors :: nat

text \<open>\<open>reallocate n\<close>: the capacity the delegate provides for a request of \<open>n\<close> bytes, if it does;
  \<open>sys_realloc n\<close>: whether \<^verbatim>\<open>realloc\<close> succeeds; \<open>write_host h\<close>: the integers the delegate writes
  back through \<^verbatim>\<open>WriteUint32\<close>, and the \<^verbatim>\<open>Maybe<bool>\<close> it returns; \<open>read_host\<close>: the host object
  the delegate reads from the data at a position, and where it stops; \<open>from_utf8\<close>, \<open>from_utf16\<close>:
  \<^verbatim>\<open>StringRef::createFromUTF8/UTF16\<close>; \<open>has8bit\<close>: the representation the engine gives to a string it
  creates; \<open>allocate_buffer n\<close>: whether the engine can allocate an \<^verbatim>\<open>ArrayBuffer\<close>.\<close>

record 'h environment =
  has_delegate :: bool
  reallocate :: "nat \<Rightarrow> nat option"
  sys_realloc :: "nat \<Rightarrow> bool"
  write_host :: "'h \<Rightarrow> 32 word list \<times> bool option"
  read_host :: "byte list \<Rightarrow> nat \<Rightarrow> 'h option \<times> nat"
  from_utf8 :: "byte list \<Rightarrow> unit16 list"
  from_utf16 :: "unit16 list \<Rightarrow> unit16 list"
  has8bit :: "unit16 list \<Rightarrow> bool"
  allocate_buffer :: "nat \<Rightarrow> bool"

definition newSerializer :: ValueSerializer where
  "newSerializer = \<lparr>buffer = \<lparr>data = [], bsize = 0, capacity = 0, position = 0\<rparr>,
     out_of_memory = False, data_clone_errors = 0\<rparr>"

section \<open>Raw output\<close>

definition ExpandBuffer :: "'h environment \<Rightarrow> nat \<Rightarrow> ValueSerializer \<Rightarrow> (bool \<times> ValueSerializer) res" where
  "ExpandBuffer env required_capacity s =
     (let b = buffer s in
      guard CheckFailed (required_capacity > capacity b)
      (let requested_capacity = max required_capacity (capacity b * 2) + 64;
           new_buffer = (if has_delegate env then reallocate env requested_capacity
             else if sys_realloc env requested_capacity then Some requested_capacity else None)
       in case new_buffer of
            Some provided_capacity \<Rightarrow>
              guard CheckFailed (provided_capacity \<ge> requested_capacity)
              (Inr (True, s\<lparr>buffer := b\<lparr>data := data b @ replicate (provided_capacity - capacity b) 0,
                                      capacity := provided_capacity\<rparr>\<rparr>))
          | None \<Rightarrow> Inr (False, s\<lparr>out_of_memory := True\<rparr>)))"

text \<open>The index of the reserved bytes, or nothing for the null pointer.\<close>

definition ReserveRawBytes :: "'h environment \<Rightarrow> nat \<Rightarrow> ValueSerializer \<Rightarrow> (nat option \<times> ValueSerializer) res" where
  "ReserveRawBytes env bytes s =
     (let old_size = bsize (buffer s); new_size = old_size + bytes in
      rbind (if new_size > capacity (buffer s) then ExpandBuffer env new_size s else Inr (True, s))
        (\<lambda>(ok, s). if ok then Inr (Some old_size, s\<lparr>buffer := (buffer s)\<lparr>bsize := new_size\<rparr>\<rparr>)
                   else Inr (None, s)))"

definition WriteRawBytes :: "'h environment \<Rightarrow> byte list \<Rightarrow> ValueSerializer \<Rightarrow> ValueSerializer res" where
  "WriteRawBytes env source s =
     rbind (ReserveRawBytes env (length source) s) (\<lambda>(dest, s).
       case dest of
         Some d \<Rightarrow> if length source > 0
           then Inr (s\<lparr>buffer := (buffer s)\<lparr>data := overwrite d source (data (buffer s))\<rparr>\<rparr>) else Inr s
       | None \<Rightarrow> Inr s)"

definition WriteTag :: "'h environment \<Rightarrow> SerializationTag \<Rightarrow> ValueSerializer \<Rightarrow> ValueSerializer res" where
  "WriteTag env tag s = WriteRawBytes env [tag_code tag] s"

text \<open>The loop of \<^verbatim>\<open>WriteVarint\<close> sets the continuation bit of every byte; it is cleared in the
  last one afterwards.\<close>

function varint_loop :: "'a :: len word \<Rightarrow> byte list" where
  "varint_loop v = (ucast v AND 0x7F OR 0x80) #
     (if drop_bit 7 v = 0 then [] else varint_loop (drop_bit 7 v))"
  by pat_completeness auto
termination
proof (relation "measure unat")
  fix v :: "'a word"
  assume nz: "drop_bit 7 v \<noteq> 0"
  have "unat (drop_bit 7 v) = unat v div 2 ^ 7"
    by (rule trans[OF unat_drop_bit_eq drop_bit_eq_div])
  moreover have "unat v \<noteq> 0" using nz by (auto simp: unat_eq_zero)
  ultimately show "(drop_bit 7 v, v) \<in> measure unat" by simp
qed simp

declare varint_loop.simps [simp del]

definition varint_bytes :: "'a :: len word \<Rightarrow> byte list" where
  "varint_bytes v = (let stack_buffer = varint_loop v in
     butlast stack_buffer @ [last stack_buffer AND 0x7F])"

definition WriteVarint :: "'h environment \<Rightarrow> 'a :: len word \<Rightarrow> ValueSerializer \<Rightarrow> ValueSerializer res" where
  "WriteVarint env v s = WriteRawBytes env (varint_bytes v) s"

definition zigzag :: "32 word \<Rightarrow> 32 word" where
  "zigzag v = push_bit 1 v XOR signed_drop_bit 31 v"

definition WriteZigZag :: "'h environment \<Rightarrow> 32 word \<Rightarrow> ValueSerializer \<Rightarrow> ValueSerializer res" where
  "WriteZigZag env v s = WriteVarint env (zigzag v) s"

definition ThrowDataCloneError :: "ValueSerializer \<Rightarrow> ValueSerializer" where
  "ThrowDataCloneError s = s\<lparr>data_clone_errors := data_clone_errors s + 1\<rparr>"

definition ThrowIfOutOfMemory :: "ValueSerializer \<Rightarrow> bool \<times> ValueSerializer" where
  "ThrowIfOutOfMemory s = (if out_of_memory s then (False, ThrowDataCloneError s) else (True, s))"

section \<open>Values on the wire\<close>

text \<open>\<^verbatim>\<open>memcpy\<close> of a machine word, in the little-endian byte order of the target.\<close>

fun le_bytes :: "nat \<Rightarrow> 'a :: len word \<Rightarrow> byte list" where
  "le_bytes 0 w = []"
| "le_bytes (Suc n) w = ucast w # le_bytes n (drop_bit 8 w)"

definition WriteUint32 :: "'h environment \<Rightarrow> 32 word \<Rightarrow> ValueSerializer \<Rightarrow> (bool \<times> ValueSerializer) res" where
  "WriteUint32 env v s = rbind (WriteTag env KUint32 s) (\<lambda>s.
     rbind (WriteVarint env v s) (\<lambda>s. Inr (ThrowIfOutOfMemory s)))"

definition WriteInt32 :: "'h environment \<Rightarrow> 32 word \<Rightarrow> ValueSerializer \<Rightarrow> (bool \<times> ValueSerializer) res" where
  "WriteInt32 env v s = rbind (WriteTag env KInt32 s) (\<lambda>s.
     rbind (WriteZigZag env v s) (\<lambda>s. Inr (ThrowIfOutOfMemory s)))"

definition WriteNumber :: "'h environment \<Rightarrow> 64 word \<Rightarrow> ValueSerializer \<Rightarrow> (bool \<times> ValueSerializer) res" where
  "WriteNumber env v s = rbind (WriteTag env KDouble s) (\<lambda>s.
     rbind (WriteRawBytes env (le_bytes 8 v) s) (\<lambda>s. Inr (ThrowIfOutOfMemory s)))"

definition WriteBoolean :: "'h environment \<Rightarrow> bool \<Rightarrow> ValueSerializer \<Rightarrow> (bool \<times> ValueSerializer) res" where
  "WriteBoolean env v s = rbind (if v then WriteTag env KTrue s else WriteTag env KFalse s)
     (\<lambda>s. Inr (ThrowIfOutOfMemory s))"

definition WriteString :: "'h environment \<Rightarrow> bool \<Rightarrow> unit16 list \<Rightarrow> ValueSerializer \<Rightarrow> ValueSerializer res" where
  "WriteString env has8BitContent us s =
     (if has8BitContent then
        rbind (WriteTag env KOneByteString s) (\<lambda>s.
        rbind (WriteVarint env (of_nat (length us) :: 32 word) s) (WriteRawBytes env (map ucast us)))
      else
        rbind (WriteTag env KTwoByteString s) (\<lambda>s.
        rbind (WriteVarint env (of_nat (length us) :: 32 word) s)
          (WriteRawBytes env (concat (map (le_bytes 2) us)))))"

definition WriteArrayBuffer :: "'h environment \<Rightarrow> byte list \<Rightarrow> ValueSerializer \<Rightarrow> (bool \<times> ValueSerializer) res" where
  "WriteArrayBuffer env bytes s = rbind (WriteTag env KArrayBuffer s) (\<lambda>s.
     rbind (WriteVarint env (of_nat (length bytes) :: 32 word) s) (\<lambda>s.
     rbind (WriteRawBytes env bytes s) (\<lambda>s. Inr (ThrowIfOutOfMemory s))))"

definition WriteArrayBufferView ::
  "'h environment \<Rightarrow> element_kind \<Rightarrow> nat \<Rightarrow> nat \<Rightarrow> ValueSerializer \<Rightarrow> (bool \<times> ValueSerializer) res" where
  "WriteArrayBufferView env k byteOffset arrayLength s =
     rbind (WriteTag env KArrayBufferView s) (\<lambda>s.
     rbind (WriteVarint env (view_tag_code k) s) (\<lambda>s.
     rbind (WriteVarint env (of_nat byteOffset :: 32 word) s) (\<lambda>s.
     rbind (WriteVarint env (of_nat arrayLength :: 32 word) s) (\<lambda>s.
     Inr (ThrowIfOutOfMemory s)))))"

definition view_bytes :: "element_kind \<Rightarrow> byte list \<Rightarrow> nat \<Rightarrow> nat \<Rightarrow> byte list" where
  "view_bytes k buf off len = take (len * element_size k) (drop off buf)"

definition WriteTypedArrayObject ::
  "'h environment \<Rightarrow> element_kind \<Rightarrow> byte list \<Rightarrow> nat \<Rightarrow> nat \<Rightarrow> ValueSerializer \<Rightarrow> (bool \<times> ValueSerializer) res" where
  "WriteTypedArrayObject env k buf off len s =
     rbind (WriteArrayBuffer env (view_bytes k buf off len) s) (\<lambda>(result, s).
       if result then WriteArrayBufferView env k off len s else Inr (False, s))"

text \<open>The delegate writes its integers through the serializer it holds.\<close>

definition WriteHostObject :: "'h environment \<Rightarrow> 'h \<Rightarrow> ValueSerializer \<Rightarrow> (bool \<times> ValueSerializer) res" where
  "WriteHostObject env h s = rbind (WriteTag env KHostObject s) (\<lambda>s.
     if \<not> has_delegate env then Inl CheckFailed
     else rbind (foldM (\<lambda>v s. rbind (WriteUint32 env v s) (\<lambda>(_, s). Inr s)) (fst (write_host env h)) s)
       (\<lambda>s. guard CheckFailed (snd (write_host env h) \<noteq> None)
         (guard CheckFailed (snd (write_host env h) = Some True) (Inr (ThrowIfOutOfMemory s)))))"

function WriteValue :: "'h environment \<Rightarrow> 'h jsval \<Rightarrow> ValueSerializer \<Rightarrow> (bool \<times> ValueSerializer) res"
  and write_elements :: "'h environment \<Rightarrow> 'h jsval list \<Rightarrow> ValueSerializer \<Rightarrow> (bool \<times> ValueSerializer) res"
  and write_properties :: "'h environment \<Rightarrow> ('h jsval \<times> 'h jsval) list \<Rightarrow> 32 word \<Rightarrow> ValueSerializer \<Rightarrow>
    (32 word option \<times> ValueSerializer) res" where
  "WriteValue env VUndefined s = rbind (WriteTag env KUndefined s) (\<lambda>s. Inr (ThrowIfOutOfMemory s))"
| "WriteValue env VNull s = rbind (WriteTag env KNull s) (\<lambda>s. Inr (ThrowIfOutOfMemory s))"
| "WriteValue env (VBool b) s = WriteBoolean env b s"
| "WriteValue env (VUint32 v) s = WriteUint32 env v s"
| "WriteValue env (VInt32 v) s = WriteInt32 env v s"
| "WriteValue env (VNumber v) s = WriteNumber env v s"
| "WriteValue env VUnimplemented s = Inr (ThrowIfOutOfMemory s)"
| "WriteValue env (VArrayBuffer bytes) s = WriteArrayBuffer env bytes s"
| "WriteValue env (VString b us) s = rbind (WriteString env b us s) (\<lambda>s. Inr (ThrowIfOutOfMemory s))"
| "WriteValue env (VTyped k buf off len) s = WriteTypedArrayObject env k buf off len s"
| "WriteValue env (VArray vs) s =
     rbind (WriteTag env KBeginDenseJSArray s) (\<lambda>s.
     rbind (WriteVarint env (of_nat (length vs) :: 32 word) s) (\<lambda>s.
     rbind (write_elements env vs s) (\<lambda>(ok, s).
       if \<not> ok then Inr (False, s)
       else rbind (WriteTag env KEndDenseJSArray s) (\<lambda>s. Inr (True, s)))))"
| "WriteValue env (VHost h) s =
     rbind (WriteHostObject env h s) (\<lambda>(ok, s). if \<not> ok then Inr (False, s) else Inr (ThrowIfOutOfMemory s))"
| "WriteValue env (VObject ps) s =
     rbind (WriteTag env KBeginJSObject s) (\<lambda>s.
     rbind (write_properties env ps 0 s) (\<lambda>(propertiesWritten, s).
       case propertiesWritten of None \<Rightarrow> Inr (False, s)
       | Some n \<Rightarrow>
           rbind (WriteTag env KEndJSObject s) (\<lambda>s.
           rbind (WriteVarint env n s) (\<lambda>s.
             let (ok, s) = ThrowIfOutOfMemory s in
             if \<not> ok then Inr (False, s) else Inr (ThrowIfOutOfMemory s)))))"
| "write_elements env [] s = Inr (True, s)"
| "write_elements env (v # vs) s =
     rbind (WriteValue env v s) (\<lambda>(ok, s). if \<not> ok then Inr (False, s) else write_elements env vs s)"
| "write_properties env [] n s = Inr (Some n, s)"
| "write_properties env ((k, v) # ps) n s =
     rbind (WriteValue env k s) (\<lambda>(ok, s). if \<not> ok then Inr (None, s)
       else rbind (WriteValue env v s) (\<lambda>(ok, s). if \<not> ok then Inr (None, s)
         else write_properties env ps (n + 1) s))"
  by pat_completeness auto
termination
  by (relation "measure (case_sum (\<lambda>(env, v, s). size v)
       (case_sum (\<lambda>(env, vs, s). size_list size vs)
          (\<lambda>(env, ps, n, s). size_list (size_prod size size) ps)))") auto

text \<open>\<^verbatim>\<open>Release\<close> hands out a copy of the written bytes and frees the buffer, but resets neither the
  pointer nor the capacity.\<close>

definition Release :: "'h environment \<Rightarrow> ValueSerializer \<Rightarrow> (byte list \<times> ValueSerializer) res" where
  "Release env s =
     (let b = buffer s; n = bsize b in
      guard CheckFailed (n > 0 \<and> has_delegate env \<longrightarrow> reallocate env n = Some n)
      (Inr (take n (data b), s\<lparr>buffer := b\<lparr>bsize := 0\<rparr>\<rparr>)))"

end
