(* ===== verification/Deserializer.thy ===== *)
theory Deserializer
  imports Serializer "HOL-Library.AList"
begin

text \<open>
  The reader of the wire format, \<^verbatim>\<open>EscargotShim::ValueDeserializer\<close> of
  \<^verbatim>\<open>src/src/api/serializer.cc\<close>. The input is a byte list \<open>d\<close> whose length is the buffer's
  \<^verbatim>\<open>size\<close>; the position is passed and returned. A method that returns false yields \<open>None\<close>,
  together with the position it stopped at. Properties set on a read object are kept in the order of
  their creation.

  \<^verbatim>\<open>ReadValue\<close> recurses through objects and arrays; the model gives the recursion a fuel that
  \<^verbatim>\<open>ReadValue\<close> instantiates with twice the number of remaining bytes, which is always
  enough (every recursive call consumes a byte).
\<close>

section \<open>Primitive reads\<close>

definition isOverflow :: "byte list \<Rightarrow> nat \<Rightarrow> bool" where
  "isOverflow d pos = (pos \<ge> length d)"

definition currentPositionData :: "byte list \<Rightarrow> nat \<Rightarrow> byte res" where
  "currentPositionData d pos = guard CheckFailed (\<not> isOverflow d pos) (Inr (d ! pos))"

definition currentPositionAddress :: "byte list \<Rightarrow> nat \<Rightarrow> nat res" where
  "currentPositionAddress d pos = guard CheckFailed (\<not> isOverflow d pos) (Inr pos)"

text \<open>The success flag, the tag variable as last assigned (nothing while it is uninitialised), and the
  position.\<close>

function read_tag_loop :: "byte list \<Rightarrow> nat \<Rightarrow> byte option \<Rightarrow> bool \<times> byte option \<times> nat" where
  "read_tag_loop d pos tag =
     (if isOverflow d pos then (False, tag, pos)
      else let b = d ! pos in
        if b = tag_code KPadding then read_tag_loop d (pos + 1) (Some b) else (True, Some b, pos + 1))"
  by pat_completeness auto
termination by (relation "measure (\<lambda>(d, pos, tag). length d - pos)") (auto simp: isOverflow_def)

declare read_tag_loop.simps [simp del]

definition ReadTag :: "byte list \<Rightarrow> nat \<Rightarrow> bool \<times> byte option \<times> nat" where
  "ReadTag d pos = read_tag_loop d pos None"

text \<open>The overflow test of \<^verbatim>\<open>CheckTag\<close> looks at the position of the buffer, not at the
  position it has advanced to.\<close>

function check_tag_loop :: "byte list \<Rightarrow> nat \<Rightarrow> nat \<Rightarrow> byte \<Rightarrow> bool res" where
  "check_tag_loop d pos curPosition want =
     (if isOverflow d pos then Inr False
      else if curPosition \<ge> length d then Inl OutOfBounds
      else let tag = d ! curPosition in
        if tag = tag_code KPadding then check_tag_loop d pos (curPosition + 1) want
        else Inr (tag = want))"
  by pat_completeness auto
termination by (relation "measure (\<lambda>(d, pos, cur, want). length d - cur)") auto

declare check_tag_loop.simps [simp del]

definition CheckTag :: "byte list \<Rightarrow> nat \<Rightarrow> SerializationTag \<Rightarrow> bool res" where
  "CheckTag d pos want = check_tag_loop d pos pos (tag_code want)"

function read_varint_loop :: "byte list \<Rightarrow> nat \<Rightarrow> nat \<Rightarrow> 'a :: len word \<Rightarrow> 'a word option \<times> nat" where
  "read_varint_loop d pos shift value =
     (if isOverflow d pos then (None, pos)
      else let b = d ! pos;
               accept = shift < LENGTH('a);
               value' = (if accept then value OR push_bit shift (ucast (b AND 0x7F)) else value);
               shift' = (if accept then shift + 7 else shift)
           in if b AND 0x80 \<noteq> 0 then read_varint_loop d (pos + 1) shift' value' else (Some value', pos + 1))"
  by pat_completeness auto
termination by (relation "measure (\<lambda>(d, pos, shift, value). length d - pos)") (auto simp: isOverflow_def)

declare read_varint_loop.simps [simp del]

definition ReadVarint :: "byte list \<Rightarrow> nat \<Rightarrow> 'a :: len word option \<times> nat" where
  "ReadVarint d pos = read_varint_loop d pos 0 0"

definition unzigzag :: "32 word \<Rightarrow> 32 word" where
  "unzigzag u = drop_bit 1 u XOR - (u AND 1)"

definition ReadZigZag :: "byte list \<Rightarrow> nat \<Rightarrow> 32 word option \<times> nat" where
  "ReadZigZag d pos = (case ReadVarint d pos of
       (Some u, pos) \<Rightarrow> (Some (unzigzag u), pos)
     | (None, pos) \<Rightarrow> (None, pos))"

fun from_le :: "byte list \<Rightarrow> 'a :: len word" where
  "from_le [] = 0"
| "from_le (b # bs) = ucast b OR push_bit 8 (from_le bs)"

text \<open>IEEE 754 binary64: all exponent bits set and a fraction that is not zero.\<close>

definition isnan :: "64 word \<Rightarrow> bool" where
  "isnan w = (take_bit 11 (drop_bit 52 w) = 0x7FF \<and> take_bit 52 w \<noteq> 0)"

text \<open>\<^verbatim>\<open>size - sizeof(double)\<close> is computed on \<^verbatim>\<open>size_t\<close>.\<close>

definition ReadDouble :: "byte list \<Rightarrow> nat \<Rightarrow> (64 word option \<times> nat) res" where
  "ReadDouble d pos =
     (if pos > sub64 (length d) 8 then Inr (None, pos)
      else rbind (currentPositionAddress d pos) (\<lambda>p.
        guard OutOfBounds (p + 8 \<le> length d)
        (let value = from_le (take 8 (drop p d)) in
         Inr (if isnan value then None else Some value, pos + 8))))"

definition ReadRawBytes :: "byte list \<Rightarrow> nat \<Rightarrow> nat \<Rightarrow> (byte list option \<times> nat) res" where
  "ReadRawBytes d pos n =
     (if n > sub64 (length d) pos then Inr (None, pos)
      else rbind (currentPositionAddress d pos) (\<lambda>p. Inr (Some (take n (drop p d)), pos + n)))"

fun units_of_bytes :: "byte list \<Rightarrow> unit16 list" where
  "units_of_bytes (a # b # bs) = from_le [a, b] # units_of_bytes bs"
| "units_of_bytes _ = []"

definition make_string :: "'h environment \<Rightarrow> unit16 list \<Rightarrow> 'h jsval" where
  "make_string env us = VString (has8bit env us) us"

definition ReadOneByteString :: "'h environment \<Rightarrow> byte list \<Rightarrow> nat \<Rightarrow> ('h jsval option \<times> nat) res" where
  "ReadOneByteString env d pos = (case ReadVarint d pos :: 32 word option \<times> nat of
       (None, pos) \<Rightarrow> Inr (None, pos)
     | (Some len, pos) \<Rightarrow> rbind (ReadRawBytes d pos (unat len)) (\<lambda>(bytes, pos).
         Inr (map_option (\<lambda>bs. make_string env (from_utf8 env bs)) bytes, pos)))"

text \<open>\<^verbatim>\<open>length * sizeof(uint16_t)\<close> is computed on \<^verbatim>\<open>size_t\<close> and does not wrap.\<close>

definition ReadTwoByteString :: "'h environment \<Rightarrow> byte list \<Rightarrow> nat \<Rightarrow> ('h jsval option \<times> nat) res" where
  "ReadTwoByteString env d pos = (case ReadVarint d pos :: 32 word option \<times> nat of
       (None, pos) \<Rightarrow> Inr (None, pos)
     | (Some len, pos) \<Rightarrow> rbind (ReadRawBytes d pos (unat len * 2)) (\<lambda>(bytes, pos).
         Inr (map_option (\<lambda>bs. make_string env (from_utf16 env (units_of_bytes bs))) bytes, pos)))"

section \<open>Array buffers\<close>

definition ReadArrayBuffer :: "'h environment \<Rightarrow> byte list \<Rightarrow> nat \<Rightarrow> (byte list option \<times> nat) res" where
  "ReadArrayBuffer env d pos = (case ReadVarint d pos :: 32 word option \<times> nat of
       (None, pos) \<Rightarrow> Inr (None, pos)
     | (Some len, pos) \<Rightarrow> rbind (ReadRawBytes d pos (unat len)) (\<lambda>(bytes, pos).
         case bytes of None \<Rightarrow> Inr (None, pos)
         | Some bs \<Rightarrow> guard CheckFailed (allocate_buffer env (unat len)) (Inr (Some bs, pos))))"

fun kind_of_view_tag :: "byte \<Rightarrow> element_kind option" where
  "kind_of_view_tag t =
     List.find (\<lambda>k. view_tag_code k = t)
       [Uint8, Int8, Uint16, Int16, Uint32, Int32, Float32, Float64, Uint8Clamped, BigUint64, BigInt64]"

text \<open>\<^verbatim>\<open>ArrayBufferHelper::createView\<close> sets the buffer, offset and length of the view as given.\<close>

definition createView :: "byte list \<Rightarrow> nat \<Rightarrow> nat \<Rightarrow> element_kind \<Rightarrow> 'h jsval" where
  "createView abo byteOffset arrayLength k = VTyped k abo byteOffset arrayLength"

definition ReadArrayBufferView :: "byte list \<Rightarrow> byte list \<Rightarrow> nat \<Rightarrow> 'h jsval option \<times> nat" where
  "ReadArrayBufferView abo d pos = (case ReadVarint d pos :: 8 word option \<times> nat of
       (None, pos) \<Rightarrow> (None, pos)
     | (Some tag, pos) \<Rightarrow> (case ReadVarint d pos :: 32 word option \<times> nat of
         (None, pos) \<Rightarrow> (None, pos)
       | (Some byteOffset, pos) \<Rightarrow> (case ReadVarint d pos :: 32 word option \<times> nat of
           (None, pos) \<Rightarrow> (None, pos)
         | (Some arrayLength, pos) \<Rightarrow> (case kind_of_view_tag tag of
             None \<Rightarrow> (None, pos)
           | Some k \<Rightarrow> (Some (createView abo (unat byteOffset) (unat arrayLength) k), pos)))))"

definition ReadJsArrayBuffer :: "'h environment \<Rightarrow> byte list \<Rightarrow> nat \<Rightarrow> ('h jsval option \<times> nat) res" where
  "ReadJsArrayBuffer env d pos = rbind (ReadArrayBuffer env d pos) (\<lambda>(abo, pos).
     case abo of None \<Rightarrow> Inr (None, pos)
     | Some bs \<Rightarrow> rbind (CheckTag d pos KArrayBufferView) (\<lambda>isView.
         if isView then
           (let (ok, tag, pos) = ReadTag d pos in Inr (ReadArrayBufferView bs d pos))
         else Inr (Some (VArrayBuffer bs), pos)))"

definition ReadHostObject :: "'h environment \<Rightarrow> byte list \<Rightarrow> nat \<Rightarrow> 'h jsval option \<times> nat" where
  "ReadHostObject env d pos = (if \<not> has_delegate env then (None, pos)
     else let (h, pos) = read_host env d pos in (map_option VHost h, pos))"

section \<open>Values\<close>

definition isUndefinedOrNull :: "'h jsval \<Rightarrow> bool" where
  "isUndefinedOrNull v = (case v of VUndefined \<Rightarrow> True | VNull \<Rightarrow> True | _ \<Rightarrow> False)"

definition setProperty :: "'h jsval \<Rightarrow> 'h jsval \<Rightarrow> ('h jsval \<times> 'h jsval) list \<Rightarrow> ('h jsval \<times> 'h jsval) list" where
  "setProperty k v ps = AList.update k v ps"

fun ReadValue_fuel :: "'h environment \<Rightarrow> byte list \<Rightarrow> nat \<Rightarrow> nat \<Rightarrow> ('h jsval option \<times> nat) res"
  and ReadObject :: "'h environment \<Rightarrow> byte list \<Rightarrow> nat \<Rightarrow> nat \<Rightarrow> ('h jsval \<times> 'h jsval) list \<Rightarrow> nat \<Rightarrow>
    ('h jsval option \<times> nat) res"
  and ReadJsArray :: "'h environment \<Rightarrow> byte list \<Rightarrow> nat \<Rightarrow> nat \<Rightarrow> nat \<Rightarrow> 'h jsval list \<Rightarrow>
    ('h jsval option \<times> nat) res" where
  "ReadValue_fuel env d 0 pos = Inl NoFuel"
| "ReadValue_fuel env d (Suc n) pos =
     (case ReadTag d pos of (ok, tag, pos) \<Rightarrow>
      if \<not> ok then Inr (None, pos)
      else let tag = the tag in
      if tag = tag_code KNull then Inr (Some VNull, pos)
      else if tag = tag_code KUndefined then Inr (Some VUndefined, pos)
      else if tag = tag_code KTrue then Inr (Some (VBool True), pos)
      else if tag = tag_code KFalse then Inr (Some (VBool False), pos)
      else if tag = tag_code KDouble then
        rbind (ReadDouble d pos) (\<lambda>(v, pos). Inr (map_option VNumber v, pos))
      else if tag = tag_code KOneByteString then ReadOneByteString env d pos
      else if tag = tag_code KTwoByteString then ReadTwoByteString env d pos
      else if tag = tag_code KUint32 then
        (case ReadVarint d pos of (v, pos) \<Rightarrow> Inr (map_option VUint32 v, pos))
      else if tag = tag_code KInt32 then
        (case ReadZigZag d pos of (v, pos) \<Rightarrow> Inr (map_option VInt32 v, pos))
      else if tag = tag_code KBeginJSObject then ReadObject env d n pos [] 0
      else if tag = tag_code KHostObject then Inr (ReadHostObject env d pos)
      else if tag = tag_code KBeginDenseJSArray then
        (case ReadVarint d pos :: 32 word option \<times> nat of
           (None, pos) \<Rightarrow> Inr (None, pos)
         | (Some len, pos) \<Rightarrow> ReadJsArray env d n pos (unat len) [])
      else if tag = tag_code KArrayBuffer then ReadJsArrayBuffer env d pos
      else Inr (None, pos))"
| "ReadObject env d 0 pos obj propertiesRead = Inl NoFuel"
| "ReadObject env d (Suc n) pos obj propertiesRead =
     rbind (CheckTag d pos KEndJSObject) (\<lambda>atEnd.
       if \<not> atEnd then
         rbind (ReadValue_fuel env d n pos) (\<lambda>(key, pos).
           case key of None \<Rightarrow> Inr (None, pos)
           | Some k \<Rightarrow> if isUndefinedOrNull k then Inr (None, pos)
             else rbind (ReadValue_fuel env d n pos) (\<lambda>(val, pos).
               case val of None \<Rightarrow> Inr (None, pos)
               | Some v \<Rightarrow> ReadObject env d n pos (setProperty k v obj) (propertiesRead + 1)))
       else (case ReadTag d pos of (ok, tag, pos) \<Rightarrow>
         if \<not> ok then Inr (None, pos)
         else if tag = Some (tag_code KEndJSObject) then
           (case ReadVarint d pos :: 32 word option \<times> nat of
              (None, pos) \<Rightarrow> Inr (None, pos)
            | (Some propertiesWritten, pos) \<Rightarrow>
                Inr (if propertiesRead = unat propertiesWritten then Some (VObject obj) else None, pos))
         else Inr (None, pos)))"
| "ReadJsArray env d 0 pos remaining vector = Inl NoFuel"
| "ReadJsArray env d (Suc n) pos 0 vector =
     (case ReadTag d pos of (ok, tag, pos) \<Rightarrow>
        case tag of None \<Rightarrow> Inl UninitRead
        | Some t \<Rightarrow> Inr (if t = tag_code KEndDenseJSArray then Some (VArray vector) else None, pos))"
| "ReadJsArray env d (Suc n) pos (Suc remaining) vector =
     rbind (ReadValue_fuel env d n pos) (\<lambda>(val, pos).
       case val of None \<Rightarrow> Inr (None, pos)
       | Some v \<Rightarrow> ReadJsArray env d n pos remaining (vector @ [v]))"

definition ReadValue :: "'h environment \<Rightarrow> byte list \<Rightarrow> nat \<Rightarrow> ('h jsval option \<times> nat) res" where
  "ReadValue env d pos = ReadValue_fuel env d (2 * (length d - pos) + 1) pos"

text \<open>\<^verbatim>\<open>asUInt32\<close> of the value read; \<^verbatim>\<open>CheckTag\<close> has seen that it is one.\<close>

definition ReadUint32 :: "'h environment \<Rightarrow> byte list \<Rightarrow> nat \<Rightarrow> (32 word option \<times> nat) res" where
  "ReadUint32 env d pos = rbind (CheckTag d pos KUint32) (\<lambda>ok.
     if \<not> ok then Inr (None, pos)
     else rbind (ReadValue env d pos) (\<lambda>(v, pos).
       Inr (case v of Some (VUint32 w) \<Rightarrow> Some w | _ \<Rightarrow> None, pos)))"

end
