(* ===== verification/WireFormat.thy ===== *)
theory WireFormat
  imports Deserializer
begin

text \<open>
  The wire format itself: the tags are pairwise distinct, and the primitive encodings of
  \<^verbatim>\<open>Serializer\<close> (varints, zigzag integers, little-endian words) are inverted by those of
  \<^verbatim>\<open>Deserializer\<close> at any position of the data.
\<close>

section \<open>Tags and bits\<close>

lemma of_char_byte_inj: "(of_char c :: byte) = of_char c' \<longleftrightarrow> c = c'"
proof
  assume eq: "(of_char c :: byte) = of_char c'"
  have u: "unat (of_nat (of_char x :: nat) :: byte) = of_char x" for x
    by (simp only: unat_of_nat) simp
  have "(of_nat (of_char c :: nat) :: byte) = of_nat (of_char c' :: nat)" using eq by (simp only: of_nat_of_char)
  from arg_cong[OF this, of unat] have "(of_char c :: nat) = of_char c'" by (simp only: u)
  then show "c = c'" by simp
qed simp

definition all_tags :: "SerializationTag list" where
  "all_tags = [KVersion, KPadding, KVerifyObjectCount, KTheHole, KUndefined, KNull, KTrue, KFalse, KInt32, KUint32, KDouble, KBigInt, KUtf8String, KOneByteString, KTwoByteString, KObjectReference, KBeginJSObject, KEndJSObject, KBeginSparseJSArray, KEndSparseJSArray, KBeginDenseJSArray, KEndDenseJSArray, KDate, KTrueObject, KFalseObject, KNumberObject, KBigIntObject, KStringObject, KRegExp, KBeginJSMap, KEndJSMap, KBeginJSSet, KEndJSSet, KArrayBuffer, KArrayBufferTransfer, KArrayBufferView, KSharedArrayBuffer, KWasmModuleTransfer, KHostObject, KWasmMemoryTransfer, KError, KLegacyReservedMessagePort, KLegacyReservedBlob, KLegacyReservedBlobIndex, KLegacyReservedFile, KLegacyReservedFileIndex, KLegacyReservedDOMFileSystem, KLegacyReservedFileList, KLegacyReservedFileListIndex, KLegacyReservedImageData, KLegacyReservedImageBitmap, KLegacyReservedImageBitmapTransfer, KLegacyReservedOffscreenCanvas, KLegacyReservedCryptoKey, KLegacyReservedRTCCertificate]"

lemma find_tag: "List.find (\<lambda>t'. tag_char t' = tag_char t) all_tags = Some t"
  by (cases t) (simp_all add: all_tags_def)

lemma tag_char_inj: "tag_char t = tag_char t' \<longleftrightarrow> t = t'"
  by (metis find_tag option.inject)

lemma tag_code_inj [simp]: "tag_code t = tag_code t' \<longleftrightarrow> t = t'"
  by (simp add: tag_code_def of_char_byte_inj tag_char_inj)

lemma and_7F: "(x :: byte) AND 0x7F = take_bit 7 x"
proof -
  have "(0x7F :: byte) = mask 7" by (simp add: mask_eq_exp_minus_1)
  then show ?thesis by (simp add: take_bit_eq_mask)
qed

lemma bit_80: "bit (0x80 :: byte) n \<longleftrightarrow> n = 7"
proof -
  have "(0x80 :: byte) = push_bit 7 1" by simp
  then show ?thesis by (simp only: bit_push_bit_iff) (auto simp: bit_simps)
qed

lemma and_80: "((x :: byte) AND 0x80 = 0) \<longleftrightarrow> \<not> bit x 7"
proof
  assume "x AND 0x80 = 0"
  then have "\<not> bit (x AND 0x80) 7" by simp
  then show "\<not> bit x 7" by (simp only: bit_and_iff bit_80) simp
next
  assume "\<not> bit x 7"
  then show "x AND 0x80 = 0" by (intro bit_word_eqI) (simp only: bit_and_iff bit_80, auto)
qed

lemma last_masked: "((x AND 0x7F OR 0x80) AND 0x7F) = (x AND 0x7F :: byte)"
  by (rule bit_word_eqI) (auto simp: and_7F bit_simps bit_80)

lemma varint_loop_ne [simp]: "varint_loop v \<noteq> []"
  by (subst varint_loop.simps) simp

lemma varint_bytes_rec:
  "varint_bytes v = (if drop_bit 7 v = 0 then [ucast v AND 0x7F]
     else (ucast v AND 0x7F OR 0x80) # varint_bytes (drop_bit 7 v))"
  by (subst varint_bytes_def, subst varint_loop.simps) (simp add: Let_def last_masked varint_bytes_def)

lemma varint_bytes_ne [simp]: "varint_bytes v \<noteq> []"
  by (subst varint_bytes_rec) simp

section \<open>Bytes at a position\<close>

definition here :: "byte list \<Rightarrow> nat \<Rightarrow> byte list \<Rightarrow> bool" where
  "here d pos bs \<longleftrightarrow> (\<exists>pre post. d = pre @ bs @ post \<and> length pre = pos)"

lemma here_append: "here d pos (xs @ ys) \<longleftrightarrow> here d pos xs \<and> here d (pos + length xs) ys"
proof
  assume "here d pos (xs @ ys)"
  then obtain pre post where p: "d = pre @ (xs @ ys) @ post" "length pre = pos" unfolding here_def by blast
  have "d = pre @ xs @ (ys @ post)" "d = (pre @ xs) @ ys @ post" "length (pre @ xs) = pos + length xs"
    using p by auto
  then show "here d pos xs \<and> here d (pos + length xs) ys" unfolding here_def using p(2) by blast
next
  assume "here d pos xs \<and> here d (pos + length xs) ys"
  then obtain pre post pre' post' where p: "d = pre @ xs @ post" "length pre = pos"
    "d = pre' @ ys @ post'" "length pre' = pos + length xs" unfolding here_def by blast
  have "pre' = pre @ xs" using p by (metis append_assoc append_eq_append_conv length_append)
  then show "here d pos (xs @ ys)" using p unfolding here_def by auto
qed

lemma here_Cons: "here d pos (b # bs) \<longleftrightarrow> pos < length d \<and> d ! pos = b \<and> here d (pos + 1) bs"
proof -
  have "here d pos [b] \<longleftrightarrow> pos < length d \<and> d ! pos = b"
  proof
    assume "pos < length d \<and> d ! pos = b"
    then have "d = take pos d @ [b] @ drop (pos + 1) d" "length (take pos d) = pos"
      by (auto simp: id_take_nth_drop[symmetric])
    then show "here d pos [b]" unfolding here_def by blast
  qed (auto simp: here_def nth_append)
  then show ?thesis using here_append[of d pos "[b]" bs] by auto
qed

lemma here_bound: "here d pos bs \<Longrightarrow> pos + length bs \<le> length d"
  by (auto simp: here_def)

lemma here_take: "here d pos bs \<Longrightarrow> take (length bs) (drop pos d) = bs"
  by (auto simp: here_def)

lemma here_Nil: "here d pos [] \<longleftrightarrow> pos \<le> length d"
proof
  assume "pos \<le> length d"
  then have "d = take pos d @ [] @ drop pos d" "length (take pos d) = pos" by auto
  then show "here d pos []" unfolding here_def by blast
qed (auto simp: here_def)

section \<open>Varints, zigzag, machine words\<close>

lemma read_varint_here:
  fixes v :: "'a :: len word"
  assumes "here d pos (varint_bytes (drop_bit s v))" "s < LENGTH('a)"
  shows "read_varint_loop d pos s (take_bit s v) = (Some v, pos + length (varint_bytes (drop_bit s v)))"
  using assms
proof (induction "drop_bit s v" arbitrary: s pos rule: varint_loop.induct)
  case 1
  let ?w = "drop_bit s v"
  have acc: "take_bit s v OR push_bit s (ucast (take_bit 7 (ucast ?w :: byte))) = take_bit (s + 7) v"
    by (rule bit_word_eqI) (auto simp: bit_simps)
  have acc2: "take_bit s v OR push_bit s (ucast (take_bit 7 (ucast ?w AND 0x7F OR 0x80 :: byte))) = take_bit (s + 7) v"
    by (rule bit_word_eqI) (auto simp: bit_simps bit_80 and_7F)
  have step: "drop_bit 7 ?w = drop_bit (s + 7) v" by (simp add: drop_bit_drop_bit add.commute)
  show ?case
  proof (cases "drop_bit 7 ?w = 0")
    case True
    then have "take_bit (s + 7) v = v"
      using step bits_ident[of "s + 7" v] by simp
    moreover have b: "varint_bytes ?w = [ucast ?w AND 0x7F]" using True by (subst varint_bytes_rec) simp
    moreover have "(ucast ?w AND 0x7F :: byte) AND 0x80 = 0" by (simp add: and_80 and_7F bit_simps)
    ultimately show ?thesis
      using 1(2,3) acc
      by (subst read_varint_loop.simps) (auto simp: here_Cons isOverflow_def and_7F Let_def take_bit_take_bit)
  next
    case False
    have lt: "s + 7 < LENGTH('a)"
    proof (rule ccontr)
      assume "\<not> s + 7 < LENGTH('a)"
      then have "drop_bit (s + 7) v = 0" by (intro bit_word_eqI) (auto simp: bit_simps dest: bit_imp_le_length)
      then show False using False step by simp
    qed
    have b: "varint_bytes ?w = (ucast ?w AND 0x7F OR 0x80) # varint_bytes (drop_bit (s + 7) v)"
      using False step by (subst varint_bytes_rec) simp
    have c: "(ucast ?w AND 0x7F OR 0x80 :: byte) AND 0x80 \<noteq> 0" by (simp add: and_80 bit_simps bit_80)
    have h: "here d (pos + 1) (varint_bytes (drop_bit (s + 7) v))" "pos < length d"
      "d ! pos = ucast ?w AND 0x7F OR 0x80"
      using 1(2) b by (auto simp: here_Cons)
    have "read_varint_loop d (pos + 1) (s + 7) (take_bit (s + 7) v) =
        (Some v, pos + 1 + length (varint_bytes (drop_bit (s + 7) v)))"
      using 1(1)[OF False step h(1) lt] .
    then show ?thesis
      using h c 1(3) acc2 b
      by (subst read_varint_loop.simps) (simp add: isOverflow_def and_7F Let_def)
  qed
qed

lemma ReadVarint_here:
  "here d pos (varint_bytes v) \<Longrightarrow> ReadVarint d pos = (Some v, pos + length (varint_bytes v))"
  using read_varint_here[of d pos 0 v] by (simp add: ReadVarint_def)

lemma unzigzag_zigzag: "unzigzag (zigzag v) = v"
proof -
  have s: "signed_drop_bit 31 v = (if bit v 31 then - 1 else 0)"
    by (rule bit_word_eqI) (auto simp: bit_signed_drop_bit_iff not_less_eq_eq)
  have one: "u AND 1 = (if bit u 0 then 1 else 0)" for u :: "32 word"
    by (rule bit_word_eqI) (auto simp: bit_simps, metis gr0I)
  have dbl: "bit (push_bit 1 v) (Suc n) \<longleftrightarrow> n < 31 \<and> bit v n" for n
    unfolding bit_push_bit_iff by auto
  show ?thesis
  proof (cases "bit v 31")
    case True
    then have z: "zigzag v = NOT (push_bit 1 v)" by (simp add: zigzag_def s)
    have "bit (zigzag v) 0" unfolding z bit_not_iff bit_push_bit_iff by simp
    then have "unzigzag (zigzag v) = NOT (drop_bit 1 (zigzag v))" by (simp add: unzigzag_def one)
    also have "\<dots> = v"
    proof (rule bit_word_eqI)
      fix n assume n: "n < LENGTH(32)"
      have "bit (NOT (drop_bit 1 (zigzag v))) n \<longleftrightarrow> \<not> (Suc n < 32 \<and> \<not> (n < 31 \<and> bit v n))"
        using n unfolding z bit_not_iff bit_drop_bit_eq comp_def plus_1_eq_Suc dbl by simp
      moreover have "bit v n" if "\<not> n < 31"
      proof -
        have "n = 31" using n that by simp
        then show ?thesis using True by (simp only:)
      qed
      ultimately show "bit (NOT (drop_bit 1 (zigzag v))) n = bit v n" using n by auto
    qed
    finally show ?thesis .
  next
    case False
    then have z: "zigzag v = push_bit 1 v" by (simp add: zigzag_def s)
    have "\<not> bit (zigzag v) 0" unfolding z bit_push_bit_iff by simp
    then have "unzigzag (zigzag v) = drop_bit 1 (zigzag v)" by (simp add: unzigzag_def one)
    also have "\<dots> = v"
    proof (rule bit_word_eqI)
      fix n assume n: "n < LENGTH(32)"
      have "bit (drop_bit 1 (zigzag v)) n \<longleftrightarrow> n < 31 \<and> bit v n"
        unfolding z bit_drop_bit_eq comp_def plus_1_eq_Suc dbl by simp
      moreover have "\<not> bit v n" if "\<not> n < 31"
      proof -
        have "n = 31" using n that by simp
        then show ?thesis using False by (simp only:) simp
      qed
      ultimately show "bit (drop_bit 1 (zigzag v)) n = bit v n" by auto
    qed
    finally show ?thesis .
  qed
qed

lemma length_le_bytes [simp]: "length (le_bytes n w) = n"
  by (induction n arbitrary: w) auto

lemma from_le_le_bytes: "from_le (le_bytes n w) = take_bit (8 * n) w"
proof (induction n arbitrary: w)
  case 0
  then show ?case by simp
next
  case (Suc n)
  show ?case
    by (simp add: Suc) (rule bit_word_eqI, auto simp: bit_simps)
qed

lemma from_le_double: "from_le (le_bytes 8 w) = (w :: 64 word)"
  using from_le_le_bytes[of 8 w] by (simp add: take_bit_word_eq_self)

lemma from_le_unit: "from_le (le_bytes 2 w) = (w :: unit16)"
  using from_le_le_bytes[of 2 w] by (simp add: take_bit_word_eq_self)

lemma units_of_le: "units_of_bytes (concat (map (le_bytes 2) us)) = us"
proof (induction us)
  case Nil
  then show ?case by simp
next
  case (Cons u us)
  have "le_bytes 2 u = [ucast u, ucast (drop_bit 8 u)]" by (simp add: numeral_2_eq_2)
  then show ?case using Cons from_le_unit[of u] by simp
qed

end
