(* ===== verification/SerialWriter.thy ===== *)
theory SerialWriter
  imports WireFormat
begin

text \<open>
  What \<^verbatim>\<open>WriteValue\<close> emits. When memory does not run out it appends \<open>enc v\<close>; whatever the
  allocator does it keeps the buffer invariant.
\<close>

section \<open>What the writer emits\<close>

definition written :: "ValueSerializer \<Rightarrow> byte list" where
  "written s = take (bsize (buffer s)) (data (buffer s))"

definition wf_ser :: "ValueSerializer \<Rightarrow> bool" where
  "wf_ser s \<longleftrightarrow> length (data (buffer s)) = capacity (buffer s) \<and> bsize (buffer s) \<le> capacity (buffer s) \<and>
     \<not> out_of_memory s"

definition allocates :: "'h environment \<Rightarrow> bool" where
  "allocates env \<longleftrightarrow> (if has_delegate env then \<forall>n. \<exists>c. reallocate env n = Some c \<and> n \<le> c
     else \<forall>n. sys_realloc env n)"

definition emits :: "ValueSerializer \<Rightarrow> byte list \<Rightarrow> ValueSerializer \<Rightarrow> bool" where
  "emits s bs s' \<longleftrightarrow> wf_ser s' \<and> written s' = written s @ bs \<and> data_clone_errors s' = data_clone_errors s"

lemma emits_trans: "emits s as t \<Longrightarrow> emits t bs u \<Longrightarrow> emits s (as @ bs) u"
  by (simp add: emits_def)

lemma emits_wf: "emits s bs t \<Longrightarrow> wf_ser t"
  by (simp add: emits_def)

lemma emits_oom: "wf_ser s \<Longrightarrow> ThrowIfOutOfMemory s = (True, s)"
  by (simp add: wf_ser_def ThrowIfOutOfMemory_def)

lemma ExpandBuffer_ok:
  assumes "allocates env" "wf_ser s" "capacity (buffer s) < n"
  shows "\<exists>s'. ExpandBuffer env n s = Inr (True, s') \<and> wf_ser s' \<and> n \<le> capacity (buffer s') \<and>
    bsize (buffer s') = bsize (buffer s) \<and> written s' = written s \<and> data_clone_errors s' = data_clone_errors s"
proof -
  let ?r = "max n (capacity (buffer s) * 2) + 64"
  obtain c where c: "(if has_delegate env then reallocate env ?r
      else if sys_realloc env ?r then Some ?r else None) = Some c" "?r \<le> c"
  proof (cases "has_delegate env")
    case True
    then obtain c where "reallocate env ?r = Some c" "?r \<le> c"
      using assms(1) unfolding allocates_def by metis
    then show ?thesis using that True by simp
  next
    case False
    then show ?thesis using that assms(1) by (simp add: allocates_def)
  qed
  then have "ExpandBuffer env n s = Inr (True, s\<lparr>buffer := (buffer s)
      \<lparr>data := data (buffer s) @ replicate (c - capacity (buffer s)) 0, capacity := c\<rparr>\<rparr>)"
    unfolding ExpandBuffer_def Let_def c(1) using assms(3) by simp
  then show ?thesis using assms c(2) by (auto simp: wf_ser_def written_def)
qed

lemma WriteRawBytes_emits:
  assumes "allocates env" "wf_ser s"
  shows "\<exists>s'. WriteRawBytes env bs s = Inr s' \<and> emits s bs s'"
proof -
  let ?n = "bsize (buffer s) + length bs"
  obtain t where t: "(if ?n > capacity (buffer s) then ExpandBuffer env ?n s else Inr (True, s)) = Inr (True, t)"
    "wf_ser t" "?n \<le> capacity (buffer t)" "bsize (buffer t) = bsize (buffer s)" "written t = written s"
    "data_clone_errors t = data_clone_errors s"
  proof (cases "?n > capacity (buffer s)")
    case True
    then show ?thesis using ExpandBuffer_ok[OF assms True] that by auto
  next
    case False
    then show ?thesis using assms(2) by (intro that[of s]) auto
  qed
  let ?u = "t\<lparr>buffer := (buffer t)\<lparr>bsize := ?n\<rparr>\<rparr>"
  have r: "ReserveRawBytes env (length bs) s = Inr (Some (bsize (buffer s)), ?u)"
    unfolding ReserveRawBytes_def Let_def t(1) by simp
  show ?thesis
  proof (cases "bs = []")
    case True
    then show ?thesis using r t by (auto simp: WriteRawBytes_def emits_def wf_ser_def written_def)
  next
    case False
    let ?w = "?u\<lparr>buffer := (buffer ?u)\<lparr>data := overwrite (bsize (buffer s)) bs (data (buffer t))\<rparr>\<rparr>"
    have "WriteRawBytes env bs s = Inr ?w" using r False by (simp add: WriteRawBytes_def)
    moreover have "emits s bs ?w"
      using t assms(2) by (auto simp: emits_def wf_ser_def written_def overwrite_def)
    ultimately show ?thesis by blast
  qed
qed

lemma WriteTag_emits: "allocates env \<Longrightarrow> wf_ser s \<Longrightarrow> \<exists>s'. WriteTag env t s = Inr s' \<and> emits s [tag_code t] s'"
  by (simp add: WriteTag_def WriteRawBytes_emits)

lemma WriteVarint_emits:
  "allocates env \<Longrightarrow> wf_ser s \<Longrightarrow> \<exists>s'. WriteVarint env v s = Inr s' \<and> emits s (varint_bytes v) s'"
  by (simp add: WriteVarint_def WriteRawBytes_emits)

definition string_bytes :: "bool \<Rightarrow> unit16 list \<Rightarrow> byte list" where
  "string_bytes b us = (if b
     then tag_code KOneByteString # varint_bytes (of_nat (length us) :: 32 word) @ map ucast us
     else tag_code KTwoByteString # varint_bytes (of_nat (length us) :: 32 word) @ concat (map (le_bytes 2) us))"

definition buffer_bytes :: "byte list \<Rightarrow> byte list" where
  "buffer_bytes bs = tag_code KArrayBuffer # varint_bytes (of_nat (length bs) :: 32 word) @ bs"

definition view_header :: "element_kind \<Rightarrow> nat \<Rightarrow> nat \<Rightarrow> byte list" where
  "view_header k off len = tag_code KArrayBufferView # varint_bytes (view_tag_code k) @
     varint_bytes (of_nat off :: 32 word) @ varint_bytes (of_nat len :: 32 word)"

text \<open>The bytes \<^verbatim>\<open>WriteValue\<close> appends when memory does not run out.\<close>

function enc :: "'h jsval \<Rightarrow> byte list"
  and enc_list :: "'h jsval list \<Rightarrow> byte list"
  and enc_props :: "('h jsval \<times> 'h jsval) list \<Rightarrow> byte list" where
  "enc VUndefined = [tag_code KUndefined]"
| "enc VNull = [tag_code KNull]"
| "enc (VBool b) = [tag_code (if b then KTrue else KFalse)]"
| "enc (VUint32 v) = tag_code KUint32 # varint_bytes v"
| "enc (VInt32 v) = tag_code KInt32 # varint_bytes (zigzag v)"
| "enc (VNumber v) = tag_code KDouble # le_bytes 8 v"
| "enc VUnimplemented = []"
| "enc (VArrayBuffer bs) = buffer_bytes bs"
| "enc (VString b us) = string_bytes b us"
| "enc (VTyped k buf off len) = buffer_bytes (view_bytes k buf off len) @ view_header k off len"
| "enc (VArray vs) = tag_code KBeginDenseJSArray # varint_bytes (of_nat (length vs) :: 32 word) @
     enc_list vs @ [tag_code KEndDenseJSArray]"
| "enc (VHost h) = []"
| "enc (VObject ps) = tag_code KBeginJSObject # enc_props ps @
     tag_code KEndJSObject # varint_bytes (of_nat (length ps) :: 32 word)"
| "enc_list [] = []"
| "enc_list (v # vs) = enc v @ enc_list vs"
| "enc_props [] = []"
| "enc_props ((k, v) # ps) = enc k @ enc v @ enc_props ps"
  by pat_completeness auto
termination
  by (relation "measure (case_sum size (case_sum (size_list size) (size_list (size_prod size size))))") auto

text \<open>Values without host objects; those the delegate writes are not determined by the source.\<close>

function no_host :: "'h jsval \<Rightarrow> bool"
  and no_host_list :: "'h jsval list \<Rightarrow> bool"
  and no_host_props :: "('h jsval \<times> 'h jsval) list \<Rightarrow> bool" where
  "no_host (VHost h) = False"
| "no_host (VArray vs) = no_host_list vs"
| "no_host (VObject ps) = no_host_props ps"
| "no_host VUndefined = True"
| "no_host VNull = True"
| "no_host (VBool b) = True"
| "no_host (VUint32 v) = True"
| "no_host (VInt32 v) = True"
| "no_host (VNumber v) = True"
| "no_host VUnimplemented = True"
| "no_host (VArrayBuffer bs) = True"
| "no_host (VString b us) = True"
| "no_host (VTyped k buf off len) = True"
| "no_host_list [] = True"
| "no_host_list (v # vs) = (no_host v \<and> no_host_list vs)"
| "no_host_props [] = True"
| "no_host_props ((k, v) # ps) = (no_host k \<and> no_host v \<and> no_host_props ps)"
  by pat_completeness auto
termination
  by (relation "measure (case_sum size (case_sum (size_list size) (size_list (size_prod size size))))") auto

lemma rbind_emits:
  assumes "\<exists>t. m = Inr t \<and> emits s as t"
    and "\<And>t. emits s as t \<Longrightarrow> \<exists>u. f t = Inr u \<and> emits t bs u"
  shows "\<exists>u. rbind m f = Inr u \<and> emits s (as @ bs) u"
  using assms emits_trans by (metis rbind_Inr)

lemma rbind_emits_flag:
  assumes "\<exists>t. m = Inr t \<and> emits s as t"
    and "\<And>t. emits s as t \<Longrightarrow> \<exists>u. f t = Inr (r, u) \<and> emits t bs u"
  shows "\<exists>u. rbind m f = Inr (r, u) \<and> emits s (as @ bs) u"
  using assms emits_trans by (metis rbind_Inr)

lemma rbind_flag_emits:
  assumes "\<exists>t. m = Inr (True, t) \<and> emits s as t"
    and "\<And>t. emits s as t \<Longrightarrow> \<exists>u. f (True, t) = Inr (r, u) \<and> emits t bs u"
  shows "\<exists>u. rbind m f = Inr (r, u) \<and> emits s (as @ bs) u"
  using assms emits_trans by (metis rbind_Inr)

lemma emits_refl: "wf_ser s \<Longrightarrow> emits s [] s"
  by (simp add: emits_def)

lemma oom_emits: "wf_ser s \<Longrightarrow> \<exists>u. Inr (ThrowIfOutOfMemory s) = (Inr (True, u) :: (bool \<times> ValueSerializer) res) \<and> emits s [] u"
  by (simp add: emits_oom emits_refl)

lemma rbind_some_emits:
  assumes "\<exists>t. m = Inr (Some n, t) \<and> emits s as t"
    and "\<And>t. emits s as t \<Longrightarrow> \<exists>u. f (Some n, t) = Inr (r, u) \<and> emits t bs u"
  shows "\<exists>u. rbind m f = Inr (r, u) \<and> emits s (as @ bs) u"
  using assms emits_trans by (metis rbind_Inr)

lemma tag_true_emits:
  assumes "allocates env" "wf_ser t"
  shows "\<exists>u. rbind (WriteTag env tag t) (\<lambda>s. Inr (True, s)) = (Inr (True, u) :: (bool \<times> ValueSerializer) res) \<and>
    emits t [tag_code tag] u"
  using WriteTag_emits[OF assms, of tag] by auto

lemma then_oom:
  "\<exists>t. m = Inr t \<and> emits s bs t \<Longrightarrow>
   \<exists>u. rbind m (\<lambda>s. Inr (ThrowIfOutOfMemory s)) = Inr (True, u) \<and> emits s bs u"
  using emits_wf emits_oom by fastforce

lemma WriteUint32_emits:
  assumes "allocates env" "wf_ser s"
  shows "\<exists>u. WriteUint32 env v s = Inr (True, u) \<and> emits s (tag_code KUint32 # varint_bytes v) u"
  unfolding WriteUint32_def
  using rbind_emits_flag[OF WriteTag_emits[OF assms] then_oom[OF WriteVarint_emits[OF assms(1) emits_wf]]]
  by fastforce

lemma WriteInt32_emits:
  assumes "allocates env" "wf_ser s"
  shows "\<exists>u. WriteInt32 env v s = Inr (True, u) \<and> emits s (tag_code KInt32 # varint_bytes (zigzag v)) u"
  unfolding WriteInt32_def WriteZigZag_def
  using rbind_emits_flag[OF WriteTag_emits[OF assms] then_oom[OF WriteVarint_emits[OF assms(1) emits_wf]]]
  by fastforce

lemma WriteNumber_emits:
  assumes "allocates env" "wf_ser s"
  shows "\<exists>u. WriteNumber env v s = Inr (True, u) \<and> emits s (tag_code KDouble # le_bytes 8 v) u"
  unfolding WriteNumber_def
  using rbind_emits_flag[OF WriteTag_emits[OF assms] then_oom[OF WriteRawBytes_emits[OF assms(1) emits_wf]]]
  by fastforce

lemma WriteBoolean_emits:
  assumes "allocates env" "wf_ser s"
  shows "\<exists>u. WriteBoolean env b s = Inr (True, u) \<and> emits s [tag_code (if b then KTrue else KFalse)] u"
  unfolding WriteBoolean_def using then_oom[OF WriteTag_emits[OF assms]] by (cases b) auto

lemma WriteArrayBuffer_emits:
  assumes a: "allocates env" and w: "wf_ser s"
  shows "\<exists>u. WriteArrayBuffer env bs s = Inr (True, u) \<and> emits s (buffer_bytes bs) u"
proof -
  have "\<exists>u. WriteArrayBuffer env bs s = Inr (True, u) \<and>
    emits s ([tag_code KArrayBuffer] @ varint_bytes (of_nat (length bs) :: 32 word) @ bs @ []) u"
    unfolding WriteArrayBuffer_def
    by (intro rbind_emits_flag WriteTag_emits WriteVarint_emits WriteRawBytes_emits oom_emits a w)
       (auto dest: emits_wf)
  then show ?thesis by (simp add: buffer_bytes_def)
qed

lemma WriteArrayBufferView_emits:
  assumes a: "allocates env" and w: "wf_ser s"
  shows "\<exists>u. WriteArrayBufferView env k off len s = Inr (True, u) \<and> emits s (view_header k off len) u"
proof -
  have "\<exists>u. WriteArrayBufferView env k off len s = Inr (True, u) \<and>
    emits s ([tag_code KArrayBufferView] @ varint_bytes (view_tag_code k) @
      varint_bytes (of_nat off :: 32 word) @ varint_bytes (of_nat len :: 32 word) @ []) u"
    unfolding WriteArrayBufferView_def
    by (intro rbind_emits_flag WriteTag_emits WriteVarint_emits oom_emits a w) (auto dest: emits_wf)
  then show ?thesis by (simp add: view_header_def)
qed

lemma WriteString_emits:
  assumes a: "allocates env" and w: "wf_ser s"
  shows "\<exists>u. WriteString env b us s = Inr u \<and> emits s (string_bytes b us) u"
proof -
  have "\<exists>u. rbind (WriteTag env t s) (\<lambda>s. rbind (WriteVarint env (of_nat (length us) :: 32 word) s)
      (WriteRawBytes env bs)) = Inr u \<and>
    emits s ([tag_code t] @ varint_bytes (of_nat (length us) :: 32 word) @ bs) u" for t bs
    by (intro rbind_emits WriteTag_emits WriteVarint_emits WriteRawBytes_emits a w) (auto dest: emits_wf)
  then show ?thesis by (simp add: string_bytes_def WriteString_def)
qed

lemma WriteTypedArrayObject_emits:
  assumes "allocates env" "wf_ser s"
  shows "\<exists>u. WriteTypedArrayObject env k buf off len s = Inr (True, u) \<and>
    emits s (buffer_bytes (view_bytes k buf off len) @ view_header k off len) u"
  unfolding WriteTypedArrayObject_def
  by (intro rbind_flag_emits[OF WriteArrayBuffer_emits[OF assms]])
     (use assms in \<open>auto dest: emits_wf intro!: WriteArrayBufferView_emits\<close>)

lemma WriteValue_emits:
  "allocates env \<Longrightarrow> wf_ser s \<Longrightarrow> no_host v \<Longrightarrow> \<exists>u. WriteValue env v s = Inr (True, u) \<and> emits s (enc v) u"
  "allocates env \<Longrightarrow> wf_ser s \<Longrightarrow> no_host_list vs \<Longrightarrow>
     \<exists>u. write_elements env vs s = Inr (True, u) \<and> emits s (enc_list vs) u"
  "allocates env \<Longrightarrow> wf_ser s \<Longrightarrow> no_host_props ps \<Longrightarrow>
     \<exists>u. write_properties env ps n s = Inr (Some (n + of_nat (length ps)), u) \<and> emits s (enc_props ps) u"
proof (induction v and vs and ps arbitrary: s and s and n s rule: enc_enc_list_enc_props.induct)
  case (11 vs)
  have "\<exists>u. WriteValue env (VArray vs) s = Inr (True, u) \<and>
      emits s ([tag_code KBeginDenseJSArray] @ varint_bytes (of_nat (length vs) :: 32 word) @ enc_list vs @
        [tag_code KEndDenseJSArray]) u"
    unfolding WriteValue.simps
    by (intro rbind_emits_flag WriteTag_emits WriteVarint_emits rbind_flag_emits 11)
       (use 11 in \<open>auto dest: emits_wf intro!: tag_true_emits\<close>)
  then show ?case by simp
next
  case (13 ps)
  have fin: "\<exists>u. (let (ok, s) = ThrowIfOutOfMemory t in if \<not> ok then Inr (False, s) else Inr (ThrowIfOutOfMemory s))
      = (Inr (True, u) :: (bool \<times> ValueSerializer) res) \<and> emits t [] u" if "wf_ser t" for t
    using that by (simp add: emits_oom emits_refl)
  have props: "\<exists>u. write_properties env ps 0 t = Inr (Some (of_nat (length ps)), u) \<and> emits t (enc_props ps) u"
    if "wf_ser t" for t
    using 13(1)[of t 0] 13(2,4) that by simp
  have "\<exists>u. WriteValue env (VObject ps) s = Inr (True, u) \<and>
      emits s ([tag_code KBeginJSObject] @ enc_props ps @ [tag_code KEndJSObject] @
        varint_bytes (of_nat (length ps) :: 32 word) @ []) u"
    unfolding WriteValue.simps
    apply (intro rbind_emits_flag[OF WriteTag_emits[OF 13(2,3)]] rbind_some_emits[OF props])
    apply (erule emits_wf)
    apply (simp only: prod.case option.case)
    apply (intro rbind_emits_flag WriteTag_emits WriteVarint_emits 13 fin)
    apply (auto dest: emits_wf)
    done
  then show ?case by simp
next
  case (15 v vs)
  have "\<exists>u. write_elements env (v # vs) s = Inr (True, u) \<and> emits s (enc v @ enc_list vs) u"
    unfolding WriteValue.simps write_elements.simps
    by (intro rbind_flag_emits 15) (use 15 in \<open>auto dest: emits_wf\<close>)
  then show ?case by simp
next
  case (17 k v ps)
  have "\<exists>u. write_properties env ((k, v) # ps) n s = Inr (Some (n + 1 + of_nat (length ps)), u) \<and>
      emits s (enc k @ enc v @ enc_props ps) u"
    unfolding write_properties.simps
    by (intro rbind_flag_emits 17) (use 17 in \<open>auto dest: emits_wf intro!: rbind_flag_emits\<close>)
  then show ?case by (simp add: add.assoc)
qed (simp_all add: emits_refl then_oom WriteTag_emits WriteBoolean_emits WriteUint32_emits WriteInt32_emits
      WriteNumber_emits emits_oom WriteArrayBuffer_emits WriteString_emits WriteTypedArrayObject_emits
      del: if_split)

section \<open>The buffer invariant\<close>

definition buf_inv :: "ValueSerializer \<Rightarrow> bool" where
  "buf_inv s \<longleftrightarrow> length (data (buffer s)) = capacity (buffer s) \<and> bsize (buffer s) \<le> capacity (buffer s)"

text \<open>A write that keeps the invariant, never takes back written bytes and never forgets a failed
  allocation, whatever it returns.\<close>

definition extends :: "ValueSerializer \<Rightarrow> ValueSerializer \<Rightarrow> bool" where
  "extends s t \<longleftrightarrow> (buf_inv s \<longrightarrow> buf_inv t \<and> (\<exists>bs. written t = written s @ bs)) \<and>
     (out_of_memory s \<longrightarrow> out_of_memory t)"

lemma extends_refl: "extends s s"
  by (simp add: extends_def)

lemma extends_trans: "extends s t \<Longrightarrow> extends t u \<Longrightarrow> extends s u"
  by (auto simp: extends_def)

lemma ExpandBuffer_inv:
  assumes "ExpandBuffer env n s = Inr (ok, t)" "buf_inv s"
  shows "buf_inv t \<and> bsize (buffer t) = bsize (buffer s) \<and> (ok \<longrightarrow> n \<le> capacity (buffer t)) \<and>
    written t = written s"
proof -
  let ?new = "if has_delegate env then reallocate env (max n (capacity (buffer s) * 2) + 64)
    else if sys_realloc env (max n (capacity (buffer s) * 2) + 64)
      then Some (max n (capacity (buffer s) * 2) + 64) else None"
  show ?thesis
  proof (cases ?new)
    case None
    then show ?thesis using assms unfolding ExpandBuffer_def Let_def
      by (auto simp: guard_eq_Inr buf_inv_def written_def)
  next
    case (Some c)
    then show ?thesis using assms unfolding ExpandBuffer_def Let_def
      by (auto simp: guard_eq_Inr buf_inv_def written_def)
  qed
qed

lemma ExpandBuffer_oom: "ExpandBuffer env n s = Inr (ok, t) \<Longrightarrow> out_of_memory s \<Longrightarrow> out_of_memory t"
  by (auto simp: ExpandBuffer_def Let_def guard_eq_Inr split: option.splits if_splits)

lemma WriteRawBytes_extends:
  assumes "WriteRawBytes env bs s = Inr t"
  shows "extends s t"
proof -
  let ?n = "bsize (buffer s) + length bs"
  obtain dest v where r: "ReserveRawBytes env (length bs) s = Inr (dest, v)"
    and t0: "(case dest of Some d \<Rightarrow> if length bs > 0
       then Inr (v\<lparr>buffer := (buffer v)\<lparr>data := overwrite d bs (data (buffer v))\<rparr>\<rparr>) else Inr v
     | None \<Rightarrow> Inr v) = (Inr t :: ValueSerializer res)"
    using assms by (auto simp: WriteRawBytes_def rbind_eq_Inr)
  from r obtain x where x: "(if ?n > capacity (buffer s) then ExpandBuffer env ?n s else Inr (True, s)) = Inr x"
    "(case x of (ok, s') \<Rightarrow> if ok then Inr (Some (bsize (buffer s)), s'\<lparr>buffer := (buffer s')\<lparr>bsize := ?n\<rparr>\<rparr>)
       else Inr (None, s')) = (Inr (dest, v) :: (nat option \<times> ValueSerializer) res)"
    unfolding ReserveRawBytes_def Let_def rbind_eq_Inr by blast
  obtain ok u where xu: "x = (ok, u)" by (cases x)
  have u: "(if ?n > capacity (buffer s) then ExpandBuffer env ?n s else Inr (True, s)) = Inr (ok, u)"
    using x(1) xu by simp
  have t: "t = (if ok \<and> bs \<noteq> [] then u\<lparr>buffer := (buffer u)\<lparr>bsize := ?n,
        data := overwrite (bsize (buffer s)) bs (data (buffer u))\<rparr>\<rparr>
      else if ok then u\<lparr>buffer := (buffer u)\<lparr>bsize := ?n\<rparr>\<rparr> else u)"
    using t0 x(2) xu by (cases ok; cases bs) auto
  have oom: "out_of_memory s \<longrightarrow> out_of_memory t"
    using u t ExpandBuffer_oom by (auto split: if_splits)
  have "buf_inv t \<and> (\<exists>bs. written t = written s @ bs)" if "buf_inv s"
  proof -
    have i: "buf_inv u \<and> bsize (buffer u) = bsize (buffer s) \<and> (ok \<longrightarrow> ?n \<le> capacity (buffer u)) \<and>
        written u = written s"
      using u ExpandBuffer_inv[OF _ that] that by (auto split: if_splits)
    then show ?thesis
      using t by (auto simp: buf_inv_def written_def overwrite_def split: if_splits)
  qed
  then show ?thesis using oom by (simp add: extends_def)
qed

lemma ThrowIfOutOfMemory_extends: "ThrowIfOutOfMemory s = (ok, t) \<Longrightarrow> extends s t"
  by (auto simp: ThrowIfOutOfMemory_def ThrowDataCloneError_def extends_def buf_inv_def written_def
      split: if_splits)

lemma WriteTag_extends: "WriteTag env tag s = Inr t \<Longrightarrow> extends s t"
  by (simp add: WriteTag_def WriteRawBytes_extends)

lemma WriteVarint_extends: "WriteVarint env v s = Inr t \<Longrightarrow> extends s t"
  by (simp add: WriteVarint_def WriteRawBytes_extends)

definition grows :: "ValueSerializer \<Rightarrow> ValueSerializer res \<Rightarrow> bool" where
  "grows s m \<longleftrightarrow> (\<forall>t. m = Inr t \<longrightarrow> extends s t)"

definition grows2 :: "ValueSerializer \<Rightarrow> ('r \<times> ValueSerializer) res \<Rightarrow> bool" where
  "grows2 s m \<longleftrightarrow> (\<forall>r t. m = Inr (r, t) \<longrightarrow> extends s t)"

lemma grows_rbind: "grows s m \<Longrightarrow> (\<And>t. grows t (f t)) \<Longrightarrow> grows s (rbind m f)"
  by (auto simp: grows_def rbind_eq_Inr intro: extends_trans)

lemma grows2_rbind: "grows s m \<Longrightarrow> (\<And>t. grows2 t (f t)) \<Longrightarrow> grows2 s (rbind m f)"
  by (auto simp: grows_def grows2_def rbind_eq_Inr) (metis extends_trans)

lemma grows_rbind2: "grows2 s m \<Longrightarrow> (\<And>r t. grows t (f (r, t))) \<Longrightarrow> grows s (rbind m f)"
  by (auto simp: grows_def grows2_def rbind_eq_Inr intro: extends_trans)

lemma grows2_rbind2: "grows2 s m \<Longrightarrow> (\<And>r t. grows2 t (f (r, t))) \<Longrightarrow> grows2 s (rbind m f)"
  by (auto simp: grows2_def rbind_eq_Inr) (metis extends_trans)

lemma grows_guard: "grows s m \<Longrightarrow> grows s (guard e b m)" "grows2 s m' \<Longrightarrow> grows2 s (guard e b m')"
  by (auto simp: grows_def grows2_def guard_eq_Inr)

lemma grows_Inr: "grows s (Inr s)" "grows2 s (Inr (r, s))"
  by (auto simp: grows_def grows2_def extends_refl)

lemma grows_Inl: "grows s (Inl e)" "grows2 s (Inl e)"
  by (auto simp: grows_def grows2_def)

lemma grows_oom: "grows2 s (Inr (ThrowIfOutOfMemory s))"
  by (auto simp: grows2_def dest: ThrowIfOutOfMemory_extends)

lemma grows_if: "grows s x \<Longrightarrow> grows s y \<Longrightarrow> grows s (if b then x else y)"
  "grows2 s x' \<Longrightarrow> grows2 s y' \<Longrightarrow> grows2 s (if b then x' else y')"
  by auto

lemma grows_prims: "grows s (WriteTag env tag s)" "grows s (WriteVarint env v s)" "grows s (WriteRawBytes env bs s)"
  by (auto simp: grows_def WriteTag_extends WriteVarint_extends WriteRawBytes_extends)

lemmas grows_intros = grows_if grows_rbind2 grows2_rbind2 grows_rbind grows2_rbind grows_guard grows_Inr
  grows_Inl grows_oom grows_prims

lemma grows_scalars:
  "grows2 s (WriteUint32 env v s)" "grows2 s (WriteInt32 env v s)" "grows2 s (WriteNumber env w s)"
  "grows2 s (WriteBoolean env b s)" "grows s (WriteString env b us s)" "grows2 s (WriteArrayBuffer env bs s)"
  "grows2 s (WriteArrayBufferView env k off len s)"
  unfolding WriteUint32_def WriteInt32_def WriteNumber_def WriteBoolean_def WriteString_def
    WriteArrayBuffer_def WriteArrayBufferView_def WriteZigZag_def
  by (intro grows_intros)+

lemma grows_typed: "grows2 s (WriteTypedArrayObject env k buf off len s)"
  unfolding WriteTypedArrayObject_def
  by (rule grows2_rbind2, rule grows_scalars) (auto intro: grows_scalars grows_intros)

lemma grows_foldM: "(\<And>i t. grows t (f i t)) \<Longrightarrow> grows s (foldM f is s)"
  by (induction "is" arbitrary: s) (auto intro: grows_intros)

lemma grows_host: "grows2 s (WriteHostObject env h s)"
  unfolding WriteHostObject_def
  by (intro grows2_rbind grows_prims grows_if grows_Inl grows_foldM grows_guard grows_oom grows_rbind2 grows_scalars)
     (auto intro: grows_Inr)

lemma grows_let_oom:
  "grows2 t (let (ok, s) = ThrowIfOutOfMemory t in if \<not> ok then Inr (False, s) else Inr (ThrowIfOutOfMemory s))"
proof -
  obtain ok u where u: "ThrowIfOutOfMemory t = (ok, u)" by (cases "ThrowIfOutOfMemory t")
  then show ?thesis
    using ThrowIfOutOfMemory_extends[OF u] ThrowIfOutOfMemory_extends[of u] extends_trans
    by (auto simp: grows2_def split: if_splits)
qed

lemma grows_WriteValue:
  "grows2 s (WriteValue env v s)"
  "grows2 s (write_elements env vs s)"
  "grows2 s (write_properties env ps n s)"
proof (induction v and vs and ps arbitrary: s and s and n s rule: enc_enc_list_enc_props.induct)
  case (11 vs)
  show ?case unfolding WriteValue.simps
    by (intro grows2_rbind grows_prims grows2_rbind2 11) (auto intro: grows_intros)
next
  case (12 h)
  show ?case unfolding WriteValue.simps
    by (intro grows2_rbind2 grows_host) (auto intro: grows_intros)
next
  case (13 ps)
  show ?case unfolding WriteValue.simps
    by (intro grows2_rbind grows_prims grows2_rbind2 13)
       (auto split: option.split intro!: grows2_rbind grows_prims grows_Inr grows_let_oom[unfolded Let_def])
next
  case (15 v vs)
  show ?case unfolding write_elements.simps
    by (intro grows2_rbind2 15) (auto intro: grows_intros 15)
next
  case (17 k v ps)
  show ?case unfolding write_properties.simps
    by (intro grows2_rbind2 17, simp only: prod.case, intro grows_if grows_Inr grows2_rbind2 17)
       (auto intro: grows_intros 17)
qed (auto intro: grows_scalars grows_typed grows_intros)

end
