(* ===== verification/SerialReader.thy ===== *)
theory SerialReader
  imports SerialWriter
begin

text \<open>
  What \<^verbatim>\<open>ReadValue\<close> makes of the bytes \<open>enc v\<close>, and why its recursion ends on any bytes.
  \<open>portable\<close> are the values that survive the trip, \<open>canon\<close> is what they come back as.
\<close>

section \<open>What the reader does with it\<close>

function canon :: "'h environment \<Rightarrow> 'h jsval \<Rightarrow> 'h jsval" 
  and canon_list :: "'h environment \<Rightarrow> 'h jsval list \<Rightarrow> 'h jsval list"
  and canon_props :: "'h environment \<Rightarrow> ('h jsval \<times> 'h jsval) list \<Rightarrow> ('h jsval \<times> 'h jsval) list" where
  "canon env (VString b us) = VString (has8bit env us) us"
| "canon env (VTyped k buf off len) = VTyped k (view_bytes k buf off len) off len"
| "canon env (VArray vs) = VArray (canon_list env vs)"
| "canon env (VObject ps) = VObject (canon_props env ps)"
| "canon env VUndefined = VUndefined"
| "canon env VNull = VNull"
| "canon env (VBool b) = VBool b"
| "canon env (VUint32 v) = VUint32 v"
| "canon env (VInt32 v) = VInt32 v"
| "canon env (VNumber v) = VNumber v"
| "canon env VUnimplemented = VUnimplemented"
| "canon env (VArrayBuffer bs) = VArrayBuffer bs"
| "canon env (VHost h) = VHost h"
| "canon_list env [] = []"
| "canon_list env (v # vs) = canon env v # canon_list env vs"
| "canon_props env [] = []"
| "canon_props env ((k, v) # ps) = (canon env k, canon env v) # canon_props env ps"
  by pat_completeness auto
termination
  by (relation "measure (case_sum (\<lambda>(e, v). size v) (case_sum (\<lambda>(e, vs). size_list size vs)
    (\<lambda>(e, ps). size_list (size_prod size size) ps)))") auto

function portable :: "'h environment \<Rightarrow> 'h jsval \<Rightarrow> bool"
  and portable_list :: "'h environment \<Rightarrow> 'h jsval list \<Rightarrow> bool"
  and portable_props :: "'h environment \<Rightarrow> ('h jsval \<times> 'h jsval) list \<Rightarrow> bool" where
  "portable env (VNumber v) = (\<not> isnan v)"
| "portable env (VArrayBuffer bs) = (length bs < 2 ^ 32)"
| "portable env (VString b us) = (length us < 2 ^ 32 \<and> (b \<longrightarrow> (\<forall>u \<in> set us. u < 128)))"
| "portable env (VTyped k buf off len) = (off < 2 ^ 32 \<and> len < 2 ^ 32 \<and> length (view_bytes k buf off len) < 2 ^ 32)"
| "portable env (VArray vs) = (length vs < 2 ^ 32 \<and> portable_list env vs)"
| "portable env (VObject ps) = (length ps < 2 ^ 32 \<and> portable_props env ps)"
| "portable env VUnimplemented = False"
| "portable env (VHost h) = False"
| "portable env VUndefined = True"
| "portable env VNull = True"
| "portable env (VBool b) = True"
| "portable env (VUint32 v) = True"
| "portable env (VInt32 v) = True"
| "portable_list env [] = True"
| "portable_list env (v # vs) = (portable env v \<and> portable_list env vs)"
| "portable_props env [] = True"
| "portable_props env ((k, v) # ps) =
     (portable env k \<and> \<not> isUndefinedOrNull k \<and> canon env k \<notin> fst ` set (canon_props env ps) \<and> portable env v \<and> portable_props env ps)"
  by pat_completeness auto
termination
  by (relation "measure (case_sum (\<lambda>(e, v). size v) (case_sum (\<lambda>(e, vs). size_list size vs)
    (\<lambda>(e, ps). size_list (size_prod size size) ps)))") auto

definition good_host :: "'h environment \<Rightarrow> bool" where
  "good_host env \<longleftrightarrow> (\<forall>bs. (\<forall>b \<in> set bs. b < 128) \<longrightarrow> from_utf8 env bs = map ucast bs) \<and>
     (\<forall>us. from_utf16 env us = us) \<and> (\<forall>n. allocate_buffer env n)"

definition next_ok :: "byte list \<Rightarrow> nat \<Rightarrow> bool" where
  "next_ok d e \<longleftrightarrow> e < length d \<and> d ! e \<noteq> tag_code KPadding \<and> d ! e \<noteq> tag_code KArrayBufferView"

definition has_payload :: "'h jsval \<Rightarrow> bool" where
  "has_payload v = (case v of VString b us \<Rightarrow> us \<noteq> [] | VArrayBuffer bs \<Rightarrow> bs \<noteq> [] | _ \<Rightarrow> True)"

definition stops :: "byte list \<Rightarrow> 'h jsval \<Rightarrow> nat \<Rightarrow> bool" where
  "stops d v e \<longleftrightarrow> next_ok d e \<or> e = length d \<and> has_payload v"

lemma ReadTag_here: "here d pos (b # bs) \<Longrightarrow> b \<noteq> tag_code KPadding \<Longrightarrow> ReadTag d pos = (True, Some b, pos + 1)"
  unfolding ReadTag_def by (subst read_tag_loop.simps) (simp add: here_Cons isOverflow_def)

lemma CheckTag_here:
  "here d pos (b # bs) \<Longrightarrow> b \<noteq> tag_code KPadding \<Longrightarrow> CheckTag d pos t = Inr (b = tag_code t)"
  unfolding CheckTag_def by (subst check_tag_loop.simps) (simp add: here_Cons isOverflow_def)

lemma CheckTag_next: "next_ok d pos \<Longrightarrow> CheckTag d pos KArrayBufferView = Inr False"
  unfolding CheckTag_def by (subst check_tag_loop.simps) (simp add: next_ok_def isOverflow_def)

lemma CheckTag_end: "pos = length d \<Longrightarrow> CheckTag d pos t = Inr False"
  unfolding CheckTag_def by (subst check_tag_loop.simps) (simp add: isOverflow_def)

lemma ReadRawBytes_here:
  assumes "here d pos bs" "pos < length d" "length d < size_max"
  shows "ReadRawBytes d pos (length bs) = Inr (Some bs, pos + length bs)"
  using assms here_bound[OF assms(1)] here_take[OF assms(1)]
  by (simp add: ReadRawBytes_def sub64_exact currentPositionAddress_def isOverflow_def)

lemma ReadDouble_here:
  assumes "here d pos (le_bytes 8 v)" "length d < size_max" "\<not> isnan v"
  shows "ReadDouble d pos = Inr (Some v, pos + 8)"
proof -
  have b: "pos + 8 \<le> length d" using here_bound[OF assms(1)] by simp
  then have "sub64 (length d) 8 = length d - 8" using assms(2) by (intro sub64_exact) auto
  moreover have "take 8 (drop pos d) = le_bytes 8 v" using here_take[OF assms(1)] by simp
  ultimately show ?thesis
    using b assms(3)
    by (simp add: ReadDouble_def currentPositionAddress_def isOverflow_def from_le_double Let_def del: le_bytes.simps)
qed

lemma kind_of_view_tag_code [simp]: "kind_of_view_tag (view_tag_code k) = Some k"
  by (cases k) (simp_all add: view_tag_code_def of_char_byte_inj)

lemma small_of_nat: "n < 2 ^ 32 \<Longrightarrow> unat (of_nat n :: 32 word) = n"
  by (simp add: unat_of_nat take_bit_nat_eq_self flip: take_bit_eq_mod)

lemma ReadOneByteString_raw:
  assumes h: "here d pos (varint_bytes (of_nat (length bs) :: 32 word) @ bs)"
    and "length bs < 2 ^ 32" "length d < size_max"
    and e: "pos + length (varint_bytes (of_nat (length bs) :: 32 word)) < length d"
  shows "ReadOneByteString env d pos = Inr (Some (make_string env (from_utf8 env bs)),
    pos + length (varint_bytes (of_nat (length bs) :: 32 word)) + length bs)"
proof -
  let ?p = "pos + length (varint_bytes (of_nat (length bs) :: 32 word))"
  have v: "ReadVarint d pos = (Some (of_nat (length bs) :: 32 word), ?p)"
    using h by (intro ReadVarint_here) (simp add: here_append)
  have "ReadRawBytes d ?p (length bs) = Inr (Some bs, ?p + length bs)"
    using h ReadRawBytes_here[of d ?p bs] e assms(3) by (simp add: here_append)
  then show ?thesis using v assms(2) by (simp add: ReadOneByteString_def small_of_nat)
qed

lemma ReadOneByteString_here:
  assumes "here d pos (varint_bytes (of_nat (length us) :: 32 word) @ map ucast us)"
    and "length us < 2 ^ 32" "\<forall>u \<in> set us. u < 128" "good_host env" "length d < size_max"
    and "pos + length (varint_bytes (of_nat (length us) :: 32 word)) < length d"
  shows "ReadOneByteString env d pos = Inr (Some (VString (has8bit env us) us),
    pos + length (varint_bytes (of_nat (length us) :: 32 word)) + length us)"
proof -
  have lt: "(ucast u :: byte) < 128 \<and> (ucast (ucast u :: byte) :: unit16) = u" if "u \<in> set us" for u
  proof -
    have n: "unat u < 128" using assms(3) that by (auto simp: word_less_nat_alt)
    then have "unat (ucast u :: byte) = unat u" by (simp add: take_bit_nat_eq_self unsigned_ucast_eq unsigned_take_bit_eq)
    then show ?thesis using n by (auto simp: word_less_nat_alt word_unat_eq_iff unsigned_take_bit_eq unsigned_ucast_eq take_bit_nat_eq_self)
  qed
  have "from_utf8 env (map ucast us) = us"
    using assms(4) lt by (auto simp: good_host_def comp_def intro: map_idI)
  then show ?thesis using ReadOneByteString_raw[of d pos "map ucast us" env] assms by (simp add: make_string_def)
qed

lemma ReadTwoByteString_here:
  assumes h: "here d pos (varint_bytes (of_nat (length us) :: 32 word) @ concat (map (le_bytes 2) us))"
    and "length us < 2 ^ 32" "good_host env" "length d < size_max"
    and e: "pos + length (varint_bytes (of_nat (length us) :: 32 word)) < length d"
  shows "ReadTwoByteString env d pos = Inr (Some (VString (has8bit env us) us),
    pos + length (varint_bytes (of_nat (length us) :: 32 word)) + length us * 2)"
proof -
  let ?p = "pos + length (varint_bytes (of_nat (length us) :: 32 word))"
  have l: "length (concat (map (le_bytes 2) us)) = length us * 2"
    by (induction us) auto
  have v: "ReadVarint d pos = (Some (of_nat (length us) :: 32 word), ?p)"
    using h by (intro ReadVarint_here) (simp add: here_append)
  have "ReadRawBytes d ?p (length us * 2) = Inr (Some (concat (map (le_bytes 2) us)), ?p + length us * 2)"
    using h ReadRawBytes_here[of d ?p "concat (map (le_bytes 2) us)"] e assms(4) l by (simp add: here_append)
  then show ?thesis
    using v assms(2,3) by (simp add: ReadTwoByteString_def small_of_nat make_string_def units_of_le good_host_def)
qed

lemma ReadArrayBuffer_here:
  assumes h: "here d pos (varint_bytes (of_nat (length bs) :: 32 word) @ bs)"
    and "length bs < 2 ^ 32" "good_host env" "length d < size_max"
    and e: "pos + length (varint_bytes (of_nat (length bs) :: 32 word)) < length d"
  shows "ReadArrayBuffer env d pos = Inr (Some bs, pos + length (varint_bytes (of_nat (length bs) :: 32 word)) + length bs)"
proof -
  let ?p = "pos + length (varint_bytes (of_nat (length bs) :: 32 word))"
  have v: "ReadVarint d pos = (Some (of_nat (length bs) :: 32 word), ?p)"
    using h by (intro ReadVarint_here) (simp add: here_append)
  have "ReadRawBytes d ?p (length bs) = Inr (Some bs, ?p + length bs)"
    using h ReadRawBytes_here[of d ?p bs] e assms(4) by (simp add: here_append)
  then show ?thesis
    using v assms(2,3) by (simp add: ReadArrayBuffer_def small_of_nat good_host_def)
qed

lemma ReadArrayBufferView_here:
  assumes h: "here d pos (varint_bytes (view_tag_code k) @ varint_bytes (of_nat off :: 32 word) @
      varint_bytes (of_nat len :: 32 word))"
    and "off < 2 ^ 32" "len < 2 ^ 32"
  shows "ReadArrayBufferView bs d pos = (Some (VTyped k bs off len), pos + length (varint_bytes (view_tag_code k)) +
    length (varint_bytes (of_nat off :: 32 word)) + length (varint_bytes (of_nat len :: 32 word)))"
proof -
  let ?p = "pos + length (varint_bytes (view_tag_code k))"
  let ?q = "?p + length (varint_bytes (of_nat off :: 32 word))"
  have "ReadVarint d pos = (Some (view_tag_code k), ?p)"
    "ReadVarint d ?p = (Some (of_nat off :: 32 word), ?q)"
    "ReadVarint d ?q = (Some (of_nat len :: 32 word), ?q + length (varint_bytes (of_nat len :: 32 word)))"
    using h by (intro ReadVarint_here, simp add: here_append add.assoc)+
  then show ?thesis
    using assms(2,3) by (simp add: ReadArrayBufferView_def small_of_nat createView_def del: kind_of_view_tag.simps)
qed

lemma enc_head:
  "portable env v \<Longrightarrow> \<exists>t bs. enc v = tag_code t # bs \<and> t \<notin> {KPadding, KArrayBufferView, KEndJSObject}"
  by (cases v) (auto simp: buffer_bytes_def string_bytes_def)

lemma here_next_ok: "here d pos (tag_code t # bs) \<Longrightarrow> t \<notin> {KPadding, KArrayBufferView} \<Longrightarrow> next_ok d pos"
  by (simp add: here_Cons next_ok_def)

lemma enc_next_ok: "portable env v \<Longrightarrow> here d pos (enc v) \<Longrightarrow> next_ok d pos"
  using enc_head[of env v] here_next_ok by fastforce

lemma canon_null: "isUndefinedOrNull (canon env v) = isUndefinedOrNull v"
  by (cases v) (auto simp: isUndefinedOrNull_def)

lemma update_new: "k \<notin> fst ` set ps \<Longrightarrow> AList.update k v ps = ps @ [(k, v)]"
  by (induction ps) auto

lemma enc_length_pos: "portable env v \<Longrightarrow> 0 < length (enc v)"
  using enc_head[of env v] by fastforce

lemma stops_bound: "stops d v e \<Longrightarrow> has_payload v \<or> e < length d"
  by (auto simp: stops_def next_ok_def)

lemma length_concat_le [simp]: "length (concat (map (le_bytes 2) us)) = length us * 2"
  by (induction us) auto

lemma read_string:
  assumes "good_host env" "length d < size_max" "portable env (VString b us)"
    "here d pos (enc (VString b us))" "stops d (VString b us) (pos + length (enc (VString b us)))"
  shows "ReadValue_fuel env d (Suc n) pos = Inr (Some (canon env (VString b us)), pos + length (enc (VString b us)))"
proof -
  let ?v = "varint_bytes (of_nat (length us) :: 32 word)"
  have e: "pos + 1 + length ?v < length d"
    using stops_bound[OF assms(5)] here_bound[OF assms(4)]
    by (cases b; cases us) (auto simp: string_bytes_def has_payload_def)
  show ?thesis
  proof (cases b)
    case True
    then have h: "here d pos (tag_code KOneByteString # ?v @ map ucast us)" using assms(4) by (simp add: string_bytes_def)
    then show ?thesis
      using ReadOneByteString_here[of d "pos + 1" us env] assms e True
      by (simp add: ReadTag_here[OF h] here_Cons string_bytes_def)
  next
    case False
    then have h: "here d pos (tag_code KTwoByteString # ?v @ concat (map (le_bytes 2) us))"
      using assms(4) by (simp add: string_bytes_def)
    then show ?thesis
      using ReadTwoByteString_here[of d "pos + 1" us env] assms e False
      by (simp add: ReadTag_here[OF h] here_Cons string_bytes_def)
  qed
qed

lemma read_buffer:
  assumes "good_host env" "length d < size_max" "portable env (VArrayBuffer bs)"
    "here d pos (enc (VArrayBuffer bs))" "stops d (VArrayBuffer bs) (pos + length (enc (VArrayBuffer bs)))"
  shows "ReadValue_fuel env d (Suc n) pos = Inr (Some (VArrayBuffer bs), pos + length (enc (VArrayBuffer bs)))"
proof -
  let ?v = "varint_bytes (of_nat (length bs) :: 32 word)"
  have e: "pos + 1 + length ?v < length d"
    using stops_bound[OF assms(5)] here_bound[OF assms(4)]
    by (cases bs) (auto simp: buffer_bytes_def has_payload_def)
  have h: "here d pos (tag_code KArrayBuffer # ?v @ bs)" using assms(4) by (simp add: buffer_bytes_def)
  then have r: "ReadArrayBuffer env d (pos + 1) = Inr (Some bs, pos + 1 + length ?v + length bs)"
    using ReadArrayBuffer_here[of d "pos + 1" bs env] assms e by (simp add: here_Cons)
  have "CheckTag d (pos + 1 + length ?v + length bs) KArrayBufferView = Inr False"
    using assms(5) CheckTag_next CheckTag_end by (auto simp: stops_def buffer_bytes_def add.assoc)
  then show ?thesis using r by (simp add: ReadTag_here[OF h] ReadJsArrayBuffer_def buffer_bytes_def)
qed

lemma read_typed:
  assumes "good_host env" "length d < size_max" "portable env (VTyped k buf off len)"
    "here d pos (enc (VTyped k buf off len))"
  shows "ReadValue_fuel env d (Suc n) pos =
    Inr (Some (canon env (VTyped k buf off len)), pos + length (enc (VTyped k buf off len)))"
proof -
  let ?bs = "view_bytes k buf off len"
  let ?v = "varint_bytes (of_nat (length ?bs) :: 32 word)"
  let ?p = "pos + 1 + length ?v + length ?bs"
  have h: "here d pos (tag_code KArrayBuffer # ?v @ ?bs @ view_header k off len)"
    using assms(4) by (simp add: buffer_bytes_def)
  then have hv: "here d ?p (tag_code KArrayBufferView # varint_bytes (view_tag_code k) @
     varint_bytes (of_nat off :: 32 word) @ varint_bytes (of_nat len :: 32 word))"
    by (simp add: here_Cons here_append view_header_def add.assoc)
  have e: "pos + 1 + length ?v < length d"
    using here_bound[OF h] by (simp add: view_header_def)
  have r: "ReadArrayBuffer env d (pos + 1) = Inr (Some ?bs, ?p)"
    using ReadArrayBuffer_here[of d "pos + 1" ?bs env] assms e h by (simp add: here_Cons here_append add.assoc)
  have view: "ReadArrayBufferView ?bs d (?p + 1) = (Some (VTyped k ?bs off len), ?p + length (view_header k off len))"
    using ReadArrayBufferView_here[of d "?p + 1" k off len ?bs] hv assms(3)
    by (simp add: here_Cons view_header_def add.assoc)
  have "ReadTag d ?p = (True, Some (tag_code KArrayBufferView), ?p + 1)"
    "CheckTag d ?p KArrayBufferView = Inr True"
    using hv by (simp_all add: ReadTag_here CheckTag_here)
  then have "ReadJsArrayBuffer env d (pos + 1) =
      Inr (Some (VTyped k ?bs off len), ?p + length (view_header k off len))"
    unfolding ReadJsArrayBuffer_def r rbind_Inr prod.case option.case using view by simp
  then show ?thesis by (simp add: ReadTag_here[OF h] buffer_bytes_def add.assoc)
qed

lemma ReadZigZag_here:
  "here d pos (varint_bytes (zigzag v)) \<Longrightarrow> ReadZigZag d pos = (Some v, pos + length (varint_bytes (zigzag v)))"
  by (simp add: ReadZigZag_def ReadVarint_here unzigzag_zigzag)

lemma read_leaf:
  assumes "portable env v" "good_host env" "length d < size_max" "here d pos (enc v)"
    "stops d v (pos + length (enc v))" "length (enc v) \<le> n"
    "\<And>vs. v \<noteq> VArray vs" "\<And>ps. v \<noteq> VObject ps"
  shows "ReadValue_fuel env d n pos = Inr (Some (canon env v), pos + length (enc v))"
proof -
  obtain t bs where t: "enc v = tag_code t # bs" "t \<notin> {KPadding, KArrayBufferView, KEndJSObject}"
    using enc_head[OF assms(1)] by blast
  obtain m where m: "n = Suc m" using assms(6) t(1) by (cases n) auto
  have r: "ReadTag d pos = (True, Some (tag_code t), pos + 1)"
    using ReadTag_here[of d pos "tag_code t" bs] assms(4) t by simp
  have h: "here d (pos + 1) bs" using assms(4) t(1) by (simp add: here_Cons)
  show ?thesis
  proof (cases v)
    case (VUint32 w)
    then show ?thesis using t(1) r h m by (auto simp: ReadVarint_here)
  next
    case (VInt32 w)
    then show ?thesis using t(1) r h m by (auto simp: ReadZigZag_here)
  next
    case (VNumber w)
    then show ?thesis using t(1) r h m assms(1,3) by (auto simp: ReadDouble_here simp del: le_bytes.simps)
  next
    case (VArrayBuffer bs)
    then show ?thesis using read_buffer[of env d bs pos m] assms m by simp
  next
    case (VString b us)
    then show ?thesis using read_string[of env d b us pos m] assms m by simp
  next
    case (VTyped k buf off len)
    then show ?thesis using read_typed[of env d k buf off len pos m] assms m by simp
  qed (use t(1) r m assms in \<open>auto split: if_splits\<close>)
qed

lemma array_step:
  assumes "good_host env" "length d < size_max"
    and IH: "\<And>d pos n. \<lbrakk>length d < size_max; here d pos (enc v); stops d v (pos + length (enc v)); length (enc v) \<le> n\<rbrakk> \<Longrightarrow>
      ReadValue_fuel env d n pos = Inr (Some (canon env v), pos + length (enc v))"
    and h: "here d pos (enc v @ enc_list vs @ [tag_code KEndDenseJSArray])"
    and p: "portable env v" "portable_list env vs" and n: "length (enc v) \<le> n"
  shows "ReadValue_fuel env d n pos = Inr (Some (canon env v), pos + length (enc v))"
proof -
  have "next_ok d (pos + length (enc v))"
  proof (cases vs)
    case Nil
    then show ?thesis using h by (auto simp: here_append intro: here_next_ok)
  next
    case (Cons w ws)
    then show ?thesis using h p enc_next_ok[of env w d] by (auto simp: here_append)
  qed
  then show ?thesis using IH[of d pos n] h assms(2) n by (simp add: here_append stops_def)
qed

lemma ReadValue_enc:
  "portable env v \<Longrightarrow> good_host env \<Longrightarrow> length d < size_max \<Longrightarrow> here d pos (enc v) \<Longrightarrow>
     stops d v (pos + length (enc v)) \<Longrightarrow> length (enc v) \<le> n \<Longrightarrow>
   ReadValue_fuel env d n pos = Inr (Some (canon env v), pos + length (enc v))"
  "portable_list env vs \<Longrightarrow> good_host env \<Longrightarrow> length d < size_max \<Longrightarrow>
     here d pos (enc_list vs @ [tag_code KEndDenseJSArray]) \<Longrightarrow> length (enc_list vs) + 1 \<le> n \<Longrightarrow>
   ReadJsArray env d n pos (length vs) acc =
     Inr (Some (VArray (acc @ canon_list env vs)), pos + length (enc_list vs) + 1)"
  "portable_props env ps \<Longrightarrow> good_host env \<Longrightarrow> length d < size_max \<Longrightarrow>
     here d pos (enc_props ps @ tag_code KEndJSObject # varint_bytes (of_nat (c + length ps) :: 32 word)) \<Longrightarrow>
     c + length ps < 2 ^ 32 \<Longrightarrow>
     fst ` set obj \<inter> fst ` set (canon_props env ps) = {} \<Longrightarrow> length (enc_props ps) + 1 \<le> n \<Longrightarrow>
   ReadObject env d n pos obj c = Inr (Some (VObject (obj @ canon_props env ps)),
     pos + length (enc_props ps) + 1 + length (varint_bytes (of_nat (c + length ps) :: 32 word)))"
proof (induction v and vs and ps arbitrary: d pos n and d pos n acc and d pos n obj c
    rule: enc_enc_list_enc_props.induct)
  case (11 vs)
  obtain m where m: "n = Suc m" using 11(7) by (cases n) auto
  let ?v = "varint_bytes (of_nat (length vs) :: 32 word)"
  have h: "here d pos (tag_code KBeginDenseJSArray # ?v @ enc_list vs @ [tag_code KEndDenseJSArray])"
    using 11(5) by simp
  then have v: "ReadVarint d (pos + 1) = (Some (of_nat (length vs) :: 32 word), pos + 1 + length ?v)"
    by (intro ReadVarint_here) (simp add: here_Cons here_append)
  have "ReadJsArray env d m (pos + 1 + length ?v) (length vs) [] =
      Inr (Some (VArray ([] @ canon_list env vs)), pos + 1 + length ?v + length (enc_list vs) + 1)"
    using 11 h m by (intro 11(1)) (auto simp: here_Cons here_append add.assoc)
  then show ?case using h v m 11(2) by (simp add: ReadTag_here small_of_nat)
next
  case (13 ps)
  obtain m where m: "n = Suc m" using 13(7) by (cases n) auto
  have h: "here d pos (tag_code KBeginJSObject # enc_props ps @
      tag_code KEndJSObject # varint_bytes (of_nat (length ps) :: 32 word))"
    using 13(5) by simp
  have "ReadObject env d m (pos + 1) [] 0 = Inr (Some (VObject ([] @ canon_props env ps)),
      pos + 1 + length (enc_props ps) + 1 + length (varint_bytes (of_nat (0 + length ps) :: 32 word)))"
    using 13 h m by (intro 13(1)) (auto simp: here_Cons)
  then show ?case using h m by (simp add: ReadTag_here)
next
  case 14
  obtain m where m: "n = Suc m" using 14(5) by (cases n) auto
  show ?case using 14 m by (simp add: ReadTag_here)
next
  case (15 v vs)
  obtain m where m: "n = Suc m" using 15(7) by (cases n) auto
  have pos: "0 < length (enc v)" using 15(3) enc_length_pos by auto
  have le: "Suc (length (enc_list vs)) \<le> m" using 15(7) pos unfolding m enc_list.simps length_append by linarith
  have 1: "ReadValue_fuel env d m pos = Inr (Some (canon env v), pos + length (enc v))"
    using 15 m by (intro array_step[of env d v pos vs m]) auto
  have "ReadJsArray env d m (pos + length (enc v)) (length vs) (acc @ [canon env v]) =
      Inr (Some (VArray ((acc @ [canon env v]) @ canon_list env vs)),
        pos + length (enc v) + length (enc_list vs) + 1)"
    using 15 le by (intro 15(2)) (auto simp: here_append)
  then show ?case using 1 m by simp
next
  case 16
  obtain m where m: "n = Suc m" using 16(7) by (cases n) auto
  have h: "here d pos (tag_code KEndJSObject # varint_bytes (of_nat c :: 32 word))" using 16(4) by simp
  then have "ReadVarint d (pos + 1) = (Some (of_nat c :: 32 word), pos + 1 + length (varint_bytes (of_nat c :: 32 word)))"
    by (intro ReadVarint_here) (simp add: here_Cons)
  then show ?case using h m 16(5) by (simp add: CheckTag_here[OF h] ReadTag_here[OF h] small_of_nat)
next
  case (17 k v ps)
  obtain m where m: "n = Suc m" using 17(10) by (cases n) auto
  have pk: "portable env k" "portable env v" "portable_props env ps" "\<not> isUndefinedOrNull k"
    "canon env k \<notin> fst ` set (canon_props env ps)" using 17(4) by auto
  let ?e = "tag_code KEndJSObject # varint_bytes (of_nat (c + length ((k, v) # ps)) :: 32 word)"
  have h: "here d pos (enc k)" "here d (pos + length (enc k)) (enc v)"
    "here d (pos + length (enc k) + length (enc v)) (enc_props ps @ ?e)"
    using 17(7) by (simp_all add: here_append add.assoc)
  have n3: "next_ok d (pos + length (enc k) + length (enc v))"
  proof (cases ps)
    case Nil
    then show ?thesis using h(3) by (auto intro: here_next_ok)
  next
    case (Cons q qs)
    obtain k' v' where "q = (k', v')" by (cases q)
    then show ?thesis using h(3) pk(3) enc_next_ok[of env k' d] Cons by (auto simp: here_append)
  qed
  have n2: "next_ok d (pos + length (enc k))" using enc_next_ok pk(2) h(2) by blast
  obtain t bs where t: "enc k = tag_code t # bs" "t \<notin> {KPadding, KArrayBufferView, KEndJSObject}"
    using enc_head[OF pk(1)] by blast
  have chk: "CheckTag d pos KEndJSObject = Inr False" using h(1) t by (simp add: CheckTag_here)
  have len: "length (enc k) \<le> m" "length (enc v) \<le> m" using 17(10) m by auto
  have r1: "ReadValue_fuel env d m pos = Inr (Some (canon env k), pos + length (enc k))"
    using 17(1)[OF pk(1) 17(5,6) h(1) _ len(1)] n2 by (simp add: stops_def)
  have r2: "ReadValue_fuel env d m (pos + length (enc k)) = Inr (Some (canon env v), pos + length (enc k) + length (enc v))"
    using 17(2)[OF pk(2) 17(5,6) h(2) _ len(2)] n3 by (simp add: stops_def)
  have new: "canon env k \<notin> fst ` set obj" using 17(9) by auto
  have r3: "ReadObject env d m (pos + length (enc k) + length (enc v)) (obj @ [(canon env k, canon env v)]) (c + 1) =
      Inr (Some (VObject ((obj @ [(canon env k, canon env v)]) @ canon_props env ps)),
       pos + length (enc k) + length (enc v) + length (enc_props ps) + 1 +
         length (varint_bytes (of_nat (c + 1 + length ps) :: 32 word)))"
    using 17(5,6,8,9,10) pk h(3) m t by (intro 17(3)) auto
  show ?case
    using m chk r1 r2 r3 new pk(4) by (simp add: canon_null setProperty_def update_new)
qed (simp_all only: read_leaf jsval.simps not_False_eq_True simp_thms)

section \<open>The whole trip\<close>

definition exact_host :: "'h environment \<Rightarrow> bool" where
  "exact_host env \<longleftrightarrow> (if has_delegate env then \<forall>n. reallocate env n = Some n else \<forall>n. sys_realloc env n)"

lemma exact_allocates: "exact_host env \<Longrightarrow> allocates env"
  by (auto simp: exact_host_def allocates_def split: if_splits)

lemma portable_no_host:
  "portable env v \<Longrightarrow> no_host v"
  "portable_list env vs \<Longrightarrow> no_host_list vs"
  "portable_props env ps \<Longrightarrow> no_host_props ps"
  by (induction v and vs and ps rule: enc_enc_list_enc_props.induct) auto

definition transfer :: "'h environment \<Rightarrow> 'h jsval \<Rightarrow> ('h jsval option \<times> nat) res" where
  "transfer env v = rbind (WriteValue env v newSerializer) (\<lambda>(ok, s).
     rbind (Release env s) (\<lambda>(bytes, _). ReadValue env bytes 0))"

lemma wf_new: "wf_ser newSerializer" "written newSerializer = []"
  by (auto simp: wf_ser_def newSerializer_def written_def)

lemma released:
  assumes "exact_host env" "no_host v"
  shows "\<exists>s s'. WriteValue env v newSerializer = Inr (True, s) \<and> Release env s = Inr (enc v, s')"
proof -
  obtain s where s: "WriteValue env v newSerializer = Inr (True, s)" "emits newSerializer (enc v) s"
    using WriteValue_emits(1)[OF exact_allocates[OF assms(1)] wf_new(1) assms(2)] by blast
  have "written s = enc v" using s(2) wf_new by (simp add: emits_def)
  then have "\<exists>s'. Release env s = Inr (enc v, s')"
    using assms(1) by (auto simp: Release_def Let_def written_def exact_host_def)
  then show ?thesis using s by blast
qed

lemma transfer_reads:
  assumes "exact_host env" "no_host v"
  shows "transfer env v = ReadValue env (enc v) 0"
proof -
  obtain s s' where "WriteValue env v newSerializer = Inr (True, s)" "Release env s = Inr (enc v, s')"
    using released[OF assms] by blast
  then show ?thesis by (simp add: transfer_def)
qed

lemma transfer_enc:
  assumes "exact_host env" "good_host env" "portable env v" "has_payload v" "length (enc v) < size_max"
  shows "transfer env v = Inr (Some (canon env v), length (enc v))"
proof -
  have "here (enc v) 0 (enc v)" by (simp add: here_def)
  then have "ReadValue env (enc v) 0 = Inr (Some (canon env v), 0 + length (enc v))"
    unfolding ReadValue_def using assms by (intro ReadValue_enc(1)) (auto simp: stops_def)
  then show ?thesis using transfer_reads[OF assms(1) portable_no_host(1)[OF assms(3)]] by simp
qed

section \<open>Fuel\<close>

lemma ReadTag_mono: "ReadTag d pos = (ok, tag, pos') \<Longrightarrow> pos \<le> pos' \<and> (ok \<longrightarrow> pos < pos' \<and> pos < length d)"
proof -
  have "read_tag_loop d pos t = (ok, tag, pos') \<Longrightarrow> pos \<le> pos' \<and> (ok \<longrightarrow> pos < pos' \<and> pos < length d)" for t
  proof (induction d pos t rule: read_tag_loop.induct)
    case (1 d pos t)
    then show ?case
      by (subst (asm) (2) read_tag_loop.simps) (auto simp: isOverflow_def Let_def split: if_splits)
  qed
  then show "ReadTag d pos = (ok, tag, pos') \<Longrightarrow> pos \<le> pos' \<and> (ok \<longrightarrow> pos < pos' \<and> pos < length d)"
    unfolding ReadTag_def by blast
qed

lemma read_varint_loop_mono: "read_varint_loop d pos sh v = (r, pos') \<Longrightarrow> pos \<le> pos'"
proof (induction d pos sh v rule: read_varint_loop.induct)
  case (1 d pos sh v)
  show ?case
  proof (cases "isOverflow d pos \<or> d ! pos AND 0x80 = 0")
    case True
    then show ?thesis using 1(2) by (subst (asm) read_varint_loop.simps) (auto simp: Let_def split: if_splits)
  next
    case False
    then have "read_varint_loop d (pos + 1) (if sh < LENGTH('a) then sh + 7 else sh)
        (if sh < LENGTH('a) then v OR push_bit sh (ucast (d ! pos AND 0x7F)) else v) = (r, pos')"
      using 1(2) by (subst (asm) read_varint_loop.simps) (auto simp: Let_def)
    then have "pos + 1 \<le> pos'" using False by (intro 1(1)[OF _ refl refl refl refl]) auto
    then show ?thesis by simp
  qed
qed

lemma ReadVarint_mono: "ReadVarint d pos = (r, pos') \<Longrightarrow> pos \<le> pos'"
  by (simp add: ReadVarint_def read_varint_loop_mono)

lemma ReadZigZag_mono: "ReadZigZag d pos = (r, pos') \<Longrightarrow> pos \<le> pos'"
  by (auto simp: ReadZigZag_def split: prod.splits option.splits dest: ReadVarint_mono)

lemma ReadRawBytes_mono: "ReadRawBytes d pos n = Inr (r, pos') \<Longrightarrow> pos \<le> pos'"
  by (auto simp: ReadRawBytes_def rbind_eq_Inr split: if_splits)

lemma ReadDouble_mono: "ReadDouble d pos = Inr (r, pos') \<Longrightarrow> pos \<le> pos'"
  by (auto simp: ReadDouble_def rbind_eq_Inr guard_eq_Inr Let_def split: if_splits)

lemma ReadString_mono:
  "ReadOneByteString env d pos = Inr (r, pos') \<Longrightarrow> pos \<le> pos'"
  "ReadTwoByteString env d pos = Inr (r, pos') \<Longrightarrow> pos \<le> pos'"
  by (auto simp: ReadOneByteString_def ReadTwoByteString_def rbind_eq_Inr split: prod.splits option.splits
      dest!: ReadVarint_mono ReadRawBytes_mono)

lemma ReadArrayBuffer_mono: "ReadArrayBuffer env d pos = Inr (r, pos') \<Longrightarrow> pos \<le> pos'"
  by (auto simp: ReadArrayBuffer_def rbind_eq_Inr guard_eq_Inr split: prod.splits option.splits
      dest!: ReadVarint_mono ReadRawBytes_mono)

lemma ReadArrayBufferView_mono: "ReadArrayBufferView bs d pos = (r, pos') \<Longrightarrow> pos \<le> pos'"
  by (auto simp: ReadArrayBufferView_def split: prod.splits option.splits dest!: ReadVarint_mono
      simp del: kind_of_view_tag.simps)

lemma ReadJsArrayBuffer_mono: "ReadJsArrayBuffer env d pos = Inr (r, pos') \<Longrightarrow> pos \<le> pos'"
  apply (clarsimp simp: ReadJsArrayBuffer_def rbind_eq_Inr split: option.splits prod.splits)
  apply (auto dest: ReadArrayBuffer_mono)[1]
  apply (clarsimp simp: rbind_eq_Inr split: if_splits prod.splits)
   apply (fastforce dest: ReadArrayBuffer_mono ReadArrayBufferView_mono ReadTag_mono)
  apply (erule ReadArrayBuffer_mono)
  done

definition host_advances :: "'h environment \<Rightarrow> bool" where
  "host_advances env \<longleftrightarrow> (\<forall>d pos. pos \<le> snd (read_host env d pos))"

lemma ReadHostObject_mono: "host_advances env \<Longrightarrow> ReadHostObject env d pos = (r, pos') \<Longrightarrow> pos \<le> pos'"
  by (auto simp: ReadHostObject_def host_advances_def split: if_splits prod.splits) (metis snd_conv)

text \<open>A read that neither runs out of fuel nor moves backwards.\<close>

definition steady :: "nat \<Rightarrow> ('a \<times> nat) res \<Rightarrow> bool" where
  "steady q m \<longleftrightarrow> m \<noteq> Inl NoFuel \<and> (\<forall>r p. m = Inr (r, p) \<longrightarrow> q \<le> p)"

lemma steady_if: "(b \<Longrightarrow> steady q x) \<Longrightarrow> (\<not> b \<Longrightarrow> steady q y) \<Longrightarrow> steady q (if b then x else y)"
  by simp

lemma steady_Inr: "q \<le> p \<Longrightarrow> steady q (Inr (r, p))"
  by (simp add: steady_def)

lemma steady_less: "steady q m \<Longrightarrow> q' \<le> q \<Longrightarrow> steady q' m"
  by (auto simp: steady_def)

lemma steady_rbind:
  "steady q m \<Longrightarrow> (\<And>r p. m = Inr (r, p) \<Longrightarrow> q \<le> p \<Longrightarrow> steady q (f (r, p))) \<Longrightarrow> steady q (rbind m f)"
  by (cases m) (auto simp: steady_def)

lemma steady_map: "steady q m \<Longrightarrow> steady q (rbind m (\<lambda>(v, p). Inr (f v, p)))"
  by (rule steady_rbind) (auto intro: steady_Inr)

lemma steady_pair: "(\<And>v p. m = (v, p) \<Longrightarrow> steady q (f v p)) \<Longrightarrow> steady q (case m of (v, p) \<Rightarrow> f v p)"
  by (cases m) auto

lemma steady_option:
  "(v = None \<Longrightarrow> steady q a) \<Longrightarrow> (\<And>x. v = Some x \<Longrightarrow> steady q (f x)) \<Longrightarrow>
   steady q (case v of None \<Rightarrow> a | Some x \<Rightarrow> f x)"
  by (cases v) auto

lemma CheckTag_fuel: "CheckTag d pos t \<noteq> Inl NoFuel"
proof -
  have "check_tag_loop d pos c w \<noteq> Inl NoFuel" for c w
  proof (induction d pos c w rule: check_tag_loop.induct)
    case (1 d pos c w)
    then show ?case by (subst check_tag_loop.simps) (auto simp: Let_def)
  qed
  then show ?thesis by (simp add: CheckTag_def)
qed

lemma steady_raw: "steady q (ReadRawBytes d q n)"
  using ReadRawBytes_mono[of d q n]
  by (auto simp: steady_def ReadRawBytes_def currentPositionAddress_def guard_def)

lemma steady_double: "steady q (ReadDouble d q)"
  using ReadDouble_mono[of d q]
  by (auto simp: steady_def ReadDouble_def currentPositionAddress_def guard_def Let_def)

lemma steady_after_varint:
  "(\<And>v p. q \<le> p \<Longrightarrow> steady p (f v p)) \<Longrightarrow>
   steady q (case ReadVarint d q of (None, p) \<Rightarrow> Inr (None, p) | (Some v, p) \<Rightarrow> f v p)"
  by (auto intro!: steady_Inr steady_pair steady_option elim: steady_less dest: ReadVarint_mono)
     (meson ReadVarint_mono steady_less)

lemma steady_string: "steady q (ReadOneByteString env d q)" "steady q (ReadTwoByteString env d q)"
  unfolding ReadOneByteString_def ReadTwoByteString_def
  by (intro steady_after_varint steady_map steady_raw)+

lemma steady_buffer: "steady q (ReadArrayBuffer env d q)"
  unfolding ReadArrayBuffer_def
  by (intro steady_after_varint steady_rbind steady_raw)
     (auto simp: guard_def intro!: steady_Inr split: option.splits, auto simp: steady_def)

lemma steady_js_buffer: "steady q (ReadJsArrayBuffer env d q)"
proof -
  have "ReadJsArrayBuffer env d q \<noteq> Inl NoFuel"
    using steady_buffer[of q env d] CheckTag_fuel
    by (auto simp: ReadJsArrayBuffer_def rbind_def steady_def split: sum.splits option.splits prod.splits if_splits)
  then show ?thesis using ReadJsArrayBuffer_mono by (auto simp: steady_def)
qed

lemma bool_rbind: "m \<noteq> Inl NoFuel \<Longrightarrow> (\<And>b. steady q (f b)) \<Longrightarrow> steady q (rbind m f)"
  by (cases m) (auto simp: steady_def)

lemma fuel_enough:
  assumes H: "host_advances env"
  shows "(\<forall>pos. 2 * (length d - pos) + 1 \<le> n \<longrightarrow> steady pos (ReadValue_fuel env d n pos) \<and>
      (\<forall>v p. ReadValue_fuel env d n pos = Inr (Some v, p) \<longrightarrow> pos < p \<and> pos < length d)) \<and>
    (\<forall>pos obj c. 2 * (length d - pos) + 2 \<le> n \<longrightarrow> steady pos (ReadObject env d n pos obj c)) \<and>
    (\<forall>pos k vec. 2 * (length d - pos) + 2 \<le> n \<longrightarrow> steady pos (ReadJsArray env d n pos k vec))"
proof (induction n)
  case 0
  then show ?case by simp
next
  case (Suc n)
  have val: "steady pos (ReadValue_fuel env d n pos)"
    "ReadValue_fuel env d n pos = Inr (Some v, p) \<Longrightarrow> pos < p \<and> pos < length d"
    if "2 * (length d - pos) + 1 \<le> n" for pos v p
    using Suc that by blast+
  have obj: "steady pos (ReadObject env d n pos ob c)" if "2 * (length d - pos) + 2 \<le> n" for pos ob c
    using Suc that by blast
  have arr: "steady pos (ReadJsArray env d n pos k vec)" if "2 * (length d - pos) + 2 \<le> n" for pos k vec
    using Suc that by blast
  have A: "steady pos (ReadValue_fuel env d (Suc n) pos) \<and>
      (\<forall>v p. ReadValue_fuel env d (Suc n) pos = Inr (Some v, p) \<longrightarrow> pos < p \<and> pos < length d)"
    if b: "2 * (length d - pos) + 1 \<le> Suc n" for pos
  proof -
    obtain ok tag q where t: "ReadTag d pos = (ok, tag, q)" by (cases "ReadTag d pos")
    show ?thesis
    proof (cases ok)
      case False
      then show ?thesis using t ReadTag_mono[OF t] by (simp add: steady_Inr)
    next
      case True
      then have q: "pos < q" "pos < length d" using ReadTag_mono[OF t] by auto
      then have f: "2 * (length d - q') + 2 \<le> n" if "q \<le> q'" for q' using b that by linarith
      have "steady q (ReadValue_fuel env d (Suc n) pos)"
        unfolding ReadValue_fuel.simps t prod.case Let_def
        using True
        by (intro steady_if steady_Inr order_refl steady_map steady_double steady_string steady_js_buffer
            obj f steady_after_varint arr steady_pair)
           (auto intro: ReadVarint_mono ReadZigZag_mono steady_Inr simp: steady_def dest: ReadHostObject_mono[OF H])
      then show ?thesis using q by (auto simp: steady_def)
    qed
  qed
  have B: "steady pos (ReadObject env d (Suc n) pos ob c)" if b: "2 * (length d - pos) + 2 \<le> Suc n" for pos ob c
    unfolding ReadValue_fuel.simps ReadObject.simps
  proof (rule bool_rbind[OF CheckTag_fuel], intro steady_if)
    have v: "2 * (length d - pos) + 1 \<le> n" using b by simp
    show "steady pos (rbind (ReadValue_fuel env d n pos) (\<lambda>(key, pos). case key of None \<Rightarrow> Inr (None, pos)
        | Some k \<Rightarrow> if isUndefinedOrNull k then Inr (None, pos)
          else rbind (ReadValue_fuel env d n pos) (\<lambda>(val, pos). case val of None \<Rightarrow> Inr (None, pos)
            | Some v \<Rightarrow> ReadObject env d n pos (setProperty k v ob) (c + 1))))"
      unfolding prod.case
    proof (intro steady_rbind[OF val(1)[OF v]])
      fix r p assume r: "ReadValue_fuel env d n pos = Inr (r, p)" "pos \<le> p"
      show "steady pos (case (r, p) of (key, pos) \<Rightarrow> case key of None \<Rightarrow> Inr (None, pos)
        | Some k \<Rightarrow> if isUndefinedOrNull k then Inr (None, pos)
          else rbind (ReadValue_fuel env d n pos) (\<lambda>(val, pos). case val of None \<Rightarrow> Inr (None, pos)
            | Some v \<Rightarrow> ReadObject env d n pos (setProperty k v ob) (c + 1)))"
        unfolding prod.case
      proof (intro steady_option steady_if steady_Inr r(2))
        fix k assume k: "r = Some k"
        then have p: "pos < p" "pos < length d" using val(2)[OF v] r(1) by blast+
        have v2: "2 * (length d - p) + 1 \<le> n" using b p by linarith
        show "steady pos (rbind (ReadValue_fuel env d n p) (\<lambda>(val, pos). case val of None \<Rightarrow> Inr (None, pos)
            | Some v \<Rightarrow> ReadObject env d n pos (setProperty k v ob) (c + 1)))"
        proof (rule steady_less[OF steady_rbind[OF val(1)[OF v2]] r(2)])
          fix r' q assume "ReadValue_fuel env d n p = Inr (r', q)" "p \<le> q"
          moreover have "2 * (length d - q) + 2 \<le> n" using b p \<open>p \<le> q\<close> by linarith
          ultimately show "steady p (case (r', q) of (val, pos) \<Rightarrow> case val of None \<Rightarrow> Inr (None, pos)
            | Some v \<Rightarrow> ReadObject env d n pos (setProperty k v ob) (c + 1))"
            unfolding prod.case by (intro steady_option steady_Inr) (auto intro: steady_less[OF obj])
        qed
      qed
    qed
    show "steady pos (case ReadTag d pos of (ok, tag, pos) \<Rightarrow> if \<not> ok then Inr (None, pos)
        else if tag = Some (tag_code KEndJSObject)
        then (case ReadVarint d pos :: 32 word option \<times> nat of (None, pos) \<Rightarrow> Inr (None, pos)
          | (Some w, pos) \<Rightarrow> Inr (if c = unat w then Some (VObject ob) else None, pos))
        else Inr (None, pos))"
      by (auto intro!: steady_Inr split: prod.splits option.splits dest!: ReadTag_mono ReadVarint_mono)
  qed
  have C: "steady pos (ReadJsArray env d (Suc n) pos k vec)" if b: "2 * (length d - pos) + 2 \<le> Suc n" for pos k vec
  proof (cases k)
    case 0
    then show ?thesis
      by (auto simp: steady_def split: prod.splits option.splits dest!: ReadTag_mono)
  next
    case (Suc k')
    have v: "2 * (length d - pos) + 1 \<le> n" using b by simp
    show ?thesis
      unfolding Suc ReadJsArray.simps
    proof (rule steady_rbind[OF val(1)[OF v]])
      fix r p assume r: "ReadValue_fuel env d n pos = Inr (r, p)" "pos \<le> p"
      have "steady p (ReadJsArray env d n p k' (vec @ [x]))" if "r = Some x" for x
        using val(2)[OF v, of x p] r that b by (intro arr) auto
      then show "steady pos (case (r, p) of (val, pos) \<Rightarrow> case val of None \<Rightarrow> Inr (None, pos)
          | Some v \<Rightarrow> ReadJsArray env d n pos k' (vec @ [v]))"
        unfolding prod.case using r(2) by (intro steady_option steady_Inr) (auto intro: steady_less)
    qed
  qed
  show ?case using A B C by blast
qed

end
