(* ===== verification/SerialProps.thy ===== *)
theory SerialProps
  imports SerialReader
begin

text \<open>
  The properties of serialization, with concrete environments as witnesses.
\<close>

section \<open>Bounds and faults\<close>

section \<open>Properties\<close>

lemma varint_loop_length: "drop_bit (7 * n) v = 0 \<Longrightarrow> 0 < n \<Longrightarrow> length (varint_loop v) \<le> n"
proof (induction n arbitrary: v)
  case 0
  then show ?case by simp
next
  case (Suc n)
  show ?case
  proof (cases "drop_bit 7 v = 0")
    case True
    then show ?thesis by (subst varint_loop.simps) simp
  next
    case False
    then have "0 < n" using Suc.prems by (cases n) auto
    moreover have "drop_bit (7 * n) (drop_bit 7 v) = 0" using Suc.prems by (simp add: drop_bit_drop_bit add.commute)
    ultimately show ?thesis using Suc.IH False by (subst varint_loop.simps) simp
  qed
qed

lemma varint_loop_bound: "length (varint_loop (v :: 'a :: len word)) \<le> LENGTH('a) div 7 + 1"
proof (rule varint_loop_length)
  have "LENGTH('a) \<le> 7 * (LENGTH('a) div 7 + 1)" by presburger
  then show "drop_bit (7 * (LENGTH('a) div 7 + 1)) v = 0"
    by (intro bit_word_eqI) (auto simp: bit_simps dest: bit_imp_le_length)
qed simp

lemma varint_bytes_bound: "length (varint_bytes (v :: 'a :: len word)) \<le> LENGTH('a) div 7 + 1"
proof -
  have "length (varint_bytes v) = length (varint_loop v)"
    by (cases "varint_loop v") (auto simp: varint_bytes_def Let_def)
  then show ?thesis using varint_loop_bound[of v] by simp
qed

lemma varint32: "length (varint_bytes (w :: 32 word)) \<le> 5"
  using varint_bytes_bound[of w] by simp

lemma ReadRawBytes_end: "ReadRawBytes d (length d) 0 = Inl CheckFailed"
  by (simp add: ReadRawBytes_def currentPositionAddress_def isOverflow_def)

lemma check_padding:
  "(\<And>i. c \<le> i \<Longrightarrow> i < length d \<Longrightarrow> d ! i = 0) \<Longrightarrow> pos < length d \<Longrightarrow> check_tag_loop d pos c w = Inl OutOfBounds"
proof (induction "length d - c" arbitrary: c)
  case 0
  then show ?case by (subst check_tag_loop.simps) (simp add: isOverflow_def)
next
  case (Suc n)
  have "check_tag_loop d pos (c + 1) w = Inl OutOfBounds" using Suc by (intro Suc(1)) auto
  moreover have "d ! c = tag_code KPadding" using Suc by (simp add: tag_code_def)
  ultimately show ?case using Suc by (subst check_tag_loop.simps) (simp add: isOverflow_def)
qed

lemma write_without_memory:
  assumes "\<not> has_delegate env" "\<And>n. \<not> sys_realloc env n" "bs \<noteq> []" "capacity (buffer s) = 0" "bsize (buffer s) = 0"
  shows "WriteRawBytes env bs s = Inr (s\<lparr>out_of_memory := True\<rparr>)"
  using assms by (simp add: WriteRawBytes_def ReserveRawBytes_def ExpandBuffer_def)

definition plain_host :: "'h environment" where
  "plain_host = \<lparr>has_delegate = False, reallocate = (\<lambda>n. None), sys_realloc = (\<lambda>n. True),
     write_host = (\<lambda>h. ([], None)), read_host = (\<lambda>d p. (None, p)), from_utf8 = map ucast,
     from_utf16 = id, has8bit = (\<lambda>us. \<forall>u \<in> set us. u < 256), allocate_buffer = (\<lambda>n. True)\<rparr>"

lemma plain_host_ok: "exact_host plain_host" "good_host plain_host" "host_advances plain_host"
  by (simp_all add: exact_host_def good_host_def host_advances_def plain_host_def)


definition sample_value :: "unit jsval" where
  "sample_value = VObject [(VString True [97], VArray [VUint32 300, VInt32 (- 5), VBool True, VNull]),
     (VString True [98], VString False [0x3B1])]"


text \<open>C7. Termination: whatever the bytes are, the recursion of \<^verbatim>\<open>ReadValue\<close> ends within its fuel of two
  calls per byte, as long as the delegate does not move the position backwards.\<close>

theorem ReadValue_terminates:
  assumes "host_advances env"
  shows "ReadValue env d pos \<noteq> Inl NoFuel"
proof -
  have "steady pos (ReadValue_fuel env d (2 * (length d - pos) + 1) pos)"
    using fuel_enough[OF assms, of d "2 * (length d - pos) + 1"] by blast
  then show ?thesis by (simp add: ReadValue_def steady_def)
qed

theorem ReadValue_terminates_witness: "ReadValue (plain_host :: unit environment) [0x41, 0xFF, 0x41] 0 \<noteq> Inl NoFuel"
  by (rule ReadValue_terminates[OF plain_host_ok(3)])

text \<open>C35. Varints: the loop of \<^verbatim>\<open>WriteVarint\<close> fits its stack buffer, and \<^verbatim>\<open>ReadVarint\<close> reads
  back the value and stops right behind it, wherever it stands.\<close>

theorem varint_round_trip:
  fixes v :: "'a :: len word"
  shows "length (varint_loop v) \<le> LENGTH('a) div 7 + 1 \<and>
    ReadVarint (pre @ varint_bytes v @ post) (length pre) = (Some v, length pre + length (varint_bytes v))"
proof
  show "length (varint_loop v) \<le> LENGTH('a) div 7 + 1" by (rule varint_loop_bound)
  have "here (pre @ varint_bytes v @ post) (length pre) (varint_bytes v)" unfolding here_def by blast
  then show "ReadVarint (pre @ varint_bytes v @ post) (length pre) = (Some v, length pre + length (varint_bytes v))"
    by (rule ReadVarint_here)
qed

text \<open>A typed array that does not start at the beginning of its buffer is read back as a view that
  reaches beyond the buffer it is given.\<close>

theorem typed_array_view_escapes:
  fixes env :: "'h environment"
  assumes "exact_host env" "good_host env" "0 < off" "0 < len" "off + len * element_size k \<le> length buf"
    "length buf < 2 ^ 32"
  shows "\<exists>bs n. transfer env (VTyped k buf off len) = Inr (Some (VTyped k bs off len), n) \<and>
    length bs = len * element_size k \<and> length bs < off + len * element_size k"
proof -
  let ?v = "VTyped k buf off len :: 'h jsval"
  have es: "1 \<le> element_size k" by (cases k) auto
  then have "len \<le> len * element_size k" by simp
  then have b: "off < 2 ^ 32" "len < 2 ^ 32" using assms by linarith+
  have l: "length (view_bytes k buf off len) = len * element_size k" using assms(5) by (simp add: view_bytes_def)
  have "length (enc ?v) \<le> 1 + 5 + len * element_size k + (1 + 2 + 5 + 5)"
    using varint_bytes_bound[of "of_nat (length (view_bytes k buf off len)) :: 32 word"]
      varint_bytes_bound[of "view_tag_code k"] varint_bytes_bound[of "of_nat off :: 32 word"]
      varint_bytes_bound[of "of_nat len :: 32 word"] l
    by (simp add: buffer_bytes_def view_header_def)
  then have "length (enc ?v) < size_max" using assms(5,6) by (simp add: size_max_def)
  then have "transfer env ?v = Inr (Some (canon env ?v), length (enc ?v))"
    using assms b l by (intro transfer_enc) (auto simp: has_payload_def)
  then show ?thesis using l assms(3) by simp
qed

theorem typed_array_view_escapes_witness:
  "\<exists>bs n. transfer (plain_host :: unit environment) (VTyped Uint8 [1, 2, 3, 4] 2 2) =
      Inr (Some (VTyped Uint8 bs 2 2), n) \<and> length bs = 2 \<and> length bs < 4"
  using typed_array_view_escapes[OF plain_host_ok(1,2), of 2 2 Uint8 "[1, 2, 3, 4]"] by simp

text \<open>The empty string is written like any other value, but reading it back at the end of the
  data fails a check: \<^verbatim>\<open>ReadRawBytes\<close> asks for the address behind the last byte.\<close>

theorem empty_string_aborts:
  fixes env :: "'h environment"
  assumes "exact_host env"
  shows "transfer env (VString b []) = Inl CheckFailed"
proof -
  let ?d = "enc (VString b [] :: 'h jsval)"
  let ?t = "tag_code (if b then KOneByteString else KTwoByteString)"
  have d: "?d = ?t # varint_bytes (0 :: 32 word)" by (simp add: string_bytes_def)
  have h: "here ?d 0 (?t # varint_bytes (0 :: 32 word))" by (simp add: here_def string_bytes_def)
  then have v: "ReadVarint ?d 1 = (Some (0 :: 32 word), length ?d)"
    using ReadVarint_here[of ?d 1 "0 :: 32 word"] d by (simp add: here_Cons)
  have "ReadValue env ?d 0 = Inl CheckFailed"
    using v ReadRawBytes_end[of ?d] ReadTag_here[OF h]
    by (cases b) (simp_all add: ReadValue_def ReadOneByteString_def ReadTwoByteString_def numeral_2_eq_2 del: enc.simps)
  then show ?thesis using transfer_reads[OF assms, of "VString b []"] by simp
qed

theorem empty_string_aborts_witness: "transfer (plain_host :: unit environment) (VString True []) = Inl CheckFailed"
  by (rule empty_string_aborts[OF plain_host_ok(1)])

text \<open>A Latin-1 string is written as its bytes and read back as UTF-8.\<close>

theorem latin1_read_as_utf8:
  fixes env :: "'h environment"
  assumes "exact_host env" "from_utf8 env [0xC3, 0xA9] = [0xE9]"
  shows "\<exists>b n. transfer env (VString True [0xC3, 0xA9]) = Inr (Some (VString b [0xE9]), n)"
proof -
  let ?d = "enc (VString True [0xC3, 0xA9] :: 'h jsval)"
  have d: "?d = tag_code KOneByteString # varint_bytes (of_nat (length [0xC3, 0xA9 :: byte]) :: 32 word) @ [0xC3, 0xA9]"
    by (simp add: string_bytes_def)
  then have h: "here ?d 0 (tag_code KOneByteString # varint_bytes (of_nat (length [0xC3, 0xA9 :: byte]) :: 32 word) @ [0xC3, 0xA9])"
    unfolding here_def by (metis append.right_neutral append_Nil list.size(3))
  have "length ?d \<le> 8"
    using varint_bytes_bound[of "of_nat (length [0xC3, 0xA9 :: byte]) :: 32 word"] unfolding d by simp
  then have l: "length ?d < size_max" by (simp add: size_max_def)
  have "ReadOneByteString env ?d 1 = Inr (Some (make_string env (from_utf8 env [0xC3, 0xA9])),
      1 + length (varint_bytes (of_nat (length [0xC3, 0xA9 :: byte]) :: 32 word)) + length [0xC3, 0xA9 :: byte])"
    using h l by (intro ReadOneByteString_raw) (auto simp: here_Cons string_bytes_def)
  then have "\<exists>b n. ReadValue env ?d 0 = Inr (Some (VString b [0xE9]), n)"
    using ReadTag_here[OF h] assms(2) by (simp add: ReadValue_def make_string_def del: enc.simps)
  then show ?thesis using transfer_reads[OF assms(1), of "VString True [0xC3, 0xA9]"] by simp
qed

theorem latin1_read_as_utf8_witness:
  "\<exists>b n. transfer (plain_host\<lparr>from_utf8 := \<lambda>bs. if bs = [0xC3, 0xA9] then [0xE9] else map ucast bs\<rparr> :: unit environment)
     (VString True [0xC3, 0xA9]) = Inr (Some (VString b [0xE9]), n)"
  by (rule latin1_read_as_utf8) (simp_all add: exact_host_def plain_host_def)

text \<open>C36. Reads beyond the input: \<^verbatim>\<open>CheckTag\<close> runs over padding to the end of the data, and
  \<^verbatim>\<open>ReadDouble\<close> copies eight bytes out of a shorter buffer.\<close>

theorem reader_overruns:
  assumes "pos < length d"
  shows "((\<forall>i < length d. pos \<le> i \<longrightarrow> d ! i = 0) \<longrightarrow> ReadUint32 env d pos = Inl OutOfBounds) \<and>
    (length d < 8 \<longrightarrow> ReadDouble d pos = Inl OutOfBounds)"
proof (intro conjI impI)
  assume "\<forall>i < length d. pos \<le> i \<longrightarrow> d ! i = 0"
  then have "CheckTag d pos KUint32 = Inl OutOfBounds"
    using assms unfolding CheckTag_def by (intro check_padding) auto
  then show "ReadUint32 env d pos = Inl OutOfBounds" by (simp add: ReadUint32_def)
next
  assume "length d < 8"
  then have "sub64 (length d) 8 = size_max - (8 - length d)" by (intro sub64_wrap) (auto simp: size_max_def)
  then show "ReadDouble d pos = Inl OutOfBounds"
    using assms \<open>length d < 8\<close>
    by (simp add: ReadDouble_def currentPositionAddress_def isOverflow_def size_max_def)
qed

theorem reader_overruns_witness:
  "ReadUint32 (plain_host :: unit environment) [0] 0 = Inl OutOfBounds \<and> ReadDouble [0] 0 = Inl OutOfBounds"
  using reader_overruns[of 0 "[0]" "plain_host :: unit environment"] by simp

text \<open>C8. Writer safety: whatever the allocator and the delegate do, the written size stays within
  the allocated memory, bytes already written are kept, and an allocation failure is never forgotten.\<close>

theorem writer_safety:
  assumes "buf_inv s" "WriteValue env v s = Inr (ok, t)"
  shows "buf_inv t \<and> (\<exists>bs. written t = written s @ bs) \<and> (out_of_memory s \<longrightarrow> out_of_memory t)"
  using grows_WriteValue(1)[of s env v] assms by (auto simp: grows2_def extends_def)

theorem writer_safety_witness:
  "\<exists>ok t. WriteValue (plain_host :: unit environment) VNull newSerializer = Inr (ok, t) \<and> buf_inv t"
proof -
  obtain t where t: "WriteValue (plain_host :: unit environment) VNull newSerializer = Inr (True, t)"
    using WriteValue_emits(1)[OF exact_allocates[OF plain_host_ok(1)] wf_new(1), of VNull] by auto
  have "buf_inv newSerializer" by (simp add: buf_inv_def newSerializer_def)
  from writer_safety[OF this t] t show ?thesis by blast
qed

text \<open>Out of memory: a scalar write reports the failure, but \<^verbatim>\<open>WriteJsArray\<close> reports success
  for an empty array of which nothing was written.\<close>

theorem array_hides_out_of_memory:
  assumes "\<not> has_delegate env" "\<And>n. \<not> sys_realloc env n"
  shows "(\<exists>s. WriteValue env (VUint32 w) newSerializer = Inr (False, s) \<and> data_clone_errors s = 1) \<and>
    (\<exists>s. WriteValue env (VArray []) newSerializer = Inr (True, s) \<and> written s = [] \<and> data_clone_errors s = 0)"
  using assms
  by (simp add: WriteUint32_def WriteTag_def WriteVarint_def write_without_memory newSerializer_def
      ThrowIfOutOfMemory_def ThrowDataCloneError_def written_def)

theorem array_hides_out_of_memory_witness:
  "(\<exists>s. WriteValue (plain_host\<lparr>sys_realloc := \<lambda>n. False\<rparr> :: unit environment) (VUint32 7) newSerializer = Inr (False, s) \<and>
      data_clone_errors s = 1) \<and>
   (\<exists>s. WriteValue (plain_host\<lparr>sys_realloc := \<lambda>n. False\<rparr> :: unit environment) (VArray []) newSerializer = Inr (True, s) \<and>
      written s = [] \<and> data_clone_errors s = 0)"
  by (rule array_hides_out_of_memory) (simp_all add: plain_host_def)

end
