(* ===== verification/Handle.thy ===== *)
theory Handle
  imports Prelude
begin

text \<open>
  Handles, \<^verbatim>\<open>HandleWrap\<close> and \<^verbatim>\<open>ValueWrap\<close> of \<^verbatim>\<open>src/src/api/handle.h\<close>,
  \<^verbatim>\<open>handle.cc\<close> and \<^verbatim>\<open>handle-external-string.h\<close>: a tagged pointer with its location.
  Pointers are natural numbers, the null pointer is 0. The downcasts are checked in the release build.
\<close>

type_synonym ptr = nat

datatype handle_type = NotPresent | JsValue | ContextType | ObjectTemplate | FunctionTemplate | Script
  | ModuleType | EndOfType

fun handle_type_code :: "handle_type \<Rightarrow> nat" where
  "handle_type_code NotPresent = 0"
| "handle_type_code JsValue = 101"
| "handle_type_code ContextType = 102"
| "handle_type_code ObjectTemplate = 103"
| "handle_type_code FunctionTemplate = 104"
| "handle_type_code Script = 105"
| "handle_type_code ModuleType = 106"
| "handle_type_code EndOfType = 107"

datatype handle_location = Local | Strong | Weak | NearDeath

datatype value_type = NoValueType | ExternalString

record HandleWrap =
  h_val :: ptr
  h_type :: handle_type
  h_valueType :: value_type
  h_location :: handle_location

definition isValid :: "'a HandleWrap_scheme \<Rightarrow> bool" where
  "isValid h = (handle_type_code (h_type h) \<ge> handle_type_code JsValue \<and>
     handle_type_code (h_type h) < handle_type_code EndOfType)"

definition isStrongOrWeak :: "'a HandleWrap_scheme \<Rightarrow> bool" where
  "isStrongOrWeak h = (h_location h = Strong \<or> h_location h = Weak \<or> h_location h = NearDeath)"

definition emptyHandle :: HandleWrap where
  "emptyHandle = \<lparr>h_val = 0, h_type = NotPresent, h_valueType = NoValueType, h_location = Local\<rparr>"

definition copy_handle :: "'b HandleWrap_scheme \<Rightarrow> 'a HandleWrap_scheme \<Rightarrow> handle_location \<Rightarrow> 'b HandleWrap_scheme" where
  "copy_handle this that location = this\<lparr>h_val := h_val that, h_type := h_type that,
     h_valueType := h_valueType that, h_location := location\<rparr>"

definition clone :: "'a HandleWrap_scheme \<Rightarrow> handle_location \<Rightarrow> HandleWrap" where
  "clone h location = emptyHandle\<lparr>h_val := h_val h, h_type := h_type h, h_valueType := h_valueType h,
     h_location := location\<rparr>"

definition as_handle :: "'a HandleWrap_scheme \<Rightarrow> 'a HandleWrap_scheme res" where
  "as_handle h = guard CheckFailed (isValid h) (Inr h)"

section \<open>Construction\<close>

definition newValueWrap :: "ptr \<Rightarrow> handle_type \<Rightarrow> value_type \<Rightarrow> HandleWrap res" where
  "newValueWrap p t vt = guard CheckFailed (p \<noteq> 0)
     (Inr (emptyHandle\<lparr>h_type := t, h_val := p, h_valueType := vt\<rparr>))"

definition createValue :: "ptr \<Rightarrow> HandleWrap res" where
  "createValue esValue = newValueWrap esValue JsValue NoValueType"

definition createScript :: "ptr \<Rightarrow> HandleWrap res" where
  "createScript esScript = newValueWrap esScript Script NoValueType"

definition createFunctionTemplate :: "ptr \<Rightarrow> HandleWrap res" where
  "createFunctionTemplate esTemplate = newValueWrap esTemplate FunctionTemplate NoValueType"

definition createObjectTemplate :: "ptr \<Rightarrow> HandleWrap res" where
  "createObjectTemplate esTemplate = newValueWrap esTemplate ObjectTemplate NoValueType"

definition createModule :: "ptr \<Rightarrow> HandleWrap res" where
  "createModule esModule = newValueWrap esModule ModuleType NoValueType"

text \<open>A \<^verbatim>\<open>ContextWrap\<close> is itself a handle.\<close>

definition createContext :: "HandleWrap \<Rightarrow> HandleWrap res" where
  "createContext lwContext = guard CheckFailed (h_type lwContext = ContextType)
     (guard CheckFailed (h_val lwContext \<noteq> 0) (Inr lwContext))"

record ExternalStringWrap = HandleWrap +
  h_resource :: ptr

definition createExternalString :: "ptr \<Rightarrow> ptr \<Rightarrow> ExternalStringWrap res" where
  "createExternalString p resource = rbind (newValueWrap p JsValue ExternalString)
     (\<lambda>h. Inr (HandleWrap.extend h (ExternalStringWrap.fields resource)))"

section \<open>Downcasts\<close>

definition isExternalString :: "'a HandleWrap_scheme \<Rightarrow> bool" where
  "isExternalString h = (h_valueType h = ExternalString)"

definition asExternalString :: "ExternalStringWrap \<Rightarrow> ExternalStringWrap res" where
  "asExternalString h = guard CheckFailed (isExternalString h) (Inr h)"

definition get_value :: "'a HandleWrap_scheme \<Rightarrow> ptr res" where
  "get_value h = guard CheckFailed (h_type h = JsValue) (Inr (h_val h))"

definition get_context :: "'a HandleWrap_scheme \<Rightarrow> 'a HandleWrap_scheme res" where
  "get_context h = guard CheckFailed (h_type h = ContextType) (Inr h)"

definition get_script :: "'a HandleWrap_scheme \<Rightarrow> ptr res" where
  "get_script h = guard CheckFailed (h_type h = Script) (Inr (h_val h))"

definition get_tpl :: "'a HandleWrap_scheme \<Rightarrow> ptr res" where
  "get_tpl h = guard CheckFailed (h_type h = ObjectTemplate \<or> h_type h = FunctionTemplate) (Inr (h_val h))"

definition get_ftpl :: "'a HandleWrap_scheme \<Rightarrow> ptr res" where
  "get_ftpl h = guard CheckFailed (h_type h = FunctionTemplate) (Inr (h_val h))"

definition get_otpl :: "'a HandleWrap_scheme \<Rightarrow> ptr res" where
  "get_otpl h = guard CheckFailed (h_type h = ObjectTemplate) (Inr (h_val h))"

definition get_module :: "'a HandleWrap_scheme \<Rightarrow> ptr res" where
  "get_module h = guard CheckFailed (h_type h = ModuleType) (Inr (h_val h))"

section \<open>Lemmas\<close>

named_theorems handle_defs \<open>the definitions of the handle operations\<close>

lemmas [handle_defs] = isValid_def isStrongOrWeak_def emptyHandle_def copy_handle_def clone_def as_handle_def
  newValueWrap_def createValue_def createScript_def createFunctionTemplate_def createObjectTemplate_def
  createModule_def createContext_def isExternalString_def get_value_def get_context_def get_script_def
  get_tpl_def get_ftpl_def get_otpl_def get_module_def

lemma clone_fields [simp]:
  "h_val (clone h l) = h_val h" "h_type (clone h l) = h_type h" "h_valueType (clone h l) = h_valueType h"
  "h_location (clone h l) = l" "isValid (clone h l) = isValid h"
  by (simp_all add: handle_defs)

lemma valid_types: "isValid h \<longleftrightarrow> h_type h \<noteq> NotPresent \<and> h_type h \<noteq> EndOfType"
  by (cases "h_type h") (simp_all add: isValid_def)

definition casts :: "'a HandleWrap_scheme \<Rightarrow> ptr res list" where
  "casts h = [get_value h, get_script h, get_ftpl h, get_otpl h, get_module h]"

text \<open>Checked handles: constructing a handle fails on a null pointer; on any other pointer the
  handle is valid, and of the five downcasts exactly the one of its kind succeeds and returns the
  pointer, on the handle and on every clone of it.\<close>

theorem handle_casts_match:
  assumes "create \<in> {(createValue, 0), (createScript, 1), (createFunctionTemplate, 2),
    (createObjectTemplate, 3), (createModule, 4 :: nat)}"
  shows "fst create 0 = Inl CheckFailed \<and>
    (\<forall>p l. p \<noteq> 0 \<longrightarrow> (\<exists>h. fst create p = Inr h \<and> isValid h \<and> h_location h = Local \<and>
       casts (clone h l) = map (\<lambda>i. if i = snd create then Inr p else Inl CheckFailed) [0, 1, 2, 3, 4]))"
  using assms by (elim insertE emptyE) (simp_all add: handle_defs casts_def)

theorem handle_casts_match_witness:
  "createValue 0 = Inl CheckFailed \<and>
    (\<exists>h. createValue 5 = Inr h \<and> isValid h \<and> h_location h = Local \<and>
       casts (clone h Strong) = [Inr 5, Inl CheckFailed, Inl CheckFailed, Inl CheckFailed, Inl CheckFailed])"
  using handle_casts_match[of "(createValue, 0)"] by simp

end
