(* ===== verification/GcHeap.thy ===== *)
theory GcHeap
  imports Handle "HOL-Library.AList" "HOL-Library.Multiset"
begin

text \<open>
  The tracing heap of the engine and the persistent handles on it: \<^verbatim>\<open>GCHeap\<close> and the engine state of
  \<^verbatim>\<open>src/src/api/engine.h\<close> and \<^verbatim>\<open>engine.cc\<close>, \<^verbatim>\<open>PersistentWrap\<close> of
  \<^verbatim>\<open>src/src/api/handle.h\<close> and \<^verbatim>\<open>handle.cc\<close>.

  The two hash maps are association lists; the order in which a hash map is traversed is the parameter
  \<open>order\<close> of the collection. A weak callback is a number; what the embedder's callback does to the
  world is the parameter \<open>run\<close>.
\<close>

section \<open>State\<close>

datatype kind = FREE | STRONG | WEAK

record AddressInfo =
  strong :: int
  weak :: int
  info_data :: ptr

datatype engine_state = Freed | Running | OnDestroy

record PersistentWrap = HandleWrap +
  holder :: ptr
  v8Isolate :: ptr
  weak_callback :: "nat option"
  parameter :: ptr
  isFinalizerCalled :: bool

record world =
  persistents :: "(ptr \<times> AddressInfo) list"
  weakPhantoms :: "(ptr \<times> AddressInfo) list"
  isStatePrinted :: bool
  isOnPost :: bool
  stat_freed :: nat
  stat_weak :: nat
  processingHoldScopes :: "ptr list"
  engine_state :: engine_state
  externalStrings :: "ptr list"
  objects :: "ptr \<Rightarrow> PersistentWrap option"
  next_ptr :: ptr

definition newInfo :: "int \<Rightarrow> int \<Rightarrow> ptr \<Rightarrow> AddressInfo" where
  "newInfo s w d = \<lparr>strong = s, weak = w, info_data = d\<rparr>"

text \<open>\<^verbatim>\<open>emplace\<close> of a hash map keeps an entry that is already there.\<close>

definition emplace :: "'k \<Rightarrow> 'v \<Rightarrow> ('k \<times> 'v) list \<Rightarrow> ('k \<times> 'v) list" where
  "emplace k v m = (if map_of m k = None then m @ [(k, v)] else m)"

section \<open>The heap\<close>

definition bump :: "kind \<Rightarrow> int \<Rightarrow> AddressInfo \<Rightarrow> AddressInfo" where
  "bump k d info = (case k of STRONG \<Rightarrow> info\<lparr>strong := strong info + d\<rparr>
     | WEAK \<Rightarrow> info\<lparr>weak := weak info + d\<rparr> | FREE \<Rightarrow> info)"

definition postUpdate :: "world \<Rightarrow> world" where
  "postUpdate w = w\<lparr>isStatePrinted := False\<rparr>"

text \<open>The entry of a phantom is copied before its counter is incremented, and the copy is what moves
  to the persistents.\<close>

definition acquire :: "ptr \<Rightarrow> kind \<Rightarrow> ptr \<Rightarrow> world \<Rightarrow> world res" where
  "acquire address k d w =
     (case map_of (persistents w) address of
        Some info \<Rightarrow> Inr (postUpdate (w\<lparr>persistents := AList.update address (bump k 1 info) (persistents w)\<rparr>))
      | None \<Rightarrow> (case map_of (weakPhantoms w) address of
          Some info \<Rightarrow>
            guard CheckFailed (strong info = 0) (guard CheckFailed (weak info \<noteq> 0)
            (let w = w\<lparr>weakPhantoms := AList.update address (bump k 1 info) (weakPhantoms w)\<rparr>;
                 w = w\<lparr>persistents := emplace address info (persistents w)\<rparr>;
                 w = w\<lparr>weakPhantoms := AList.delete address (weakPhantoms w)\<rparr>
             in Inr (postUpdate w)))
        | None \<Rightarrow> Inr (postUpdate (w\<lparr>persistents := emplace address (newInfo 1 0 d) (persistents w)\<rparr>))))"

definition clamp :: "AddressInfo \<Rightarrow> AddressInfo" where
  "clamp info = info\<lparr>strong := max (strong info) 0, weak := max (weak info) 0\<rparr>"

definition release :: "ptr \<Rightarrow> kind \<Rightarrow> world \<Rightarrow> world" where
  "release address k w =
     (case map_of (persistents w) address of
        None \<Rightarrow> postUpdate w
      | Some info \<Rightarrow>
          (let info = clamp (bump k (- 1) info);
               w = w\<lparr>persistents := AList.update address info (persistents w)\<rparr> in
           if strong info = 0 then
             (let w = (if weak info > 0 then w\<lparr>weakPhantoms := emplace address info (weakPhantoms w)\<rparr> else w)
              in postUpdate (w\<lparr>persistents := AList.delete address (persistents w)\<rparr>))
           else postUpdate w))"

definition isTraced :: "ptr \<Rightarrow> world \<Rightarrow> bool" where
  "isTraced address w = (map_of (persistents w) address \<noteq> None \<or> map_of (weakPhantoms w) address \<noteq> None)"

definition disposePhantomWeak :: "ptr \<Rightarrow> world \<Rightarrow> world" where
  "disposePhantomWeak address w = postUpdate (w\<lparr>stat_freed := stat_freed w + 1,
     weakPhantoms := AList.delete address (weakPhantoms w)\<rparr>)"

definition push_hold :: "ptr \<Rightarrow> world \<Rightarrow> world" where
  "push_hold scope w = w\<lparr>processingHoldScopes := processingHoldScopes w @ [scope]\<rparr>"

definition pop_hold :: "world \<Rightarrow> world" where
  "pop_hold w = w\<lparr>processingHoldScopes := butlast (processingHoldScopes w)\<rparr>"

definition isSkipProcessing :: "world \<Rightarrow> bool" where
  "isSkipProcessing w = (processingHoldScopes w \<noteq> [])"

section \<open>Persistent handles\<close>

definition lookup :: "ptr \<Rightarrow> world \<Rightarrow> PersistentWrap res" where
  "lookup address w = (case objects w address of None \<Rightarrow> Inl NullDeref | Some p \<Rightarrow> Inr p)"

definition store :: "ptr \<Rightarrow> PersistentWrap \<Rightarrow> world \<Rightarrow> world" where
  "store address p w = w\<lparr>objects := (objects w)(address := Some p)\<rparr>"

definition as_persistent :: "ptr \<Rightarrow> world \<Rightarrow> PersistentWrap res" where
  "as_persistent address w = rbind (lookup address w) (\<lambda>p.
     guard CheckFailed (isStrongOrWeak p) (guard CheckFailed (isValid p) (Inr p)))"

definition newPersistent :: "PersistentWrap" where
  "newPersistent = \<lparr>h_val = 0, h_type = NotPresent, h_valueType = NoValueType, h_location = Local, holder = 0,
     v8Isolate = 0, weak_callback = None, parameter = 0, isFinalizerCalled = False\<rparr>"

definition GlobalizeReference :: "ptr \<Rightarrow> ptr \<Rightarrow> HandleWrap \<Rightarrow> world \<Rightarrow> (ptr \<times> world) res" where
  "GlobalizeReference isolate address lwValue w = guard CheckFailed (isValid lwValue)
     (let this = next_ptr w;
          p = (copy_handle newPersistent lwValue Strong)\<lparr>holder := address\<rparr>;
          w = store this p w\<lparr>next_ptr := next_ptr w + 1\<rparr> in
      rbind (acquire this STRONG 0 w) (\<lambda>w. Inr (this, store this (p\<lparr>v8Isolate := isolate\<rparr>) w)))"

definition dispose :: "ptr \<Rightarrow> PersistentWrap \<Rightarrow> world \<Rightarrow> world res" where
  "dispose address p w = (if isFinalizerCalled p then Inr w
     else if h_location p = Strong then Inr (release address STRONG w)
     else if h_location p = Weak then Inr (release address WEAK w)
     else Inl CheckFailed)"

definition DisposeGlobal :: "ptr \<Rightarrow> world \<Rightarrow> world res" where
  "DisposeGlobal address w = rbind (lookup address w) (\<lambda>p. dispose address p w)"

definition makeStrongToWeak :: "ptr \<Rightarrow> world \<Rightarrow> world res" where
  "makeStrongToWeak address w = rbind (acquire address WEAK 0 w) (\<lambda>w. Inr (release address STRONG w))"

definition makeWeak :: "ptr \<Rightarrow> ptr \<Rightarrow> nat option \<Rightarrow> PersistentWrap \<Rightarrow> world \<Rightarrow> world res" where
  "makeWeak address param cb p w =
     rbind (case h_location p of
         Strong \<Rightarrow> rbind (makeStrongToWeak address w) (\<lambda>w.
           Inr (store address (p\<lparr>h_location := Weak, parameter := param, weak_callback := cb\<rparr>) w))
       | Weak \<Rightarrow> guard CheckFailed (weak_callback p = cb) (guard CheckFailed (parameter p = param) (Inr w))
       | _ \<Rightarrow> Inl CheckFailed)
     (\<lambda>w. guard CheckFailed (isTraced address w) (Inr w))"

definition MakeWeak :: "ptr \<Rightarrow> ptr \<Rightarrow> nat option \<Rightarrow> world \<Rightarrow> world res" where
  "MakeWeak address param cb w = rbind (lookup address w) (\<lambda>p.
     guard CheckFailed (h_location p \<noteq> Local) (makeWeak address param cb p w))"

definition clearWeak :: "ptr \<Rightarrow> PersistentWrap \<Rightarrow> world \<Rightarrow> (ptr \<times> world) res" where
  "clearWeak address p w =
     rbind (case h_location p of
         Strong \<Rightarrow> guard CheckFailed (weak_callback p = None) (guard CheckFailed (parameter p = 0) (Inr (p, w)))
       | Weak \<Rightarrow> rbind (acquire address STRONG 0 w) (\<lambda>w. Inr (p\<lparr>h_location := Strong\<rparr>, release address WEAK w))
       | _ \<Rightarrow> Inl CheckFailed)
     (\<lambda>(p, w). Inr (parameter p, store address (p\<lparr>parameter := 0, weak_callback := None\<rparr>) w))"

definition ClearWeak :: "ptr \<Rightarrow> world \<Rightarrow> (ptr \<times> world) res" where
  "ClearWeak address w = rbind (lookup address w) (\<lambda>p.
     guard CheckFailed (h_location p \<noteq> Local) (clearWeak address p w))"

text \<open>\<open>run cb isolate param w\<close>: the embedder's callback. A null callback is called all the same.\<close>

definition invokeFinalizer ::
  "(nat \<Rightarrow> ptr \<Rightarrow> ptr \<Rightarrow> world \<Rightarrow> world res) \<Rightarrow> ptr \<Rightarrow> world \<Rightarrow> world res" where
  "invokeFinalizer run address w = rbind (lookup address w) (\<lambda>p.
     let w = (if engine_state w = Running then disposePhantomWeak address w else w) in
     rbind (case weak_callback p of None \<Rightarrow> Inl NullDeref | Some cb \<Rightarrow> run cb (v8Isolate p) (parameter p) w) (\<lambda>w.
     rbind (lookup address w) (\<lambda>p. Inr (store address (p\<lparr>isFinalizerCalled := True\<rparr>) w))))"

definition finalize_weak ::
  "(nat \<Rightarrow> ptr \<Rightarrow> ptr \<Rightarrow> world \<Rightarrow> world res) \<Rightarrow> ptr \<times> AddressInfo \<Rightarrow> world \<Rightarrow> world res" where
  "finalize_weak run it w = rbind (as_persistent (fst it) w) (\<lambda>_. invokeFinalizer run (fst it) w)"

definition postGarbageCollectionProcessing ::
  "((ptr \<times> AddressInfo) list \<Rightarrow> (ptr \<times> AddressInfo) list) \<Rightarrow>
   (nat \<Rightarrow> ptr \<Rightarrow> ptr \<Rightarrow> world \<Rightarrow> world res) \<Rightarrow> world \<Rightarrow> world res" where
  "postGarbageCollectionProcessing order run w =
     (if isOnPost w \<or> isSkipProcessing w then Inr w
      else if stat_weak w = length (weakPhantoms w) then Inr w
      else
        (let weaks = order (weakPhantoms w);
             w = w\<lparr>isOnPost := True, weakPhantoms := []\<rparr> in
         rbind (foldM (finalize_weak run) weaks w) (\<lambda>w.
         Inr (w\<lparr>stat_weak := length (weakPhantoms w), isOnPost := False\<rparr>))))"

section \<open>The engine\<close>

text \<open>The static pointer \<^verbatim>\<open>s_engine\<close> is set exactly between \<^verbatim>\<open>Initialize\<close> and
  \<^verbatim>\<open>Dispose\<close>; the world is the engine it points to.\<close>

type_synonym engine = "world option \<times> engine_state"

definition newWorld :: world where
  "newWorld = \<lparr>persistents = [], weakPhantoms = [], isStatePrinted = False, isOnPost = False, stat_freed = 0,
     stat_weak = 0, processingHoldScopes = [], engine_state = Running, externalStrings = [],
     objects = (\<lambda>_. None), next_ptr = 1\<rparr>"

definition Initialize :: "engine \<Rightarrow> bool \<times> engine" where
  "Initialize e = (True, if fst e = None then (Some newWorld, Running) else e)"

definition registerExternalString :: "ptr \<Rightarrow> world \<Rightarrow> world" where
  "registerExternalString s w = w\<lparr>externalStrings := List.insert s (externalStrings w)\<rparr>"

definition unregisterExternalString :: "ptr \<Rightarrow> world \<Rightarrow> world" where
  "unregisterExternalString s w = w\<lparr>externalStrings := remove1 s (externalStrings w)\<rparr>"

text \<open>\<open>disposed\<close> is what \<^verbatim>\<open>ExternalStringResourceBase::Dispose\<close> of one string does to the world.
  It works on a copy of the set, so the callee may unregister itself.\<close>

definition disposeExternalStrings :: "(ptr \<Rightarrow> world \<Rightarrow> world) \<Rightarrow> world \<Rightarrow> world" where
  "disposeExternalStrings disposed w =
     (let strToDispose = externalStrings w; w = fold disposed strToDispose w in w\<lparr>externalStrings := []\<rparr>)"

definition engine_dispose :: "(ptr \<Rightarrow> world \<Rightarrow> world) \<Rightarrow> world \<Rightarrow> world" where
  "engine_dispose disposed w =
     (let w = w\<lparr>engine_state := OnDestroy, persistents := [], weakPhantoms := []\<rparr>
      in disposeExternalStrings disposed w)"

definition Dispose :: "(ptr \<Rightarrow> world \<Rightarrow> world) \<Rightarrow> engine \<Rightarrow> bool \<times> world option \<times> engine" where
  "Dispose disposed e = (True, map_option (engine_dispose disposed) (fst e), (None, Freed))"

definition Engine_current :: "engine \<Rightarrow> world res" where
  "Engine_current e = (case fst e of None \<Rightarrow> Inl CheckFailed | Some w \<Rightarrow> Inr w)"

section \<open>The heap invariant\<close>

definition live :: "AddressInfo \<Rightarrow> bool" where
  "live i \<longleftrightarrow> 0 \<le> strong i \<and> 0 \<le> weak i \<and> 0 < strong i + weak i"

definition phantom :: "AddressInfo \<Rightarrow> bool" where
  "phantom i \<longleftrightarrow> strong i = 0 \<and> 0 < weak i"

definition heap_inv :: "world \<Rightarrow> bool" where
  "heap_inv w \<longleftrightarrow> distinct (map fst (persistents w)) \<and> distinct (map fst (weakPhantoms w)) \<and>
     (\<forall>a i. map_of (persistents w) a = Some i \<longrightarrow> live i \<and> map_of (weakPhantoms w) a = None) \<and>
     (\<forall>a i. map_of (weakPhantoms w) a = Some i \<longrightarrow> phantom i)"

lemma map_of_emplace:
  "map_of (emplace k v m) = (if map_of m k = None then (map_of m)(k \<mapsto> v) else map_of m)"
  by (rule ext) (auto simp: emplace_def map_add_def split: option.splits)

lemma distinct_emplace: "distinct (map fst m) \<Longrightarrow> distinct (map fst (emplace k v m))"
  by (auto simp: emplace_def map_of_eq_None_iff)

lemmas heap_maps = update_conv' delete_conv' map_of_emplace
lemmas heap_distinct = distinct_update distinct_delete distinct_emplace

lemma live_bump: "live i \<Longrightarrow> live (bump k 1 i)"
  by (cases k) (auto simp: live_def bump_def)

lemma phantom_live: "phantom i \<Longrightarrow> live i"
  by (auto simp: live_def phantom_def)

lemma heap_inv_update [simp]:
  "heap_inv (postUpdate w) = heap_inv w" "heap_inv (store a p w) = heap_inv w"
  "heap_inv (w\<lparr>next_ptr := n\<rparr>) = heap_inv w" "heap_inv (w\<lparr>stat_freed := n\<rparr>) = heap_inv w"
  "heap_inv (w\<lparr>stat_weak := n\<rparr>) = heap_inv w" "heap_inv (w\<lparr>isOnPost := b\<rparr>) = heap_inv w"
  by (simp_all add: heap_inv_def postUpdate_def store_def)

lemma acquire_inv:
  assumes "heap_inv w"
  shows "\<exists>w'. acquire a k d w = Inr w' \<and> heap_inv w' \<and> objects w' = objects w \<and> engine_state w' = engine_state w"
proof (cases "map_of (persistents w) a")
  case (Some i)
  then show ?thesis
    using assms live_bump[of i k]
    by (auto simp: acquire_def heap_inv_def heap_maps heap_distinct postUpdate_def)
next
  case None
  show ?thesis
  proof (cases "map_of (weakPhantoms w) a")
    case (Some i)
    then have ph: "phantom i" using assms by (simp add: heap_inv_def)
    then have "strong i = 0" "weak i \<noteq> 0" by (auto simp: phantom_def)
    then show ?thesis
      using assms None Some phantom_live[OF ph]
      by (auto simp: acquire_def heap_inv_def heap_maps heap_distinct postUpdate_def)
  next
    case n: None
    then show ?thesis
      using assms None
      by (auto simp: acquire_def heap_inv_def heap_maps heap_distinct postUpdate_def newInfo_def live_def)
  qed
qed

lemma clamped_live: "live i \<Longrightarrow> strong (clamp (bump k (- 1) i)) = 0 \<Longrightarrow> 0 < weak (clamp (bump k (- 1) i)) \<Longrightarrow>
    phantom (clamp (bump k (- 1) i))"
  "live i \<Longrightarrow> strong (clamp (bump k (- 1) i)) \<noteq> 0 \<Longrightarrow> live (clamp (bump k (- 1) i))"
  by (cases k; auto simp: live_def phantom_def clamp_def bump_def)+

lemma release_inv: "heap_inv w \<Longrightarrow> heap_inv (release a k w)"
proof (cases "map_of (persistents w) a")
  case (Some i)
  let ?j = "clamp (bump k (- 1) i)"
  assume inv: "heap_inv w"
  then have l: "live i" "map_of (weakPhantoms w) a = None" using Some by (auto simp: heap_inv_def)
  show ?thesis
  proof (cases "strong ?j = 0")
    case True
    show ?thesis
    proof (cases "weak ?j > 0")
      case w: True
      then show ?thesis
        using inv Some True l clamped_live(1)[OF l(1) True w]
        by (auto simp: release_def Let_def heap_inv_def heap_maps heap_distinct postUpdate_def)
    next
      case False
      then show ?thesis
        using inv Some True by (auto simp: release_def Let_def heap_inv_def heap_maps heap_distinct postUpdate_def)
    qed
  next
    case False
    then show ?thesis
      using inv Some clamped_live(2)[OF l(1) False]
      by (auto simp: release_def Let_def heap_inv_def heap_maps heap_distinct postUpdate_def)
  qed
qed (simp add: release_def)

lemma disposePhantomWeak_inv: "heap_inv w \<Longrightarrow> heap_inv (disposePhantomWeak a w)"
  by (auto simp: disposePhantomWeak_def heap_inv_def heap_maps heap_distinct postUpdate_def)

lemma drop_phantoms_inv: "heap_inv w \<Longrightarrow> heap_inv (w\<lparr>weakPhantoms := []\<rparr>)"
  by (auto simp: heap_inv_def)

section \<open>Every operation keeps the invariant\<close>

lemma acquire_ok:
  "heap_inv w \<Longrightarrow> acquire a k d w = Inr w' \<Longrightarrow> heap_inv w' \<and> objects w' = objects w \<and> engine_state w' = engine_state w"
  using acquire_inv[of w a k d] by auto

lemma release_objects [simp]: "objects (release a k w) = objects w"
  by (auto simp: release_def Let_def postUpdate_def split: option.splits)

lemma GlobalizeReference_inv:
  "heap_inv w \<Longrightarrow> GlobalizeReference isolate a h w = Inr (r, w') \<Longrightarrow> heap_inv w'"
  by (auto simp: GlobalizeReference_def guard_eq_Inr rbind_eq_Inr Let_def dest!: acquire_ok[rotated])

lemma DisposeGlobal_inv: "heap_inv w \<Longrightarrow> DisposeGlobal a w = Inr w' \<Longrightarrow> heap_inv w'"
  by (auto simp: DisposeGlobal_def dispose_def rbind_eq_Inr release_inv split: if_splits)

lemma makeWeak_inv: "heap_inv w \<Longrightarrow> MakeWeak a param cb w = Inr w' \<Longrightarrow> heap_inv w'"
  unfolding MakeWeak_def rbind_eq_Inr guard_eq_Inr
proof (elim exE conjE)
  fix p assume "heap_inv w" "makeWeak a param cb p w = Inr w'"
  then show ?thesis
    by (cases "h_location p")
       (auto simp: makeWeak_def makeStrongToWeak_def rbind_eq_Inr guard_eq_Inr release_inv dest!: acquire_ok[rotated])
qed

lemma ClearWeak_inv: "heap_inv w \<Longrightarrow> ClearWeak a w = Inr (r, w') \<Longrightarrow> heap_inv w'"
  unfolding ClearWeak_def rbind_eq_Inr guard_eq_Inr
proof (elim exE conjE)
  fix p assume "heap_inv w" "clearWeak a p w = Inr (r, w')"
  then show ?thesis
    by (cases "h_location p")
       (auto simp: clearWeak_def rbind_eq_Inr guard_eq_Inr release_inv dest!: acquire_ok[rotated])
qed

definition callback_ok :: "(nat \<Rightarrow> ptr \<Rightarrow> ptr \<Rightarrow> world \<Rightarrow> world res) \<Rightarrow> bool" where
  "callback_ok run \<longleftrightarrow> (\<forall>cb i p w w'. heap_inv w \<longrightarrow> run cb i p w = Inr w' \<longrightarrow> heap_inv w')"

lemma finalize_inv: "callback_ok run \<Longrightarrow> heap_inv w \<Longrightarrow> finalize_weak run it w = Inr w' \<Longrightarrow> heap_inv w'"
  using disposePhantomWeak_inv[of w "fst it"]
  by (cases "engine_state w = Running")
     (fastforce simp: finalize_weak_def invokeFinalizer_def rbind_eq_Inr callback_ok_def Let_def
      split: option.splits)+

lemma foldM_inv:
  "(\<And>x s s'. I s \<Longrightarrow> f x s = Inr s' \<Longrightarrow> I s') \<Longrightarrow> I s \<Longrightarrow> foldM f xs s = Inr s' \<Longrightarrow> I s'"
  by (induction xs arbitrary: s) (auto simp: rbind_eq_Inr)

lemma postGC_inv:
  assumes "callback_ok run" "heap_inv w" "postGarbageCollectionProcessing order run w = Inr w'"
  shows "heap_inv w'"
proof -
  have "heap_inv (w\<lparr>isOnPost := True, weakPhantoms := []\<rparr>)" using assms(2) by (simp add: heap_inv_def)
  then have "foldM (finalize_weak run) xs (w\<lparr>isOnPost := True, weakPhantoms := []\<rparr>) = Inr u \<Longrightarrow> heap_inv u" for xs u
    using foldM_inv[where I = heap_inv and f = "finalize_weak run"] finalize_inv[OF assms(1)] by blast
  then show ?thesis
    using assms(2,3) by (auto simp: postGarbageCollectionProcessing_def Let_def rbind_eq_Inr split: if_splits)
qed

inductive heap_step :: "(nat \<Rightarrow> ptr \<Rightarrow> ptr \<Rightarrow> world \<Rightarrow> world res) \<Rightarrow> world \<Rightarrow> world \<Rightarrow> bool" for run where
  globalize: "GlobalizeReference isolate a h w = Inr (r, w') \<Longrightarrow> heap_step run w w'"
| dispose_global: "DisposeGlobal a w = Inr w' \<Longrightarrow> heap_step run w w'"
| make_weak: "MakeWeak a param cb w = Inr w' \<Longrightarrow> heap_step run w w'"
| clear_weak: "ClearWeak a w = Inr (p, w') \<Longrightarrow> heap_step run w w'"
| hold: "heap_step run w (push_hold s w)"
| unhold: "heap_step run w (pop_hold w)"
| collect: "postGarbageCollectionProcessing order run w = Inr w' \<Longrightarrow> heap_step run w w'"

inductive reachable_heap :: "(nat \<Rightarrow> ptr \<Rightarrow> ptr \<Rightarrow> world \<Rightarrow> world res) \<Rightarrow> world \<Rightarrow> bool" for run where
  start: "reachable_heap run newWorld"
| step: "reachable_heap run w \<Longrightarrow> heap_step run w w' \<Longrightarrow> reachable_heap run w'"

inductive_cases heap_step_cases: "heap_step run w w'"

lemma hold_inv [simp]: "heap_inv (push_hold s w) = heap_inv w" "heap_inv (pop_hold w) = heap_inv w"
  by (simp_all add: push_hold_def pop_hold_def heap_inv_def)

lemma heap_step_inv: "heap_step run w w' \<Longrightarrow> callback_ok run \<Longrightarrow> heap_inv w \<Longrightarrow> heap_inv w'"
  by (induction rule: heap_step.induct)
     (auto simp: hold_inv dest: GlobalizeReference_inv DisposeGlobal_inv makeWeak_inv ClearWeak_inv postGC_inv)

section \<open>Properties\<close>

definition inert :: "nat \<Rightarrow> ptr \<Rightarrow> ptr \<Rightarrow> world \<Rightarrow> world res" where
  "inert cb isolate param w = Inr w"

lemma newWorld_inv: "heap_inv newWorld"
  by (simp add: heap_inv_def newWorld_def)


definition js_handle :: HandleWrap where
  "js_handle = \<lparr>h_val = 7, h_type = JsValue, h_valueType = NoValueType, h_location = Local\<rparr>"


text \<open>The weak/strong state machine loses a handle: \<^verbatim>\<open>acquire\<close> moves a phantom to the
  persistents with the count it had before the increment, so a strong handle that was made weak and strong
  again is no longer traced, and making it weak once more fails a check.\<close>

theorem clear_weak_loses_trace:
  assumes "objects w a = Some p" "h_location p = Strong" "map_of (persistents w) a = Some (newInfo 1 0 0)"
    "map_of (weakPhantoms w) a = None"
  shows "\<exists>w1 w2 p2. MakeWeak a param (Some cb) w = Inr w1 \<and> isTraced a w1 \<and>
    ClearWeak a w1 = Inr (param, w2) \<and> objects w2 a = Some p2 \<and> h_location p2 = Strong \<and>
    \<not> isTraced a w2 \<and> MakeWeak a param' cb' w2 = Inl CheckFailed"
  using assms
  by (simp add: MakeWeak_def makeWeak_def makeStrongToWeak_def ClearWeak_def clearWeak_def lookup_def store_def
      acquire_def release_def isTraced_def heap_maps newInfo_def bump_def clamp_def postUpdate_def Let_def)

definition one_strong :: world where
  "one_strong = newWorld\<lparr>persistents := [(1, newInfo 1 0 0)],
     objects := (\<lambda>_. None)(1 := Some (copy_handle newPersistent js_handle Strong)), next_ptr := 2\<rparr>"

theorem clear_weak_loses_trace_witness:
  "\<exists>w1 w2 p2. MakeWeak 1 5 (Some 9) one_strong = Inr w1 \<and> isTraced 1 w1 \<and>
    ClearWeak 1 w1 = Inr (5, w2) \<and> objects w2 1 = Some p2 \<and> h_location p2 = Strong \<and>
    \<not> isTraced 1 w2 \<and> MakeWeak 1 6 None w2 = Inl CheckFailed"
  by (rule clear_weak_loses_trace[where p = "copy_handle newPersistent js_handle Strong"])
     (simp_all add: one_strong_def newWorld_def copy_handle_def)

definition finalizable :: "PersistentWrap option \<Rightarrow> bool" where
  "finalizable q = (case q of None \<Rightarrow> False
     | Some p \<Rightarrow> isStrongOrWeak p \<and> isValid p \<and> weak_callback p \<noteq> None)"

definition mark_finalized :: "ptr set \<Rightarrow> (ptr \<Rightarrow> PersistentWrap option) \<Rightarrow> ptr \<Rightarrow> PersistentWrap option" where
  "mark_finalized A obj a = (if a \<in> A then map_option (\<lambda>p. p\<lparr>isFinalizerCalled := True\<rparr>) (obj a) else obj a)"

lemma finalize_weak_inert:
  assumes "finalizable (objects w (fst x))" "engine_state w = Running" "weakPhantoms w = []"
  shows "\<exists>w'. finalize_weak inert x w = Inr w' \<and> objects w' = mark_finalized {fst x} (objects w) \<and>
    stat_freed w' = stat_freed w + 1 \<and> weakPhantoms w' = [] \<and> persistents w' = persistents w \<and>
    engine_state w' = Running"
  using assms
  by (auto simp: finalizable_def finalize_weak_def as_persistent_def lookup_def invokeFinalizer_def inert_def
      disposePhantomWeak_def postUpdate_def store_def mark_finalized_def Let_def fun_eq_iff split: option.splits)

lemma finalizable_marked: "finalizable (mark_finalized A obj a) = finalizable (obj a)"
  by (simp add: finalizable_def mark_finalized_def isStrongOrWeak_def isValid_def split: option.split)

lemma finalize_all_inert:
  "(\<forall>x \<in> set xs. finalizable (objects w (fst x))) \<Longrightarrow> engine_state w = Running \<Longrightarrow> weakPhantoms w = [] \<Longrightarrow>
   \<exists>w'. foldM (finalize_weak inert) xs w = Inr w' \<and> objects w' = mark_finalized (fst ` set xs) (objects w) \<and>
     stat_freed w' = stat_freed w + length xs \<and> weakPhantoms w' = [] \<and> persistents w' = persistents w"
proof (induction xs arbitrary: w)
  case Nil
  then show ?case by (simp add: mark_finalized_def fun_eq_iff)
next
  case (Cons x xs)
  obtain v where v: "finalize_weak inert x w = Inr v" "objects v = mark_finalized {fst x} (objects w)"
    "stat_freed v = stat_freed w + 1" "weakPhantoms v = []" "persistents v = persistents w" "engine_state v = Running"
    using finalize_weak_inert[of w x] Cons.prems by auto
  have "\<forall>y \<in> set xs. finalizable (objects v (fst y))" using Cons.prems v(2) by (simp add: finalizable_marked)
  then obtain w' where w': "foldM (finalize_weak inert) xs v = Inr w'"
    "objects w' = mark_finalized (fst ` set xs) (objects v)" "stat_freed w' = stat_freed v + length xs"
    "weakPhantoms w' = []" "persistents w' = persistents v"
    using Cons.IH[of v] v by blast
  have "objects w' = mark_finalized (fst ` set (x # xs)) (objects w)"
    unfolding w'(2) v(2) by (rule ext) (simp add: mark_finalized_def option.map_comp comp_def)
  then show ?case using v w' by simp
qed


definition one_phantom :: world where
  "one_phantom = newWorld\<lparr>weakPhantoms := [(1, newInfo 0 1 0)],
     objects := (\<lambda>_. None)(1 := Some ((copy_handle newPersistent js_handle Weak)\<lparr>weak_callback := Some 3\<rparr>))\<rparr>"


text \<open>Collections are idempotent: a pass right after another does nothing, whatever the first one's
  callbacks did. So a handle a callback makes weak is not finalized while the number of phantoms stays
  what it was after the pass.\<close>

theorem collection_idempotent:
  assumes "postGarbageCollectionProcessing order run w = Inr w'"
  shows "postGarbageCollectionProcessing order' run' w' = Inr w'"
  using assms by (auto simp: postGarbageCollectionProcessing_def Let_def rbind_eq_Inr split: if_splits)

theorem collection_idempotent_witness:
  "\<exists>w'. postGarbageCollectionProcessing rev inert newWorld = Inr w' \<and>
     postGarbageCollectionProcessing id inert w' = Inr w'"
proof -
  have "postGarbageCollectionProcessing rev inert newWorld = Inr newWorld"
    by (simp add: postGarbageCollectionProcessing_def newWorld_def isSkipProcessing_def)
  from collection_idempotent[OF this] this show ?thesis by blast
qed

end
