(* ===== verification/HandleScope.thy ===== *)
theory HandleScope
  imports Handle "HOL-Library.Multiset"
begin

text \<open>
  Handle scopes and context scopes: \<^verbatim>\<open>HandleScopeWrap\<close> of \<^verbatim>\<open>src/src/api/handlescope.h\<close> and
  \<^verbatim>\<open>handlescope.cc\<close>, the scope stacks of \<^verbatim>\<open>IsolateWrap\<close> in
  \<^verbatim>\<open>src/src/api/isolate.cc\<close>, the scope classes of \<^verbatim>\<open>src/src/api-handles.cc\<close> and the entry of
  contexts in \<^verbatim>\<open>src/src/api/context.cc\<close>.

  The constructor and the destructor of a scope object bracket the C++ block that declares it. The
  programs of this theory are those blocks: they create and escape handles, and open scopes and contexts
  around other programs.
\<close>

section \<open>State\<close>

datatype scope_type = NoScope | Normal | Escapable | Sealed | Internal

record HandleScopeWrap =
  scope_type_of :: scope_type
  v8Scope :: ptr
  handles :: "ptr list"

text \<open>The part of the isolate that the scopes use, with the current isolate of the thread. Vectors are
  lists whose last element is the back; handles live in a memory of their own.\<close>

record scopes =
  iso_self :: ptr
  s_currentIsolate :: ptr
  s_previousIsolate :: ptr
  handleScopes :: "HandleScopeWrap list"
  contextScopes :: "ptr list"
  handleMem :: "ptr \<Rightarrow> HandleWrap option"
  nextHandle :: ptr
  fatal_error_callback :: bool
  fatalReports :: "(string \<times> string) list"

definition newScope :: "ptr \<Rightarrow> scope_type \<Rightarrow> HandleScopeWrap" where
  "newScope scope t = \<lparr>scope_type_of = t, v8Scope = scope, handles = []\<rparr>"

definition scope_add :: "ptr \<Rightarrow> HandleScopeWrap \<Rightarrow> HandleScopeWrap" where
  "scope_add value s = s\<lparr>handles := handles s @ [value]\<rparr>"

definition scope_remove :: "ptr \<Rightarrow> HandleScopeWrap \<Rightarrow> bool \<times> HandleScopeWrap" where
  "scope_remove value s = (if value \<in> set (handles s)
     then (True, s\<lparr>handles := remove1 value (handles s)\<rparr>) else (False, s))"

definition scope_clear :: "HandleScopeWrap \<Rightarrow> HandleScopeWrap" where
  "scope_clear s = s\<lparr>handles := []\<rparr>"

section \<open>Scope stacks of the isolate\<close>

definition onFatalError :: "string \<Rightarrow> string \<Rightarrow> 'a scopes_scheme \<Rightarrow> 'a scopes_scheme res" where
  "onFatalError location message w = (if fatal_error_callback w
     then Inr (w\<lparr>fatalReports := fatalReports w @ [(location, message)]\<rparr>) else Inl CheckFailed)"

definition pushHandleScope :: "HandleScopeWrap \<Rightarrow> 'a scopes_scheme \<Rightarrow> 'a scopes_scheme" where
  "pushHandleScope s w = w\<lparr>handleScopes := handleScopes w @ [s]\<rparr>"

definition popHandleScope :: "ptr \<Rightarrow> 'a scopes_scheme \<Rightarrow> 'a scopes_scheme res" where
  "popHandleScope scope w = guard OutOfBounds (handleScopes w \<noteq> [])
     (guard CheckFailed (v8Scope (last (handleScopes w)) = scope)
     (let hs = butlast (handleScopes w) @ [scope_clear (last (handleScopes w))] in
      Inr (w\<lparr>handleScopes := butlast hs\<rparr>)))"

definition addHandleToCurrentScope :: "ptr \<Rightarrow> 'a scopes_scheme \<Rightarrow> 'a scopes_scheme res" where
  "addHandleToCurrentScope value w = guard CheckFailed (length (handleScopes w) \<ge> 1)
     (Inr (w\<lparr>handleScopes := butlast (handleScopes w) @ [scope_add value (last (handleScopes w))]\<rparr>))"

definition escapeHandle :: "ptr \<Rightarrow> 'a scopes_scheme \<Rightarrow> 'a scopes_scheme res" where
  "escapeHandle value w = (let hs = handleScopes w; n = length hs in
     guard CheckFailed (n > 1)
     (guard CheckFailed (scope_type_of (hs ! (n - 1)) = Escapable)
     (let r = scope_remove value (hs ! (n - 1)); hs = hs[n - 1 := snd r] in
      Inr (w\<lparr>handleScopes := (if fst r then hs[n - 2 := scope_add value (hs ! (n - 2))] else hs)\<rparr>))))"

definition isCurrentScopeSealed :: "'a scopes_scheme \<Rightarrow> bool res" where
  "isCurrentScopeSealed w = guard CheckFailed (length (handleScopes w) > 0)
     (Inr (scope_type_of (last (handleScopes w)) = Sealed))"

definition pushContext :: "ptr \<Rightarrow> 'a scopes_scheme \<Rightarrow> 'a scopes_scheme" where
  "pushContext c w = w\<lparr>contextScopes := contextScopes w @ [c]\<rparr>"

definition popContext :: "ptr \<Rightarrow> 'a scopes_scheme \<Rightarrow> 'a scopes_scheme res" where
  "popContext c w = guard OutOfBounds (contextScopes w \<noteq> [])
     (guard CheckFailed (last (contextScopes w) = c) (Inr (w\<lparr>contextScopes := butlast (contextScopes w)\<rparr>)))"

definition InContext :: "'a scopes_scheme \<Rightarrow> bool" where
  "InContext w = (contextScopes w \<noteq> [])"

definition GetCurrentContext :: "'a scopes_scheme \<Rightarrow> ptr res" where
  "GetCurrentContext w = guard CheckFailed (length (contextScopes w) \<ge> 1) (Inr (last (contextScopes w)))"

definition getNumberOfContexts :: "'a scopes_scheme \<Rightarrow> nat" where
  "getNumberOfContexts w = card (set (contextScopes w))"

section \<open>The current isolate\<close>

definition isolate_Enter :: "'a scopes_scheme \<Rightarrow> 'a scopes_scheme res" where
  "isolate_Enter w = (if s_currentIsolate w = iso_self w then Inr w
     else guard CheckFailed (s_currentIsolate w = 0 \<and> s_currentIsolate w \<noteq> iso_self w)
       (Inr (w\<lparr>s_previousIsolate := s_currentIsolate w, s_currentIsolate := iso_self w\<rparr>)))"

definition isolate_Exit :: "'a scopes_scheme \<Rightarrow> 'a scopes_scheme res" where
  "isolate_Exit w = guard CheckFailed (s_currentIsolate w = iso_self w)
     (Inr (w\<lparr>s_currentIsolate := s_previousIsolate w, s_previousIsolate := 0\<rparr>))"

definition context_Enter :: "ptr \<Rightarrow> 'a scopes_scheme \<Rightarrow> 'a scopes_scheme res" where
  "context_Enter c w = rbind (isolate_Enter w) (\<lambda>w. Inr (pushContext c w))"

definition context_Exit :: "ptr \<Rightarrow> 'a scopes_scheme \<Rightarrow> 'a scopes_scheme res" where
  "context_Exit c w = popContext c w"

section \<open>The scope classes of the interface\<close>

definition HandleScope_ctor :: "ptr \<Rightarrow> 'a scopes_scheme \<Rightarrow> 'a scopes_scheme" where
  "HandleScope_ctor this w = pushHandleScope (newScope this Normal) w"

definition HandleScope_dtor :: "ptr \<Rightarrow> 'a scopes_scheme \<Rightarrow> 'a scopes_scheme res" where
  "HandleScope_dtor this w = popHandleScope this w"

definition EscapableHandleScope_ctor :: "ptr \<Rightarrow> 'a scopes_scheme \<Rightarrow> 'a scopes_scheme" where
  "EscapableHandleScope_ctor this w = pushHandleScope (newScope this Escapable) w"

definition SealHandleScope_ctor :: "ptr \<Rightarrow> 'a scopes_scheme \<Rightarrow> 'a scopes_scheme" where
  "SealHandleScope_ctor this w = pushHandleScope (newScope this Sealed) w"

definition SealHandleScope_dtor :: "ptr \<Rightarrow> 'a scopes_scheme \<Rightarrow> 'a scopes_scheme res" where
  "SealHandleScope_dtor this w = popHandleScope this w"

definition HandleScopeWrapGuard_ctor :: "'a scopes_scheme \<Rightarrow> 'a scopes_scheme" where
  "HandleScopeWrapGuard_ctor w = pushHandleScope (newScope 0 Internal) w"

definition HandleScopeWrapGuard_dtor :: "'a scopes_scheme \<Rightarrow> 'a scopes_scheme res" where
  "HandleScopeWrapGuard_dtor w = popHandleScope 0 w"

definition alloc_handle :: "HandleWrap \<Rightarrow> 'a scopes_scheme \<Rightarrow> ptr \<times> 'a scopes_scheme" where
  "alloc_handle h w = (nextHandle w,
     w\<lparr>handleMem := (handleMem w)(nextHandle w \<mapsto> h), nextHandle := nextHandle w + 1\<rparr>)"

text \<open>The location is the expansion of \<^verbatim>\<open>__CODE_LOCATION__\<close>, cut to the function.\<close>

definition sealed_location :: string where
  "sealed_location = ''CreateHandle''"

definition sealed_message :: string where
  "sealed_message = ''the current scope isn't allowed to allocate a handle''"

definition CreateHandle :: "ptr \<Rightarrow> 'a scopes_scheme \<Rightarrow> (ptr \<times> 'a scopes_scheme) res" where
  "CreateHandle value w = rbind (isCurrentScopeSealed w) (\<lambda>sealed.
     rbind (if sealed then onFatalError sealed_location sealed_message w
            else Inr w) (\<lambda>w.
     if value = 0 then Inr (0, w)
     else (case handleMem w value of None \<Rightarrow> Inl NullDeref | Some handle \<Rightarrow>
       guard CheckFailed (isValid handle)
       (case h_location handle of
          Local \<Rightarrow> rbind (addHandleToCurrentScope value w) (\<lambda>w. Inr (value, w))
        | Strong \<Rightarrow> (let (cloned, w) = alloc_handle (clone handle Local) w in
            rbind (addHandleToCurrentScope cloned w) (\<lambda>w. Inr (cloned, w)))
        | Weak \<Rightarrow> (let (cloned, w) = alloc_handle (clone handle Local) w in
            rbind (addHandleToCurrentScope cloned w) (\<lambda>w. Inr (cloned, w)))
        | NearDeath \<Rightarrow> Inl CheckFailed))))"

definition Escape :: "ptr \<Rightarrow> 'a scopes_scheme \<Rightarrow> (ptr \<times> 'a scopes_scheme) res" where
  "Escape value w = rbind (escapeHandle value w) (\<lambda>w. Inr (value, w))"

text \<open>\<^verbatim>\<open>Utils::NewLocal\<close> on a value of the engine.\<close>

definition NewLocal :: "ptr \<Rightarrow> 'a scopes_scheme \<Rightarrow> (ptr \<times> 'a scopes_scheme) res" where
  "NewLocal esValue w = rbind (createValue esValue) (\<lambda>h.
     let (p, w) = alloc_handle h w in CreateHandle p w)"

lemmas scope_ops = newScope_def scope_add_def scope_remove_def scope_clear_def onFatalError_def pushHandleScope_def
  popHandleScope_def addHandleToCurrentScope_def escapeHandle_def isCurrentScopeSealed_def pushContext_def
  popContext_def isolate_Enter_def isolate_Exit_def context_Enter_def context_Exit_def HandleScope_ctor_def
  HandleScope_dtor_def EscapableHandleScope_ctor_def SealHandleScope_ctor_def SealHandleScope_dtor_def
  HandleScopeWrapGuard_ctor_def HandleScopeWrapGuard_dtor_def alloc_handle_def

section \<open>Brackets\<close>

text \<open>What a pair of entry and exit operations promises the blocks that use it.\<close>

locale scope_stack =
  fixes enter :: "'k \<Rightarrow> 's \<Rightarrow> 's res"
    and leave :: "'k \<Rightarrow> 's \<Rightarrow> 's res"
    and stack :: "'s \<Rightarrow> 'k list"
  assumes enter_law: "enter k s = Inr t \<Longrightarrow> stack t = stack s @ [k]"
    and leave_law: "stack t = ks @ [k] \<Longrightarrow> \<exists>u. leave k t = Inr u \<and> stack u = ks"
    and leave_order: "stack t = ks @ [k'] \<Longrightarrow> k' \<noteq> k \<Longrightarrow> leave k t = Inl CheckFailed"
begin

lemma bracket: "enter k s = Inr t \<Longrightarrow> stack t' = stack t \<Longrightarrow> \<exists>u. leave k t' = Inr u \<and> stack u = stack s"
  using enter_law leave_law by metis

lemma enters_leaves:
  "foldM enter ks s = Inr t \<Longrightarrow> \<exists>u. foldM leave (rev ks) t = Inr u \<and> stack u = stack s"
proof (induction ks arbitrary: s)
  case Nil
  then show ?case by simp
next
  case (Cons k ks)
  obtain s1 where s1: "enter k s = Inr s1" "foldM enter ks s1 = Inr t"
    using Cons.prems by (auto simp: rbind_eq_Inr)
  obtain u where u: "foldM leave (rev ks) t = Inr u" "stack u = stack s1" using Cons.IH[OF s1(2)] by auto
  obtain v where v: "leave k u = Inr v" "stack v = stack s" using bracket[OF s1(1) u(2)] by auto
  show ?case using u v by (simp add: foldM_snoc)
qed

lemma crossed:
  assumes "enter k s = Inr t" "enter k' t = Inr u" "k \<noteq> k'"
  shows "leave k u = Inl CheckFailed"
  using enter_law[OF assms(2)] leave_order assms(3) by auto

end

lemma context_Enter_stack: "context_Enter c w = Inr w' \<Longrightarrow> contextScopes w' = contextScopes w @ [c]"
  by (auto simp: scope_ops guard_def split: if_splits)

interpretation handle_blocks: scope_stack "\<lambda>k w. Inr (HandleScope_ctor k w)" HandleScope_dtor
  "\<lambda>w. map v8Scope (handleScopes w)"
proof unfold_locales
  fix k k' ks and s t :: "'a scopes_scheme"
  show "Inr (HandleScope_ctor k s) = (Inr t :: 'a scopes_scheme res) \<Longrightarrow>
      map v8Scope (handleScopes t) = map v8Scope (handleScopes s) @ [k]"
    by (auto simp: scope_ops)
  show "map v8Scope (handleScopes t) = ks @ [k] \<Longrightarrow>
      \<exists>u. HandleScope_dtor k t = Inr u \<and> map v8Scope (handleScopes u) = ks"
    by (cases "handleScopes t" rule: rev_cases) (auto simp: scope_ops Let_def)
  show "map v8Scope (handleScopes t) = ks @ [k'] \<Longrightarrow> k' \<noteq> k \<Longrightarrow> HandleScope_dtor k t = Inl CheckFailed"
    by (cases "handleScopes t" rule: rev_cases) (auto simp: scope_ops Let_def)
qed

interpretation context_blocks: scope_stack context_Enter context_Exit contextScopes
proof unfold_locales
  fix k k' ks and s t :: "'a scopes_scheme"
  show "context_Enter k s = Inr t \<Longrightarrow> contextScopes t = contextScopes s @ [k]" by (rule context_Enter_stack)
  show "contextScopes t = ks @ [k] \<Longrightarrow> \<exists>u. context_Exit k t = Inr u \<and> contextScopes u = ks"
    by (auto simp: scope_ops)
  show "contextScopes t = ks @ [k'] \<Longrightarrow> k' \<noteq> k \<Longrightarrow> context_Exit k t = Inl CheckFailed"
    by (auto simp: scope_ops)
qed

section \<open>Programs of nested blocks\<close>

datatype block = NormalBlock | EscapableBlock | SealBlock | GuardBlock

datatype prog =
    PSkip
  | PCreate ptr
  | PEscape ptr
  | PSeq prog prog
  | PScope block ptr prog
  | PContext ptr prog

fun enter_block :: "block \<Rightarrow> ptr \<Rightarrow> 'a scopes_scheme \<Rightarrow> 'a scopes_scheme" where
  "enter_block NormalBlock this w = HandleScope_ctor this w"
| "enter_block EscapableBlock this w = EscapableHandleScope_ctor this w"
| "enter_block SealBlock this w = SealHandleScope_ctor this w"
| "enter_block GuardBlock this w = HandleScopeWrapGuard_ctor w"

fun leave_block :: "block \<Rightarrow> ptr \<Rightarrow> 'a scopes_scheme \<Rightarrow> 'a scopes_scheme res" where
  "leave_block NormalBlock this w = HandleScope_dtor this w"
| "leave_block EscapableBlock this w = HandleScope_dtor this w"
| "leave_block SealBlock this w = SealHandleScope_dtor this w"
| "leave_block GuardBlock this w = HandleScopeWrapGuard_dtor w"

fun block_type :: "block \<Rightarrow> scope_type" where
  "block_type NormalBlock = Normal"
| "block_type EscapableBlock = Escapable"
| "block_type SealBlock = Sealed"
| "block_type GuardBlock = Internal"

fun exec :: "prog \<Rightarrow> 'a scopes_scheme \<Rightarrow> 'a scopes_scheme res" where
  "exec PSkip w = Inr w"
| "exec (PCreate h) w = rbind (CreateHandle h w) (\<lambda>r. Inr (snd r))"
| "exec (PEscape h) w = rbind (Escape h w) (\<lambda>r. Inr (snd r))"
| "exec (PSeq p q) w = rbind (exec p w) (exec q)"
| "exec (PScope b k p) w = rbind (exec p (enter_block b k w)) (leave_block b k)"
| "exec (PContext c p) w = rbind (context_Enter c w) (\<lambda>w. rbind (exec p w) (context_Exit c))"

text \<open>What a program may do in a block: handles are created from null or from a valid handle, not in a
  sealed block unless the embedder handles fatal errors, and escape only from an escapable block.\<close>

definition creatable :: "(ptr \<Rightarrow> HandleWrap option) \<Rightarrow> ptr \<Rightarrow> bool" where
  "creatable mem h = (h = 0 \<or>
     (case mem h of None \<Rightarrow> False | Some x \<Rightarrow> isValid x \<and> h_location x \<noteq> NearDeath))"

fun allowed :: "(ptr \<Rightarrow> HandleWrap option) \<Rightarrow> bool \<Rightarrow> scope_type \<Rightarrow> prog \<Rightarrow> bool" where
  "allowed mem cb t PSkip = True"
| "allowed mem cb t (PCreate h) = ((t = Sealed \<longrightarrow> cb) \<and> creatable mem h)"
| "allowed mem cb t (PEscape h) = (t = Escapable)"
| "allowed mem cb t (PSeq p q) = (allowed mem cb t p \<and> allowed mem cb t q)"
| "allowed mem cb t (PScope b k p) = allowed mem cb (block_type b) p"
| "allowed mem cb t (PContext c p) = allowed mem cb t p"

fun escaped :: "prog \<Rightarrow> ptr set" where
  "escaped (PEscape h) = {h}"
| "escaped (PSeq p q) = escaped p \<union> escaped q"
| "escaped (PContext c p) = escaped p"
| "escaped _ = {}"

definition fresh_mem :: "'a scopes_scheme \<Rightarrow> bool" where
  "fresh_mem w = (\<forall>p. handleMem w p \<noteq> None \<longrightarrow> p < nextHandle w)"

definition enterable :: "'a scopes_scheme \<Rightarrow> bool" where
  "enterable w = (s_currentIsolate w = 0 \<or> s_currentIsolate w = iso_self w)"

definition grow :: "ptr list \<Rightarrow> HandleScopeWrap \<Rightarrow> HandleScopeWrap" where
  "grow ext s = s\<lparr>handles := handles s @ ext\<rparr>"

lemma grow_simps [simp]: "grow [] s = s" "grow b (grow a s) = grow (a @ b) s"
  "scope_type_of (grow a s) = scope_type_of s" "v8Scope (grow a s) = v8Scope s" "handles (grow a s) = handles s @ a"
  by (simp_all add: grow_def)

text \<open>What every step keeps of the rest of the state.\<close>

definition extends :: "'a scopes_scheme \<Rightarrow> 'a scopes_scheme \<Rightarrow> bool" where
  "extends w w' = (fresh_mem w' \<and> enterable w' \<and> handleMem w \<subseteq>\<^sub>m handleMem w' \<and>
     fatal_error_callback w' = fatal_error_callback w \<and> contextScopes w' = contextScopes w \<and>
     iso_self w' = iso_self w)"

lemma state_extends_refl: "fresh_mem w \<Longrightarrow> enterable w \<Longrightarrow> extends w w"
  by (simp add: extends_def)

lemma state_extends_trans: "extends u v \<Longrightarrow> extends v w \<Longrightarrow> extends u w"
  by (auto simp: extends_def intro: map_le_trans)

lemma creatable_mono: "creatable m h \<Longrightarrow> m \<subseteq>\<^sub>m m' \<Longrightarrow> creatable m' h"
  by (auto simp: creatable_def map_le_def dom_def split: option.splits)

lemma allowed_mono: "allowed m cb t p \<Longrightarrow> m \<subseteq>\<^sub>m m' \<Longrightarrow> allowed m' cb t p"
  by (induction p arbitrary: t) (auto intro: creatable_mono)

lemma add_handle:
  "handleScopes w = xs @ [t] \<Longrightarrow>
   addHandleToCurrentScope h w = Inr (w\<lparr>handleScopes := xs @ [grow [h] t]\<rparr>)"
  by (simp add: addHandleToCurrentScope_def scope_add_def grow_def)

definition placed :: "'a scopes_scheme \<Rightarrow> HandleScopeWrap list \<Rightarrow> HandleScopeWrap \<Rightarrow> (ptr \<times> 'a scopes_scheme) res \<Rightarrow> bool" where
  "placed w xs t r = (\<exists>p w' ys. r = Inr (p, w') \<and> handleScopes w' = xs @ [grow ys t] \<and> extends w w')"

lemma placed_add:
  assumes "handleScopes u = xs @ [t]" "extends w (u\<lparr>handleScopes := xs @ [grow [h] t]\<rparr>)"
  shows "placed w xs t (rbind (addHandleToCurrentScope h u) (\<lambda>w. Inr (h, w)))"
  using assms by (auto simp: placed_def add_handle[OF assms(1)])

lemma sealed_check:
  assumes "handleScopes w = xs @ [t]" "fresh_mem w" "enterable w"
    and "scope_type_of t = Sealed \<longrightarrow> fatal_error_callback w"
  obtains u where "handleScopes u = xs @ [t]" "extends w u" "handleMem u = handleMem w"
    "\<And>f. rbind (isCurrentScopeSealed w) (\<lambda>sealed. rbind (if sealed then onFatalError l m w else Inr w) f) = f u"
proof (cases "scope_type_of t = Sealed")
  case True
  show ?thesis
    by (rule that[of "w\<lparr>fatalReports := fatalReports w @ [(l, m)]\<rparr>"])
      (use assms True in \<open>auto simp: isCurrentScopeSealed_def onFatalError_def extends_def fresh_mem_def enterable_def\<close>)
next
  case False
  show ?thesis
    by (rule that[of w])
      (use assms False in \<open>auto simp: isCurrentScopeSealed_def extends_def\<close>)
qed

lemma create_handle:
  fixes w :: "'a scopes_scheme"
  assumes "handleScopes w = xs @ [t]" "fresh_mem w" "enterable w"
    and "scope_type_of t = Sealed \<longrightarrow> fatal_error_callback w" "creatable (handleMem w) h"
  shows "placed w xs t (CreateHandle h w)"
proof -
  obtain u where u: "handleScopes u = xs @ [t]" "extends w u" "handleMem u = handleMem w"
    and c: "\<And>f :: _ \<Rightarrow> (ptr \<times> 'a scopes_scheme) res. rbind (isCurrentScopeSealed w) (\<lambda>sealed. rbind (if sealed then onFatalError sealed_location sealed_message w else Inr w) f) = f u"
    using sealed_check[OF assms(1-4)] by metis
  have up: "extends w (u\<lparr>handleScopes := ys\<rparr>)" for ys
    using u(2) by (auto simp: extends_def fresh_mem_def enterable_def)
  have al: "extends w (u\<lparr>handleMem := (handleMem u)(nextHandle u \<mapsto> x), nextHandle := Suc (nextHandle u),
      handleScopes := ys\<rparr>)" for ys x
  proof -
    have "handleMem u (nextHandle u) = None" using u(2) by (auto simp: extends_def fresh_mem_def)
    then show ?thesis using u(2,3) by (auto simp: extends_def fresh_mem_def enterable_def map_le_def less_Suc_eq)
  qed
  show ?thesis
  proof (cases "h = 0")
    case True
    then show ?thesis using u(1,2) unfolding CreateHandle_def c placed_def
      by (auto intro!: exI[of _ "[]"])
  next
    case False
    then obtain x where x: "handleMem w h = Some x" "isValid x" "h_location x \<noteq> NearDeath"
      using assms(5) by (auto simp: creatable_def split: option.splits)
    show ?thesis unfolding CreateHandle_def c
      using False x up al by (cases "h_location x") (auto simp: u(1,3) alloc_handle_def intro!: placed_add)
  qed
qed

lemma escape_handle:
  assumes "handleScopes w = ls @ [p, t]" "scope_type_of t = Escapable"
  shows "escapeHandle h w = Inr (w\<lparr>handleScopes := (if h \<in> set (handles t)
    then ls @ [grow [h] p, t\<lparr>handles := remove1 h (handles t)\<rparr>] else handleScopes w)\<rparr>)"
  using assms by (simp add: escapeHandle_def Let_def scope_remove_def nth_append list_update_append
      scope_add_def grow_def numeral_2_eq_2)

definition run_ok :: "'a scopes_scheme \<Rightarrow> HandleScopeWrap list \<Rightarrow> HandleScopeWrap \<Rightarrow> HandleScopeWrap \<Rightarrow> ptr set \<Rightarrow>
    'a scopes_scheme res \<Rightarrow> bool" where
  "run_ok w ls p t esc r = (\<exists>w' ext t'. r = Inr w' \<and> handleScopes w' = ls @ [grow ext p, t'] \<and>
     set ext \<subseteq> esc \<and> scope_type_of t' = scope_type_of t \<and> v8Scope t' = v8Scope t \<and> extends w w')"

lemma run_ok_seq:
  assumes "run_ok w ls p t a (exec f w)"
    and "\<And>w' ext t'. handleScopes w' = ls @ [grow ext p, t'] \<Longrightarrow> scope_type_of t' = scope_type_of t \<Longrightarrow>
      extends w w' \<Longrightarrow> run_ok w' ls (grow ext p) t' b (exec g w')"
  shows "run_ok w ls p t (a \<union> b) (exec (PSeq f g) w)"
proof -
  obtain w' ext t' where w': "exec f w = Inr w'" "handleScopes w' = ls @ [grow ext p, t']" "set ext \<subseteq> a"
    "scope_type_of t' = scope_type_of t" "v8Scope t' = v8Scope t" "extends w w'"
    using assms(1) unfolding run_ok_def by blast
  obtain w2 ext2 t2 where w2: "exec g w' = Inr w2" "handleScopes w2 = ls @ [grow (ext @ ext2) p, t2]"
    "set ext2 \<subseteq> b" "scope_type_of t2 = scope_type_of t'" "v8Scope t2 = v8Scope t'" "extends w' w2"
    using assms(2)[OF w'(2,4,6)] unfolding run_ok_def by auto
  have "extends w w2" using state_extends_trans w'(6) w2(6) .
  then show ?thesis unfolding run_ok_def using w' w2 by (intro exI[of _ w2] exI[of _ "ext @ ext2"] exI[of _ t2]) auto
qed

lemma enter_block_facts:
  "handleScopes (enter_block b k w) = handleScopes w @ [newScope (if b = GuardBlock then 0 else k) (block_type b)]"
  "handleMem (enter_block b k w) = handleMem w" "fatal_error_callback (enter_block b k w) = fatal_error_callback w"
  "contextScopes (enter_block b k w) = contextScopes w" "iso_self (enter_block b k w) = iso_self w"
  "fresh_mem (enter_block b k w) = fresh_mem w" "enterable (enter_block b k w) = enterable w"
  by (cases b; simp add: scope_ops fresh_mem_def enterable_def)+

lemma leave_block_pop:
  "handleScopes w = xs @ [t] \<Longrightarrow> v8Scope t = (if b = GuardBlock then 0 else k) \<Longrightarrow>
   leave_block b k w = Inr (w\<lparr>handleScopes := xs\<rparr>)"
  by (cases b) (simp_all add: scope_ops Let_def)

lemma extends_scopes: "extends w (u\<lparr>handleScopes := ys\<rparr>) = extends w u"
  by (auto simp: extends_def fresh_mem_def enterable_def)

lemma block_run:
  assumes "run_ok (enter_block b k w) ls q (newScope (if b = GuardBlock then 0 else k) (block_type b)) esc
      (exec f (enter_block b k w))" "fresh_mem w" "enterable w"
  shows "\<exists>w' ext. exec (PScope b k f) w = Inr w' \<and> handleScopes w' = ls @ [grow ext q] \<and> set ext \<subseteq> esc \<and> extends w w'"
proof -
  obtain w' ext t' where w': "exec f (enter_block b k w) = Inr w'" "handleScopes w' = (ls @ [grow ext q]) @ [t']"
    "set ext \<subseteq> esc" "v8Scope t' = (if b = GuardBlock then 0 else k)" "extends (enter_block b k w) w'"
    using assms(1) unfolding run_ok_def by (auto simp: newScope_def)
  have e: "extends w w'" using w'(5) by (simp add: extends_def enter_block_facts)
  show ?thesis using w' leave_block_pop[OF w'(2,4)] e by (auto simp: extends_scopes)
qed

lemma exec_run_ok:
  assumes "allowed (handleMem w) (fatal_error_callback w) (scope_type_of t) f"
    and "handleScopes w = ls @ [p, t]" "fresh_mem w" "enterable w"
  shows "run_ok w ls p t (escaped f) (exec f w)"
  using assms
proof (induction f arbitrary: w ls p t)
  case PSkip
  then show ?case by (auto simp: run_ok_def state_extends_refl intro!: exI[of _ "[]"])
next
  case (PCreate h)
  have "placed w (ls @ [p]) t (CreateHandle h w)" using PCreate by (intro create_handle) auto
  then show ?case by (auto simp: placed_def run_ok_def intro!: exI[of _ "[]"])
next
  case (PEscape h)
  have s: "scope_type_of t = Escapable" using PEscape.prems(1) by simp
  note h = escape_handle[OF PEscape.prems(2) s, of h]
  have e: "extends w (w\<lparr>handleScopes := ys\<rparr>)" for ys
    using PEscape.prems by (simp add: extends_scopes state_extends_refl)
  show ?case
  proof (cases "h \<in> set (handles t)")
    case True
    then show ?thesis using h e by (auto simp: Escape_def run_ok_def)
  next
    case False
    then show ?thesis using h e[of "handleScopes w"] PEscape.prems(2)
      by (auto simp: Escape_def run_ok_def intro!: exI[of _ "[]"])
  qed
next
  case (PSeq f g)
  have "run_ok w ls p t (escaped f \<union> escaped g) (exec (PSeq f g) w)"
  proof (rule run_ok_seq)
    show "run_ok w ls p t (escaped f) (exec f w)" using PSeq by simp
    fix w' ext t' assume a: "handleScopes w' = ls @ [grow ext p, t']" "scope_type_of t' = scope_type_of t" "extends w w'"
    show "run_ok w' ls (grow ext p) t' (escaped g) (exec g w')"
      using PSeq.prems(1) a by (intro PSeq.IH(2)) (auto simp: extends_def intro: allowed_mono)
  qed
  then show ?case by simp
next
  case (PScope b k f)
  have "run_ok (enter_block b k w) (ls @ [p]) t (newScope (if b = GuardBlock then 0 else k) (block_type b)) (escaped f)
      (exec f (enter_block b k w))"
    using PScope.prems by (intro PScope.IH) (auto simp: enter_block_facts newScope_def)
  from block_run[OF this PScope.prems(3,4)] show ?case
    by (auto simp: run_ok_def intro!: exI[of _ "[]"])
next
  case (PContext c f)
  let ?w = "pushContext c (if s_currentIsolate w = iso_self w then w
     else w\<lparr>s_previousIsolate := s_currentIsolate w, s_currentIsolate := iso_self w\<rparr>)"
  have e: "context_Enter c w = Inr ?w"
    using PContext.prems(4) by (auto simp: context_Enter_def isolate_Enter_def enterable_def)
  have "run_ok ?w ls p t (escaped f) (exec f ?w)"
    using PContext.prems by (intro PContext.IH) (auto simp: pushContext_def fresh_mem_def enterable_def)
  then obtain w' ext t' where w': "exec f ?w = Inr w'" "handleScopes w' = ls @ [grow ext p, t']"
    "set ext \<subseteq> escaped f" "scope_type_of t' = scope_type_of t" "v8Scope t' = v8Scope t" "extends ?w w'"
    unfolding run_ok_def by blast
  have c: "contextScopes w' = contextScopes w @ [c]" using w'(6) by (auto simp: extends_def pushContext_def)
  have "extends w (w'\<lparr>contextScopes := contextScopes w\<rparr>)" using w'(6) PContext.prems(3,4)
    by (auto simp: extends_def pushContext_def fresh_mem_def enterable_def split: if_splits)
  then show ?case using e w' c
    by (auto simp: run_ok_def context_Exit_def popContext_def)
qed

lemma allowed_escaped: "allowed m cb t f \<Longrightarrow> t \<noteq> Escapable \<Longrightarrow> escaped f = {}"
  by (induction f) auto

section \<open>Properties\<close>

text \<open>C6. Blocks are balanced: a scope block whose body only does what is allowed runs without a fault,
  pops exactly the scope it pushed, restores the stack of contexts, leaves every outer scope but the
  enclosing one alone, and adds to that one only handles that the body escapes, none unless the block is
  escapable.\<close>

theorem blocks_balanced:
  fixes w :: "'a scopes_scheme"
  assumes "handleScopes w = ls @ [t]" "fresh_mem w" "enterable w"
    and "allowed (handleMem w) (fatal_error_callback w) (block_type b) f"
  shows "\<exists>w' ext. exec (PScope b k f) w = Inr w' \<and> handleScopes w' = ls @ [grow ext t] \<and>
    set ext \<subseteq> escaped f \<and> (b \<noteq> EscapableBlock \<longrightarrow> ext = []) \<and> contextScopes w' = contextScopes w"
proof -
  have "run_ok (enter_block b k w) ls t (newScope (if b = GuardBlock then 0 else k) (block_type b)) (escaped f)
      (exec f (enter_block b k w))"
    using assms by (intro exec_run_ok) (auto simp: enter_block_facts newScope_def)
  from block_run[OF this assms(2,3)] obtain w' ext where r: "exec (PScope b k f) w = Inr w'"
    "handleScopes w' = ls @ [grow ext t]" "set ext \<subseteq> escaped f" "extends w w'" by blast
  have "b \<noteq> EscapableBlock \<longrightarrow> ext = []"
    using allowed_escaped[OF assms(4)] r(3) by (cases b) auto
  then show ?thesis using r by (auto simp: extends_def)
qed

definition base_scopes :: "(ptr \<Rightarrow> HandleWrap option) \<Rightarrow> bool \<Rightarrow> scopes" where
  "base_scopes mem cb = \<lparr>iso_self = 1, s_currentIsolate = 0, s_previousIsolate = 0,
     handleScopes = [newScope 500 Normal], contextScopes = [], handleMem = mem, nextHandle = 100,
     fatal_error_callback = cb, fatalReports = []\<rparr>"

definition one_handle :: "handle_location \<Rightarrow> ptr \<Rightarrow> HandleWrap option" where
  "one_handle l = [7 \<mapsto> \<lparr>h_val = 3, h_type = JsValue, h_valueType = NoValueType, h_location = l\<rparr>]"

theorem blocks_balanced_witness:
  "\<exists>w' ext. exec (PScope EscapableBlock 501 (PSeq (PCreate 7) (PContext 9 (PEscape 7)))) (base_scopes (one_handle Local) False) = Inr w' \<and>
    handleScopes w' = [] @ [grow ext (newScope 500 Normal)] \<and> set ext \<subseteq> escaped (PSeq (PCreate 7) (PContext 9 (PEscape 7))) \<and>
    (EscapableBlock \<noteq> EscapableBlock \<longrightarrow> ext = []) \<and> contextScopes w' = contextScopes (base_scopes (one_handle Local) False)"
  by (rule blocks_balanced) (auto simp: base_scopes_def one_handle_def fresh_mem_def enterable_def creatable_def
      isValid_def split: if_splits)

text \<open>A local handle created in an escapable block and escaped from it is the one handle the block
  adds to the enclosing scope; escaping it again adds nothing; without the escape, and for a
  persistent handle, whose local copy has another address, nothing survives the block.\<close>

theorem escaped_handle_survives:
  fixes w :: "'a scopes_scheme"
  assumes "handleScopes w = ls @ [t]" "handleMem w h = Some x" "isValid x" "h \<noteq> 0" "h \<noteq> nextHandle w"
  shows "(h_location x = Local \<longrightarrow>
      exec (PScope EscapableBlock k (PSeq (PCreate h) (PEscape h))) w = Inr (w\<lparr>handleScopes := ls @ [grow [h] t]\<rparr>) \<and>
      exec (PScope EscapableBlock k (PSeq (PCreate h) (PSeq (PEscape h) (PEscape h)))) w = Inr (w\<lparr>handleScopes := ls @ [grow [h] t]\<rparr>) \<and>
      exec (PScope EscapableBlock k (PCreate h)) w = Inr w)
    \<and> (h_location x = Strong \<longrightarrow> (\<exists>w'.
      exec (PScope EscapableBlock k (PSeq (PCreate h) (PEscape h))) w = Inr w' \<and> handleScopes w' = handleScopes w))"
proof -
  let ?s = "newScope k Escapable"
  have w: "w\<lparr>handleScopes := ls @ [t]\<rparr> = w" using assms(1) by simp
  show ?thesis using assms w
    by (auto simp: scope_ops CreateHandle_def Escape_def escapeHandle_def isCurrentScopeSealed_def nth_append
        list_update_append Let_def addHandleToCurrentScope_def grow_def numeral_2_eq_2 butlast_append)
qed

theorem escaped_handle_survives_witness:
  "exec (PScope EscapableBlock 501 (PSeq (PCreate 7) (PEscape 7))) (base_scopes (one_handle Local) False) =
     Inr ((base_scopes (one_handle Local) False)\<lparr>handleScopes := [] @ [grow [7] (newScope 500 Normal)]\<rparr>)"
  using escaped_handle_survives[of "base_scopes (one_handle Local) False" "[]" "newScope 500 Normal" 7
      "\<lparr>h_val = 3, h_type = JsValue, h_valueType = NoValueType, h_location = Local\<rparr>" 501]
  by (simp add: base_scopes_def one_handle_def isValid_def)

text \<open>In a sealed block every creation is a fatal error, also of the null handle: without an embedder
  callback the process aborts; with one, the error is reported and the handle is created all the
  same.\<close>

theorem sealed_scope_refuses:
  fixes w :: "'a scopes_scheme"
  assumes "handleScopes w = ls @ [t]" "handleMem w h = Some x" "isValid x" "h_location x = Local" "h \<noteq> 0"
  shows "(\<not> fatal_error_callback w \<longrightarrow>
      exec (PScope SealBlock k (PCreate h)) w = Inl CheckFailed \<and> exec (PScope SealBlock k (PCreate 0)) w = Inl CheckFailed)
    \<and> (fatal_error_callback w \<longrightarrow> CreateHandle h (enter_block SealBlock k w) = Inr (h,
      w\<lparr>handleScopes := ls @ [t, grow [h] (newScope k Sealed)],
        fatalReports := fatalReports w @ [(sealed_location, sealed_message)]\<rparr>))"
  using assms by (auto simp: scope_ops CreateHandle_def isCurrentScopeSealed_def addHandleToCurrentScope_def grow_def
      butlast_append)

theorem sealed_scope_refuses_witness:
  "exec (PScope SealBlock 501 (PCreate 7)) (base_scopes (one_handle Local) False) = Inl CheckFailed"
  using sealed_scope_refuses[of "base_scopes (one_handle Local) False" "[]" "newScope 500 Normal" 7
      "\<lparr>h_val = 3, h_type = JsValue, h_valueType = NoValueType, h_location = Local\<rparr>" 501]
  by (simp add: base_scopes_def one_handle_def isValid_def)

text \<open>Handle scopes and contexts nest: whatever sequence is entered, leaving it in the reverse order
  succeeds and restores the stack; leaving an outer one while an inner one is open aborts.\<close>

theorem scopes_nest:
  fixes w :: "'a scopes_scheme"
  assumes "enterable w"
  shows "(\<exists>u. rbind (foldM (\<lambda>k w. Inr (HandleScope_ctor k w)) ks w) (foldM HandleScope_dtor (rev ks)) = Inr u \<and>
        map v8Scope (handleScopes u) = map v8Scope (handleScopes w))
    \<and> (\<exists>u. rbind (foldM context_Enter cs w) (foldM context_Exit (rev cs)) = Inr u \<and> contextScopes u = contextScopes w)
    \<and> (k \<noteq> k' \<longrightarrow> HandleScope_dtor k (HandleScope_ctor k' (HandleScope_ctor k w)) = Inl CheckFailed
        \<and> rbind (context_Enter k w) (\<lambda>w. rbind (context_Enter k' w) (context_Exit k)) = Inl CheckFailed)"
proof -
  have e: "\<exists>u. context_Enter c v = Inr u \<and> enterable u" if "enterable v" for c and v :: "'a scopes_scheme"
    using that by (auto simp: context_Enter_def isolate_Enter_def enterable_def pushContext_def)
  have es: "\<exists>u. foldM context_Enter cs v = Inr u" if "enterable v" for cs and v :: "'a scopes_scheme"
    using that
  proof (induction cs arbitrary: v)
    case (Cons c cs)
    then show ?case using e[of v c] by fastforce
  qed simp
  have hs: "\<exists>u. foldM (\<lambda>k w. Inr (HandleScope_ctor k w)) ks v = Inr u" for v :: "'a scopes_scheme"
    by (induction ks arbitrary: v) auto
  obtain u v where u: "foldM (\<lambda>k w. Inr (HandleScope_ctor k w)) ks w = Inr u" "foldM context_Enter cs w = Inr v"
    using hs es assms by blast
  obtain c d where c: "context_Enter k w = Inr c" "context_Enter k' c = Inr d" using e assms by metis
  show ?thesis
    using handle_blocks.enters_leaves[OF u(1)] context_blocks.enters_leaves[OF u(2)] u c
      handle_blocks.crossed[OF refl refl] context_blocks.crossed[OF c] by auto
qed

theorem scopes_nest_witness:
  "\<exists>u. rbind (foldM context_Enter [3, 4] (base_scopes (one_handle Local) False)) (foldM context_Exit (rev [3, 4])) = Inr u \<and>
    contextScopes u = contextScopes (base_scopes (one_handle Local) False)"
  using scopes_nest[of "base_scopes (one_handle Local) False" "[]" "[3, 4]"]
  by (simp add: enterable_def base_scopes_def)

text \<open>Entering an isolate is not counted: it may be entered again while it is current, but the first
  exit leaves the thread without a current isolate, and the exit that matches the first entry aborts.
  Entering a context enters the isolate too, and leaving the context does not undo that.\<close>

theorem isolate_reentry_aborts:
  fixes w :: "'a scopes_scheme"
  assumes "s_currentIsolate w = 0" "iso_self w \<noteq> 0"
  shows "(\<exists>u v. rbind (isolate_Enter w) isolate_Enter = Inr u \<and> s_currentIsolate u = iso_self w \<and>
        isolate_Exit u = Inr v \<and> s_currentIsolate v = 0 \<and> isolate_Exit v = Inl CheckFailed)
    \<and> (\<exists>u. rbind (context_Enter c w) (context_Exit c) = Inr u \<and> s_currentIsolate u = iso_self w)"
  using assms by (simp add: scope_ops guard_def)

theorem isolate_reentry_aborts_witness:
  "\<exists>u v. rbind (isolate_Enter (base_scopes (one_handle Local) False)) isolate_Enter = Inr u \<and>
    isolate_Exit u = Inr v \<and> isolate_Exit v = Inl CheckFailed"
  using isolate_reentry_aborts[of "base_scopes (one_handle Local) False" 3] by (auto simp: base_scopes_def)

end
