(* ===== verification/GlobalHandles.thy ===== *)
theory GlobalHandles
  imports Handle "HOL-Library.Multiset"
begin

text \<open>
  The global handles of an isolate: \<^verbatim>\<open>GlobalHandles\<close> and \<^verbatim>\<open>GcObjectInfo\<close> of
  \<^verbatim>\<open>src/src/api/global-handles.h\<close> and \<^verbatim>\<open>global-handles.cc\<close>, and the contract of a reference counter,
  which the counted persistent values meet.

  The set of object infos is the list of its elements in the order of the comparator, which compares the
  values they belong to. The collector is a parameter: which finalizers it invokes during a pass. A
  callback of the embedder is a number, and running it is an event.
\<close>

section \<open>Reference counters\<close>

text \<open>What the users of a counted table ask of it.\<close>

locale refcount =
  fixes incr :: "'k \<Rightarrow> 's \<Rightarrow> 's"
    and decr :: "'k \<Rightarrow> 's \<Rightarrow> 's res"
    and count_of :: "'k \<Rightarrow> 's \<Rightarrow> nat"
    and ok :: "'s \<Rightarrow> bool"
  assumes incr_ok: "ok s \<Longrightarrow> ok (incr k s)"
    and incr_count: "ok s \<Longrightarrow> count_of j (incr k s) = (if j = k then Suc (count_of k s) else count_of j s)"
    and decr_law: "ok s \<Longrightarrow> count_of k s > 0 \<Longrightarrow>
      \<exists>t. decr k s = Inr t \<and> ok t \<and> (\<forall>j. count_of j t = (if j = k then count_of k s - 1 else count_of j s))"
begin

lemma incrs_count: "ok s \<Longrightarrow> ok (fold incr ks s) \<and> count_of j (fold incr ks s) = count_of j s + count (mset ks) j"
  by (induction ks arbitrary: s) (auto simp: incr_ok incr_count)

text \<open>Any releases the acquisitions cover succeed, in whatever order they come.\<close>

lemma decrs_count:
  "ok s \<Longrightarrow> (\<forall>j. count (mset ks) j \<le> count_of j s) \<Longrightarrow>
   \<exists>t. foldM decr ks s = Inr t \<and> ok t \<and> (\<forall>j. count_of j t = count_of j s - count (mset ks) j)"
proof (induction ks arbitrary: s)
  case Nil
  then show ?case by simp
next
  case (Cons k ks)
  have "count_of k s > 0" using Cons.prems(2)[rule_format, of k] by simp
  then obtain t where t: "decr k s = Inr t" "ok t"
    "\<And>j. count_of j t = (if j = k then count_of k s - 1 else count_of j s)"
    using decr_law Cons.prems(1) by blast
  have "\<forall>j. count (mset ks) j \<le> count_of j t"
    using Cons.prems(2) by (auto simp: t(3) split: if_splits)
  then obtain u where u: "foldM decr ks t = Inr u" "ok u" "\<And>j. count_of j u = count_of j t - count (mset ks) j"
    using Cons.IH[OF t(2)] by blast
  then show ?case using t by (auto simp: diff_diff_add)
qed

lemma balanced:
  assumes "ok s" "mset ks = mset js"
  shows "\<exists>t. foldM decr js (fold incr ks s) = Inr t \<and> (\<forall>j. count_of j t = count_of j s)"
  using decrs_count[of "fold incr ks s" js] incrs_count[OF assms(1)] assms(2) by auto

end

section \<open>State\<close>

record GcObjectInfo =
  info_lwValue :: ptr
  info_parameter :: ptr
  info_callback :: "nat option"
  isPersistent :: bool

datatype gh_event = RanCallback nat ptr | Deleted ptr

record GlobalHandles =
  persistentValues :: "ptr \<Rightarrow> nat option"
  gh_isolate :: ptr
  gcObjectInfos :: "GcObjectInfo list"
  infosFreed :: bool
  finalizers :: "ptr \<Rightarrow> bool"
  gh_log :: "gh_event list"

definition newGcObjectInfo :: "ptr \<Rightarrow> ptr \<Rightarrow> nat option \<Rightarrow> GcObjectInfo" where
  "newGcObjectInfo lwValue param callback = \<lparr>info_lwValue = lwValue, info_parameter = param,
     info_callback = callback, isPersistent = False\<rparr>"

definition newGlobalHandles :: "ptr \<Rightarrow> GlobalHandles" where
  "newGlobalHandles isolate = \<lparr>persistentValues = (\<lambda>_. None), gh_isolate = isolate, gcObjectInfos = [],
     infosFreed = False, finalizers = (\<lambda>_. False), gh_log = []\<rparr>"

text \<open>The operations of the set of infos.\<close>

definition infos_find :: "ptr \<Rightarrow> GcObjectInfo list \<Rightarrow> GcObjectInfo option" where
  "infos_find v is = find (\<lambda>i. info_lwValue i = v) is"

definition infos_insert :: "GcObjectInfo \<Rightarrow> GcObjectInfo list \<Rightarrow> GcObjectInfo list" where
  "infos_insert i is = (if infos_find (info_lwValue i) is = None then insort_key info_lwValue i is else is)"

definition infos_update :: "ptr \<Rightarrow> (GcObjectInfo \<Rightarrow> GcObjectInfo) \<Rightarrow> GcObjectInfo list \<Rightarrow> GcObjectInfo list" where
  "infos_update v f is = map (\<lambda>i. if info_lwValue i = v then f i else i) is"

definition infos_erase :: "ptr \<Rightarrow> GcObjectInfo list \<Rightarrow> GcObjectInfo list" where
  "infos_erase v is = filter (\<lambda>i. info_lwValue i \<noteq> v) is"

text \<open>After \<^verbatim>\<open>dispose\<close> the set still holds the pointers it deleted.\<close>

definition infos_access :: "GlobalHandles \<Rightarrow> 'a res \<Rightarrow> 'a res" where
  "infos_access gh m = guard UseAfterFree (infosFreed gh \<longrightarrow> gcObjectInfos gh = []) m"

section \<open>Persistent values\<close>

definition gh_create :: "ptr \<Rightarrow> GlobalHandles \<Rightarrow> GlobalHandles" where
  "gh_create lwValue gh = (case persistentValues gh lwValue of
     None \<Rightarrow> gh\<lparr>persistentValues := (persistentValues gh)(lwValue \<mapsto> 1)\<rparr>
   | Some n \<Rightarrow> gh\<lparr>persistentValues := (persistentValues gh)(lwValue \<mapsto> n + 1)\<rparr>)"

definition gh_destroy :: "ptr \<Rightarrow> GlobalHandles \<Rightarrow> bool \<times> GlobalHandles" where
  "gh_destroy lwValue gh = (case persistentValues gh lwValue of
     Some n \<Rightarrow> (True, if n = 1 then gh\<lparr>persistentValues := (persistentValues gh)(lwValue := None)\<rparr>
       else gh\<lparr>persistentValues := (persistentValues gh)(lwValue \<mapsto> n - 1)\<rparr>)
   | None \<Rightarrow> (False, gh))"

section \<open>Weak values\<close>

definition findGcObjectInfo :: "ptr \<Rightarrow> GlobalHandles \<Rightarrow> GcObjectInfo option res" where
  "findGcObjectInfo lwValue gh = infos_access gh (Inr (infos_find lwValue (gcObjectInfos gh)))"

definition removeGcObjectInfo :: "ptr \<Rightarrow> GlobalHandles \<Rightarrow> GlobalHandles res" where
  "removeGcObjectInfo lwValue gh = infos_access gh (case infos_find lwValue (gcObjectInfos gh) of
     None \<Rightarrow> Inr gh
   | Some i \<Rightarrow> Inr (gh\<lparr>gcObjectInfos := infos_erase lwValue (gcObjectInfos gh), gh_log := gh_log gh @ [Deleted lwValue]\<rparr>))"

definition addWeakValue :: "ptr \<Rightarrow> ptr \<Rightarrow> nat option \<Rightarrow> GlobalHandles \<Rightarrow> GlobalHandles res" where
  "addWeakValue lwValue param callback gh = infos_access gh (case infos_find lwValue (gcObjectInfos gh) of
     Some i \<Rightarrow> Inr (gh\<lparr>gcObjectInfos := infos_update lwValue (\<lambda>i. i\<lparr>isPersistent := False\<rparr>) (gcObjectInfos gh)\<rparr>)
   | None \<Rightarrow> Inr (gh\<lparr>gcObjectInfos := infos_insert (newGcObjectInfo lwValue param callback) (gcObjectInfos gh)\<rparr>))"

definition setPersistent :: "ptr \<Rightarrow> GlobalHandles \<Rightarrow> GlobalHandles res" where
  "setPersistent lwValue gh = infos_access gh (case infos_find lwValue (gcObjectInfos gh) of
     Some i \<Rightarrow> Inr (gh\<lparr>gcObjectInfos := infos_update lwValue (\<lambda>i. i\<lparr>isPersistent := True\<rparr>) (gcObjectInfos gh)\<rparr>)
   | None \<Rightarrow> Inr (gh\<lparr>gcObjectInfos := infos_insert (newGcObjectInfo lwValue 0 None) (gcObjectInfos gh)\<rparr>))"

definition gh_makeWeak :: "ptr \<Rightarrow> ptr \<Rightarrow> nat option \<Rightarrow> GlobalHandles \<Rightarrow> GlobalHandles res" where
  "gh_makeWeak lwValue param callback gh = rbind (addWeakValue lwValue param callback gh) (\<lambda>gh.
     Inr (gh\<lparr>finalizers := (finalizers gh)(lwValue := True)\<rparr>))"

definition clearWeakness :: "ptr \<Rightarrow> GlobalHandles \<Rightarrow> GlobalHandles res" where
  "clearWeakness lwValue gh = setPersistent lwValue gh"

definition runCallback :: "GcObjectInfo \<Rightarrow> GlobalHandles \<Rightarrow> GlobalHandles" where
  "runCallback i gh = (case info_callback i of None \<Rightarrow> gh
     | Some c \<Rightarrow> gh\<lparr>gh_log := gh_log gh @ [RanCallback c (info_parameter i)]\<rparr>)"

text \<open>The finalizer that \<^verbatim>\<open>makeWeak\<close> registers, invoked by the collector at most once.\<close>

definition runFinalizer :: "ptr \<Rightarrow> GlobalHandles \<Rightarrow> GlobalHandles res" where
  "runFinalizer self gh = (if \<not> finalizers gh self then Inr gh
     else (let gh = gh\<lparr>finalizers := (finalizers gh)(self := False)\<rparr> in
       if gh_isolate gh = 0 then Inr gh
       else rbind (findGcObjectInfo self gh) (\<lambda>r. case r of
           None \<Rightarrow> Inr gh
         | Some i \<Rightarrow> removeGcObjectInfo (info_lwValue i) (runCallback i gh))))"

section \<open>Collection\<close>

fun releaseLoop :: "(ptr \<Rightarrow> ptr list) \<Rightarrow> GcObjectInfo list \<Rightarrow> GcObjectInfo list \<Rightarrow> GcObjectInfo list \<Rightarrow> GlobalHandles \<Rightarrow>
    (GcObjectInfo list \<times> GcObjectInfo list \<times> GlobalHandles) res" where
  "releaseLoop invoke [] pers weaks gh = Inr (pers, weaks, gh)"
| "releaseLoop invoke (i # is) pers weaks gh =
     (case infos_find (info_lwValue i) (gcObjectInfos gh) of
        None \<Rightarrow> releaseLoop invoke is pers weaks gh
      | Some i \<Rightarrow> if isPersistent i then releaseLoop invoke is (infos_insert i pers) weaks gh
          else (let gh = runCallback i gh;
                    gh = gh\<lparr>finalizers := (finalizers gh)(info_lwValue i := False)\<rparr> in
            rbind (foldM runFinalizer (invoke (info_lwValue i)) gh) (releaseLoop invoke is pers (weaks @ [i]))))"

text \<open>\<open>invoke v\<close> lists the objects whose finalizers \<^verbatim>\<open>GC_invoke_finalizers\<close> runs after the callback
  of \<open>v\<close>. An info that a finalizer erased is not reached by the iteration.\<close>

definition releaseWeakValues :: "(ptr \<Rightarrow> ptr list) \<Rightarrow> GlobalHandles \<Rightarrow> GlobalHandles res" where
  "releaseWeakValues invoke gh = infos_access gh
     (rbind (releaseLoop invoke (gcObjectInfos gh) [] [] gh) (\<lambda>(pers, weaks, gh).
        Inr (gh\<lparr>gcObjectInfos := fold infos_insert pers [], gh_log := gh_log gh @ map (\<lambda>i. Deleted (info_lwValue i)) weaks\<rparr>)))"

definition clearWeakValues :: "GlobalHandles \<Rightarrow> GlobalHandles res" where
  "clearWeakValues gh = infos_access gh
     (Inr (gh\<lparr>gcObjectInfos := fold infos_insert (filter isPersistent (gcObjectInfos gh)) []\<rparr>))"

text \<open>Without \<^verbatim>\<open>LWNODE_ENABLE_EXPERIMENTAL\<close> the pass after a collection does nothing.\<close>

definition PostGarbageCollectionProcessing :: "bool \<Rightarrow> GlobalHandles \<Rightarrow> (nat \<times> GlobalHandles) res" where
  "PostGarbageCollectionProcessing experimental gh = rbind (if experimental then clearWeakValues gh else Inr gh)
     (\<lambda>gh. Inr (0, gh))"

definition handles_count :: "GlobalHandles \<Rightarrow> nat res" where
  "handles_count gh = infos_access gh (Inr (length (filter isPersistent (gcObjectInfos gh))))"

definition gh_dispose :: "GlobalHandles \<Rightarrow> GlobalHandles res" where
  "gh_dispose gh = guard UseAfterFree (infosFreed gh \<longrightarrow> gcObjectInfos gh = [])
     (Inr (gh\<lparr>persistentValues := (\<lambda>_. None), infosFreed := True, gh_isolate := 0,
       gh_log := gh_log gh @ map (\<lambda>i. Deleted (info_lwValue i)) (gcObjectInfos gh)\<rparr>))"

section \<open>The static interface\<close>

definition GlobalHandles_Destroy :: "ptr \<Rightarrow> GlobalHandles option \<Rightarrow> GlobalHandles option" where
  "GlobalHandles_Destroy lwValue current = (case current of None \<Rightarrow> None | Some gh \<Rightarrow> Some (snd (gh_destroy lwValue gh)))"

definition GlobalHandles_MakeWeak :: "ptr \<Rightarrow> ptr \<Rightarrow> nat option \<Rightarrow> GlobalHandles option \<Rightarrow> GlobalHandles option res" where
  "GlobalHandles_MakeWeak lwValue param callback current = (case current of None \<Rightarrow> Inl NullDeref
     | Some gh \<Rightarrow> rbind (gh_makeWeak lwValue param callback gh) (\<lambda>gh. Inr (Some gh)))"

definition GlobalHandles_ClearWeakness :: "ptr \<Rightarrow> GlobalHandles option \<Rightarrow> (ptr \<times> GlobalHandles option) res" where
  "GlobalHandles_ClearWeakness lwValue current = (case current of None \<Rightarrow> Inl NullDeref
     | Some gh \<Rightarrow> rbind (clearWeakness lwValue gh) (\<lambda>gh. Inr (0, Some gh)))"

section \<open>Lemmas\<close>

text \<open>The counted persistent values.\<close>

definition persistent_count :: "ptr \<Rightarrow> GlobalHandles \<Rightarrow> nat" where
  "persistent_count v gh = (case persistentValues gh v of None \<Rightarrow> 0 | Some n \<Rightarrow> n)"

definition counts_positive :: "GlobalHandles \<Rightarrow> bool" where
  "counts_positive gh = (\<forall>v. persistentValues gh v \<noteq> Some 0)"

definition gh_destroy_checked :: "ptr \<Rightarrow> GlobalHandles \<Rightarrow> GlobalHandles res" where
  "gh_destroy_checked v gh = (let (found, gh) = gh_destroy v gh in guard CheckFailed found (Inr gh))"

interpretation persistent_values: refcount gh_create gh_destroy_checked persistent_count counts_positive
proof unfold_locales
  fix k j and s :: GlobalHandles
  assume s: "counts_positive s"
  show "counts_positive (gh_create k s)"
    using s by (auto simp: counts_positive_def gh_create_def split: option.splits)
  show "persistent_count j (gh_create k s) = (if j = k then Suc (persistent_count k s) else persistent_count j s)"
    by (auto simp: persistent_count_def gh_create_def split: option.splits)
  show "persistent_count k s > 0 \<Longrightarrow> \<exists>t. gh_destroy_checked k s = Inr t \<and> counts_positive t \<and>
      (\<forall>j. persistent_count j t = (if j = k then persistent_count k s - 1 else persistent_count j s))"
    using s by (auto simp: persistent_count_def gh_destroy_def gh_destroy_checked_def counts_positive_def split: option.splits)
qed

text \<open>The set of infos.\<close>

definition infos_ok :: "GcObjectInfo list \<Rightarrow> bool" where
  "infos_ok is = (sorted (map info_lwValue is) \<and> distinct (map info_lwValue is))"

lemma infos_find_None: "infos_find v is = None \<longleftrightarrow> v \<notin> info_lwValue ` set is"
  by (auto simp: infos_find_def find_None_iff)

lemma infos_find_Some: "infos_ok is \<Longrightarrow> infos_find v is = Some i \<longleftrightarrow> i \<in> set is \<and> info_lwValue i = v"
  unfolding infos_ok_def
proof (induction "is")
  case (Cons a as)
  then show ?case by (force simp: infos_find_def)
qed (simp add: infos_find_def)

lemma map_insort_key: "map f (insort_key f i is) = insort (f i) (map f is)"
  by (induction "is") auto

lemma infos_insert_ok: "infos_ok is \<Longrightarrow> infos_ok (infos_insert i is)"
  unfolding infos_ok_def infos_insert_def
  by (simp add: map_insort_key infos_find_None sorted_insort distinct_insort)

lemma infos_insert_set: "infos_find (info_lwValue i) is = None \<Longrightarrow> set (infos_insert i is) = insert i (set is)"
  by (simp add: infos_insert_def set_insort_key)

lemma infos_update_ok: "infos_ok is \<Longrightarrow> (\<And>i. info_lwValue (f i) = info_lwValue i) \<Longrightarrow> infos_ok (infos_update v f is)"
proof -
  assume a: "infos_ok is" "\<And>i. info_lwValue (f i) = info_lwValue i"
  have "map info_lwValue (infos_update v f is) = map info_lwValue is" by (simp add: infos_update_def a(2))
  then show ?thesis using a by (simp add: infos_ok_def)
qed

lemma infos_erase_ok: "infos_ok is \<Longrightarrow> infos_ok (infos_erase v is)"
  by (auto simp: infos_ok_def infos_erase_def sorted_filter distinct_map inj_on_def)

lemma infos_erase_sub: "i \<in> set (infos_erase v is) \<Longrightarrow> i \<in> set is \<and> info_lwValue i \<noteq> v"
  by (auto simp: infos_erase_def)

lemma infos_eqI:
  assumes "infos_ok a" "infos_ok b" "set a = set b"
  shows "a = b"
proof -
  have m: "map info_lwValue a = map info_lwValue b"
    using assms unfolding infos_ok_def by (intro sorted_distinct_set_unique) auto
  have i: "inj_on info_lwValue (set a \<union> set b)"
    using assms unfolding infos_ok_def distinct_map by simp
  show ?thesis using map_inj_on[OF m i] .
qed

lemma fold_insert_ok:
  "infos_ok acc \<Longrightarrow> distinct (map info_lwValue (xs @ acc)) \<Longrightarrow>
   infos_ok (fold infos_insert xs acc) \<and> set (fold infos_insert xs acc) = set xs \<union> set acc"
proof (induction xs arbitrary: acc)
  case (Cons x xs)
  have n: "infos_find (info_lwValue x) acc = None" using Cons.prems(2) by (auto simp: infos_find_None)
  have s: "set (infos_insert x acc) = insert x (set acc)" using infos_insert_set[OF n] .
  have "distinct (map info_lwValue (xs @ infos_insert x acc))"
    using Cons.prems s infos_insert_ok[OF Cons.prems(1), of x] by (auto simp: infos_ok_def)
  then show ?case using Cons.IH[OF infos_insert_ok[OF Cons.prems(1)]] s by auto
qed simp

text \<open>The events a pass still owes: the callback of every weak info whose finalizer is armed, and the
  deletion of every weak info. Steps turn owed events into logged ones.\<close>

definition cb_event :: "GcObjectInfo \<Rightarrow> gh_event multiset" where
  "cb_event i = (case info_callback i of None \<Rightarrow> {#} | Some c \<Rightarrow> {#RanCallback c (info_parameter i)#})"

definition owed :: "(ptr \<Rightarrow> bool) \<Rightarrow> GcObjectInfo list \<Rightarrow> gh_event multiset" where
  "owed fin is = (\<Sum>i\<leftarrow>filter (\<lambda>i. \<not> isPersistent i) is.
     (if fin (info_lwValue i) then cb_event i else {#}) + {#Deleted (info_lwValue i)#})"

definition account :: "GlobalHandles \<Rightarrow> gh_event multiset" where
  "account gh = mset (gh_log gh) + owed (finalizers gh) (gcObjectInfos gh)"

definition live :: "GlobalHandles \<Rightarrow> bool" where
  "live gh = (infos_ok (gcObjectInfos gh) \<and> \<not> infosFreed gh \<and> gh_isolate gh \<noteq> 0)"

lemma owed_simps [simp]:
  "owed fin [] = {#}"
  "owed fin (i # is) = (if isPersistent i then {#}
     else (if fin (info_lwValue i) then cb_event i else {#}) + {#Deleted (info_lwValue i)#}) + owed fin is"
  by (simp_all add: owed_def)

lemma owed_cong: "(\<And>i. i \<in> set is \<Longrightarrow> f (info_lwValue i) = g (info_lwValue i)) \<Longrightarrow> owed f is = owed g is"
  by (induction "is") auto

lemma owed_extract:
  assumes that: "\<And>v. v \<noteq> info_lwValue i \<Longrightarrow> f v = g v"
    and "distinct (map info_lwValue is)" "i \<in> set is" "\<not> isPersistent i"
  shows "owed f is = (if f (info_lwValue i) then cb_event i else {#}) + {#Deleted (info_lwValue i)#} +
      owed g (infos_erase (info_lwValue i) is)"
  using assms(2-)
proof (induction "is")
  case (Cons a as)
  show ?case
  proof (cases "a = i")
    case True
    then have e: "infos_erase (info_lwValue i) (a # as) = as"
      using Cons.prems(1)
      by (auto simp: infos_erase_def intro!: filter_True) (metis image_eqI)
    have "info_lwValue j \<noteq> info_lwValue i" if "j \<in> set as" for j
      using Cons.prems(1) True that by (auto simp: image_iff)
    then have "owed f as = owed g as" using that by (intro owed_cong) blast
    then show ?thesis using e True Cons.prems(3) by simp
  next
    case False
    then have n: "info_lwValue a \<noteq> info_lwValue i" using Cons.prems by auto
    then show ?thesis using Cons False that[OF n] by (simp add: infos_erase_def ac_simps)
  qed
qed simp

lemma runCallback_simps [simp]:
  "gcObjectInfos (runCallback i gh) = gcObjectInfos gh" "finalizers (runCallback i gh) = finalizers gh"
  "infosFreed (runCallback i gh) = infosFreed gh" "gh_isolate (runCallback i gh) = gh_isolate gh"
  "mset (gh_log (runCallback i gh)) = mset (gh_log gh) + cb_event i"
  "persistentValues (runCallback i gh) = persistentValues gh"
  by (simp_all add: runCallback_def cb_event_def split: option.splits)

definition after_finalizers :: "ptr list \<Rightarrow> GlobalHandles \<Rightarrow> GlobalHandles \<Rightarrow> bool" where
  "after_finalizers vs gh gh' = (account gh' = account gh \<and> live gh' \<and>
     gcObjectInfos gh' = filter (\<lambda>i. \<not> (finalizers gh (info_lwValue i) \<and> info_lwValue i \<in> set vs)) (gcObjectInfos gh) \<and>
     finalizers gh' = (\<lambda>v. finalizers gh v \<and> v \<notin> set vs))"

lemma runFinalizer_account:
  assumes "live gh" "v \<notin> info_lwValue ` set (filter isPersistent (gcObjectInfos gh))"
  shows "\<exists>gh'. runFinalizer v gh = Inr gh' \<and> after_finalizers [v] gh gh'"
proof (cases "finalizers gh v")
  case False
  then show ?thesis using assms by (auto simp: runFinalizer_def after_finalizers_def intro!: filter_True[symmetric])
next
  case fin: True
  let ?u = "gh\<lparr>finalizers := (finalizers gh)(v := False)\<rparr>"
  have l: "infos_ok (gcObjectInfos gh)" "\<not> infosFreed gh" "gh_isolate gh \<noteq> 0" using assms(1) by (auto simp: live_def)
  show ?thesis
  proof (cases "infos_find v (gcObjectInfos gh)")
    case None
    have "owed (finalizers ?u) (gcObjectInfos gh) = owed (finalizers gh) (gcObjectInfos gh)"
      using None by (intro owed_cong) (auto simp: infos_find_None)
    moreover have "runFinalizer v gh = Inr ?u"
      using fin l None by (simp add: runFinalizer_def findGcObjectInfo_def infos_access_def)
    moreover have "filter (\<lambda>i. \<not> (finalizers gh (info_lwValue i) \<and> info_lwValue i \<in> set [v])) (gcObjectInfos gh) = gcObjectInfos gh"
      using None by (intro filter_True) (auto simp: infos_find_None)
    ultimately show ?thesis using l by (auto simp: after_finalizers_def live_def account_def fun_eq_iff)
  next
    case (Some i)
    have i: "i \<in> set (gcObjectInfos gh)" "info_lwValue i = v" using Some infos_find_Some[OF l(1)] by auto
    have w: "\<not> isPersistent i" using assms(2) i by auto
    let ?t = "(runCallback i ?u)\<lparr>gcObjectInfos := infos_erase v (gcObjectInfos gh),
      gh_log := gh_log (runCallback i ?u) @ [Deleted v]\<rparr>"
    have r: "runFinalizer v gh = Inr ?t"
      using fin l Some i by (simp add: runFinalizer_def findGcObjectInfo_def infos_access_def removeGcObjectInfo_def Let_def)
    have o: "owed (finalizers gh) (gcObjectInfos gh) = cb_event i + {#Deleted v#} +
        owed ((finalizers gh)(v := False)) (infos_erase v (gcObjectInfos gh))"
      using owed_extract[of i "finalizers gh" "(finalizers gh)(v := False)", OF _ _ i(1) w] l(1) i(2) fin
      by (auto simp: infos_ok_def)
    have "account ?t = account gh" by (simp add: account_def o)
    then show ?thesis using r l infos_erase_ok[OF l(1)] fin
      by (auto simp: after_finalizers_def live_def infos_erase_def fun_eq_iff intro!: filter_cong)
  qed
qed

lemma runFinalizers_account:
  assumes "live gh" "set vs \<inter> info_lwValue ` set (filter isPersistent (gcObjectInfos gh)) = {}"
  shows "\<exists>gh'. foldM runFinalizer vs gh = Inr gh' \<and> after_finalizers vs gh gh'"
  using assms
proof (induction vs arbitrary: gh)
  case Nil
  then show ?case by (simp add: after_finalizers_def)
next
  case (Cons v vs)
  obtain g where g: "runFinalizer v gh = Inr g" "after_finalizers [v] gh g"
    using runFinalizer_account[OF Cons.prems(1), of v] Cons.prems(2) by auto
  have "live g" "set vs \<inter> info_lwValue ` set (filter isPersistent (gcObjectInfos g)) = {}"
    using g(2) Cons.prems(2) by (auto simp: after_finalizers_def)
  then obtain h where h: "foldM runFinalizer vs g = Inr h" "after_finalizers vs g h" using Cons.IH by blast
  then show ?case using g
    by (auto simp: after_finalizers_def fun_eq_iff intro!: filter_cong)
qed

text \<open>The invariant of the pass: \<open>rs\<close> is left to visit, \<open>pers\<close> and \<open>weaks\<close> are the infos
  sorted out so far.\<close>

definition pass_inv :: "GcObjectInfo list \<Rightarrow> GcObjectInfo list \<Rightarrow> GcObjectInfo list \<Rightarrow> GcObjectInfo list \<Rightarrow> GlobalHandles \<Rightarrow> bool" where
  "pass_inv infos0 rs pers weaks gh = (live gh \<and> infos_ok infos0 \<and> set rs \<subseteq> set infos0 \<and> distinct rs \<and>
     set (gcObjectInfos gh) \<subseteq> set infos0 \<and>
     set (filter isPersistent infos0) \<subseteq> set (gcObjectInfos gh) \<and>
     infos_ok pers \<and> set pers = {i \<in> set infos0. isPersistent i} - set rs \<and>
     distinct weaks \<and> set weaks \<subseteq> set (gcObjectInfos gh) - set rs \<and>
     (\<forall>i \<in> set weaks. \<not> isPersistent i \<and> \<not> finalizers gh (info_lwValue i)) \<and>
     (\<forall>i \<in> set (gcObjectInfos gh). isPersistent i \<or> i \<in> set weaks \<or> i \<in> set rs))"

lemma pass_step_weak:
  assumes inv: "pass_inv infos0 (i # rs) pers weaks gh" and i: "i \<in> set (gcObjectInfos gh)" "\<not> isPersistent i"
    and vs: "set vs \<inter> info_lwValue ` set (filter isPersistent infos0) = {}"
  shows "\<exists>h. foldM runFinalizer vs ((runCallback i gh)\<lparr>finalizers := (finalizers gh)(info_lwValue i := False)\<rparr>) = Inr h \<and>
    pass_inv infos0 rs pers (weaks @ [i]) h \<and>
    account h = account gh + (if finalizers gh (info_lwValue i) then {#} else cb_event i) \<and>
    set (gcObjectInfos h) \<subseteq> set (gcObjectInfos gh) \<and>
    (\<forall>x \<in> set (gcObjectInfos h). x \<noteq> i \<longrightarrow> finalizers gh (info_lwValue x) \<longrightarrow> finalizers h (info_lwValue x))"
proof -
  let ?g = "(runCallback i gh)\<lparr>finalizers := (finalizers gh)(info_lwValue i := False)\<rparr>"
  note u = inv[unfolded pass_inv_def]
  have ok: "infos_ok (gcObjectInfos gh)" "infos_ok infos0" using u by (auto simp: live_def)
  have d: "distinct (map info_lwValue (gcObjectInfos gh))" using ok(1) by (simp add: infos_ok_def)
  have lg: "live ?g" using u by (simp add: live_def)
  have p: "set vs \<inter> info_lwValue ` set (filter isPersistent (gcObjectInfos ?g)) = {}" using vs u by auto
  obtain h where h: "foldM runFinalizer vs ?g = Inr h" "after_finalizers vs ?g h"
    using runFinalizers_account[OF lg p] by blast
  have o: "owed (finalizers gh) (gcObjectInfos gh) = (if finalizers gh (info_lwValue i) then cb_event i else {#}) +
      owed ((finalizers gh)(info_lwValue i := False)) (gcObjectInfos gh)"
    using owed_extract[OF _ d i, of "finalizers gh" "(finalizers gh)(info_lwValue i := False)"]
      owed_extract[OF _ d i, of "(finalizers gh)(info_lwValue i := False)" "(finalizers gh)(info_lwValue i := False)"]
    by auto
  have "account h = account ?g" using h(2) by (simp add: after_finalizers_def)
  then have a: "account h = account gh + (if finalizers gh (info_lwValue i) then {#} else cb_event i)"
    by (simp add: account_def o)
  have inj: "info_lwValue x \<noteq> info_lwValue y" if "x \<in> set infos0" "y \<in> set infos0" "x \<noteq> y" for x y
    using ok(2) that by (auto simp: infos_ok_def distinct_map dest: inj_onD)
  have np: "info_lwValue x \<notin> set vs" if "x \<in> set infos0" "isPersistent x" for x
    using vs that by auto
  have s: "set (gcObjectInfos h) = {x \<in> set (gcObjectInfos gh). \<not> (finalizers ?g (info_lwValue x) \<and> info_lwValue x \<in> set vs)}"
    "finalizers h = (\<lambda>v. finalizers ?g v \<and> v \<notin> set vs)" "live h"
    using h(2) by (auto simp: after_finalizers_def)
  have "pass_inv infos0 rs pers (weaks @ [i]) h"
    unfolding pass_inv_def
  proof (intro conjI ballI)
    show "set pers = {i \<in> set infos0. isPersistent i} - set rs" using u i(2) by auto
    show "set (filter isPersistent infos0) \<subseteq> set (gcObjectInfos h)" using u np by (auto simp: s(1))
    show "set (weaks @ [i]) \<subseteq> set (gcObjectInfos h) - set rs" using u i by (auto simp: s(1))
    show "distinct (weaks @ [i])" using u by auto
    show "\<not> isPersistent x" if "x \<in> set (weaks @ [i])" for x using that u i(2) by auto
    show "\<not> finalizers h (info_lwValue x)" if "x \<in> set (weaks @ [i])" for x using that u by (auto simp: s(2))
    show "isPersistent x \<or> x \<in> set (weaks @ [i]) \<or> x \<in> set rs" if "x \<in> set (gcObjectInfos h)" for x
      using that u by (auto simp: s(1))
  qed (use u s in auto)
  moreover have "finalizers h (info_lwValue x)"
    if "x \<in> set (gcObjectInfos h)" "x \<noteq> i" "finalizers gh (info_lwValue x)" for x
    using that inj[of x i] u i(1) by (auto simp: s(1,2))
  ultimately show ?thesis using h(1) a s(1) by blast
qed

lemma pass_step_erased:
  assumes "pass_inv infos0 (i # rs) pers weaks gh" "infos_find (info_lwValue i) (gcObjectInfos gh) = None"
  shows "pass_inv infos0 rs pers weaks gh"
  using assms unfolding pass_inv_def infos_find_None by auto

lemma pass_step_persistent:
  assumes "pass_inv infos0 (i # rs) pers weaks gh" "i \<in> set (gcObjectInfos gh)" "isPersistent i"
  shows "pass_inv infos0 rs (infos_insert i pers) weaks gh"
proof -
  have ok: "infos_ok infos0" using assms(1) by (simp add: pass_inv_def)
  have "x = i" if "x \<in> set infos0" "info_lwValue x = info_lwValue i" for x
    using ok that assms(1,2) by (auto simp: infos_ok_def distinct_map pass_inv_def dest: inj_onD)
  then have n: "infos_find (info_lwValue i) pers = None"
    using assms(1) by (auto simp: pass_inv_def infos_find_None)
  show ?thesis using assms infos_insert_set[OF n]
    by (auto simp: pass_inv_def infos_insert_ok)
qed

lemma releaseLoop_inv:
  assumes "pass_inv infos0 rs pers weaks gh"
    and "\<And>v. set (invoke v) \<inter> info_lwValue ` set (filter isPersistent infos0) = {}"
    and "\<And>i. i \<in> set (gcObjectInfos gh) \<inter> set rs \<Longrightarrow> \<not> isPersistent i \<Longrightarrow> info_callback i \<noteq> None \<Longrightarrow> finalizers gh (info_lwValue i)"
  shows "\<exists>pers' weaks' h. releaseLoop invoke rs pers weaks gh = Inr (pers', weaks', h) \<and>
    pass_inv infos0 [] pers' weaks' h \<and> account h = account gh"
  using assms
proof (induction rs arbitrary: pers weaks gh)
  case Nil
  then show ?case by auto
next
  case (Cons i rs)
  have ok: "infos_ok (gcObjectInfos gh)" "infos_ok infos0" "i \<in> set infos0" "set (gcObjectInfos gh) \<subseteq> set infos0"
    using Cons.prems(1) by (auto simp: pass_inv_def live_def)
  show ?case
  proof (cases "infos_find (info_lwValue i) (gcObjectInfos gh)")
    case None
    show ?thesis using Cons.IH[OF pass_step_erased[OF Cons.prems(1) None] Cons.prems(2)] Cons.prems(3) None by auto
  next
    case (Some j)
    have "j \<in> set (gcObjectInfos gh)" "info_lwValue j = info_lwValue i" using Some infos_find_Some[OF ok(1)] by auto
    then have j: "j = i" "i \<in> set (gcObjectInfos gh)"
      using ok by (auto simp: infos_ok_def distinct_map dest: inj_onD)
    show ?thesis
    proof (cases "isPersistent i")
      case True
      show ?thesis using Cons.IH[OF pass_step_persistent[OF Cons.prems(1) j(2) True] Cons.prems(2)] Cons.prems(3)
          Some j(1) True by auto
    next
      case False
      obtain h where h: "foldM runFinalizer (invoke (info_lwValue i))
          ((runCallback i gh)\<lparr>finalizers := (finalizers gh)(info_lwValue i := False)\<rparr>) = Inr h"
        "pass_inv infos0 rs pers (weaks @ [i]) h"
        "account h = account gh + (if finalizers gh (info_lwValue i) then {#} else cb_event i)"
        "set (gcObjectInfos h) \<subseteq> set (gcObjectInfos gh)"
        "\<And>x. x \<in> set (gcObjectInfos h) \<Longrightarrow> x \<noteq> i \<Longrightarrow> finalizers gh (info_lwValue x) \<Longrightarrow> finalizers h (info_lwValue x)"
        using pass_step_weak[OF Cons.prems(1) j(2) False Cons.prems(2)] by blast
      have a: "account h = account gh"
        using h(3) Cons.prems(3)[of i] j(2) False by (auto simp: cb_event_def split: option.splits)
      have f: "finalizers h (info_lwValue x)"
        if "x \<in> set (gcObjectInfos h) \<inter> set rs" "\<not> isPersistent x" "info_callback x \<noteq> None" for x
        using that h(4,5) Cons.prems(1,3) by (auto simp: pass_inv_def)
      show ?thesis using Cons.IH[OF h(2) Cons.prems(2) f] h(1) Some j(1) False a by (auto simp: Let_def)
    qed
  qed
qed

text \<open>The uses an embedder makes of the table.\<close>

datatype gh_op = OpMakeWeak ptr ptr "nat option" | OpClearWeakness ptr | OpFinalize ptr | OpCreate ptr | OpDestroy ptr

fun gh_step :: "gh_op \<Rightarrow> GlobalHandles \<Rightarrow> GlobalHandles res" where
  "gh_step (OpMakeWeak v p c) gh = gh_makeWeak v p c gh"
| "gh_step (OpClearWeakness v) gh = clearWeakness v gh"
| "gh_step (OpFinalize v) gh = runFinalizer v gh"
| "gh_step (OpCreate v) gh = Inr (gh_create v gh)"
| "gh_step (OpDestroy v) gh = Inr (snd (gh_destroy v gh))"

definition gh_ok :: "GlobalHandles \<Rightarrow> bool" where
  "gh_ok gh = (live gh \<and> (\<forall>i \<in> set (gcObjectInfos gh). info_callback i \<noteq> None \<longrightarrow> finalizers gh (info_lwValue i)))"

lemma infos_insert_sub: "set (infos_insert i is) \<subseteq> insert i (set is)"
  by (auto simp: infos_insert_def set_insort_key)

lemma infos_update_set:
  "set (infos_update v f is) = f ` {i \<in> set is. info_lwValue i = v} \<union> {i \<in> set is. info_lwValue i \<noteq> v}"
  by (auto simp: infos_update_def)

lemma infos_insert_callback:
  "\<forall>i \<in> set is. info_callback i \<noteq> None \<longrightarrow> fin (info_lwValue i) \<Longrightarrow>
   \<forall>i \<in> set (infos_insert j is). info_callback i \<noteq> None \<longrightarrow> i = j \<or> fin (info_lwValue i)"
  using infos_insert_sub[of j "is"] by blast

lemma makeWeak_ok:
  assumes "gh_ok gh"
  shows "\<exists>gh'. gh_makeWeak v p c gh = Inr gh' \<and> gh_ok gh'"
proof (cases "infos_find v (gcObjectInfos gh)")
  case None
  show ?thesis using assms None infos_insert_callback[of "gcObjectInfos gh" "finalizers gh" "newGcObjectInfo v p c"]
    by (auto simp: gh_makeWeak_def addWeakValue_def infos_access_def gh_ok_def live_def infos_insert_ok newGcObjectInfo_def)
next
  case (Some i)
  then show ?thesis using assms
    by (auto simp: gh_makeWeak_def addWeakValue_def infos_access_def gh_ok_def live_def infos_update_ok infos_update_set)
qed

lemma clearWeakness_ok:
  assumes "gh_ok gh"
  shows "\<exists>gh'. clearWeakness v gh = Inr gh' \<and> gh_ok gh'"
proof (cases "infos_find v (gcObjectInfos gh)")
  case None
  show ?thesis using assms None infos_insert_callback[of "gcObjectInfos gh" "finalizers gh" "newGcObjectInfo v 0 None"]
    by (auto simp: clearWeakness_def setPersistent_def infos_access_def gh_ok_def live_def infos_insert_ok newGcObjectInfo_def)
next
  case (Some i)
  then show ?thesis using assms
    by (auto simp: clearWeakness_def setPersistent_def infos_access_def gh_ok_def live_def infos_update_ok infos_update_set)
qed

lemma runFinalizer_ok: "gh_ok gh \<Longrightarrow> \<exists>gh'. runFinalizer v gh = Inr gh' \<and> gh_ok gh'"
proof (cases "infos_find v (gcObjectInfos gh)")
  case None
  then have "v \<notin> info_lwValue ` set (gcObjectInfos gh)" by (simp add: infos_find_None)
  then show "gh_ok gh \<Longrightarrow> \<exists>gh'. runFinalizer v gh = Inr gh' \<and> gh_ok gh'"
    using None by (auto simp: runFinalizer_def findGcObjectInfo_def infos_access_def gh_ok_def live_def Let_def)
next
  case (Some i)
  assume ok: "gh_ok gh"
  then have "info_lwValue i = v" using Some infos_find_Some by (auto simp: gh_ok_def live_def)
  then show "\<exists>gh'. runFinalizer v gh = Inr gh' \<and> gh_ok gh'" using ok Some
    by (auto simp: runFinalizer_def findGcObjectInfo_def infos_access_def removeGcObjectInfo_def gh_ok_def live_def
        infos_erase_ok Let_def dest: infos_erase_sub)
qed

lemma counted_ok: "gh_ok gh \<Longrightarrow> gh_ok (gh_create v gh)" "gh_ok gh \<Longrightarrow> gh_ok (snd (gh_destroy v gh))"
  by (auto simp: gh_ok_def live_def gh_create_def gh_destroy_def split: option.splits)

lemma gh_step_ok: "gh_ok gh \<Longrightarrow> \<exists>gh'. gh_step op gh = Inr gh' \<and> gh_ok gh'"
  by (cases op) (simp_all add: makeWeak_ok clearWeakness_ok runFinalizer_ok counted_ok)

lemma gh_steps_ok: "gh_ok gh \<Longrightarrow> \<exists>gh'. foldM gh_step ops gh = Inr gh' \<and> gh_ok gh'"
proof (induction ops arbitrary: gh)
  case (Cons op ops)
  obtain g where "gh_step op gh = Inr g" "gh_ok g" using gh_step_ok[OF Cons.prems] by blast
  then show ?case using Cons.IH[of g] by simp
qed simp

lemma newGlobalHandles_ok: "isolate \<noteq> 0 \<Longrightarrow> gh_ok (newGlobalHandles isolate)"
  by (simp add: newGlobalHandles_def gh_ok_def live_def infos_ok_def)

lemma sum_list_singletons: "(\<Sum>x\<leftarrow>xs. {#f x#}) = mset (map f xs)"
  by (induction xs) auto

lemma release_account:
  assumes "gh_ok gh" "\<And>v. set (invoke v) \<inter> info_lwValue ` set (filter isPersistent (gcObjectInfos gh)) = {}"
  shows "\<exists>gh'. releaseWeakValues invoke gh = Inr gh' \<and> gcObjectInfos gh' = filter isPersistent (gcObjectInfos gh) \<and>
    mset (gh_log gh') = account gh"
proof -
  have ok: "infos_ok (gcObjectInfos gh)" "live gh" using assms(1) by (auto simp: gh_ok_def live_def)
  have "distinct (gcObjectInfos gh)" using ok(1) by (auto simp: infos_ok_def distinct_map)
  then have inv: "pass_inv (gcObjectInfos gh) (gcObjectInfos gh) [] [] gh"
    using ok by (auto simp: pass_inv_def infos_ok_def)
  have fin: "finalizers gh (info_lwValue i)"
    if "i \<in> set (gcObjectInfos gh) \<inter> set (gcObjectInfos gh)" "\<not> isPersistent i" "info_callback i \<noteq> None" for i
    using assms(1) that by (auto simp: gh_ok_def)
  obtain ps ws h where h: "releaseLoop invoke (gcObjectInfos gh) [] [] gh = Inr (ps, ws, h)"
    "pass_inv (gcObjectInfos gh) [] ps ws h" "account h = account gh"
    using releaseLoop_inv[OF inv, of invoke, OF assms(2) fin] by blast
  note u = h(2)[unfolded pass_inv_def]
  have f: "fold infos_insert ps [] = filter isPersistent (gcObjectInfos gh)"
  proof (rule infos_eqI)
    show "infos_ok (fold infos_insert ps [])" "infos_ok (filter isPersistent (gcObjectInfos gh))"
      using fold_insert_ok[of "[]" ps] u ok(1)
      by (auto simp: infos_ok_def sorted_filter distinct_map inj_on_def)
    show "set (fold infos_insert ps []) = set (filter isPersistent (gcObjectInfos gh))"
      using fold_insert_ok[of "[]" ps] u by (auto simp: infos_ok_def)
  qed
  have "set (filter (\<lambda>i. \<not> isPersistent i) (gcObjectInfos h)) = set ws" using u by auto
  moreover have "distinct (filter (\<lambda>i. \<not> isPersistent i) (gcObjectInfos h))"
    using u by (auto simp: live_def infos_ok_def distinct_map)
  ultimately have m: "mset (filter (\<lambda>i. \<not> isPersistent i) (gcObjectInfos h)) = mset ws"
    using u set_eq_iff_mset_eq_distinct[of "filter (\<lambda>i. \<not> isPersistent i) (gcObjectInfos h)" ws] by blast
  have "owed (finalizers h) (gcObjectInfos h) = (\<Sum>i\<leftarrow>filter (\<lambda>i. \<not> isPersistent i) (gcObjectInfos h). {#Deleted (info_lwValue i)#})"
    unfolding owed_def using u by (intro arg_cong[of _ _ sum_list] map_cong) auto
  also have "\<dots> = mset (map (\<lambda>i. Deleted (info_lwValue i)) (filter (\<lambda>i. \<not> isPersistent i) (gcObjectInfos h)))"
    by (rule sum_list_singletons)
  also have "\<dots> = mset (map (\<lambda>i. Deleted (info_lwValue i)) ws)" using m by (metis mset_map)
  finally have "mset (gh_log h) + mset (map (\<lambda>i. Deleted (info_lwValue i)) ws) = account gh"
    using h(3) by (simp add: account_def)
  then show ?thesis using h(1) f ok(2) by (auto simp: releaseWeakValues_def infos_access_def live_def)
qed

section \<open>Properties\<close>

text \<open>C10. Releasing the weak values settles everything that is owed: after any sequence of uses of a
  fresh table, and whichever finalizers the collector runs during the pass, as long as it finalizes no
  persistent value, exactly the persistent infos remain, and the events logged are one deletion and at most
  one callback, the registered one, for every weak info.\<close>

theorem release_settles:
  assumes "isolate \<noteq> 0" "foldM gh_step ops (newGlobalHandles isolate) = Inr gh"
    and "\<And>v. set (invoke v) \<inter> info_lwValue ` set (filter isPersistent (gcObjectInfos gh)) = {}"
  shows "\<exists>gh'. releaseWeakValues invoke gh = Inr gh' \<and> gcObjectInfos gh' = filter isPersistent (gcObjectInfos gh) \<and>
    mset (gh_log gh') = mset (gh_log gh) +
      (\<Sum>i\<leftarrow>filter (\<lambda>i. \<not> isPersistent i) (gcObjectInfos gh). cb_event i + {#Deleted (info_lwValue i)#})"
proof -
  have ok: "gh_ok gh" using gh_steps_ok[OF newGlobalHandles_ok[OF assms(1)], of ops] assms(2) by auto
  have "owed (finalizers gh) (gcObjectInfos gh) =
      (\<Sum>i\<leftarrow>filter (\<lambda>i. \<not> isPersistent i) (gcObjectInfos gh). cb_event i + {#Deleted (info_lwValue i)#})"
    unfolding owed_def using ok
    by (intro arg_cong[of _ _ sum_list] map_cong) (auto simp: gh_ok_def cb_event_def split: option.splits)
  then show ?thesis using release_account[of gh invoke, OF ok assms(3)] by (simp add: account_def)
qed

definition sample_table :: GlobalHandles where
  "sample_table = \<lparr>persistentValues = (\<lambda>_. None), gh_isolate = 1, gcObjectInfos = [newGcObjectInfo 5 6 (Some 2)],
     infosFreed = False, finalizers = (\<lambda>_. False)(5 := True), gh_log = []\<rparr>"

theorem release_settles_witness:
  "\<exists>gh'. releaseWeakValues (\<lambda>_. []) sample_table = Inr gh' \<and> gcObjectInfos gh' = filter isPersistent (gcObjectInfos sample_table) \<and>
    mset (gh_log gh') = mset (gh_log sample_table) +
      (\<Sum>i\<leftarrow>filter (\<lambda>i. \<not> isPersistent i) (gcObjectInfos sample_table). cb_event i + {#Deleted (info_lwValue i)#})"
  by (rule release_settles[of 1 "[OpMakeWeak 5 6 (Some 2)]"])
    (simp_all add: sample_table_def newGlobalHandles_def gh_makeWeak_def addWeakValue_def infos_access_def infos_find_def
      infos_insert_def newGcObjectInfo_def)

text \<open>The callback of a value is the one of its first registration: making a value weak again, with
  or without making it strong in between, keeps the old callback and parameter, and a value whose weakness
  was cleared before it was ever weak never gets a callback.\<close>

theorem makeWeak_keeps_callback:
  assumes "gh_ok gh" "v \<notin> info_lwValue ` set (gcObjectInfos gh)"
  shows "(\<exists>gh'. foldM gh_step [OpMakeWeak v p (Some c), OpClearWeakness v, OpMakeWeak v p' (Some c')] gh = Inr gh' \<and>
      infos_find v (gcObjectInfos gh') = Some (newGcObjectInfo v p (Some c)))
    \<and> (\<exists>gh'. foldM gh_step [OpClearWeakness v, OpMakeWeak v p' (Some c')] gh = Inr gh' \<and>
      infos_find v (gcObjectInfos gh') = Some (newGcObjectInfo v 0 None))"
proof -
  have ok: "infos_ok (gcObjectInfos gh)" "\<not> infosFreed gh" "infos_find v (gcObjectInfos gh) = None"
    using assms by (auto simp: gh_ok_def live_def infos_find_None)
  have ins: "infos_find v (infos_insert (newGcObjectInfo v a b) (gcObjectInfos gh)) = Some (newGcObjectInfo v a b)" for a b
    using infos_insert_ok[OF ok(1)] infos_insert_set[of "newGcObjectInfo v a b" "gcObjectInfos gh"] ok(3)
    by (simp add: infos_find_Some newGcObjectInfo_def)
  have upd: "infos_find v (infos_update v f is) = map_option f (infos_find v is)"
    if "\<And>i. info_lwValue (f i) = info_lwValue i" for f "is"
    using that by (induction "is") (auto simp: infos_find_def infos_update_def)
  show ?thesis using ok ins
    by (auto simp: gh_makeWeak_def addWeakValue_def clearWeakness_def setPersistent_def infos_access_def upd
        newGcObjectInfo_def)
qed

theorem makeWeak_keeps_callback_witness:
  "\<exists>gh'. foldM gh_step [OpMakeWeak 5 6 (Some 2), OpClearWeakness 5, OpMakeWeak 5 7 (Some 3)] (newGlobalHandles 1) = Inr gh' \<and>
    infos_find 5 (gcObjectInfos gh') = Some (newGcObjectInfo 5 6 (Some 2))"
  using makeWeak_keeps_callback[OF newGlobalHandles_ok[of 1], of 5 6 2 7 3] by (simp add: newGlobalHandles_def)

text \<open>Clearing the weakness of a value the table does not know registers it as weak: the number of
  handles does not change, and the next release deletes the entry.\<close>

theorem clearWeakness_registers_weak:
  assumes "gh_ok gh" "v \<notin> info_lwValue ` set (gcObjectInfos gh)"
    and "\<And>v. set (invoke v) \<inter> info_lwValue ` set (filter isPersistent (gcObjectInfos gh)) = {}"
  shows "\<exists>g h. clearWeakness v gh = Inr g \<and> v \<in> info_lwValue ` set (gcObjectInfos g) \<and>
    handles_count g = handles_count gh \<and> releaseWeakValues invoke g = Inr h \<and>
    v \<notin> info_lwValue ` set (gcObjectInfos h) \<and> Deleted v \<in> set (gh_log h)"
proof -
  let ?i = "newGcObjectInfo v 0 None"
  have ok: "infos_ok (gcObjectInfos gh)" "\<not> infosFreed gh" "infos_find v (gcObjectInfos gh) = None"
    using assms by (auto simp: gh_ok_def live_def infos_find_None)
  obtain g where g: "clearWeakness v gh = Inr g" "gh_ok g" using clearWeakness_ok[OF assms(1)] by blast
  have infos: "gcObjectInfos g = infos_insert ?i (gcObjectInfos gh)" "infosFreed g = infosFreed gh"
    using g(1) ok by (auto simp: clearWeakness_def setPersistent_def infos_access_def)
  have s: "set (gcObjectInfos g) = insert ?i (set (gcObjectInfos gh))"
    unfolding infos(1) using ok(3) by (intro infos_insert_set) (simp add: newGcObjectInfo_def)
  have "infos_ok (gcObjectInfos g)" using g(2) by (simp add: gh_ok_def live_def)
  then have d: "distinct (map info_lwValue (gcObjectInfos g))" by (simp add: infos_ok_def)
  have "distinct (filter isPersistent (gcObjectInfos g))" "distinct (filter isPersistent (gcObjectInfos gh))"
    using d ok(1) by (auto simp: infos_ok_def distinct_map)
  moreover have "set (filter isPersistent (gcObjectInfos g)) = set (filter isPersistent (gcObjectInfos gh))"
    by (auto simp: s newGcObjectInfo_def)
  ultimately have "length (filter isPersistent (gcObjectInfos g)) = length (filter isPersistent (gcObjectInfos gh))"
    using distinct_card by metis
  then have c: "handles_count g = handles_count gh"
    using ok(2) infos(2) by (simp add: handles_count_def infos_access_def)
  have f: "\<And>u. set (invoke u) \<inter> info_lwValue ` set (filter isPersistent (gcObjectInfos g)) = {}"
    using assms(3) by (auto simp: s newGcObjectInfo_def)
  obtain h where h: "releaseWeakValues invoke g = Inr h" "gcObjectInfos h = filter isPersistent (gcObjectInfos g)"
    "mset (gh_log h) = account g" using release_account[of g invoke, OF g(2) f] by blast
  from owed_extract[of ?i "finalizers g" "finalizers g", OF _ d] s
  have "Deleted v \<in># account g" by (auto simp: account_def newGcObjectInfo_def)
  then have "Deleted v \<in> set (gh_log h)" by (metis h(3) set_mset_mset)
  moreover have "\<not> isPersistent ?i" "info_lwValue ?i = v" by (simp_all add: newGcObjectInfo_def)
  then have "v \<notin> info_lwValue ` set (gcObjectInfos h)" "v \<in> info_lwValue ` set (gcObjectInfos g)"
    using h(2) s assms(2) by auto
  ultimately show ?thesis using g(1) c h(1) by blast
qed

theorem clearWeakness_registers_weak_witness:
  "\<exists>g h. clearWeakness 5 (newGlobalHandles 1) = Inr g \<and> 5 \<in> info_lwValue ` set (gcObjectInfos g) \<and>
    handles_count g = handles_count (newGlobalHandles 1) \<and> releaseWeakValues (\<lambda>_. []) g = Inr h \<and>
    5 \<notin> info_lwValue ` set (gcObjectInfos h) \<and> Deleted 5 \<in> set (gh_log h)"
  by (rule clearWeakness_registers_weak[OF newGlobalHandles_ok]) (simp_all add: newGlobalHandles_def)

text \<open>The persistent values are counted: creations and as many destructions, in any order, leave every
  count as it was, and a destruction beyond the count reports that there was nothing to destroy.\<close>

theorem persistent_values_balanced:
  assumes "mset ks = mset js"
  shows "\<exists>gh. foldM gh_destroy_checked js (fold gh_create ks (newGlobalHandles isolate)) = Inr gh \<and>
    (\<forall>v. persistent_count v gh = 0) \<and> fst (gh_destroy v gh) = False"
proof -
  obtain gh where gh: "foldM gh_destroy_checked js (fold gh_create ks (newGlobalHandles isolate)) = Inr gh"
    "counts_positive gh" "\<forall>v. persistent_count v gh = persistent_count v (newGlobalHandles isolate)"
    using persistent_values.decrs_count[of "fold gh_create ks (newGlobalHandles isolate)" js]
      persistent_values.incrs_count[of "newGlobalHandles isolate" ks] assms
    by (auto simp: counts_positive_def newGlobalHandles_def)
  have "persistent_count v gh = 0" for v using gh(3) by (simp add: persistent_count_def newGlobalHandles_def)
  moreover from this have "persistentValues gh v = None" for v
    using gh(2) by (auto simp: persistent_count_def counts_positive_def split: option.splits)
      (metis option.case_eq_if option.collapse)
  ultimately show ?thesis using gh(1) by (auto simp: gh_destroy_def)
qed

theorem persistent_values_balanced_witness:
  "\<exists>gh. foldM gh_destroy_checked [4, 3, 4] (fold gh_create [3, 4, 4] (newGlobalHandles 1)) = Inr gh \<and>
    (\<forall>v. persistent_count v gh = 0) \<and> fst (gh_destroy 3 gh) = False"
  by (rule persistent_values_balanced) simp

end
