(* ===== verification/Isolate.thy ===== *)
theory Isolate
  imports HandleScope GlobalHandles
begin

text \<open>
  The isolate, \<^verbatim>\<open>IsolateWrap\<close> of \<^verbatim>\<open>src/src/api/isolate.h\<close> and \<^verbatim>\<open>isolate.cc\<close>:
  its life cycle, the global value slots, eternal handles, the reference counts of backing stores, the symbol
  registries, garbage collection requests, and the promise callbacks. The scope stacks are in the theory
  \<^verbatim>\<open>HandleScope\<close>, the exception state is in \<^verbatim>\<open>Exceptions\<close>.

  The values of the script engine are pointers given to \<open>Initialize\<close>; callbacks of the embedder are
  numbers, and calling one is an event of the log.
\<close>

section \<open>State\<close>

datatype isolate_state = StateNone | StateActive | StateDisposed

datatype isolate_event =
    CalledPromiseHook nat nat ptr ptr
  | CalledRejectCallback nat ptr nat ptr

record isolate = scopes +
  iso_state :: isolate_state
  global_handles :: GlobalHandles
  eternals :: "ptr list"
  backingStoreCounter :: "ptr \<Rightarrow> int option"
  apiSymbols :: "(ptr \<times> string) list"
  apiPrivateSymbols :: "(ptr \<times> string) list"
  nextSymbol :: ptr
  privateValuesSymbol :: ptr
  array_buffer_allocator :: ptr
  array_buffer_allocator_shared :: ptr
  vmInstance :: ptr
  globalSlot :: "ptr list"
  extensions :: "string list"
  promise_hook :: "nat option"
  promise_reject_callback :: "nat option"
  vmPromiseHook :: bool
  iso_log :: "isolate_event list"

record create_params =
  code_event_handler :: ptr
  snapshot_blob :: ptr
  counter_lookup_callback :: ptr
  create_histogram_callback :: ptr
  add_histogram_sample_callback :: ptr
  param_allocator :: ptr
  param_allocator_shared :: ptr
  external_references :: ptr
  allow_atomics_wait :: bool
  only_terminate_in_safe_scope :: bool
  embedder_wrapper_type_index :: int
  embedder_wrapper_object_index :: int

record engine_values =
  es_vm :: ptr
  es_undefined :: ptr
  es_null :: ptr
  es_true :: ptr
  es_false :: ptr
  es_emptyString :: ptr

definition kRootIndexSize :: nat where "kRootIndexSize = 7"

definition kUndefinedValueRootIndex :: nat where "kUndefinedValueRootIndex = 0"
definition kTheHoleValueRootIndex :: nat where "kTheHoleValueRootIndex = 1"
definition kNullValueRootIndex :: nat where "kNullValueRootIndex = 2"
definition kTrueValueRootIndex :: nat where "kTrueValueRootIndex = 3"
definition kFalseValueRootIndex :: nat where "kFalseValueRootIndex = 4"
definition kEmptyStringRootIndex :: nat where "kEmptyStringRootIndex = 5"
definition kDefaultReturnValueRootIndex :: nat where "kDefaultReturnValueRootIndex = 6"

lemmas root_indices = kRootIndexSize_def kUndefinedValueRootIndex_def kTheHoleValueRootIndex_def
  kNullValueRootIndex_def kTrueValueRootIndex_def kFalseValueRootIndex_def kEmptyStringRootIndex_def
  kDefaultReturnValueRootIndex_def

section \<open>Symbols\<close>

fun replace_symbol :: "string \<Rightarrow> ptr \<Rightarrow> (ptr \<times> string) list \<Rightarrow> (ptr \<times> string) list option" where
  "replace_symbol name s [] = None"
| "replace_symbol name s ((p, n) # ps) = (if n = name then Some ((s, name) # ps)
     else map_option (\<lambda>qs. (p, n) # qs) (replace_symbol name s ps))"

fun find_symbol :: "string \<Rightarrow> (ptr \<times> string) list \<Rightarrow> ptr option" where
  "find_symbol name [] = None"
| "find_symbol name ((p, n) # ps) = (if n = name then Some p else find_symbol name ps)"

definition createApiSymbol :: "string \<Rightarrow> 'a isolate_scheme \<Rightarrow> ptr \<times> 'a isolate_scheme" where
  "createApiSymbol name w = (let newSymbol = nextSymbol w; w = w\<lparr>nextSymbol := newSymbol + 1\<rparr> in
     case replace_symbol name newSymbol (apiSymbols w) of
       Some ss \<Rightarrow> (newSymbol, w\<lparr>apiSymbols := ss\<rparr>)
     | None \<Rightarrow> (newSymbol, w\<lparr>apiSymbols := apiSymbols w @ [(newSymbol, name)]\<rparr>))"

definition getApiSymbol :: "string \<Rightarrow> 'a isolate_scheme \<Rightarrow> ptr \<times> 'a isolate_scheme" where
  "getApiSymbol name w = (case find_symbol name (apiSymbols w) of Some p \<Rightarrow> (p, w) | None \<Rightarrow> createApiSymbol name w)"

definition createApiPrivateSymbol :: "string \<Rightarrow> 'a isolate_scheme \<Rightarrow> ptr \<times> 'a isolate_scheme" where
  "createApiPrivateSymbol name w = (let newSymbol = nextSymbol w; w = w\<lparr>nextSymbol := newSymbol + 1\<rparr> in
     case replace_symbol name newSymbol (apiPrivateSymbols w) of
       Some ss \<Rightarrow> (newSymbol, w\<lparr>apiPrivateSymbols := ss\<rparr>)
     | None \<Rightarrow> (newSymbol, w\<lparr>apiPrivateSymbols := apiPrivateSymbols w @ [(newSymbol, name)]\<rparr>))"

definition getApiPrivateSymbol :: "string \<Rightarrow> 'a isolate_scheme \<Rightarrow> ptr \<times> 'a isolate_scheme" where
  "getApiPrivateSymbol name w = (case find_symbol name (apiPrivateSymbols w) of
     Some p \<Rightarrow> (p, w) | None \<Rightarrow> createApiPrivateSymbol name w)"

section \<open>Life cycle\<close>

definition IsolateWrap_New :: "ptr \<Rightarrow> isolate" where
  "IsolateWrap_New this = \<lparr>iso_self = this, s_currentIsolate = 0, s_previousIsolate = 0, handleScopes = [],
     contextScopes = [], handleMem = (\<lambda>_. None), nextHandle = 1, fatal_error_callback = False, fatalReports = [],
     iso_state = StateActive, global_handles = newGlobalHandles this, eternals = [],
     backingStoreCounter = (\<lambda>_. None), apiSymbols = [], apiPrivateSymbols = [], nextSymbol = 2,
     privateValuesSymbol = 1, array_buffer_allocator = 0, array_buffer_allocator_shared = 0, vmInstance = 0,
     globalSlot = replicate kRootIndexSize 0, extensions = [''ExternalizeString'', ''ExternalizeGc''],
     promise_hook = None, promise_reject_callback = None, vmPromiseHook = False, iso_log = []\<rparr>"

definition IsolateWrap_Dispose :: "'a isolate_scheme \<Rightarrow> 'a isolate_scheme res" where
  "IsolateWrap_Dispose w = rbind (gh_dispose (global_handles w)) (\<lambda>gh.
     Inr (w\<lparr>global_handles := gh, extensions := [], iso_state := StateDisposed\<rparr>))"

definition slot_value :: "nat \<Rightarrow> ptr \<Rightarrow> 'a isolate_scheme \<Rightarrow> 'a isolate_scheme res" where
  "slot_value i p w = rbind (createValue p) (\<lambda>h. let (a, w) = alloc_handle h w in
     Inr (w\<lparr>globalSlot := (globalSlot w)[i := a]\<rparr>))"

definition InitializeGlobalSlots :: "engine_values \<Rightarrow> 'a isolate_scheme \<Rightarrow> 'a isolate_scheme res" where
  "InitializeGlobalSlots es w =
     rbind (slot_value kUndefinedValueRootIndex (es_undefined es) w) (\<lambda>w.
     rbind (slot_value kTheHoleValueRootIndex (es_undefined es) w) (\<lambda>w.
     rbind (slot_value kNullValueRootIndex (es_null es) w) (\<lambda>w.
     rbind (slot_value kTrueValueRootIndex (es_true es) w) (\<lambda>w.
     rbind (slot_value kFalseValueRootIndex (es_false es) w) (\<lambda>w.
     rbind (slot_value kEmptyStringRootIndex (es_emptyString es) w) (\<lambda>w.
     slot_value kDefaultReturnValueRootIndex (es_undefined es) w))))))"

definition params_check :: "create_params \<Rightarrow> bool" where
  "params_check params = (code_event_handler params = 0 \<or> snapshot_blob params = 0 \<or>
     counter_lookup_callback params = 0 \<or> create_histogram_callback params = 0 \<or>
     add_histogram_sample_callback params = 0 \<or> external_references params = 0 \<or>
     allow_atomics_wait params = True \<or> only_terminate_in_safe_scope params = False \<or>
     embedder_wrapper_type_index params = -1 \<or> embedder_wrapper_object_index params = -1)"

definition Isolate_Initialize :: "nat \<Rightarrow> engine_values \<Rightarrow> create_params \<Rightarrow> 'a isolate_scheme \<Rightarrow> 'a isolate_scheme res" where
  "Isolate_Initialize fieldCount es params w = guard CheckFailed (params_check params)
     (rbind (let allocator = param_allocator_shared params in
        if allocator \<noteq> 0 then
          guard CheckFailed (param_allocator params = 0 \<or> param_allocator params = allocator)
          (Inr (w\<lparr>array_buffer_allocator := allocator, array_buffer_allocator_shared := allocator\<rparr>))
        else Inr (w\<lparr>array_buffer_allocator := param_allocator params\<rparr>)) (\<lambda>w.
     guard CheckFailed (array_buffer_allocator w \<noteq> 0)
     (rbind (InitializeGlobalSlots es (w\<lparr>vmInstance := es_vm es\<rparr>)) (\<lambda>w.
        Inr (if fieldCount > 0 then w\<lparr>vmPromiseHook := True\<rparr> else w)))))"

text \<open>\<^verbatim>\<open>getGlobal\<close> returns the address of a slot of the array.\<close>

definition getGlobal :: "int \<Rightarrow> 'a isolate_scheme \<Rightarrow> ptr res" where
  "getGlobal index w = guard CheckFailed (index < int kRootIndexSize)
     (guard OutOfBounds (0 \<le> index) (Inr (globalSlot w ! nat index)))"

definition undefined_value :: "'a isolate_scheme \<Rightarrow> ptr" where
  "undefined_value w = globalSlot w ! kUndefinedValueRootIndex"

definition null_value :: "'a isolate_scheme \<Rightarrow> ptr" where
  "null_value w = globalSlot w ! kNullValueRootIndex"

definition trueValue :: "'a isolate_scheme \<Rightarrow> ptr" where
  "trueValue w = globalSlot w ! kTrueValueRootIndex"

definition falseValue :: "'a isolate_scheme \<Rightarrow> ptr" where
  "falseValue w = globalSlot w ! kFalseValueRootIndex"

definition emptyString :: "'a isolate_scheme \<Rightarrow> ptr" where
  "emptyString w = globalSlot w ! kEmptyStringRootIndex"

definition defaultReturnValue :: "'a isolate_scheme \<Rightarrow> ptr" where
  "defaultReturnValue w = globalSlot w ! kDefaultReturnValueRootIndex"

section \<open>Eternals and backing stores\<close>

definition addEternal :: "ptr \<Rightarrow> 'a isolate_scheme \<Rightarrow> 'a isolate_scheme" where
  "addEternal value w = w\<lparr>eternals := eternals w @ [value]\<rparr>"

definition addBackingStore :: "ptr \<Rightarrow> 'a isolate_scheme \<Rightarrow> 'a isolate_scheme" where
  "addBackingStore value w = (case backingStoreCounter w value of
     Some n \<Rightarrow> w\<lparr>backingStoreCounter := (backingStoreCounter w)(value \<mapsto> n + 1)\<rparr>
   | None \<Rightarrow> w\<lparr>backingStoreCounter := (backingStoreCounter w)(value \<mapsto> 1)\<rparr>)"

definition removeBackingStore :: "ptr \<Rightarrow> 'a isolate_scheme \<Rightarrow> 'a isolate_scheme res" where
  "removeBackingStore value w = (case backingStoreCounter w value of
     Some n \<Rightarrow> if n = 1 then Inr (w\<lparr>backingStoreCounter := (backingStoreCounter w)(value := None)\<rparr>)
       else Inr (w\<lparr>backingStoreCounter := (backingStoreCounter w)(value \<mapsto> n - 1)\<rparr>)
   | None \<Rightarrow> Inl CheckFailed)"

section \<open>Garbage collection\<close>

datatype gc_reason = kTesting | kRuntime | OtherReason

definition CollectGarbage :: "bool \<Rightarrow> (ptr \<Rightarrow> ptr list) \<Rightarrow> gc_reason \<Rightarrow> 'a isolate_scheme \<Rightarrow> 'a isolate_scheme res" where
  "CollectGarbage experimental invoke reason w =
     (if reason = kTesting
      then rbind (releaseWeakValues invoke (global_handles w)) (\<lambda>gh. Inr (w\<lparr>global_handles := gh\<rparr>))
      else rbind (PostGarbageCollectionProcessing experimental (global_handles w)) (\<lambda>r. Inr (w\<lparr>global_handles := snd r\<rparr>)))"

datatype warn_event = OUT_OF_MEMORY | FAILED_TO_EXPAND_HEAP | OtherWarning

definition onMemoryWarning :: "warn_event \<Rightarrow> 'a isolate_scheme \<Rightarrow> 'a isolate_scheme res" where
  "onMemoryWarning event w = (if event = OtherWarning \<or> s_currentIsolate w = 0 then Inr w
     else onFatalError [] ''Out of memory'' w)"

section \<open>Promises\<close>

definition RunPromiseHook :: "nat \<Rightarrow> ptr \<Rightarrow> ptr \<Rightarrow> 'a isolate_scheme \<Rightarrow> 'a isolate_scheme" where
  "RunPromiseHook t promise parent w = (if promise_hook w = None \<or> promise = 0 then w
     else w\<lparr>iso_log := iso_log w @ [CalledPromiseHook (the (promise_hook w)) t promise parent]\<rparr>)"

definition SetPromiseHook :: "nat \<Rightarrow> nat option \<Rightarrow> 'a isolate_scheme \<Rightarrow> 'a isolate_scheme" where
  "SetPromiseHook fieldCount callback w = (let w = w\<lparr>promise_hook := callback\<rparr> in
     if fieldCount > 0 then w
     else if callback = None then w\<lparr>vmPromiseHook := False\<rparr>
     else w\<lparr>vmPromiseHook := True\<rparr>)"

definition SetPromiseRejectCallback :: "nat option \<Rightarrow> 'a isolate_scheme \<Rightarrow> 'a isolate_scheme" where
  "SetPromiseRejectCallback callback w = w\<lparr>promise_reject_callback := callback\<rparr>"

definition ReportPromiseReject :: "bool \<Rightarrow> ptr \<Rightarrow> ptr \<Rightarrow> nat \<Rightarrow> 'a isolate_scheme \<Rightarrow> 'a isolate_scheme" where
  "ReportPromiseReject hasRejectHandlers promise value event w = (case promise_reject_callback w of
     Some c \<Rightarrow> if \<not> hasRejectHandlers then w\<lparr>iso_log := iso_log w @ [CalledRejectCallback c promise event value]\<rparr> else w
   | None \<Rightarrow> w)"

section \<open>Backing stores\<close>

definition backing_count :: "ptr \<Rightarrow> 'a isolate_scheme \<Rightarrow> nat" where
  "backing_count v w = (case backingStoreCounter w v of None \<Rightarrow> 0 | Some n \<Rightarrow> nat n)"

definition backing_ok :: "'a isolate_scheme \<Rightarrow> bool" where
  "backing_ok w = (\<forall>v n. backingStoreCounter w v = Some n \<longrightarrow> n > 0)"

interpretation backing_stores: refcount addBackingStore removeBackingStore backing_count backing_ok
proof unfold_locales
  fix k j and s :: "'a isolate_scheme"
  assume s: "backing_ok s"
  show "backing_ok (addBackingStore k s)"
    using s by (fastforce simp: backing_ok_def addBackingStore_def split: option.splits)
  show "backing_count j (addBackingStore k s) = (if j = k then Suc (backing_count k s) else backing_count j s)"
    using s by (auto simp: backing_ok_def backing_count_def addBackingStore_def nat_add_distrib less_imp_le split: option.splits)
  show "backing_count k s > 0 \<Longrightarrow> \<exists>t. removeBackingStore k s = Inr t \<and> backing_ok t \<and>
      (\<forall>j. backing_count j t = (if j = k then backing_count k s - 1 else backing_count j s))"
    using s by (auto simp: backing_ok_def backing_count_def removeBackingStore_def nat_diff_distrib split: option.splits)
      fastforce
qed

section \<open>Symbol registries\<close>

text \<open>What the interface functions ask of a registry that interns names.\<close>

locale symbol_registry =
  fixes intern :: "'k \<Rightarrow> 's \<Rightarrow> ptr \<times> 's"
    and known :: "'s \<Rightarrow> 'k \<Rightarrow> ptr option"
    and ok :: "'s \<Rightarrow> bool"
  assumes hit: "ok s \<Longrightarrow> known s k = Some p \<Longrightarrow> intern k s = (p, s)"
    and miss: "ok s \<Longrightarrow> known s k = None \<Longrightarrow> \<exists>p t. intern k s = (p, t) \<and> ok t \<and> p \<notin> ran (known s) \<and>
      known t = (known s)(k \<mapsto> p)"
begin

fun interns :: "'k list \<Rightarrow> 's \<Rightarrow> ptr list \<times> 's" where
  "interns [] s = ([], s)"
| "interns (k # ks) s = (let (p, s) = intern k s; (ps, s) = interns ks s in (p # ps, s))"

definition names_apart :: "'s \<Rightarrow> bool" where
  "names_apart s = (\<forall>j k p. known s j = Some p \<longrightarrow> known s k = Some p \<longrightarrow> j = k)"

lemma intern_keeps:
  assumes "ok s" "names_apart s" "intern k s = (p, t)"
  shows "ok t \<and> names_apart t \<and> known t k = Some p \<and> known s \<subseteq>\<^sub>m known t"
proof (cases "known s k")
  case None
  then show ?thesis using miss[OF assms(1) None] assms(2,3)
    by (auto simp: names_apart_def map_le_def dom_def ran_def)
next
  case (Some q)
  then show ?thesis using hit[OF assms(1) Some] assms by auto
qed

lemma interns_keep:
  assumes "ok s" "names_apart s" "interns ks s = (ps, t)"
  shows "ok t \<and> names_apart t \<and> map (known t) ks = map Some ps \<and> known s \<subseteq>\<^sub>m known t"
  using assms
proof (induction ks arbitrary: s ps t)
  case Nil
  then show ?case by simp
next
  case (Cons k ks)
  obtain p u where u: "intern k s = (p, u)" by fastforce
  obtain qs v where v: "interns ks u = (qs, v)" by fastforce
  note a = intern_keeps[OF Cons.prems(1,2) u]
  have b: "ok v \<and> names_apart v \<and> map (known v) ks = map Some qs \<and> known u \<subseteq>\<^sub>m known v"
    using Cons.IH[OF _ _ v] a by blast
  have "known v k = Some p" using a b by (auto simp: map_le_def dom_def)
  then show ?case using a b u v Cons.prems(3) by (auto intro: map_le_trans)
qed

text \<open>Two interned names have the same symbol exactly when they are the same name.\<close>

lemma interns_inj:
  assumes "ok s" "names_apart s" "interns ks s = (ps, t)"
  shows "length ps = length ks \<and> (\<forall>i j. i < length ks \<and> j < length ks \<longrightarrow> (ps ! i = ps ! j) = (ks ! i = ks ! j))"
proof -
  note a = interns_keep[OF assms]
  have l: "length ps = length ks" using a by (metis length_map)
  have n: "known t (ks ! i) = Some (ps ! i)" if "i < length ks" for i
    using a that l by (metis nth_map)
  have "(ps ! i = ps ! j) = (ks ! i = ks ! j)" if "i < length ks" "j < length ks" for i j
    using n[OF that(1)] n[OF that(2)] a unfolding names_apart_def by (metis option.inject)
  then show ?thesis using l by blast
qed

end

text \<open>The two registries of the isolate together: a key is a name with its visibility.\<close>

definition intern_symbol :: "bool \<times> string \<Rightarrow> 'a isolate_scheme \<Rightarrow> ptr \<times> 'a isolate_scheme" where
  "intern_symbol k w = (if fst k then getApiPrivateSymbol (snd k) w else getApiSymbol (snd k) w)"

definition known_symbol :: "'a isolate_scheme \<Rightarrow> bool \<times> string \<Rightarrow> ptr option" where
  "known_symbol w k = find_symbol (snd k) (if fst k then apiPrivateSymbols w else apiSymbols w)"

definition symbols_ok :: "'a isolate_scheme \<Rightarrow> bool" where
  "symbols_ok w = (\<forall>p \<in> fst ` (set (apiSymbols w) \<union> set (apiPrivateSymbols w)). p < nextSymbol w)"

lemma find_symbol_mem: "find_symbol n ps = Some p \<Longrightarrow> (p, n) \<in> set ps"
  by (induction ps) (auto split: if_splits)

lemma find_symbol_append: "find_symbol n (ps @ [(q, m)]) =
    (case find_symbol n ps of Some p \<Rightarrow> Some p | None \<Rightarrow> if m = n then Some q else None)"
  by (induction ps) auto

lemma replace_symbol_None: "replace_symbol n q ps = None \<longleftrightarrow> find_symbol n ps = None"
  by (induction ps) (auto split: if_splits)

interpretation api_symbols: symbol_registry intern_symbol known_symbol symbols_ok
proof unfold_locales
  fix s :: "'a isolate_scheme" and k p
  assume s: "symbols_ok s"
  show "known_symbol s k = Some p \<Longrightarrow> intern_symbol k s = (p, s)"
    by (auto simp: known_symbol_def intern_symbol_def getApiSymbol_def getApiPrivateSymbol_def split: if_splits)
  assume n: "known_symbol s k = None"
  have f: "nextSymbol s \<notin> ran (known_symbol s)"
    using s by (force simp: ran_def known_symbol_def symbols_ok_def dest: find_symbol_mem split: if_splits)
  show "\<exists>p t. intern_symbol k s = (p, t) \<and> symbols_ok t \<and> p \<notin> ran (known_symbol s) \<and>
      known_symbol t = (known_symbol s)(k \<mapsto> p)"
  proof (cases "fst k")
    case True
    then have r: "replace_symbol (snd k) (nextSymbol s) (apiPrivateSymbols s) = None"
      using n by (simp add: known_symbol_def replace_symbol_None)
    show ?thesis using True n s f r
      by (auto simp: intern_symbol_def getApiPrivateSymbol_def createApiPrivateSymbol_def known_symbol_def fun_eq_iff
          find_symbol_append symbols_ok_def less_Suc_eq prod_eq_iff Let_def split: option.splits)
  next
    case False
    then have r: "replace_symbol (snd k) (nextSymbol s) (apiSymbols s) = None"
      using n by (simp add: known_symbol_def replace_symbol_None)
    show ?thesis using False n s f r
      by (auto simp: intern_symbol_def getApiSymbol_def createApiSymbol_def known_symbol_def fun_eq_iff
          find_symbol_append symbols_ok_def less_Suc_eq prod_eq_iff Let_def split: option.splits)
  qed
qed

section \<open>Properties\<close>

text \<open>Backing stores are counted: holders that are created and dropped in any order leave every count
  as it was, and the entry disappears with the last holder; one drop more than there were holders
  aborts.\<close>

theorem backing_stores_balanced:
  fixes w :: "'a isolate_scheme"
  assumes "backing_ok w" "mset ks = mset js"
  shows "(\<exists>t. foldM removeBackingStore js (fold addBackingStore ks w) = Inr t \<and>
      (\<forall>v. backing_count v t = backing_count v w)) \<and>
    (backing_count v w = 0 \<longrightarrow> removeBackingStore v w = Inl CheckFailed)"
proof -
  have "backing_count v w = 0 \<Longrightarrow> backingStoreCounter w v = None"
    using assms(1) by (force simp: backing_count_def backing_ok_def split: option.splits)
  then show ?thesis using backing_stores.balanced[OF assms] by (auto simp: removeBackingStore_def)
qed

theorem backing_stores_balanced_witness:
  "\<exists>t. foldM removeBackingStore [8, 9, 8] (fold addBackingStore [8, 8, 9] (IsolateWrap_New 1)) = Inr t \<and>
    (\<forall>v. backing_count v t = backing_count v (IsolateWrap_New 1))"
  using backing_stores_balanced[of "IsolateWrap_New 1" "[8, 8, 9]" "[8, 9, 8]"]
  by (simp add: backing_ok_def IsolateWrap_New_def)

fun requests :: "(bool \<times> string) list \<Rightarrow> 'a isolate_scheme \<Rightarrow> ptr list \<times> 'a isolate_scheme" where
  "requests [] w = ([], w)"
| "requests (k # ks) w = (let (p, w) = intern_symbol k w;
     (ps, w) = requests ks w in (p # ps, w))"

lemma requests_interns: "requests ks w = api_symbols.interns ks w"
proof (induction ks arbitrary: w)
  case Nil
  then show ?case by (simp add: api_symbols.interns.simps)
next
  case (Cons k ks)
  then show ?case by (simp add: api_symbols.interns.simps case_prod_beta Let_def)
qed



text \<open>Creating a symbol replaces the registered one of that name: later requests return the new symbol,
  every other name keeps its own.\<close>

lemma replace_symbol_finds:
  "replace_symbol n q ps = Some qs \<Longrightarrow> find_symbol m qs = (if m = n then Some q else find_symbol m ps)"
  by (induction ps arbitrary: qs) (auto split: if_splits)

theorem createApiSymbol_replaces:
  fixes w :: "'a isolate_scheme"
  shows "let (p, w') = createApiSymbol n w in getApiSymbol n w' = (p, w') \<and>
    (\<forall>m. m \<noteq> n \<longrightarrow> find_symbol m (apiSymbols w') = find_symbol m (apiSymbols w)) \<and>
    (\<forall>m. find_symbol m (apiPrivateSymbols w') = find_symbol m (apiPrivateSymbols w))"
proof -
  obtain qs where q: "createApiSymbol n w = (nextSymbol w, w\<lparr>nextSymbol := nextSymbol w + 1, apiSymbols := qs\<rparr>)"
    "\<And>m. find_symbol m qs = (if m = n then Some (nextSymbol w) else find_symbol m (apiSymbols w))"
  proof (cases "replace_symbol n (nextSymbol w) (apiSymbols w)")
    case None
    have f: "find_symbol m (apiSymbols w @ [(nextSymbol w, n)]) = (if m = n then Some (nextSymbol w) else find_symbol m (apiSymbols w))" for m
      using None by (auto simp: find_symbol_append replace_symbol_None split: option.splits)
    show ?thesis by (rule that[of "apiSymbols w @ [(nextSymbol w, n)]"]) (use None f in \<open>simp_all add: createApiSymbol_def Let_def\<close>)
  next
    case (Some qs)
    then show ?thesis by (intro that[of qs]) (simp_all add: createApiSymbol_def Let_def replace_symbol_finds)
  qed
  then show ?thesis by (simp add: getApiSymbol_def)
qed

theorem createApiSymbol_replaces_witness:
  "let (p, w') = createApiSymbol ''x'' (IsolateWrap_New 1) in getApiSymbol ''x'' w' = (p, w')"
  using createApiSymbol_replaces[of "''x''" "IsolateWrap_New 1"] by (auto simp: case_prod_beta Let_def)

definition engine_ok :: "engine_values \<Rightarrow> bool" where
  "engine_ok es = (es_undefined es \<noteq> 0 \<and> es_null es \<noteq> 0 \<and> es_true es \<noteq> 0 \<and> es_false es \<noteq> 0 \<and> es_emptyString es \<noteq> 0)"

definition slot_contents :: "engine_values \<Rightarrow> ptr list" where
  "slot_contents es = [es_undefined es, es_undefined es, es_null es, es_true es, es_false es, es_emptyString es, es_undefined es]"

definition js_handle :: "ptr \<Rightarrow> HandleWrap" where
  "js_handle p = \<lparr>h_val = p, h_type = JsValue, h_valueType = NoValueType, h_location = Local\<rparr>"

lemma createValue_js: "p \<noteq> 0 \<Longrightarrow> createValue p = Inr (js_handle p)"
  by (simp add: createValue_def newValueWrap_def js_handle_def emptyHandle_def)

lemma slots_filled:
  assumes "engine_ok es" "length (globalSlot w) = 7"
  shows "\<exists>w'. InitializeGlobalSlots es w = Inr w' \<and> globalSlot w' = map (\<lambda>i. nextHandle w + i) [0..<7] \<and>
    (\<forall>i < 7. handleMem w' (nextHandle w + i) = Some (js_handle (slot_contents es ! i)))"
proof -
  obtain a b c d e f g where g: "globalSlot w = [a, b, c, d, e, f, g]"
    using assms(2) by (auto simp: length_Suc_conv eval_nat_numeral)
  have s: "slot_value i p v = Inr (v\<lparr>handleMem := (handleMem v)(nextHandle v \<mapsto> js_handle p), nextHandle := nextHandle v + 1,
      globalSlot := (globalSlot v)[i := nextHandle v]\<rparr>)" if "p \<noteq> 0" for i p and v :: "'a isolate_scheme"
    using that by (simp add: slot_value_def createValue_js alloc_handle_def)
  show ?thesis using assms(1) g
    by (simp add: InitializeGlobalSlots_def engine_ok_def s root_indices upt_conv_Cons eval_nat_numeral
        slot_contents_def less_Suc_eq all_conj_distrib)
qed

text \<open>An initialized isolate answers for the global values: every slot up to \<^verbatim>\<open>kRootIndexSize\<close> holds a
  valid local handle of its value of the engine, an index beyond is refused, and a negative index is read
  out of the bounds of the array.\<close>

theorem initialized_slots:
  fixes w :: "'a isolate_scheme"
  assumes "engine_ok es" "length (globalSlot w) = 7" "params_check params" "param_allocator params \<noteq> 0"
    "param_allocator_shared params = 0"
  shows "\<exists>w'. Isolate_Initialize n es params w = Inr w' \<and> array_buffer_allocator w' = param_allocator params \<and>
    (\<forall>i < 7. \<exists>a. getGlobal (int i) w' = Inr a \<and> handleMem w' a = Some (js_handle (slot_contents es ! i))) \<and>
    handleMem w' (undefined_value w') = Some (js_handle (es_undefined es)) \<and>
    handleMem w' (null_value w') = Some (js_handle (es_null es)) \<and>
    handleMem w' (trueValue w') = Some (js_handle (es_true es)) \<and>
    handleMem w' (falseValue w') = Some (js_handle (es_false es)) \<and>
    handleMem w' (emptyString w') = Some (js_handle (es_emptyString es)) \<and>
    handleMem w' (defaultReturnValue w') = Some (js_handle (es_undefined es)) \<and>
    (\<forall>i \<ge> 7. getGlobal i w' = Inl CheckFailed) \<and> (\<forall>i < 0. getGlobal i w' = Inl OutOfBounds)"
proof -
  let ?v = "w\<lparr>array_buffer_allocator := param_allocator params, vmInstance := es_vm es\<rparr>"
  obtain u where u: "InitializeGlobalSlots es ?v = Inr u" "globalSlot u = map (\<lambda>i. nextHandle ?v + i) [0..<7]"
    "\<forall>i < 7. handleMem u (nextHandle ?v + i) = Some (js_handle (slot_contents es ! i))"
    using slots_filled[OF assms(1), of ?v] assms(2) by auto
  have a: "array_buffer_allocator u = param_allocator params"
  proof -
    have s: "array_buffer_allocator v' = array_buffer_allocator v" if "slot_value i p v = Inr v'" for i p and v v' :: "'a isolate_scheme"
      using that by (auto simp: slot_value_def alloc_handle_def rbind_eq_Inr)
    show ?thesis using u(1) by (auto simp: InitializeGlobalSlots_def rbind_eq_Inr dest!: s)
  qed
  let ?w = "if n > 0 then u\<lparr>vmPromiseHook := True\<rparr> else u"
  have r: "Isolate_Initialize n es params w = Inr ?w" using assms(3,4,5) u(1) by (simp add: Isolate_Initialize_def)
  have g: "globalSlot ?w = globalSlot u" "handleMem ?w = handleMem u" "array_buffer_allocator ?w = array_buffer_allocator u"
    by auto
  have c: "\<forall>i < 7. handleMem u (globalSlot u ! i) = Some (js_handle (slot_contents es ! i))" using u(2,3) by simp
  show ?thesis
    using r a c unfolding undefined_value_def null_value_def trueValue_def falseValue_def emptyString_def
      defaultReturnValue_def getGlobal_def
    by (intro exI[of _ ?w]) (simp only: g, auto simp: root_indices slot_contents_def guard_def)
qed

definition default_params :: create_params where
  "default_params = \<lparr>code_event_handler = 0, snapshot_blob = 0, counter_lookup_callback = 0,
     create_histogram_callback = 0, add_histogram_sample_callback = 0, param_allocator = 77, param_allocator_shared = 0,
     external_references = 0, allow_atomics_wait = True, only_terminate_in_safe_scope = False,
     embedder_wrapper_type_index = -1, embedder_wrapper_object_index = -1\<rparr>"

definition sample_engine :: engine_values where
  "sample_engine = \<lparr>es_vm = 30, es_undefined = 31, es_null = 32, es_true = 33, es_false = 34, es_emptyString = 35\<rparr>"

theorem initialized_slots_witness:
  "\<exists>w'. Isolate_Initialize 1 sample_engine default_params (IsolateWrap_New 1) = Inr w' \<and>
    handleMem w' (trueValue w') = Some (js_handle (es_true sample_engine))"
  using initialized_slots[of sample_engine "IsolateWrap_New 1" default_params 1]
  by (auto simp: engine_ok_def sample_engine_def IsolateWrap_New_def default_params_def params_check_def kRootIndexSize_def)

text \<open>The check of the parameters of \<^verbatim>\<open>Initialize\<close> is a disjunction: it only fails when all ten
  unsupported parameters are set at once, so an isolate whose snapshot, event handler or external references
  are set is accepted as long as one other parameter has its default.\<close>

theorem params_check_accepts_unsupported:
  "params_check (params\<lparr>code_event_handler := a, snapshot_blob := 0\<rparr>) \<and>
   params_check (params\<lparr>snapshot_blob := a, code_event_handler := 0\<rparr>) \<and>
   (\<not> params_check params) = (code_event_handler params \<noteq> 0 \<and> snapshot_blob params \<noteq> 0 \<and>
     counter_lookup_callback params \<noteq> 0 \<and> create_histogram_callback params \<noteq> 0 \<and>
     add_histogram_sample_callback params \<noteq> 0 \<and> external_references params \<noteq> 0 \<and>
     \<not> allow_atomics_wait params \<and> only_terminate_in_safe_scope params \<and>
     embedder_wrapper_type_index params \<noteq> -1 \<and> embedder_wrapper_object_index params \<noteq> -1)"
  by (auto simp: params_check_def)

end
