(* ===== verification/Exceptions.thy ===== *)
theory Exceptions
  imports Isolate
begin

text \<open>
  Exceptions: the handler chain and the scheduled and pending exception of \<^verbatim>\<open>v8::internal::Isolate\<close>
  and \<^verbatim>\<open>IsolateWrap\<close> in \<^verbatim>\<open>src/src/api/isolate.cc\<close>, \<^verbatim>\<open>v8::TryCatch\<close> and
  \<^verbatim>\<open>v8::Message\<close> in \<^verbatim>\<open>src/src/api-exception.cc\<close>, \<^verbatim>\<open>Isolate::ThrowException\<close> and
  \<^verbatim>\<open>Exception::CreateMessage\<close> in \<^verbatim>\<open>src/src/api-environment.cc\<close>, and the calls into and
  out of JavaScript in \<^verbatim>\<open>src/src/api-data.cc\<close> and \<^verbatim>\<open>src/src/api-template.cc\<close>.

  Values of the engine are pointers; which of them are objects is the parameter \<open>obj\<close>. An execution
  state of the engine is the list that says of it and of its parents whether it runs in a try block.
  Throwing into the engine is a result of the operation. \<^verbatim>\<open>TryCatch\<close> objects live at addresses of
  the C++ stack.
\<close>

section \<open>State\<close>

record StackTraceData =
  srcName :: string
  sourceCode :: string
  loc_line :: nat
  loc_column :: nat
  loc_index :: nat

datatype extra_data = ExceptionObjectData "StackTraceData list" | OtherExtraData ptr

record TryCatch =
  tc_next :: ptr
  is_verbose :: bool
  can_continue :: bool
  capture_message :: bool
  tc_rethrow :: bool
  has_terminated :: bool
  tc_exception :: ptr
  tc_message_obj :: ptr

datatype report = Reported nat ptr ptr

record exc = isolate +
  tryCatches :: "ptr \<Rightarrow> TryCatch option"
  try_catch_handler :: ptr
  scheduled_exception :: ptr
  pending_exception_obj :: ptr
  pending_message_obj :: ptr
  callDepth :: nat
  message_callback :: "nat option"
  extraData :: "ptr \<Rightarrow> extra_data option"
  nextObject :: ptr
  reports :: "report list"

definition load_tc :: "ptr \<Rightarrow> 'a exc_scheme \<Rightarrow> TryCatch res" where
  "load_tc p w = (case tryCatches w p of None \<Rightarrow> Inl NullDeref | Some t \<Rightarrow> Inr t)"

definition modify_tc :: "ptr \<Rightarrow> (TryCatch \<Rightarrow> TryCatch) \<Rightarrow> 'a exc_scheme \<Rightarrow> 'a exc_scheme res" where
  "modify_tc p f w = rbind (load_tc p w) (\<lambda>t. Inr (w\<lparr>tryCatches := (tryCatches w)(p \<mapsto> f t)\<rparr>))"

section \<open>The exception state of the isolate\<close>

definition SetTerminationOnExternalTryCatch :: "'a exc_scheme \<Rightarrow> 'a exc_scheme res" where
  "SetTerminationOnExternalTryCatch w = (if try_catch_handler w = 0 then Inr w
     else modify_tc (try_catch_handler w)
       (\<lambda>t. t\<lparr>can_continue := False, has_terminated := True, tc_exception := 0\<rparr>) w)"

definition IsExecutionTerminating :: "'a exc_scheme \<Rightarrow> bool" where
  "IsExecutionTerminating w = False"

definition RegisterTryCatchHandler :: "ptr \<Rightarrow> 'a exc_scheme \<Rightarrow> 'a exc_scheme" where
  "RegisterTryCatchHandler that w = w\<lparr>try_catch_handler := that\<rparr>"

text \<open>The assertion that \<open>that\<close> is on top is only compiled into the debug build.\<close>

definition UnregisterTryCatchHandler :: "ptr \<Rightarrow> 'a exc_scheme \<Rightarrow> 'a exc_scheme res" where
  "UnregisterTryCatchHandler that w = rbind (load_tc (try_catch_handler w) w) (\<lambda>t.
     Inr (w\<lparr>try_catch_handler := tc_next t\<rparr>))"

definition CancelScheduledExceptionFromTryCatch :: "ptr \<Rightarrow> 'a exc_scheme \<Rightarrow> 'a exc_scheme" where
  "CancelScheduledExceptionFromTryCatch that w = w"

definition has_scheduled_exception :: "'a exc_scheme \<Rightarrow> bool" where
  "has_scheduled_exception w = (scheduled_exception w \<noteq> 0)"

definition set_scheduled_exception :: "ptr \<Rightarrow> 'a exc_scheme \<Rightarrow> 'a exc_scheme" where
  "set_scheduled_exception e w = w\<lparr>scheduled_exception := e\<rparr>"

definition clear_scheduled_exception :: "'a exc_scheme \<Rightarrow> 'a exc_scheme" where
  "clear_scheduled_exception w = w\<lparr>scheduled_exception := 0\<rparr>"

definition has_pending_exception :: "'a exc_scheme \<Rightarrow> bool" where
  "has_pending_exception w = (pending_exception_obj w \<noteq> 0)"

definition pending_exception :: "'a exc_scheme \<Rightarrow> ptr res" where
  "pending_exception w = guard CheckFailed (has_pending_exception w) (Inr (pending_exception_obj w))"

definition set_pending_exception :: "ptr \<Rightarrow> 'a exc_scheme \<Rightarrow> 'a exc_scheme res" where
  "set_pending_exception e w = guard CheckFailed (e \<noteq> 0) (Inr (w\<lparr>pending_exception_obj := e\<rparr>))"

definition clear_pending_exception :: "'a exc_scheme \<Rightarrow> 'a exc_scheme" where
  "clear_pending_exception w = w\<lparr>pending_exception_obj := 0\<rparr>"

definition set_pending_message_obj :: "ptr \<Rightarrow> 'a exc_scheme \<Rightarrow> 'a exc_scheme" where
  "set_pending_message_obj m w = w\<lparr>pending_message_obj := m\<rparr>"

definition clear_pending_message_obj :: "'a exc_scheme \<Rightarrow> 'a exc_scheme" where
  "clear_pending_message_obj w = w\<lparr>pending_message_obj := 0\<rparr>"

definition ClearPendingExceptionAndMessage :: "'a exc_scheme \<Rightarrow> 'a exc_scheme" where
  "ClearPendingExceptionAndMessage w = clear_pending_message_obj (clear_pending_exception w)"

definition hasExternalTryCatch :: "'a exc_scheme \<Rightarrow> bool" where
  "hasExternalTryCatch w = (try_catch_handler w \<noteq> 0)"

definition PropagatePendingExceptionToExternalTryCatch :: "'a exc_scheme \<Rightarrow> (bool \<times> 'a exc_scheme) res" where
  "PropagatePendingExceptionToExternalTryCatch w =
     (if hasExternalTryCatch w then
        rbind (load_tc (try_catch_handler w) w) (\<lambda>handler.
          if tc_exception handler \<noteq> 0 then Inr (False, w)
          else rbind (modify_tc (try_catch_handler w) (\<lambda>t. t\<lparr>can_continue := True, has_terminated := False,
              tc_exception := pending_exception_obj w, tc_message_obj := pending_message_obj w\<rparr>) w) (\<lambda>w. Inr (True, w)))
      else Inr (False, w))"

definition increaseCallDepth :: "'a exc_scheme \<Rightarrow> 'a exc_scheme" where
  "increaseCallDepth w = w\<lparr>callDepth := add64 (callDepth w) 1\<rparr>"

definition decreaseCallDepth :: "'a exc_scheme \<Rightarrow> 'a exc_scheme" where
  "decreaseCallDepth w = w\<lparr>callDepth := sub64 (callDepth w) 1\<rparr>"

definition hasCallDepth :: "'a exc_scheme \<Rightarrow> bool" where
  "hasCallDepth w = (callDepth w > 0)"

definition sholdReportPendingMessage :: "bool \<Rightarrow> 'a exc_scheme \<Rightarrow> bool" where
  "sholdReportPendingMessage isVerbose w = (has_pending_exception w \<and> (callDepth w = 0 \<or> isVerbose))"

section \<open>Messages\<close>

definition setExtraData :: "ptr \<Rightarrow> extra_data \<Rightarrow> 'a exc_scheme \<Rightarrow> 'a exc_scheme" where
  "setExtraData p d w = w\<lparr>extraData := (extraData w)(p \<mapsto> d)\<rparr>"

definition asExceptionObjectData :: "extra_data \<Rightarrow> StackTraceData list res" where
  "asExceptionObjectData d = (case d of ExceptionObjectData fs \<Rightarrow> Inr fs | OtherExtraData _ \<Rightarrow> Inl CheckFailed)"

text \<open>The message is a new string object of the engine that carries the stack trace of the exception. Being new, it is not
  the exception, whose data is therefore read off the state before.\<close>

definition CreateMessage :: "(ptr \<Rightarrow> bool) \<Rightarrow> ptr \<Rightarrow> 'a exc_scheme \<Rightarrow> (ptr \<times> 'a exc_scheme) res" where
  "CreateMessage obj esException w = rbind (GetCurrentContext w) (\<lambda>_.
     let esExtraData = extraData w esException;
         r = nextObject w; w = w\<lparr>nextObject := nextObject w + 1, extraData := (extraData w)(r := None)\<rparr> in
     rbind (if obj esException then (case esExtraData of
         Some d \<Rightarrow> rbind (asExceptionObjectData d) (\<lambda>fs. Inr (setExtraData r (ExceptionObjectData fs) w))
       | None \<Rightarrow> Inr w) else Inr w) (NewLocal r))"

text \<open>\<open>stack_scope\<close> stands for the address of a scope object on the C++ stack.\<close>

definition stack_scope :: ptr where
  "stack_scope = 1"

definition reportMessage :: "(ptr \<Rightarrow> bool) \<Rightarrow> ptr \<Rightarrow> 'a exc_scheme \<Rightarrow> 'a exc_scheme res" where
  "reportMessage obj pendingException w =
     rbind (NewLocal pendingException (HandleScope_ctor stack_scope w)) (\<lambda>(exception, w).
     rbind (CreateMessage obj pendingException w) (\<lambda>(message, w).
     HandleScope_dtor stack_scope (case message_callback w of
         Some c \<Rightarrow> w\<lparr>reports := reports w @ [Reported c message exception]\<rparr> | None \<Rightarrow> w)))"

definition ReportPendingMessages :: "(ptr \<Rightarrow> bool) \<Rightarrow> bool \<Rightarrow> 'a exc_scheme \<Rightarrow> 'a exc_scheme res" where
  "ReportPendingMessages obj isVerbose w = rbind (pending_exception w) (\<lambda>pendingException.
     rbind (if \<not> isVerbose then
         rbind (PropagatePendingExceptionToExternalTryCatch w) (\<lambda>(_, w).
         rbind (if try_catch_handler w \<noteq> 0
            then rbind (load_tc (try_catch_handler w) w) (\<lambda>t. Inr (is_verbose t)) else Inr True) (\<lambda>should_report_exception.
         let w = clear_pending_exception w;
             w = (if pending_exception_obj w = scheduled_exception w then clear_scheduled_exception w else w) in
         Inr (should_report_exception, w)))
       else Inr (True, w)) (\<lambda>(should_report_exception, w).
     if isVerbose \<or> should_report_exception then reportMessage obj pendingException w else Inr w))"

section \<open>Throwing\<close>

definition ScheduleThrow :: "ptr \<Rightarrow> 'a exc_scheme \<Rightarrow> 'a exc_scheme res" where
  "ScheduleThrow value w = (let rethrow = has_pending_exception w; w = set_scheduled_exception value w in
     rbind (set_pending_exception value w) (\<lambda>w.
     rbind (PropagatePendingExceptionToExternalTryCatch w) (\<lambda>(propagated, w).
     if propagated then (let w = clear_pending_exception w in
       Inr (if \<not> rethrow then clear_scheduled_exception w else w))
     else Inr w)))"

text \<open>The conversion of a \<^verbatim>\<open>size_t\<close> to an \<^verbatim>\<open>int\<close>.\<close>

definition to_int :: "nat \<Rightarrow> int" where
  "to_int n = sint (word_of_nat n :: 32 word)"

lemma to_int_small: "n < 2 ^ 31 \<Longrightarrow> to_int n = int n"
  by (simp add: to_int_def signed_of_nat signed_take_bit_int_eq_self)

definition isValidStackFrame :: "StackTraceData \<Rightarrow> bool" where
  "isValidStackFrame traceData = (let errorLine = to_int (loc_line traceData); errorColumn = to_int (loc_column traceData) in
     errorLine > 0 \<and> errorColumn > 0)"

definition newExceptionObjectData :: "StackTraceData list \<Rightarrow> extra_data" where
  "newExceptionObjectData stackTraceData = ExceptionObjectData
     (filter isValidStackFrame stackTraceData)"

definition SetPendingExceptionAndMessage :: "(ptr \<Rightarrow> bool) \<Rightarrow> ptr \<Rightarrow> StackTraceData list \<Rightarrow> 'a exc_scheme \<Rightarrow> 'a exc_scheme res" where
  "SetPendingExceptionAndMessage obj exception stackTraceData w =
     rbind (if obj exception then (case extraData w exception of
         Some d \<Rightarrow> rbind (asExceptionObjectData d) (\<lambda>_. Inr w)
       | None \<Rightarrow> Inr (setExtraData exception (newExceptionObjectData stackTraceData) w)) else Inr w) (\<lambda>w.
     rbind (set_pending_exception exception w) (\<lambda>w. Inr (set_pending_message_obj 0 w)))"

definition handleException :: "(ptr \<Rightarrow> bool) \<Rightarrow> ptr \<Rightarrow> StackTraceData list \<Rightarrow> 'a exc_scheme \<Rightarrow> 'a exc_scheme res" where
  "handleException obj exception stackTrace w = (if hasCallDepth w then
       ScheduleThrow exception (if obj exception
         then setExtraData exception (newExceptionObjectData stackTrace) w else w)
     else rbind (SetPendingExceptionAndMessage obj exception stackTrace w) (ReportPendingMessages obj False))"

fun isCatchableByJavascript :: "bool list \<Rightarrow> bool" where
  "isCatchableByJavascript [] = False"
| "isCatchableByJavascript (onTry # parents) = (if onTry then True else isCatchableByJavascript parents)"

text \<open>The result tells which exception is thrown into the engine, if any.\<close>

definition ThrowErrorIfHasException :: "(ptr \<Rightarrow> bool) \<Rightarrow> bool list \<Rightarrow> 'a exc_scheme \<Rightarrow> (ptr option \<times> 'a exc_scheme) res" where
  "ThrowErrorIfHasException obj state w = (if \<not> has_scheduled_exception w then Inr (None, w)
     else (let exception = scheduled_exception w; w = clear_scheduled_exception w in
       if isCatchableByJavascript state then
         (let w = ClearPendingExceptionAndMessage w in
          rbind (if hasExternalTryCatch w then SetTerminationOnExternalTryCatch w else Inr w) (\<lambda>w.
          Inr (Some exception, w)))
       else if \<not> hasExternalTryCatch w then rbind (ReportPendingMessages obj False w) (\<lambda>w. Inr (None, w))
       else if has_pending_exception w then rbind (ReportPendingMessages obj False w) (\<lambda>w. Inr (None, w))
       else Inr (None, w)))"

text \<open>\<open>None\<close> is the empty handle, for which \<^verbatim>\<open>undefined\<close> is thrown.\<close>

definition ThrowException :: "ptr option \<Rightarrow> 'a exc_scheme \<Rightarrow> (ptr \<times> 'a exc_scheme) res" where
  "ThrowException value w = guard NullDeref (s_currentIsolate w \<noteq> 0)
     (rbind (case (case value of None \<Rightarrow> handleMem w (undefined_value w) | Some v \<Rightarrow> handleMem w v) of
         None \<Rightarrow> Inl NullDeref | Some h \<Rightarrow> get_value h) (\<lambda>esValue.
     rbind (ScheduleThrow esValue w) (NewLocal esValue)))"

section \<open>TryCatch\<close>

definition ResetInternal :: "TryCatch \<Rightarrow> TryCatch" where
  "ResetInternal t = t\<lparr>tc_exception := 0, tc_message_obj := 0\<rparr>"

definition newTryCatch :: "ptr \<Rightarrow> TryCatch" where
  "newTryCatch nxt = ResetInternal \<lparr>tc_next = nxt, is_verbose = False, can_continue = True, capture_message = True,
     tc_rethrow = False, has_terminated = False, tc_exception = 0, tc_message_obj = 0\<rparr>"

definition TryCatch_ctor :: "ptr \<Rightarrow> 'a exc_scheme \<Rightarrow> 'a exc_scheme" where
  "TryCatch_ctor this w = RegisterTryCatchHandler this
     (w\<lparr>tryCatches := (tryCatches w)(this \<mapsto> newTryCatch (try_catch_handler w))\<rparr>)"

definition HasCaught :: "TryCatch \<Rightarrow> bool" where
  "HasCaught t = (tc_exception t \<noteq> 0)"

definition HasTerminated :: "TryCatch \<Rightarrow> bool" where
  "HasTerminated t = has_terminated t"

definition TryCatch_Exception :: "ptr \<Rightarrow> 'a exc_scheme \<Rightarrow> (ptr option \<times> 'a exc_scheme) res" where
  "TryCatch_Exception this w = rbind (load_tc this w) (\<lambda>t.
     if HasCaught t then rbind (NewLocal (tc_exception t) w) (\<lambda>(h, w). Inr (Some h, w)) else Inr (None, w))"

definition TryCatch_ReThrow :: "ptr \<Rightarrow> 'a exc_scheme \<Rightarrow> (ptr option \<times> 'a exc_scheme) res" where
  "TryCatch_ReThrow this w = rbind (load_tc this w) (\<lambda>t.
     if \<not> HasCaught t then Inr (None, w)
     else rbind (modify_tc this (\<lambda>t. t\<lparr>tc_rethrow := True\<rparr>) w) (\<lambda>w. Inr (Some (undefined_value w), w)))"

definition TryCatch_Reset :: "ptr \<Rightarrow> 'a exc_scheme \<Rightarrow> 'a exc_scheme res" where
  "TryCatch_Reset this w = rbind (modify_tc this (\<lambda>t. t\<lparr>tc_rethrow := False\<rparr>) w) (\<lambda>w.
     modify_tc this ResetInternal (CancelScheduledExceptionFromTryCatch this w))"

definition TryCatch_SetVerbose :: "bool \<Rightarrow> ptr \<Rightarrow> 'a exc_scheme \<Rightarrow> 'a exc_scheme res" where
  "TryCatch_SetVerbose b this w = modify_tc this (\<lambda>t. t\<lparr>is_verbose := b\<rparr>) w"

definition TryCatch_SetCaptureMessage :: "bool \<Rightarrow> ptr \<Rightarrow> 'a exc_scheme \<Rightarrow> 'a exc_scheme res" where
  "TryCatch_SetCaptureMessage b this w = modify_tc this (\<lambda>t. t\<lparr>capture_message := b\<rparr>) w"

definition handle_value :: "ptr option \<Rightarrow> 'a exc_scheme \<Rightarrow> ptr res" where
  "handle_value h w = (case h of None \<Rightarrow> Inl NullDeref | Some p \<Rightarrow>
     (case handleMem w p of None \<Rightarrow> Inl NullDeref | Some x \<Rightarrow> get_value x))"

definition RestorePendingMessageFromTryCatch :: "ptr \<Rightarrow> 'a exc_scheme \<Rightarrow> 'a exc_scheme res" where
  "RestorePendingMessageFromTryCatch handler w = rbind (TryCatch_Exception handler w) (\<lambda>(h, w).
     rbind (handle_value h w) (\<lambda>v. set_pending_exception v w))"

text \<open>\<^verbatim>\<open>Local::New\<close> of a handle is empty for the empty handle.\<close>

definition Local_New :: "ptr option \<Rightarrow> 'a exc_scheme \<Rightarrow> (ptr option \<times> 'a exc_scheme) res" where
  "Local_New h w = (case h of None \<Rightarrow> Inr (None, w) | Some p \<Rightarrow> rbind (CreateHandle p w) (\<lambda>(q, w). Inr (Some q, w)))"

definition TryCatch_dtor :: "(ptr \<Rightarrow> bool) \<Rightarrow> ptr \<Rightarrow> 'a exc_scheme \<Rightarrow> 'a exc_scheme res" where
  "TryCatch_dtor obj this w = rbind (load_tc this w) (\<lambda>t.
     rbind (if tc_rethrow t then
         rbind (TryCatch_Exception this (HandleScope_ctor stack_scope w)) (\<lambda>(e, w).
         rbind (Local_New e w) (\<lambda>(v8Exception, w).
         rbind (if HasCaught t \<and> capture_message t then RestorePendingMessageFromTryCatch this w else Inr w) (\<lambda>w.
         rbind (UnregisterTryCatchHandler this w) (\<lambda>w.
         rbind (ThrowException v8Exception w) (\<lambda>(_, w).
         HandleScope_dtor stack_scope w)))))
       else UnregisterTryCatchHandler this (if HasCaught t \<and> has_scheduled_exception w
         then CancelScheduledExceptionFromTryCatch this w else w)) (\<lambda>w.
     if sholdReportPendingMessage (is_verbose t) w then ReportPendingMessages obj True w else Inr w))"

section \<open>Message\<close>

definition exception_stackTrace :: "ptr \<Rightarrow> 'a exc_scheme \<Rightarrow> StackTraceData list res" where
  "exception_stackTrace e w = (case extraData w e of Some d \<Rightarrow> asExceptionObjectData d | None \<Rightarrow> Inr [])"

definition hasStackTraceData :: "(ptr \<Rightarrow> bool) \<Rightarrow> ptr \<Rightarrow> 'a exc_scheme \<Rightarrow> bool res" where
  "hasStackTraceData obj e w = (if \<not> obj e then Inr False
     else rbind (exception_stackTrace e w) (\<lambda>fs. Inr (fs \<noteq> [])))"

text \<open>The common shape of the accessors: \<open>self\<close> is the message object, \<open>d\<close> the value without a stack
  trace.\<close>

definition top_frame :: "(ptr \<Rightarrow> bool) \<Rightarrow> ptr \<Rightarrow> 'b \<Rightarrow> (StackTraceData \<Rightarrow> 'b) \<Rightarrow> 'a exc_scheme \<Rightarrow> 'b res" where
  "top_frame obj self d f w = rbind (hasStackTraceData obj self w) (\<lambda>has.
     if \<not> has then Inr d else rbind (exception_stackTrace self w) (\<lambda>fs. Inr (f (hd fs))))"

definition GetScriptResourceName :: "(ptr \<Rightarrow> bool) \<Rightarrow> ptr \<Rightarrow> 'a exc_scheme \<Rightarrow> string res" where
  "GetScriptResourceName obj self w = top_frame obj self [] srcName w"

definition GetLineNumber :: "(ptr \<Rightarrow> bool) \<Rightarrow> ptr \<Rightarrow> 'a exc_scheme \<Rightarrow> int res" where
  "GetLineNumber obj self w = top_frame obj self 0 (\<lambda>t. to_int (loc_line t)) w"

definition GetStartPosition :: "(ptr \<Rightarrow> bool) \<Rightarrow> ptr \<Rightarrow> 'a exc_scheme \<Rightarrow> int res" where
  "GetStartPosition obj self w = top_frame obj self 0 (\<lambda>t. to_int (loc_index t)) w"

definition GetEndPosition :: "(ptr \<Rightarrow> bool) \<Rightarrow> ptr \<Rightarrow> 'a exc_scheme \<Rightarrow> int res" where
  "GetEndPosition obj self w = top_frame obj self 0 (\<lambda>t. to_int (add64 (loc_index t) 1)) w"

definition GetStartColumn :: "(ptr \<Rightarrow> bool) \<Rightarrow> ptr \<Rightarrow> 'a exc_scheme \<Rightarrow> int option res" where
  "GetStartColumn obj self w = top_frame obj self None (\<lambda>t. Some (to_int (sub64 (loc_column t) 1))) w"

definition GetEndColumn :: "(ptr \<Rightarrow> bool) \<Rightarrow> ptr \<Rightarrow> 'a exc_scheme \<Rightarrow> int option res" where
  "GetEndColumn obj self w = top_frame obj self None (\<lambda>t. Some (to_int (loc_column t))) w"

text \<open>\<^verbatim>\<open>std::getline\<close>: at the end of the stream it fails, and clears the line only if the end had
  not been reached before.\<close>

fun getline :: "string \<times> bool \<Rightarrow> string \<Rightarrow> bool \<times> string \<times> string \<times> bool" where
  "getline (s, eof) line = (if eof then (False, line, s, True)
     else if s = [] then (False, [], [], True)
     else if CHR 0x0A \<in> set s
       then (True, takeWhile (\<lambda>c. c \<noteq> CHR 0x0A) s, tl (dropWhile (\<lambda>c. c \<noteq> CHR 0x0A) s), False)
     else (True, s, [], True))"

lemma rest_shorter: "CHR 0x0A \<in> set s \<Longrightarrow> length (dropWhile (\<lambda>c. c \<noteq> CHR 0x0A) s) - Suc 0 < length s"
  by (induction s) auto

function findLine :: "nat \<Rightarrow> nat \<Rightarrow> string \<times> bool \<Rightarrow> string \<Rightarrow> string" where
  "findLine i target ss line = (case getline ss line of (ok, line, s, eof) \<Rightarrow>
     if \<not> ok then line else if i = target then line else findLine (i + 1) target (s, eof) line)"
  by pat_completeness auto
termination
  by (relation "measure (\<lambda>(i, target, (s, eof), line). length s + (if eof then 0 else 1))")
     (auto simp: rest_shorter split: if_splits)

definition GetSourceLine :: "(ptr \<Rightarrow> bool) \<Rightarrow> ptr \<Rightarrow> 'a exc_scheme \<Rightarrow> string res" where
  "GetSourceLine obj self w = top_frame obj self [] (\<lambda>t. findLine 1 (loc_line t) (sourceCode t, False) []) w"

end
