(* ===== verification/TryBlocks.thy ===== *)
theory TryBlocks
  imports Exceptions
begin

text \<open>
  Programs of nested \<^verbatim>\<open>v8::TryCatch\<close> blocks over the model of the exceptions: what every step of
  them keeps (\<open>exc_inv\<close>, \<open>keeps\<close>, \<open>runs\<close>), and where a thrown exception ends. The
  programs throw handles of values, rethrow, reset and set the flags of their handlers; the operations are
  those of \<^verbatim>\<open>src/src/api-exception.cc\<close> and \<^verbatim>\<open>src/src/api/isolate.cc\<close>.
\<close>

section \<open>What every step keeps\<close>

definition tc_settings :: "TryCatch \<Rightarrow> ptr \<times> bool \<times> bool \<times> bool" where
  "tc_settings t = (tc_next t, tc_rethrow t, is_verbose t, capture_message t)"

text \<open>The sound states: a context is entered, handles can be created, and the handler on top is registered. Objects may
  carry any extra data, as the global object of every context does.\<close>

definition exc_inv :: "'a exc_scheme \<Rightarrow> bool" where
  "exc_inv w = (s_currentIsolate w \<noteq> 0 \<and> contextScopes w \<noteq> [] \<and> handleScopes w \<noteq> [] \<and>
     scope_type_of (last (handleScopes w)) \<noteq> Sealed \<and> nextHandle w > 0 \<and> fresh_mem w \<and> nextObject w > 0 \<and>
     (try_catch_handler w \<noteq> 0 \<longrightarrow> tryCatches w (try_catch_handler w) \<noteq> None))"

text \<open>An object of the interface, which carries data of its own. Such an object cannot be reported.\<close>

definition api_object :: "(ptr \<Rightarrow> bool) \<Rightarrow> 'a exc_scheme \<Rightarrow> ptr \<Rightarrow> bool" where
  "api_object obj w e = (e \<noteq> 0 \<and> obj e \<and> (case extraData w e of Some (OtherExtraData _) \<Rightarrow> True | _ \<Rightarrow> False))"

lemma api_object_cong: "extraData u = extraData w \<Longrightarrow> api_object obj u e = api_object obj w e"
  by (simp add: api_object_def)

lemma api_object_updates [simp]:
  "api_object obj (w\<lparr>tryCatches := a\<rparr>) x = api_object obj w x"
  "api_object obj (w\<lparr>try_catch_handler := b\<rparr>) x = api_object obj w x"
  "api_object obj (w\<lparr>scheduled_exception := b\<rparr>) x = api_object obj w x"
  "api_object obj (w\<lparr>pending_exception_obj := b\<rparr>) x = api_object obj w x"
  "api_object obj (w\<lparr>pending_message_obj := b\<rparr>) x = api_object obj w x"
  "api_object obj (w\<lparr>callDepth := n\<rparr>) x = api_object obj w x"
  "api_object obj (w\<lparr>reports := r\<rparr>) x = api_object obj w x"
  "api_object obj (w\<lparr>handleScopes := s\<rparr>) x = api_object obj w x"
  by (simp_all add: api_object_def)

lemma api_object_0 [simp]: "\<not> api_object obj w 0"
  by (simp add: api_object_def)

definition keeps :: "ptr set \<Rightarrow> 'a exc_scheme \<Rightarrow> 'a exc_scheme \<Rightarrow> bool" where
  "keeps K w w' = (exc_inv w' \<and> try_catch_handler w' = try_catch_handler w \<and>
     (\<exists>ys. handleScopes w' = butlast (handleScopes w) @ [grow ys (last (handleScopes w))]) \<and>
     contextScopes w' = contextScopes w \<and> callDepth w' = callDepth w \<and> handleMem w \<subseteq>\<^sub>m handleMem w' \<and>
     (\<forall>p t. p \<notin> K \<longrightarrow> tryCatches w p = Some t \<longrightarrow>
        (\<exists>t'. tryCatches w' p = Some t' \<and> tc_settings t' = tc_settings t)))"

lemma keeps_refl: "exc_inv w \<Longrightarrow> keeps K w w"
  by (auto simp: keeps_def exc_inv_def intro!: exI[of _ "[]"])

lemma keeps_trans: "keeps K u v \<Longrightarrow> keeps K v w \<Longrightarrow> keeps K u w"
  unfolding keeps_def by (fastforce intro: map_le_trans)

lemma keeps_mono: "keeps K w w' \<Longrightarrow> K \<subseteq> L \<Longrightarrow> keeps L w w'"
  unfolding keeps_def by blast

lemma keeps_inv: "keeps K w w' \<Longrightarrow> exc_inv w'"
  by (simp add: keeps_def)

text \<open>A run that succeeds and keeps what is to be kept.\<close>

definition runs :: "ptr set \<Rightarrow> 'a exc_scheme \<Rightarrow> ('b \<Rightarrow> 'a exc_scheme) \<Rightarrow> ('b \<Rightarrow> bool) \<Rightarrow> 'b res \<Rightarrow> bool" where
  "runs K w out Q r = (\<exists>x. r = Inr x \<and> keeps K w (out x) \<and> Q x)"

lemma runs_rbind:
  assumes "runs K w out Q m" "\<And>x. keeps K w (out x) \<Longrightarrow> Q x \<Longrightarrow> runs K (out x) out' Q' (f x)"
  shows "runs K w out' Q' (rbind m f)"
proof -
  obtain x where x: "m = Inr x" "keeps K w (out x)" "Q x" using assms(1) by (auto simp: runs_def)
  obtain y where "f x = Inr y" "keeps K (out x) (out' y)" "Q' y" using assms(2)[OF x(2,3)] by (auto simp: runs_def)
  then show ?thesis using x keeps_trans[OF x(2)] by (auto simp: runs_def)
qed

lemma runs_Inr: "keeps K w (out x) \<Longrightarrow> Q x \<Longrightarrow> runs K w out Q (Inr x)"
  by (simp add: runs_def)

lemma runs_weaken: "runs K w out Q m \<Longrightarrow> (\<And>x. Q x \<Longrightarrow> Q' x) \<Longrightarrow> runs K w out Q' m"
  by (auto simp: runs_def)

text \<open>Updates of the exception fields alone.\<close>

lemma keeps_fields:
  assumes "exc_inv w"
  shows "keeps K w (w\<lparr>scheduled_exception := a\<rparr>)" "keeps K w (w\<lparr>pending_exception_obj := b\<rparr>)"
    "keeps K w (w\<lparr>pending_message_obj := c\<rparr>)" "keeps K w (w\<lparr>reports := rs\<rparr>)"
    "keeps K w (w\<lparr>extraData := (extraData w)(p := d)\<rparr>)"
  using assms by (auto simp: keeps_def exc_inv_def fresh_mem_def intro!: exI[of _ "[]"])

lemma keeps_modify:
  assumes "exc_inv w" "tryCatches w p = Some t" "tc_settings (f t) = tc_settings t"
  shows "runs K w (\<lambda>w. w) (\<lambda>w'. w' = w\<lparr>tryCatches := (tryCatches w)(p \<mapsto> f t)\<rparr>) (modify_tc p f w)"
  using assms by (auto simp: runs_def modify_tc_def load_tc_def keeps_def exc_inv_def fresh_mem_def intro!: exI[of _ "[]"])

lemma exc_inv_top: "exc_inv w \<Longrightarrow> handleScopes w = butlast (handleScopes w) @ [last (handleScopes w)]"
  by (simp add: exc_inv_def)

text \<open>Handles created on the way only extend the memory and the top scope.\<close>

definition memory_grows :: "'a exc_scheme \<Rightarrow> 'a exc_scheme \<Rightarrow> bool" where
  "memory_grows w w' = (\<exists>m n ys. w' = w\<lparr>handleMem := m, nextHandle := n,
       handleScopes := butlast (handleScopes w) @ [grow ys (last (handleScopes w))]\<rparr> \<and>
     handleMem w \<subseteq>\<^sub>m m \<and> n \<ge> nextHandle w \<and> (\<forall>p. m p \<noteq> None \<longrightarrow> p < n) \<and>
     (\<forall>p < nextHandle w. m p = handleMem w p))"

lemma memory_grows_fields:
  assumes "memory_grows w w'"
  shows "tryCatches w' = tryCatches w" "try_catch_handler w' = try_catch_handler w"
    "scheduled_exception w' = scheduled_exception w" "pending_exception_obj w' = pending_exception_obj w"
    "callDepth w' = callDepth w" "reports w' = reports w" "extraData w' = extraData w" "nextObject w' = nextObject w"
    "contextScopes w' = contextScopes w" "s_currentIsolate w' = s_currentIsolate w"
    "message_callback w' = message_callback w" "pending_message_obj w' = pending_message_obj w" "globalSlot w' = globalSlot w"
  using assms by (auto simp: memory_grows_def)

lemma memory_grows_keeps: "exc_inv w \<Longrightarrow> memory_grows w w' \<Longrightarrow> keeps K w w'"
  by (auto simp: memory_grows_def keeps_def exc_inv_def fresh_mem_def)

lemma memory_grows_old:
  "memory_grows w w' \<Longrightarrow> p < nextHandle w \<Longrightarrow> handleMem w' p = handleMem w p \<and> p < nextHandle w'"
  by (auto simp: memory_grows_def)

lemma memory_grows_mem: "memory_grows w w' \<Longrightarrow> handleMem w p = Some x \<Longrightarrow> handleMem w' p = Some x"
  by (auto simp: memory_grows_def map_le_def) (metis domI)

lemma keeps_mem: "keeps K w w' \<Longrightarrow> handleMem w p = Some x \<Longrightarrow> handleMem w' p = Some x"
  by (auto simp: keeps_def map_le_def) (metis domI)

lemma isCurrentScopeSealed_exc: "exc_inv w \<Longrightarrow> isCurrentScopeSealed w = Inr False"
  by (auto simp: exc_inv_def isCurrentScopeSealed_def)

lemma addHandle_exc:
  "exc_inv w \<Longrightarrow> addHandleToCurrentScope p w =
     Inr (w\<lparr>handleScopes := butlast (handleScopes w) @ [grow [p] (last (handleScopes w))]\<rparr>)"
  by (rule add_handle) (rule exc_inv_top)

lemma js_handle_simps [simp]: "isValid (js_handle v)" "h_location (js_handle v) = Local" "get_value (js_handle v) = Inr v"
  by (simp_all add: js_handle_def isValid_def get_value_def)

lemma CreateHandle_local:
  assumes "exc_inv w" "handleMem w p = Some (js_handle v)" "p \<noteq> 0"
  shows "\<exists>w'. CreateHandle p w = Inr (p, w') \<and> memory_grows w w'"
proof -
  have "CreateHandle p w = Inr (p, w\<lparr>handleScopes := butlast (handleScopes w) @ [grow [p] (last (handleScopes w))]\<rparr>)"
    using assms by (simp add: CreateHandle_def isCurrentScopeSealed_exc addHandle_exc)
  moreover have "memory_grows w (w\<lparr>handleScopes := butlast (handleScopes w) @ [grow [p] (last (handleScopes w))]\<rparr>)"
    unfolding memory_grows_def using assms(1)
    by (intro exI[of _ "handleMem w"] exI[of _ "nextHandle w"] exI[of _ "[p]"]) (auto simp: exc_inv_def fresh_mem_def)
  ultimately show ?thesis by blast
qed

lemma memory_grows_trans:
  assumes "handleScopes u \<noteq> []" "memory_grows u v" "memory_grows v w"
  shows "memory_grows u w"
proof -
  obtain m n ys where a: "v = u\<lparr>handleMem := m, nextHandle := n,
       handleScopes := butlast (handleScopes u) @ [grow ys (last (handleScopes u))]\<rparr>"
    "handleMem u \<subseteq>\<^sub>m m" "n \<ge> nextHandle u" "\<forall>p. m p \<noteq> None \<longrightarrow> p < n" "\<forall>p < nextHandle u. m p = handleMem u p"
    using assms(2) unfolding memory_grows_def by blast
  obtain m' n' zs where b: "w = v\<lparr>handleMem := m', nextHandle := n',
       handleScopes := butlast (handleScopes v) @ [grow zs (last (handleScopes v))]\<rparr>"
    "handleMem v \<subseteq>\<^sub>m m'" "n' \<ge> nextHandle v" "\<forall>p. m' p \<noteq> None \<longrightarrow> p < n'" "\<forall>p < nextHandle v. m' p = handleMem v p"
    using assms(3) unfolding memory_grows_def by blast
  have "handleMem u \<subseteq>\<^sub>m m'" using a(1,2) b(2) by (auto intro: map_le_trans)
  then show ?thesis using a b unfolding memory_grows_def
    by (intro exI[of _ m'] exI[of _ n'] exI[of _ "ys @ zs"]) auto
qed

lemma alloc_grows:
  assumes "exc_inv w"
  shows "memory_grows w (w\<lparr>handleMem := (handleMem w)(nextHandle w \<mapsto> h), nextHandle := Suc (nextHandle w)\<rparr>)"
proof -
  have "handleMem w (nextHandle w) = None" using assms by (auto simp: exc_inv_def fresh_mem_def)
  then show ?thesis using assms unfolding memory_grows_def
    by (intro exI[of _ "(handleMem w)(nextHandle w \<mapsto> h)"] exI[of _ "Suc (nextHandle w)"] exI[of _ "[]"])
      (auto simp: exc_inv_def fresh_mem_def map_le_def less_Suc_eq)
qed

lemma NewLocal_exc:
  assumes "exc_inv w" "v \<noteq> 0"
  shows "\<exists>p w'. NewLocal v w = Inr (p, w') \<and> memory_grows w w' \<and> p \<noteq> 0 \<and> handleMem w' p = Some (js_handle v)"
proof -
  let ?p = "nextHandle w"
  let ?u = "w\<lparr>handleMem := (handleMem w)(?p \<mapsto> js_handle v), nextHandle := Suc ?p\<rparr>"
  have g: "memory_grows w ?u" using assms(1) by (rule alloc_grows)
  then have inv: "exc_inv ?u" using memory_grows_keeps[OF assms(1), of ?u "{}"] by (simp add: keeps_def)
  have p: "?p \<noteq> 0" "handleScopes w \<noteq> []" using assms(1) by (auto simp: exc_inv_def)
  obtain u where u: "CreateHandle ?p ?u = Inr (?p, u)" "memory_grows ?u u"
    using CreateHandle_local[OF inv, of ?p v] p by auto
  have "NewLocal v w = CreateHandle ?p ?u"
    using assms(2) by (simp add: NewLocal_def createValue_js alloc_handle_def)
  moreover have "handleMem u ?p = Some (js_handle v)" using u(2) by (auto simp: memory_grows_def map_le_def)
  ultimately show ?thesis using u p memory_grows_trans[OF p(2) g u(2)] by auto
qed

text \<open>A handle scope opened and closed around a run.\<close>

lemma scoped_keeps:
  assumes "exc_inv w" "keeps K (HandleScope_ctor s w) u"
  shows "\<exists>w'. HandleScope_dtor s u = Inr w' \<and> keeps K w w' \<and> w' = u\<lparr>handleScopes := handleScopes w\<rparr>"
proof -
  obtain ys where ys: "handleScopes u = handleScopes w @ [grow ys (newScope s Normal)]"
    using assms(2) by (auto simp: keeps_def HandleScope_ctor_def pushHandleScope_def)
  then have "HandleScope_dtor s u = Inr (u\<lparr>handleScopes := handleScopes w\<rparr>)"
    by (simp add: HandleScope_dtor_def popHandleScope_def newScope_def Let_def)
  moreover have "keeps K w (u\<lparr>handleScopes := handleScopes w\<rparr>)"
    using assms by (auto simp: keeps_def exc_inv_def HandleScope_ctor_def pushHandleScope_def fresh_mem_def
        intro!: exI[of _ "[]"])
  ultimately show ?thesis by blast
qed

lemma scope_open: "exc_inv w \<Longrightarrow> exc_inv (HandleScope_ctor s w)"
  by (auto simp: exc_inv_def HandleScope_ctor_def pushHandleScope_def newScope_def fresh_mem_def)

section \<open>Throwing and reporting\<close>

lemma propagate_cases:
  assumes "exc_inv w"
  shows "PropagatePendingExceptionToExternalTryCatch w =
    (if try_catch_handler w \<noteq> 0 \<and> tc_exception (the (tryCatches w (try_catch_handler w))) = 0
     then Inr (True, w\<lparr>tryCatches := (tryCatches w)(try_catch_handler w \<mapsto> (the (tryCatches w (try_catch_handler w)))
       \<lparr>can_continue := True, has_terminated := False, tc_exception := pending_exception_obj w,
        tc_message_obj := pending_message_obj w\<rparr>)\<rparr>)
     else Inr (False, w))"
  using assms by (auto simp: PropagatePendingExceptionToExternalTryCatch_def hasExternalTryCatch_def load_tc_def
      modify_tc_def exc_inv_def)

lemma propagate_runs:
  assumes "exc_inv w"
  shows "runs K w snd (\<lambda>r. scheduled_exception (snd r) = scheduled_exception w \<and>
      pending_exception_obj (snd r) = pending_exception_obj w \<and> extraData (snd r) = extraData w \<and>
      reports (snd r) = reports w \<and> message_callback (snd r) = message_callback w)
    (PropagatePendingExceptionToExternalTryCatch w)"
proof (cases "try_catch_handler w \<noteq> 0 \<and> tc_exception (the (tryCatches w (try_catch_handler w))) = 0")
  case True
  then obtain t where t: "tryCatches w (try_catch_handler w) = Some t" using assms by (auto simp: exc_inv_def)
  let ?f = "\<lambda>t. t\<lparr>can_continue := True, has_terminated := False, tc_exception := pending_exception_obj w,
        tc_message_obj := pending_message_obj w\<rparr>"
  have "keeps K w (w\<lparr>tryCatches := (tryCatches w)(try_catch_handler w \<mapsto> ?f t)\<rparr>)"
    using keeps_modify[OF assms t, of ?f K] by (auto simp: runs_def tc_settings_def)
  then show ?thesis using True t by (simp add: propagate_cases[OF assms] runs_def)
next
  case False
  then show ?thesis by (auto simp: propagate_cases[OF assms] runs_def keeps_refl[OF assms])
qed

lemma ScheduleThrow_runs:
  assumes "exc_inv w" "v \<noteq> 0"
  shows "runs K w (\<lambda>w. w) (\<lambda>_. True) (ScheduleThrow v w)"
proof -
  let ?u = "w\<lparr>scheduled_exception := v, pending_exception_obj := v\<rparr>"
  have u: "keeps K w ?u" using assms(1) by (auto simp: keeps_def exc_inv_def fresh_mem_def intro!: exI[of _ "[]"])
  have e: "ScheduleThrow v w = rbind (PropagatePendingExceptionToExternalTryCatch ?u) (\<lambda>(propagated, u).
      if propagated then Inr (if pending_exception_obj w = 0 then clear_scheduled_exception (clear_pending_exception u)
        else clear_pending_exception u) else Inr u)"
    using assms(2) by (simp add: ScheduleThrow_def set_scheduled_exception_def set_pending_exception_def
        has_pending_exception_def Let_def cong: if_cong)
  obtain r where r: "PropagatePendingExceptionToExternalTryCatch ?u = Inr r" "keeps K w (snd r)"
    using propagate_runs[OF keeps_inv[OF u], of K] keeps_trans[OF u] by (auto simp: runs_def)
  have c1: "keeps K w (clear_pending_exception (snd r))"
    using keeps_trans[OF r(2) keeps_fields(2)[OF keeps_inv[OF r(2)]]] by (simp add: clear_pending_exception_def)
  have c2: "keeps K w (clear_scheduled_exception (clear_pending_exception (snd r)))"
    using keeps_trans[OF c1 keeps_fields(1)[OF keeps_inv[OF c1]]] by (simp add: clear_scheduled_exception_def)
  show ?thesis using r c1 c2 by (cases r) (simp add: e runs_def)
qed

lemma CreateMessage_runs:
  assumes "exc_inv w" "e \<noteq> 0" "\<not> api_object obj w e"
  shows "runs K w snd (\<lambda>r. pending_exception_obj (snd r) = pending_exception_obj w \<and>
      scheduled_exception (snd r) = scheduled_exception w \<and> message_callback (snd r) = message_callback w \<and>
      reports (snd r) = reports w \<and> tryCatches (snd r) = tryCatches w \<and>
      (\<forall>x. api_object obj (snd r) x \<longrightarrow> api_object obj w x)) (CreateMessage obj e w)"
proof -
  let ?r = "nextObject w"
  let ?u = "w\<lparr>nextObject := Suc ?r, extraData := (extraData w)(?r := None)\<rparr>"
  let ?v = "if obj e then (case extraData w e of Some (ExceptionObjectData fs) \<Rightarrow> setExtraData ?r (ExceptionObjectData fs) ?u | _ \<Rightarrow> ?u) else ?u"
  have u: "keeps K w ?u" using assms by (auto simp: keeps_def exc_inv_def fresh_mem_def intro!: exI[of _ "[]"])
  have sx: "keeps K w (setExtraData ?r (ExceptionObjectData fs) ?u)" for fs
    using assms by (auto simp: setExtraData_def keeps_def exc_inv_def fresh_mem_def intro!: exI[of _ "[]"])
  have v: "keeps K w ?v" using u sx by (auto split: option.split extra_data.split)
  have m: "pending_exception_obj ?v = pending_exception_obj w" "scheduled_exception ?v = scheduled_exception w"
    "message_callback ?v = message_callback w" "reports ?v = reports w" "tryCatches ?v = tryCatches w"
    by (auto simp: setExtraData_def split: option.split extra_data.split)
  have o: "obj e \<Longrightarrow> e \<noteq> 0 \<Longrightarrow> \<forall>d. extraData w e \<noteq> Some (OtherExtraData d)" using assms(3) by (auto simp: api_object_def)
  have n: "\<forall>x. api_object obj ?v x \<longrightarrow> api_object obj w x"
    by (auto simp: api_object_def setExtraData_def split: option.splits extra_data.splits if_splits)
  have "CreateMessage obj e w = NewLocal ?r ?v"
    using assms o by (auto simp: CreateMessage_def GetCurrentContext_def exc_inv_def Let_def asExceptionObjectData_def
        Suc_le_eq split: option.splits extra_data.splits)
  moreover have "?r \<noteq> 0" using assms by (simp add: exc_inv_def)
  ultimately obtain p w' where w': "CreateMessage obj e w = Inr (p, w')" "memory_grows ?v w'"
    using NewLocal_exc[OF keeps_inv[OF v]] by metis
  show ?thesis using w'(1) keeps_trans[OF v memory_grows_keeps[OF keeps_inv[OF v] w'(2)]] memory_grows_fields[OF w'(2)] m n
    by (simp add: runs_def api_object_cong[OF memory_grows_fields(7)[OF w'(2)]])
qed

lemma CreateMessage_aborts:
  assumes "exc_inv w" "api_object obj w e"
  shows "CreateMessage obj e w = Inl CheckFailed"
  using assms by (auto simp: CreateMessage_def GetCurrentContext_def exc_inv_def Let_def asExceptionObjectData_def api_object_def
      Suc_le_eq split: option.splits extra_data.splits)

lemma reportMessage_runs:
  assumes "exc_inv w" "e \<noteq> 0" "\<not> api_object obj w e"
  shows "runs K w (\<lambda>w. w) (\<lambda>w'. pending_exception_obj w' = pending_exception_obj w \<and>
      scheduled_exception w' = scheduled_exception w \<and> tryCatches w' = tryCatches w \<and>
      length (reports w') = length (reports w) + (if message_callback w = None then 0 else 1) \<and>
      (\<forall>x. api_object obj w' x \<longrightarrow> api_object obj w x))
    (reportMessage obj e w)"
proof -
  let ?s = "HandleScope_ctor stack_scope w"
  have s: "exc_inv ?s" using scope_open[OF assms(1)] .
  have sf: "pending_exception_obj ?s = pending_exception_obj w" "scheduled_exception ?s = scheduled_exception w"
    "tryCatches ?s = tryCatches w" "reports ?s = reports w" "message_callback ?s = message_callback w"
    by (simp_all add: HandleScope_ctor_def pushHandleScope_def)
  obtain p u where u: "NewLocal e ?s = Inr (p, u)" "memory_grows ?s u" using NewLocal_exc[OF s assms(2)] by blast
  note k = memory_grows_keeps[OF s u(2), of K]
  note uf = memory_grows_fields[OF u(2)]
  have ao: "api_object obj u x = api_object obj w x" for x
    using uf(7) by (simp add: api_object_def HandleScope_ctor_def pushHandleScope_def)
  obtain m v where v: "CreateMessage obj e u = Inr (m, v)" "keeps K u v" "pending_exception_obj v = pending_exception_obj u"
    "scheduled_exception v = scheduled_exception u" "tryCatches v = tryCatches u" "reports v = reports u"
    "message_callback v = message_callback u" "\<forall>x. api_object obj v x \<longrightarrow> api_object obj u x"
    using CreateMessage_runs[OF keeps_inv[OF k], where obj = obj and e = e and K = K] assms(2,3) ao
    by (auto simp: runs_def)
  let ?v = "case message_callback v of Some c \<Rightarrow> v\<lparr>reports := reports v @ [Reported c m p]\<rparr> | None \<Rightarrow> v"
  have kv: "keeps K ?s v" using keeps_trans[OF k v(2)] .
  have "keeps K ?s ?v" using kv keeps_trans[OF kv keeps_fields(4)[OF keeps_inv[OF kv]]]
    by (auto split: option.split)
  from scoped_keeps[OF assms(1) this] obtain w' where w': "HandleScope_dtor stack_scope ?v = Inr w'" "keeps K w w'"
    "w' = ?v\<lparr>handleScopes := handleScopes w\<rparr>" by blast
  have "pending_exception_obj w' = pending_exception_obj w" "scheduled_exception w' = scheduled_exception w"
    "tryCatches w' = tryCatches w" "length (reports w') = length (reports w) + (if message_callback w = None then 0 else 1)"
    using w'(3) v(3-7) uf sf by (auto split: option.split)
  moreover have "api_object obj w' x = api_object obj v x" for x
    using w'(3) by (simp add: api_object_def split: option.split)
  ultimately show ?thesis using u(1) v(1,8) w'(1,2) ao by (simp add: runs_def reportMessage_def)
qed

lemma reportMessage_aborts:
  assumes "exc_inv w" "e \<noteq> 0" "api_object obj w e"
  shows "reportMessage obj e w = Inl CheckFailed"
proof -
  have s: "exc_inv (HandleScope_ctor stack_scope w)" using scope_open[OF assms(1)] .
  obtain p u where u: "NewLocal e (HandleScope_ctor stack_scope w) = Inr (p, u)" "memory_grows (HandleScope_ctor stack_scope w) u"
    using NewLocal_exc[OF s assms(2)] by blast
  have "api_object obj u e" using assms(3) memory_grows_fields(7)[OF u(2)]
    by (simp add: api_object_def HandleScope_ctor_def pushHandleScope_def)
  from CreateMessage_aborts[OF keeps_inv[OF memory_grows_keeps[OF s u(2)]] this] show ?thesis
    using u(1) by (simp add: reportMessage_def)
qed

text \<open>The handler on top takes the exception if it has none.\<close>

definition receives :: "'a exc_scheme \<Rightarrow> bool" where
  "receives w = (try_catch_handler w \<noteq> 0 \<and> tc_exception (the (tryCatches w (try_catch_handler w))) = 0)"

text \<open>Whether a pending exception is told to the callback for messages, where no mode forces it.\<close>

definition tells :: "'a exc_scheme \<Rightarrow> bool" where
  "tells w = (try_catch_handler w = 0 \<or> is_verbose (the (tryCatches w (try_catch_handler w))))"

lemma propagate_tells:
  assumes "exc_inv w" "PropagatePendingExceptionToExternalTryCatch w = Inr (p, r)"
  shows "try_catch_handler r = try_catch_handler w" "tells r = tells w"
    "receives w \<Longrightarrow> tc_exception (the (tryCatches r (try_catch_handler w))) = pending_exception_obj w"
  using assms by (auto simp: propagate_cases tells_def receives_def split: if_splits)

text \<open>A report that is not verbose: the handler on top takes the exception if it can, and the message callback is told.\<close>

definition reported :: "ptr \<Rightarrow> 'a exc_scheme \<Rightarrow> 'a exc_scheme \<Rightarrow> bool" where
  "reported e w u = (pending_exception_obj u = 0 \<and> scheduled_exception u = scheduled_exception w \<and>
     (receives w \<longrightarrow> tc_exception (the (tryCatches u (try_catch_handler w))) = e) \<and>
     length (reports u) = length (reports w) + (if tells w \<and> message_callback w \<noteq> None then 1 else 0))"

lemma ReportPendingMessages_eq:
  assumes "exc_inv w" "pending_exception_obj w \<noteq> 0"
  shows "\<exists>r. keeps K w r \<and> scheduled_exception r = scheduled_exception w \<and> pending_exception_obj r = 0 \<and>
    extraData r = extraData w \<and> (reports r = reports w \<and> message_callback r = message_callback w \<and>
      (receives w \<longrightarrow> tc_exception (the (tryCatches r (try_catch_handler w))) = pending_exception_obj w)) \<and>
    ReportPendingMessages obj False w = (if tells w then reportMessage obj (pending_exception_obj w) r else Inr r)"
proof -
  obtain p r where r: "PropagatePendingExceptionToExternalTryCatch w = Inr (p, r)" "keeps K w r"
    "scheduled_exception r = scheduled_exception w" "extraData r = extraData w" "reports r = reports w"
    "message_callback r = message_callback w"
    using propagate_runs[OF assms(1), of K] by (auto simp: runs_def)
  let ?u = "clear_pending_exception r"
  have inv: "exc_inv r" using keeps_inv[OF r(2)] .
  have u: "keeps K w ?u" using keeps_trans[OF r(2) keeps_fields(2)[OF inv]]
    by (simp add: clear_pending_exception_def)
  have c: "clear_scheduled_exception ?u = ?u" if "pending_exception_obj ?u = scheduled_exception ?u"
    using that by (simp add: clear_pending_exception_def clear_scheduled_exception_def)
  have b: "(if try_catch_handler r \<noteq> 0 then rbind (load_tc (try_catch_handler r) r)
      (\<lambda>t. Inr (is_verbose t)) else Inr True) = Inr (tells w)"
    using inv propagate_tells[OF assms(1) r(1)] by (auto simp: tells_def load_tc_def exc_inv_def)
  have e: "ReportPendingMessages obj False w = (if tells w then reportMessage obj (pending_exception_obj w) ?u else Inr ?u)"
    using assms(2) r(1) b c
    by (simp add: ReportPendingMessages_def pending_exception_def has_pending_exception_def Let_def)
  have "scheduled_exception ?u = scheduled_exception w" "pending_exception_obj ?u = 0" "extraData ?u = extraData w"
    "reports ?u = reports w \<and> message_callback ?u = message_callback w \<and>
      (receives w \<longrightarrow> tc_exception (the (tryCatches ?u (try_catch_handler w))) = pending_exception_obj w)"
    using r(3-6) propagate_tells(3)[OF assms(1) r(1)] by (simp_all add: clear_pending_exception_def)
  then show ?thesis using u e by blast
qed

lemma ReportPendingMessages_aborts:
  assumes "exc_inv w" "pending_exception_obj w \<noteq> 0" "api_object obj w (pending_exception_obj w)" "verbose \<or> tells w"
  shows "ReportPendingMessages obj verbose w = Inl CheckFailed"
proof (cases verbose)
  case True
  then show ?thesis using reportMessage_aborts[OF assms(1-3)] assms(2)
    by (simp add: ReportPendingMessages_def pending_exception_def has_pending_exception_def)
next
  case False
  obtain r where e: "keeps {} w r \<and> scheduled_exception r = scheduled_exception w \<and> pending_exception_obj r = 0 \<and>
    extraData r = extraData w \<and> (reports r = reports w \<and> message_callback r = message_callback w \<and>
      (receives w \<longrightarrow> tc_exception (the (tryCatches r (try_catch_handler w))) = pending_exception_obj w)) \<and>
    ReportPendingMessages obj False w = (if tells w then reportMessage obj (pending_exception_obj w) r else Inr r)"
    using ReportPendingMessages_eq[OF assms(1,2), where K = "{}" and obj = obj] by (rule exE)
  note r = e[THEN conjunct1] e[THEN conjunct2, THEN conjunct1] e[THEN conjunct2, THEN conjunct2, THEN conjunct1]
    e[THEN conjunct2, THEN conjunct2, THEN conjunct2, THEN conjunct1]
    e[THEN conjunct2, THEN conjunct2, THEN conjunct2, THEN conjunct2, THEN conjunct2]
    e[THEN conjunct2, THEN conjunct2, THEN conjunct2, THEN conjunct2, THEN conjunct1]
  have "api_object obj r (pending_exception_obj w)" using assms(3) api_object_cong[OF r(4)] by simp
  from reportMessage_aborts[OF keeps_inv[OF r(1)] assms(2) this] show ?thesis using r(5) False assms(4) by simp
qed

lemma ReportPendingMessages_runs:
  assumes "exc_inv w" "pending_exception_obj w \<noteq> 0" "\<not> (api_object obj w (pending_exception_obj w) \<and> (verbose \<or> tells w))"
  shows "runs K w (\<lambda>w. w) (\<lambda>w'. scheduled_exception w' = scheduled_exception w \<and>
      pending_exception_obj w' = (if verbose then pending_exception_obj w else 0) \<and>
      (\<forall>x. api_object obj w' x \<longrightarrow> api_object obj w x) \<and>
      (\<not> verbose \<longrightarrow> reported (pending_exception_obj w) w w') \<and>
      (verbose \<longrightarrow> tryCatches w' = tryCatches w \<and>
        length (reports w') = length (reports w) + (if message_callback w = None then 0 else 1)))
    (ReportPendingMessages obj verbose w)"
proof (cases verbose)
  case True
  then have "\<not> api_object obj w (pending_exception_obj w)" using assms(3) by simp
  from reportMessage_runs[OF assms(1,2) this, of K] show ?thesis using True assms(2)
    by (auto simp: ReportPendingMessages_def pending_exception_def has_pending_exception_def runs_def)
next
  case False
  obtain r where e: "keeps K w r \<and> scheduled_exception r = scheduled_exception w \<and> pending_exception_obj r = 0 \<and>
    extraData r = extraData w \<and> (reports r = reports w \<and> message_callback r = message_callback w \<and>
      (receives w \<longrightarrow> tc_exception (the (tryCatches r (try_catch_handler w))) = pending_exception_obj w)) \<and>
    ReportPendingMessages obj False w = (if tells w then reportMessage obj (pending_exception_obj w) r else Inr r)"
    using ReportPendingMessages_eq[OF assms(1,2), where K = "K" and obj = obj] by (rule exE)
  note r = e[THEN conjunct1] e[THEN conjunct2, THEN conjunct1] e[THEN conjunct2, THEN conjunct2, THEN conjunct1]
    e[THEN conjunct2, THEN conjunct2, THEN conjunct2, THEN conjunct1]
    e[THEN conjunct2, THEN conjunct2, THEN conjunct2, THEN conjunct2, THEN conjunct2]
    e[THEN conjunct2, THEN conjunct2, THEN conjunct2, THEN conjunct2, THEN conjunct1]
  show ?thesis
  proof (cases "tells w")
    case True
    then have "\<not> api_object obj r (pending_exception_obj w)" using assms(3) api_object_cong[OF r(4)] by simp
    from reportMessage_runs[OF keeps_inv[OF r(1)] assms(2) this, of K] show ?thesis
      using r True False keeps_trans[OF r(1)] by (auto simp: runs_def reported_def api_object_cong[OF r(4)])
  qed (use r False in \<open>auto simp: runs_def reported_def api_object_cong[OF r(4)]\<close>)
qed

lemma ThrowException_runs:
  assumes "exc_inv w" "handleMem w h = Some (js_handle v)" "v \<noteq> 0"
  shows "runs K w snd (\<lambda>_. True) (ThrowException (Some h) w)"
proof -
  obtain u where u: "ScheduleThrow v w = Inr u" "keeps K w u"
    using ScheduleThrow_runs[OF assms(1,3), of K] by (auto simp: runs_def)
  obtain p w' where w': "NewLocal v u = Inr (p, w')" "memory_grows u w'" using NewLocal_exc[OF keeps_inv[OF u(2)] assms(3)] by blast
  show ?thesis using assms u w' keeps_trans[OF u(2) memory_grows_keeps[OF keeps_inv[OF u(2)] w'(2)]]
    by (simp add: ThrowException_def exc_inv_def runs_def)
qed

section \<open>Where an exception goes\<close>

text \<open>A thrown exception that no handler takes stays pending and scheduled.\<close>

definition thrown :: "ptr \<Rightarrow> 'a exc_scheme \<Rightarrow> 'a exc_scheme \<Rightarrow> bool" where
  "thrown v w u = (exc_inv u \<and> reports u = reports w \<and> callDepth u = callDepth w \<and> message_callback u = message_callback w \<and>
     try_catch_handler u = try_catch_handler w \<and> contextScopes u = contextScopes w \<and> extraData u = extraData w \<and>
     (if receives w
      then pending_exception_obj u = 0 \<and> scheduled_exception u = (if pending_exception_obj w = 0 then 0 else v) \<and>
        tryCatches u = (tryCatches w)(try_catch_handler w \<mapsto> (the (tryCatches w (try_catch_handler w)))
          \<lparr>can_continue := True, has_terminated := False, tc_exception := v, tc_message_obj := pending_message_obj w\<rparr>)
      else pending_exception_obj u = v \<and> scheduled_exception u = v \<and> tryCatches u = tryCatches w))"

lemma ScheduleThrow_thrown:
  assumes "exc_inv w" "v \<noteq> 0"
  shows "\<exists>s. ScheduleThrow v w = Inr s \<and> thrown v w s \<and> keeps {} w s"
proof -
  let ?u = "w\<lparr>scheduled_exception := v, pending_exception_obj := v\<rparr>"
  have iu: "exc_inv ?u" using assms(1) by (auto simp: exc_inv_def fresh_mem_def)
  have e: "ScheduleThrow v w = rbind (PropagatePendingExceptionToExternalTryCatch ?u) (\<lambda>(propagated, u).
      if propagated then Inr (if pending_exception_obj w = 0 then clear_scheduled_exception (clear_pending_exception u)
        else clear_pending_exception u) else Inr u)"
    using assms(2) by (simp add: ScheduleThrow_def set_scheduled_exception_def set_pending_exception_def
        has_pending_exception_def Let_def cong: if_cong)
  obtain s where s: "ScheduleThrow v w = Inr s" "keeps {} w s" using ScheduleThrow_runs[OF assms] by (auto simp: runs_def)
  have "thrown v w s"
    using s e keeps_inv[OF s(2)] unfolding thrown_def receives_def propagate_cases[OF iu]
    by (auto simp: clear_scheduled_exception_def clear_pending_exception_def split: if_splits)
  then show ?thesis using s by blast
qed

lemma ThrowException_thrown:
  assumes "exc_inv w" "handleMem w h = Some (js_handle v)" "v \<noteq> 0"
  shows "\<exists>r. ThrowException (Some h) w = Inr r \<and> thrown v w (snd r)"
proof -
  obtain s where s: "ScheduleThrow v w = Inr s" "thrown v w s" "keeps {} w s" using ScheduleThrow_thrown[OF assms(1,3)] by blast
  obtain p u where u: "NewLocal v s = Inr (p, u)" "memory_grows s u" using NewLocal_exc[OF keeps_inv[OF s(3)] assms(3)] by blast
  have "thrown v w u" using s(2) memory_grows_fields[OF u(2)] keeps_inv[OF memory_grows_keeps[OF keeps_inv[OF s(3)] u(2)]]
    by (simp add: thrown_def)
  then show ?thesis using assms s(1) u(1) by (simp add: ThrowException_def exc_inv_def)
qed

text \<open>No exception that is on its way is an object of the interface.\<close>

definition calm :: "(ptr \<Rightarrow> bool) \<Rightarrow> 'a exc_scheme \<Rightarrow> bool" where
  "calm obj w = (\<not> api_object obj w (pending_exception_obj w) \<and>
     (\<forall>p t. tryCatches w p = Some t \<longrightarrow> \<not> api_object obj w (tc_exception t)))"

lemma calm_mono:
  assumes "calm obj w" "\<And>x. api_object obj u x \<Longrightarrow> api_object obj w x"
    and "pending_exception_obj u = pending_exception_obj w" "tryCatches u = tryCatches w"
  shows "calm obj u"
  using assms by (auto simp: calm_def)

lemma thrown_calm: "calm obj w \<Longrightarrow> thrown v w u \<Longrightarrow> \<not> api_object obj w v \<Longrightarrow> calm obj u"
  by (auto simp: calm_def thrown_def api_object_def split: if_splits)

text \<open>The outcome of a step that keeps the sound states: it aborts only where an object of the interface was on its way
  (\<open>Q\<close> says that none was), and otherwise none is afterwards.\<close>

definition settles :: "ptr set \<Rightarrow> (ptr \<Rightarrow> bool) \<Rightarrow> bool \<Rightarrow> 'a exc_scheme \<Rightarrow> 'a exc_scheme res \<Rightarrow> bool" where
  "settles K obj Q w r = (r = Inl CheckFailed \<and> \<not> Q \<or> (\<exists>u. r = Inr u \<and> keeps K w u \<and>
     (Q \<longrightarrow> calm obj u \<and> (\<forall>x. api_object obj u x \<longrightarrow> api_object obj w x))))"

lemma settles_Inr:
  "keeps K w u \<Longrightarrow> (Q \<Longrightarrow> calm obj u) \<Longrightarrow> (\<And>x. Q \<Longrightarrow> api_object obj u x \<Longrightarrow> api_object obj w x) \<Longrightarrow> settles K obj Q w (Inr u)"
  by (simp add: settles_def)

lemma settles_rbind:
  assumes "settles K obj Q w m"
    and "\<And>u. m = Inr u \<Longrightarrow> keeps K w u \<Longrightarrow> (Q \<Longrightarrow> calm obj u) \<Longrightarrow> (\<And>x. Q \<Longrightarrow> api_object obj u x \<Longrightarrow> api_object obj w x) \<Longrightarrow>
      settles K obj Q u (f u)"
  shows "settles K obj Q w (rbind m f)"
proof -
  consider "m = Inl CheckFailed" "\<not> Q" | u where "m = Inr u" "keeps K w u" "Q \<Longrightarrow> calm obj u"
    "\<And>x. Q \<Longrightarrow> api_object obj u x \<Longrightarrow> api_object obj w x" using assms(1) by (auto simp: settles_def)
  then show ?thesis
  proof cases
    case (2 u)
    note f = assms(2)[OF 2]
    show ?thesis using f 2(1,4) keeps_trans[OF 2(2)] by (auto simp: settles_def)
  qed (simp add: settles_def)
qed

section \<open>Try blocks\<close>

datatype tc_action = AReThrow | AReset | AVerbose bool | ACapture bool

datatype tprog =
    TSkip
  | TThrow ptr
  | TSeq tprog tprog
  | TTry ptr "tc_action list" tprog

fun tc_act :: "ptr \<Rightarrow> tc_action \<Rightarrow> 'a exc_scheme \<Rightarrow> 'a exc_scheme res" where
  "tc_act k AReThrow w = rbind (TryCatch_ReThrow k w) (\<lambda>r. Inr (snd r))"
| "tc_act k AReset w = TryCatch_Reset k w"
| "tc_act k (AVerbose b) w = TryCatch_SetVerbose b k w"
| "tc_act k (ACapture b) w = TryCatch_SetCaptureMessage b k w"

text \<open>A try block constructs its handler, runs its body, uses the handler, and destroys it.\<close>

fun texec :: "(ptr \<Rightarrow> bool) \<Rightarrow> tprog \<Rightarrow> 'a exc_scheme \<Rightarrow> 'a exc_scheme res" where
  "texec obj TSkip w = Inr w"
| "texec obj (TThrow h) w = rbind (ThrowException (Some h) w) (\<lambda>r. Inr (snd r))"
| "texec obj (TSeq p q) w = rbind (texec obj p w) (texec obj q)"
| "texec obj (TTry k as p) w = rbind (texec obj p (TryCatch_ctor k w)) (\<lambda>w.
     rbind (foldM (tc_act k) as w) (TryCatch_dtor obj k))"

fun try_keys :: "tprog \<Rightarrow> ptr set" where
  "try_keys (TSeq p q) = try_keys p \<union> try_keys q"
| "try_keys (TTry k as p) = insert k (try_keys p)"
| "try_keys _ = {}"

text \<open>Handlers that are alive at the same time have different addresses, and what is thrown is a handle of a
  value.\<close>

fun try_ok :: "(ptr \<Rightarrow> HandleWrap option) \<Rightarrow> tprog \<Rightarrow> bool" where
  "try_ok m TSkip = True"
| "try_ok m (TThrow h) = (\<exists>v. v \<noteq> 0 \<and> m h = Some (js_handle v))"
| "try_ok m (TSeq p q) = (try_ok m p \<and> try_ok m q)"
| "try_ok m (TTry k as p) = (k \<noteq> 0 \<and> k \<notin> try_keys p \<and> try_ok m p)"

lemma try_ok_mono: "try_ok m p \<Longrightarrow> m \<subseteq>\<^sub>m m' \<Longrightarrow> try_ok m' p"
proof (induction p)
  case (TThrow h)
  then show ?case by (auto simp: map_le_def dom_def)
qed auto

text \<open>The state inside a try block whose handler is \<open>k\<close>, with the enclosing handler \<open>h\<close>.\<close>

definition in_try :: "ptr \<Rightarrow> ptr \<Rightarrow> 'a exc_scheme \<Rightarrow> bool" where
  "in_try k h w = (exc_inv w \<and> try_catch_handler w = k \<and> k \<noteq> 0 \<and> h \<noteq> k \<and> (h \<noteq> 0 \<longrightarrow> tryCatches w h \<noteq> None) \<and>
     (\<exists>t. tryCatches w k = Some t \<and> tc_next t = h \<and> (tc_rethrow t \<longrightarrow> tc_exception t \<noteq> 0)))"

lemma exc_inv_handlers:
  "exc_inv w \<Longrightarrow> (h \<noteq> 0 \<Longrightarrow> ts h \<noteq> None) \<Longrightarrow> exc_inv (w\<lparr>tryCatches := ts, try_catch_handler := h\<rparr>)"
  by (simp add: exc_inv_def fresh_mem_def)

lemma modify_here:
  assumes "in_try k h w" "\<And>t. tc_next (f t) = tc_next t"
    and "\<And>t. tc_next t = h \<Longrightarrow> (tc_rethrow t \<longrightarrow> tc_exception t \<noteq> 0) \<Longrightarrow> tc_rethrow (f t) \<longrightarrow> tc_exception (f t) \<noteq> 0"
  shows "\<exists>u. modify_tc k f w = Inr u \<and> keeps {k} w u \<and> in_try k h u"
  using assms by (auto simp: modify_tc_def load_tc_def in_try_def keeps_def exc_inv_def fresh_mem_def intro!: exI[of _ "[]"])

lemma tc_act_keeps:
  assumes "in_try k h w"
  shows "\<exists>u. tc_act k a w = Inr u \<and> keeps {k} w u \<and> in_try k h u"
proof (cases a)
  case AReset
  obtain u where u: "modify_tc k (\<lambda>t. t\<lparr>tc_rethrow := False\<rparr>) w = Inr u" "keeps {k} w u" "in_try k h u"
    "tc_rethrow (the (tryCatches u k)) = False"
    using modify_here[OF assms, of "\<lambda>t. t\<lparr>tc_rethrow := False\<rparr>"]
    by (auto simp: modify_tc_def rbind_eq_Inr)
  have t: "\<exists>t. tryCatches u k = Some t \<and> \<not> tc_rethrow t" using u(3,4) by (auto simp: in_try_def)
  have "\<exists>v. modify_tc k ResetInternal u = Inr v \<and> keeps {k} u v \<and> in_try k h v"
    using u(3) t by (auto simp: modify_tc_def load_tc_def in_try_def keeps_def exc_inv_def fresh_mem_def ResetInternal_def
        intro!: exI[of _ "[]"])
  then show ?thesis using u AReset keeps_trans[OF u(2)]
    by (auto simp: TryCatch_Reset_def CancelScheduledExceptionFromTryCatch_def)
next
  case AReThrow
  obtain t where t: "tryCatches w k = Some t" using assms by (auto simp: in_try_def)
  show ?thesis
  proof (cases "tc_exception t = 0")
    case True
    then show ?thesis using AReThrow t assms
      by (auto simp: TryCatch_ReThrow_def load_tc_def HasCaught_def keeps_refl in_try_def)
  next
    case False
    have "\<exists>u. modify_tc k (\<lambda>t. t\<lparr>tc_rethrow := True\<rparr>) w = Inr u \<and> keeps {k} w u \<and> in_try k h u"
      using assms t False by (auto simp: modify_tc_def load_tc_def in_try_def keeps_def exc_inv_def fresh_mem_def
          intro!: exI[of _ "[]"])
    then show ?thesis using AReThrow t False by (auto simp: TryCatch_ReThrow_def load_tc_def HasCaught_def)
  qed
qed (use modify_here[OF assms] in \<open>auto simp: TryCatch_SetVerbose_def TryCatch_SetCaptureMessage_def\<close>)

lemma tc_acts_keep:
  "in_try k h w \<Longrightarrow> \<exists>u. foldM (tc_act k) as w = Inr u \<and> keeps {k} w u \<and> in_try k h u"
proof (induction as arbitrary: w)
  case Nil
  then show ?case by (auto simp: in_try_def keeps_refl)
next
  case (Cons a as)
  obtain u where u: "tc_act k a w = Inr u" "keeps {k} w u" "in_try k h u" using tc_act_keeps[OF Cons.prems] by blast
  then show ?case using Cons.IH[OF u(3)] keeps_trans[OF u(2)] by auto
qed

lemma keeps_handler:
  assumes "keeps K w u" "h \<noteq> 0 \<Longrightarrow> tryCatches u h \<noteq> None"
  shows "keeps K (w\<lparr>try_catch_handler := h\<rparr>) (u\<lparr>try_catch_handler := h\<rparr>)"
  using assms by (auto simp: keeps_def exc_inv_def fresh_mem_def)

lemma scope_handler: "HandleScope_ctor s (w\<lparr>try_catch_handler := h\<rparr>) = (HandleScope_ctor s w)\<lparr>try_catch_handler := h\<rparr>"
  by (simp add: HandleScope_ctor_def pushHandleScope_def)

lemma Exception_caught:
  assumes "exc_inv w" "tryCatches w k = Some t" "tc_exception t \<noteq> 0"
  shows "\<exists>p u. TryCatch_Exception k w = Inr (Some p, u) \<and> memory_grows w u \<and> p \<noteq> 0 \<and>
    handleMem u p = Some (js_handle (tc_exception t))"
  using NewLocal_exc[OF assms(1,3)] assms by (auto simp: TryCatch_Exception_def load_tc_def HasCaught_def)

text \<open>What a destroyed handler that rethrows does before it leaves its scope.\<close>

lemma dtor_rethrow:
  assumes "in_try k h w" "tryCatches w k = Some t" "tc_rethrow t"
  shows "\<exists>u. rbind (TryCatch_Exception k (HandleScope_ctor stack_scope w)) (\<lambda>(e, w).
         rbind (Local_New e w) (\<lambda>(v8Exception, w).
         rbind (if HasCaught t \<and> capture_message t then RestorePendingMessageFromTryCatch k w else Inr w) (\<lambda>w.
         rbind (UnregisterTryCatchHandler k w) (\<lambda>w.
         rbind (ThrowException v8Exception w) (\<lambda>(_, w).
         HandleScope_dtor stack_scope w))))) = Inr u \<and> keeps {k} (w\<lparr>try_catch_handler := h\<rparr>) u \<and>
    (\<exists>x p y. exc_inv x \<and> tryCatches x = tryCatches w \<and> try_catch_handler x = h \<and>
       pending_exception_obj x = (if capture_message t then tc_exception t else pending_exception_obj w) \<and>
       scheduled_exception x = scheduled_exception w \<and> reports x = reports w \<and> callDepth x = callDepth w \<and>
       message_callback x = message_callback w \<and> extraData x = extraData w \<and>
       handleMem x p = Some (js_handle (tc_exception t)) \<and> ThrowException (Some p) x = Inr y \<and>
       u = (snd y)\<lparr>handleScopes := handleScopes w\<rparr>)"
proof -
  let ?s = "HandleScope_ctor stack_scope w"
  have inv: "exc_inv w" "try_catch_handler w = k" "tc_next t = h" "tc_exception t \<noteq> 0" "h \<noteq> k"
    "h \<noteq> 0 \<Longrightarrow> tryCatches w h \<noteq> None"
    using assms by (auto simp: in_try_def)
  have s: "exc_inv ?s" "tryCatches ?s = tryCatches w" "try_catch_handler ?s = k"
    using scope_open[OF inv(1)] inv(2) by (simp_all add: HandleScope_ctor_def pushHandleScope_def)
  obtain p u where u: "TryCatch_Exception k ?s = Inr (Some p, u)" "memory_grows ?s u" "p \<noteq> 0"
    "handleMem u p = Some (js_handle (tc_exception t))"
    using Exception_caught[OF s(1), of k t] assms(2) s(2) inv(4) by auto
  note ku = memory_grows_keeps[OF s(1) u(2), of "{k}"]
  obtain v where v: "CreateHandle p u = Inr (p, v)" "memory_grows u v"
    using CreateHandle_local[OF keeps_inv[OF ku] u(4,3)] by blast
  note kv = keeps_trans[OF ku memory_grows_keeps[OF keeps_inv[OF ku] v(2)]]
  have tv: "tryCatches v = tryCatches w" "try_catch_handler v = k"
    using memory_grows_fields[OF u(2)] memory_grows_fields[OF v(2)] s by auto
  note fu = memory_grows_fields[OF u(2)] and fv = memory_grows_fields[OF v(2)]
  have fs: "pending_exception_obj ?s = pending_exception_obj w" "scheduled_exception ?s = scheduled_exception w"
    "reports ?s = reports w" "callDepth ?s = callDepth w" "message_callback ?s = message_callback w" "extraData ?s = extraData w"
    by (simp_all add: HandleScope_ctor_def pushHandleScope_def)
  have pv: "handleMem v p = Some (js_handle (tc_exception t))" using memory_grows_mem[OF v(2) u(4)] .
  obtain x where x: "(if HasCaught t \<and> capture_message t then RestorePendingMessageFromTryCatch k v else Inr v) = Inr x"
    "keeps {k} v x" "tryCatches x = tryCatches w" "try_catch_handler x = k"
    "pending_exception_obj x = (if capture_message t then tc_exception t else pending_exception_obj w)"
    "scheduled_exception x = scheduled_exception w" "reports x = reports w" "callDepth x = callDepth w"
    "message_callback x = message_callback w" "extraData x = extraData w"
  proof (cases "HasCaught t \<and> capture_message t")
    case True
    obtain q y where y: "TryCatch_Exception k v = Inr (Some q, y)" "memory_grows v y" "q \<noteq> 0"
      "handleMem y q = Some (js_handle (tc_exception t))"
      using Exception_caught[OF keeps_inv[OF kv], of k t] assms(2) tv(1) inv(4) by auto
    note ky = memory_grows_keeps[OF keeps_inv[OF kv] y(2), of "{k}"]
    have "RestorePendingMessageFromTryCatch k v = Inr (y\<lparr>pending_exception_obj := tc_exception t\<rparr>)"
      using y inv(4) by (simp add: RestorePendingMessageFromTryCatch_def handle_value_def set_pending_exception_def)
    then show ?thesis using that[of "y\<lparr>pending_exception_obj := tc_exception t\<rparr>"] True
        keeps_trans[OF ky keeps_fields(2)[OF keeps_inv[OF ky]]] memory_grows_fields[OF y(2)] tv fs fu fv by simp
  next
    case False
    have "(if HasCaught t \<and> capture_message t then RestorePendingMessageFromTryCatch k v else Inr v) = Inr v"
      using False by (rule if_not_P)
    moreover have "\<not> capture_message t" using False inv(4) by (simp add: HasCaught_def)
    ultimately show ?thesis using that[of v] tv keeps_refl[OF keeps_inv[OF kv]] fs fu fv by simp
  qed
  let ?x = "x\<lparr>try_catch_handler := h\<rparr>"
  have ux: "UnregisterTryCatchHandler k x = Inr ?x"
    using x(3,4) assms(2) inv(3) by (simp add: UnregisterTryCatchHandler_def load_tc_def)
  have kx: "keeps {k} (?s\<lparr>try_catch_handler := h\<rparr>) ?x"
    using keeps_handler[OF keeps_trans[OF kv x(2)]] x(3) inv(6) by simp
  have "handleMem ?x p = Some (js_handle (tc_exception t))"
    using keeps_mem[OF x(2) pv] by simp
  from ThrowException_runs[OF keeps_inv[OF kx] this inv(4), of "{k}"]
  obtain y where y: "ThrowException (Some p) ?x = Inr y" "keeps {k} ?x (snd y)" by (auto simp: runs_def)
  have iw: "exc_inv (w\<lparr>try_catch_handler := h\<rparr>)"
    using inv(1,6) by (auto simp: exc_inv_def fresh_mem_def)
  have "keeps {k} (HandleScope_ctor stack_scope (w\<lparr>try_catch_handler := h\<rparr>)) (snd y)"
    using keeps_trans[OF kx y(2)] by (simp add: scope_handler)
  from scoped_keeps[OF iw this] obtain z where "HandleScope_dtor stack_scope (snd y) = Inr z"
    "keeps {k} (w\<lparr>try_catch_handler := h\<rparr>) z" "z = (snd y)\<lparr>handleScopes := handleScopes w\<rparr>" by auto
  note z = this
  have r: "exc_inv ?x" "tryCatches ?x = tryCatches w" "try_catch_handler ?x = h"
    "pending_exception_obj ?x = (if capture_message t then tc_exception t else pending_exception_obj w)"
    "scheduled_exception ?x = scheduled_exception w" "reports ?x = reports w" "callDepth ?x = callDepth w"
    "message_callback ?x = message_callback w" "extraData ?x = extraData w"
    using x keeps_inv[OF kx] by simp_all
  have "handleMem ?x p = Some (js_handle (tc_exception t))" using keeps_mem[OF x(2) pv] by simp
  then have w: "\<exists>x p y. exc_inv x \<and> tryCatches x = tryCatches w \<and> try_catch_handler x = h \<and>
       pending_exception_obj x = (if capture_message t then tc_exception t else pending_exception_obj w) \<and>
       scheduled_exception x = scheduled_exception w \<and> reports x = reports w \<and> callDepth x = callDepth w \<and>
       message_callback x = message_callback w \<and> extraData x = extraData w \<and>
       handleMem x p = Some (js_handle (tc_exception t)) \<and> ThrowException (Some p) x = Inr y \<and>
       z = (snd y)\<lparr>handleScopes := handleScopes w\<rparr>"
    using r y(1) z(3) by blast
  show ?thesis using u(1) v(1) x(1) ux y(1) z(1,2) w by (cases y) (simp add: Local_New_def)
qed


lemma TryCatch_dtor_settles:
  assumes "in_try k h w" "calm obj w \<or> \<not> Q"
  shows "settles {k} obj Q (w\<lparr>try_catch_handler := h\<rparr>) (TryCatch_dtor obj k w)"
proof -
  obtain t where t: "tryCatches w k = Some t" "tc_next t = h" "try_catch_handler w = k" "exc_inv w"
    "h \<noteq> 0 \<Longrightarrow> tryCatches w h \<noteq> None" using assms by (auto simp: in_try_def)
  have iw: "exc_inv (w\<lparr>try_catch_handler := h\<rparr>)" using t by (auto simp: exc_inv_def fresh_mem_def)
  obtain u where u: "TryCatch_dtor obj k w = (if sholdReportPendingMessage (is_verbose t) u then ReportPendingMessages obj True u else Inr u)"
    "keeps {k} (w\<lparr>try_catch_handler := h\<rparr>) u" "extraData u = extraData w" "calm obj w \<Longrightarrow> calm obj u"
  proof (cases "tc_rethrow t")
    case True
    let ?r = "rbind (TryCatch_Exception k (HandleScope_ctor stack_scope w)) (\<lambda>(e, w).
         rbind (Local_New e w) (\<lambda>(v8Exception, w).
         rbind (if HasCaught t \<and> capture_message t then RestorePendingMessageFromTryCatch k w else Inr w) (\<lambda>w.
         rbind (UnregisterTryCatchHandler k w) (\<lambda>w.
         rbind (ThrowException v8Exception w) (\<lambda>(_, w).
         HandleScope_dtor stack_scope w)))))"
    obtain u x p y where u: "?r = Inr u" "keeps {k} (w\<lparr>try_catch_handler := h\<rparr>) u" "exc_inv x" "tryCatches x = tryCatches w"
      "pending_exception_obj x = (if capture_message t then tc_exception t else pending_exception_obj w)"
      "extraData x = extraData w" "handleMem x p = Some (js_handle (tc_exception t))" "ThrowException (Some p) x = Inr y"
      "u = (snd y)\<lparr>handleScopes := handleScopes w\<rparr>"
      using dtor_rethrow[OF assms(1) t(1) True] by blast
    have "tc_exception t \<noteq> 0" using assms(1) t(1) True by (simp add: in_try_def)
    then have th: "thrown (tc_exception t) x (snd y)" using ThrowException_thrown[OF u(3,7)] u(8) by auto
    have e: "extraData u = extraData w" using th u(6,9) by (simp add: thrown_def)
    have c: "calm obj u" if c: "calm obj w"
    proof -
      have a: "\<not> api_object obj x (tc_exception t)" "calm obj x"
        using c t(1) u(4,5) api_object_cong[OF u(6)] by (auto simp: calm_def)
      have "calm obj (snd y)" by (rule thrown_calm[OF a(2) th a(1)])
      then show ?thesis using u(9) by (simp add: calm_def api_object_def)
    qed
    show ?thesis by (rule that[OF _ u(2) e c]) (use u(1) t(1) True in \<open>simp_all add: TryCatch_dtor_def load_tc_def\<close>)
  next
    case False
    have e: "TryCatch_dtor obj k w = (if sholdReportPendingMessage (is_verbose t) (w\<lparr>try_catch_handler := h\<rparr>)
        then ReportPendingMessages obj True (w\<lparr>try_catch_handler := h\<rparr>) else Inr (w\<lparr>try_catch_handler := h\<rparr>))"
      using t False by (simp add: TryCatch_dtor_def load_tc_def UnregisterTryCatchHandler_def CancelScheduledExceptionFromTryCatch_def)
    show ?thesis by (rule that[OF e keeps_refl[OF iw]]) (simp_all add: calm_def api_object_def)
  qed
  have au: "api_object obj u x = api_object obj (w\<lparr>try_catch_handler := h\<rparr>) x" for x using u(3) by (simp add: api_object_def)
  show ?thesis
  proof (cases "sholdReportPendingMessage (is_verbose t) u")
    case True
    then have n: "pending_exception_obj u \<noteq> 0" by (simp add: sholdReportPendingMessage_def has_pending_exception_def)
    show ?thesis
    proof (cases "api_object obj u (pending_exception_obj u)")
      case api: True
      then have "\<not> Q" using assms(2) u(4) by (auto simp: calm_def)
      then show ?thesis using ReportPendingMessages_aborts[OF keeps_inv[OF u(2)] n api] u(1) True by (simp add: settles_def)
    next
      case False
      obtain v where v: "ReportPendingMessages obj True u = Inr v" "keeps {k} u v" "pending_exception_obj v = pending_exception_obj u"
        "\<And>x. api_object obj v x \<Longrightarrow> api_object obj u x" "tryCatches v = tryCatches u"
        using ReportPendingMessages_runs[OF keeps_inv[OF u(2)] n, where verbose = True and obj = obj and K = "{k}"] False
        by (auto simp: runs_def)
      have e: "TryCatch_dtor obj k w = Inr v" using u(1) True v(1) by simp
      show ?thesis unfolding e by (rule settles_Inr[OF keeps_trans[OF u(2) v(2)]])
        (use assms(2) u(4) calm_mono[of obj u v] v(3-5) au in auto)
    qed
  next
    case False
    then have e: "TryCatch_dtor obj k w = Inr u" using u(1) by simp
    show ?thesis unfolding e by (rule settles_Inr[OF u(2)]) (use assms(2) u(4) au in auto)
  qed
qed

lemma TryCatch_ctor_in_try:
  assumes "exc_inv w" "k \<noteq> 0" "k \<noteq> try_catch_handler w"
  shows "in_try k (try_catch_handler w) (TryCatch_ctor k w)"
  using assms by (auto simp: in_try_def TryCatch_ctor_def RegisterTryCatchHandler_def exc_inv_def fresh_mem_def
      newTryCatch_def ResetInternal_def)

lemma in_try_body:
  assumes "in_try k h w" "keeps K w u" "k \<notin> K" "h \<notin> K"
    and "\<And>t. tryCatches w k = Some t \<Longrightarrow> \<not> tc_rethrow t"
  shows "in_try k h u"
proof -
  obtain t where t: "tryCatches w k = Some t" "tc_next t = h" using assms(1) by (auto simp: in_try_def)
  then obtain t' where t': "tryCatches u k = Some t'" "tc_settings t' = tc_settings t"
    using assms(2,3) unfolding keeps_def by blast
  have "h \<noteq> 0 \<longrightarrow> tryCatches u h \<noteq> None" using assms(1,2,4) unfolding keeps_def in_try_def by blast
  then show ?thesis using assms(1,2) t t' assms(5)[OF t(1)]
    by (auto simp: in_try_def keeps_def tc_settings_def)
qed


lemma tc_act_shape:
  assumes "tc_act k a w = Inr u"
  shows "u = w \<or> (\<exists>t t'. tryCatches w k = Some t \<and> u = w\<lparr>tryCatches := (tryCatches w)(k \<mapsto> t')\<rparr> \<and>
    (tc_exception t' = tc_exception t \<or> tc_exception t' = 0))"
proof (cases "tryCatches w k")
  case None
  then show ?thesis using assms by (cases a) (simp_all add: TryCatch_ReThrow_def TryCatch_Reset_def
      TryCatch_SetVerbose_def TryCatch_SetCaptureMessage_def modify_tc_def load_tc_def)
next
  case (Some t)
  note d = TryCatch_ReThrow_def TryCatch_Reset_def TryCatch_SetVerbose_def TryCatch_SetCaptureMessage_def modify_tc_def
    load_tc_def CancelScheduledExceptionFromTryCatch_def
  obtain t' where "u = w \<or> u = w\<lparr>tryCatches := (tryCatches w)(k \<mapsto> t')\<rparr>" "tc_exception t' = tc_exception t \<or> tc_exception t' = 0"
  proof (cases a)
    case AReThrow
    then show ?thesis using that[of "t\<lparr>tc_rethrow := True\<rparr>"] assms Some by (simp add: d split: if_splits)
  next
    case AReset
    then show ?thesis using that[of "ResetInternal (t\<lparr>tc_rethrow := False\<rparr>)"] assms Some by (simp add: d ResetInternal_def)
  next
    case (AVerbose b)
    then show ?thesis using that[of "t\<lparr>is_verbose := b\<rparr>"] assms Some by (simp add: d)
  next
    case (ACapture b)
    then show ?thesis using that[of "t\<lparr>capture_message := b\<rparr>"] assms Some by (simp add: d)
  qed
  then show ?thesis using Some by blast
qed

lemma tc_act_calm:
  assumes "tc_act k a w = Inr u"
  shows "extraData u = extraData w \<and> (calm obj w \<longrightarrow> calm obj u)"
  using tc_act_shape[OF assms]
proof (elim disjE exE conjE)
  fix t t'
  assume t: "tryCatches w k = Some t" "u = w\<lparr>tryCatches := (tryCatches w)(k \<mapsto> t')\<rparr>"
  show ?thesis if "tc_exception t' = tc_exception t" using t that by (auto simp: calm_def)
  show ?thesis if "tc_exception t' = 0" using t that by (auto simp: calm_def)
qed simp

lemma tc_acts_calm:
  "foldM (tc_act k) as w = Inr u \<Longrightarrow> extraData u = extraData w \<and> (calm obj w \<longrightarrow> calm obj u)"
proof (induction as arbitrary: w)
  case (Cons a as)
  then obtain v where v: "tc_act k a w = Inr v" "foldM (tc_act k) as v = Inr u" by (auto simp: rbind_eq_Inr)
  show ?case using Cons.IH[OF v(2)] tc_act_calm[OF v(1), of obj] by simp
qed simp

text \<open>The handles that a program throws, and the programs that throw no object of the interface in a state where none is on
  its way.\<close>

fun thrown_handles :: "tprog \<Rightarrow> ptr set" where
  "thrown_handles (TThrow h) = {h}"
| "thrown_handles (TSeq p q) = thrown_handles p \<union> thrown_handles q"
| "thrown_handles (TTry k as p) = thrown_handles p"
| "thrown_handles TSkip = {}"

definition quiet :: "(ptr \<Rightarrow> bool) \<Rightarrow> 'a exc_scheme \<Rightarrow> tprog \<Rightarrow> bool" where
  "quiet obj w p = (calm obj w \<and>
     (\<forall>h \<in> thrown_handles p. \<forall>v. handleMem w h = Some (js_handle v) \<longrightarrow> \<not> api_object obj w v))"

lemma js_handle_inj: "js_handle v = js_handle v' \<Longrightarrow> v = v'"
  by (metis js_handle_simps(3) sum.inject(2))

lemma try_ok_thrown: "try_ok m p \<Longrightarrow> h \<in> thrown_handles p \<Longrightarrow> \<exists>v. m h = Some (js_handle v)"
  by (induction p) auto

lemma quiet_next:
  assumes "quiet obj w p" "keeps K w u" "calm obj u" "\<And>x. api_object obj u x \<Longrightarrow> api_object obj w x"
    and "thrown_handles q \<subseteq> thrown_handles p" "try_ok (handleMem w) q"
  shows "quiet obj u q"
proof -
  have "\<not> api_object obj u v" if h: "h \<in> thrown_handles q" "handleMem u h = Some (js_handle v)" for h v
  proof -
    obtain v' where v': "handleMem w h = Some (js_handle v')" using try_ok_thrown[OF assms(6) h(1)] by blast
    then have "v = v'" using keeps_mem[OF assms(2) v'] h(2) js_handle_inj by auto
    then show ?thesis using assms(1,4,5) h(1) v' by (auto simp: quiet_def)
  qed
  then show ?thesis using assms(3) by (simp add: quiet_def)
qed

lemma quiet_try: "quiet obj w (TTry k as p) \<Longrightarrow> quiet obj (TryCatch_ctor k w) p"
  by (auto simp: quiet_def calm_def TryCatch_ctor_def RegisterTryCatchHandler_def newTryCatch_def ResetInternal_def
      api_object_def)

lemma settles_false: "keeps K w u \<Longrightarrow> \<not> Q \<Longrightarrow> settles K obj Q w (Inr u)"
  by (simp add: settles_def)

lemma texec_settles:
  assumes "exc_inv w" "try_ok (handleMem w) p" "try_catch_handler w \<notin> try_keys p" "Q \<Longrightarrow> quiet obj w p"
  shows "settles (try_keys p) obj Q w (texec obj p w)"
  using assms
proof (induction p arbitrary: w)
  case TSkip
  then show ?case by (auto simp: settles_def keeps_refl quiet_def)
next
  case (TThrow h)
  then obtain v where v: "v \<noteq> 0" "handleMem w h = Some (js_handle v)" by auto
  obtain r where r: "ThrowException (Some h) w = Inr r" "thrown v w (snd r)"
    using ThrowException_thrown[OF TThrow.prems(1) v(2,1)] by blast
  have k: "keeps {} w (snd r)" using ThrowException_runs[OF TThrow.prems(1) v(2,1), of "{}"] r(1) by (auto simp: runs_def)
  have "calm obj (snd r)" if Q
    using TThrow.prems(4)[OF that] v(2) thrown_calm[OF _ r(2)] by (auto simp: quiet_def)
  moreover have "api_object obj (snd r) x = api_object obj w x" for x using r(2) by (simp add: thrown_def api_object_def)
  ultimately show ?case using r(1) k by (simp add: settles_def)
next
  case (TSeq p q)
  let ?K = "try_keys p \<union> try_keys q"
  have "quiet obj w p" if Q using TSeq.prems(4)[OF that] by (auto simp: quiet_def)
  then have s: "settles (try_keys p) obj Q w (texec obj p w)" using TSeq.IH(1)[of w] TSeq.prems(1-3) by auto
  have "settles ?K obj Q w (texec obj p w)" using s keeps_mono[of "try_keys p" w _ ?K] by (auto simp: settles_def)
  then have "settles ?K obj Q w (rbind (texec obj p w) (texec obj q))"
  proof (rule settles_rbind)
    fix u assume u: "texec obj p w = Inr u" "keeps ?K w u" "Q \<Longrightarrow> calm obj u" "\<And>x. Q \<Longrightarrow> api_object obj u x \<Longrightarrow> api_object obj w x"
    have o: "try_ok (handleMem w) q" using TSeq.prems(2) by simp
    have "try_ok (handleMem u) q" "try_catch_handler u \<notin> try_keys q"
      using TSeq.prems u(2) try_ok_mono[of "handleMem w" q] by (auto simp: keeps_def)
    moreover have "quiet obj u q" if Q using quiet_next[OF TSeq.prems(4)[OF that] u(2) u(3)[OF that] u(4)[OF that] _ o] by simp
    ultimately have "settles (try_keys q) obj Q u (texec obj q u)" using TSeq.IH(2)[OF keeps_inv[OF u(2)]] by blast
    then show "settles ?K obj Q u (texec obj q u)" using keeps_mono[of "try_keys q" u _ ?K] by (auto simp: settles_def)
  qed
  then show ?case by simp
next
  case (TTry k as p)
  let ?h = "try_catch_handler w" and ?K = "insert k (try_keys p)"
  have k: "k \<noteq> 0" "k \<notin> try_keys p" "k \<noteq> ?h" "?h \<notin> try_keys p" "try_ok (handleMem w) p" using TTry.prems(2,3) by auto
  let ?c = "TryCatch_ctor k w"
  have c: "in_try k ?h ?c" using TryCatch_ctor_in_try[OF TTry.prems(1) k(1,3)] .
  have cf: "exc_inv ?c" "handleMem ?c = handleMem w" "try_catch_handler ?c = k" "extraData ?c = extraData w"
    using c by (auto simp: in_try_def TryCatch_ctor_def RegisterTryCatchHandler_def)
  then have s: "settles (try_keys p) obj Q ?c (texec obj p ?c)"
    using TTry.IH[of ?c] k quiet_try[OF TTry.prems(4)] by simp
  have ac: "api_object obj ?c x = api_object obj w x" for x using cf(4) by (simp add: api_object_def)
  show ?case
  proof (cases "texec obj p ?c")
    case (Inl e)
    then show ?thesis using s by (simp add: settles_def)
  next
    case (Inr u)
    then have u: "keeps (try_keys p) ?c u" "Q \<Longrightarrow> calm obj u" "\<And>x. Q \<Longrightarrow> api_object obj u x \<Longrightarrow> api_object obj w x"
      using s ac by (auto simp: settles_def)
    have iu: "in_try k ?h u"
      by (rule in_try_body[OF c u(1) k(2,4)])
        (auto simp: TryCatch_ctor_def RegisterTryCatchHandler_def newTryCatch_def ResetInternal_def)
    obtain v where v: "foldM (tc_act k) as u = Inr v" "keeps {k} u v" "in_try k ?h v" using tc_acts_keep[OF iu] by blast
    have cv: "extraData v = extraData u" "calm obj u \<Longrightarrow> calm obj v" using tc_acts_calm[OF v(1), of obj] by auto
    have "keeps ?K ?c v" using keeps_trans[OF keeps_mono[OF u(1)] keeps_mono[OF v(2)], of ?K] by auto
    then have kv: "keeps ?K (?c\<lparr>try_catch_handler := ?h\<rparr>) (v\<lparr>try_catch_handler := ?h\<rparr>)"
      using v(3) by (intro keeps_handler) (auto simp: in_try_def)
    have "calm obj v \<or> \<not> Q" using u(2) cv(2) by blast
    from TryCatch_dtor_settles[OF v(3) this]
    have d: "settles {k} obj Q (v\<lparr>try_catch_handler := ?h\<rparr>) (TryCatch_dtor obj k v)" .
    have w: "keeps ?K w x" if "keeps {k} (v\<lparr>try_catch_handler := ?h\<rparr>) x" for x
    proof -
      have "keeps ?K (?c\<lparr>try_catch_handler := ?h\<rparr>) x" using keeps_trans[OF kv keeps_mono[OF that]] by blast
      then show ?thesis by (auto simp: keeps_def TryCatch_ctor_def RegisterTryCatchHandler_def)
    qed
    have ax: "api_object obj (v\<lparr>try_catch_handler := ?h\<rparr>) x = api_object obj u x" for x using cv(1) by (simp add: api_object_def)
    have e: "texec obj (TTry k as p) w = TryCatch_dtor obj k v" using Inr v(1) by simp
    show ?thesis unfolding e using d w u(3) unfolding settles_def ax by auto
  qed
qed


section \<open>One throw\<close>

text \<open>A single throw inside a new try block.\<close>

lemma throw_in_try:
  assumes "exc_inv w" "handleMem w h = Some (js_handle v)" "v \<noteq> 0" "k \<noteq> 0" "k \<noteq> try_catch_handler w"
  shows "\<exists>u. texec obj (TThrow h) (TryCatch_ctor k w) = Inr u \<and> in_try k (try_catch_handler w) u \<and>
    pending_exception_obj u = 0 \<and> scheduled_exception u = (if pending_exception_obj w = 0 then 0 else v) \<and>
    reports u = reports w \<and> callDepth u = callDepth w \<and> message_callback u = message_callback w \<and> extraData u = extraData w \<and>
    tryCatches u = (tryCatches w)(k \<mapsto> (newTryCatch (try_catch_handler w))\<lparr>tc_exception := v, tc_message_obj := pending_message_obj w\<rparr>)"
proof -
  let ?c = "TryCatch_ctor k w"
  have c: "in_try k (try_catch_handler w) ?c" using TryCatch_ctor_in_try[OF assms(1,4,5)] .
  have f: "handleMem ?c = handleMem w" "pending_exception_obj ?c = pending_exception_obj w" "reports ?c = reports w"
    "callDepth ?c = callDepth w" "message_callback ?c = message_callback w" "try_catch_handler ?c = k" "extraData ?c = extraData w"
    "tryCatches ?c = (tryCatches w)(k \<mapsto> newTryCatch (try_catch_handler w))" "pending_message_obj ?c = pending_message_obj w"
    by (simp_all add: TryCatch_ctor_def RegisterTryCatchHandler_def)
  have i: "exc_inv ?c" using c by (simp add: in_try_def)
  obtain r where r: "ThrowException (Some h) ?c = Inr r" "thrown v ?c (snd r)"
    using ThrowException_thrown[OF i, of h v] assms(2,3) f(1) by auto
  obtain r' where "ThrowException (Some h) ?c = Inr r'" "keeps {} ?c (snd r')"
    using ThrowException_runs[OF i, of h v "{}"] assms(2,3) f(1) by (auto simp: runs_def)
  then have "in_try k (try_catch_handler w) (snd r)"
    using r(1) by (intro in_try_body[OF c, of "{}"]) (auto simp: f newTryCatch_def ResetInternal_def)
  moreover have "receives ?c" using assms(4) by (simp add: receives_def f newTryCatch_def ResetInternal_def)
  ultimately show ?thesis using r by (simp add: thrown_def f newTryCatch_def ResetInternal_def)
qed

lemma dtor_plain:
  assumes "in_try k h w" "tryCatches w k = Some t" "\<not> tc_rethrow t" "pending_exception_obj w = 0"
  shows "TryCatch_dtor obj k w = Inr (w\<lparr>try_catch_handler := h\<rparr>)"
  using assms by (auto simp: in_try_def TryCatch_dtor_def load_tc_def UnregisterTryCatchHandler_def
      CancelScheduledExceptionFromTryCatch_def sholdReportPendingMessage_def has_pending_exception_def)

lemma rethrow_act:
  assumes "in_try k h w" "tryCatches w k = Some t" "tc_exception t \<noteq> 0"
  shows "tc_act k AReThrow w = Inr (w\<lparr>tryCatches := (tryCatches w)(k \<mapsto> t\<lparr>tc_rethrow := True\<rparr>)\<rparr>)"
    and "in_try k h (w\<lparr>tryCatches := (tryCatches w)(k \<mapsto> t\<lparr>tc_rethrow := True\<rparr>)\<rparr>)"
  using assms by (auto simp: TryCatch_ReThrow_def load_tc_def modify_tc_def HasCaught_def in_try_def exc_inv_def fresh_mem_def)

text \<open>A throw that the block catches and rethrows reaches the enclosing handler as a throw of its own; outside of all calls, an
  exception that no handler receives is reported, which an object of the interface does not survive.\<close>

definition rethrow_aborts :: "(ptr \<Rightarrow> bool) \<Rightarrow> ptr \<Rightarrow> 'a exc_scheme \<Rightarrow> bool" where
  "rethrow_aborts obj v w = (\<not> receives w \<and> callDepth w = 0 \<and> api_object obj w v)"

lemma rethrow_in_try:
  assumes "exc_inv w" "handleMem w h = Some (js_handle v)" "v \<noteq> 0" "k \<noteq> 0" "k \<noteq> try_catch_handler w"
    and "pending_exception_obj w = 0"
  shows "if rethrow_aborts obj v w then texec obj (TTry k [AReThrow] (TThrow h)) w = Inl CheckFailed
    else \<exists>u. texec obj (TTry k [AReThrow] (TThrow h)) w = Inr u \<and> exc_inv u \<and> try_catch_handler u = try_catch_handler w \<and>
    scheduled_exception u = v \<and> pending_exception_obj u = (if receives w then 0 else v) \<and> callDepth u = callDepth w \<and>
    length (reports u) = length (reports w) +
      (if \<not> receives w \<and> callDepth w = 0 \<and> message_callback w \<noteq> None then 1 else 0) \<and>
    (\<forall>p. p \<noteq> k \<longrightarrow> p \<noteq> try_catch_handler w \<longrightarrow> tryCatches u p = tryCatches w p) \<and>
    (receives w \<longrightarrow> tc_exception (the (tryCatches u (try_catch_handler w))) = v) \<and>
    (try_catch_handler w \<noteq> 0 \<longrightarrow> (\<exists>t. tryCatches u (try_catch_handler w) = Some t \<and>
       tc_settings t = tc_settings (the (tryCatches w (try_catch_handler w)))))"
proof -
  let ?H = "try_catch_handler w"
  obtain u where u: "texec obj (TThrow h) (TryCatch_ctor k w) = Inr u" "in_try k ?H u" "pending_exception_obj u = 0"
    "scheduled_exception u = 0" "reports u = reports w" "callDepth u = callDepth w"
    "tryCatches u = (tryCatches w)(k \<mapsto> (newTryCatch ?H)\<lparr>tc_exception := v, tc_message_obj := pending_message_obj w\<rparr>)"
    "message_callback u = message_callback w" "extraData u = extraData w"
    using throw_in_try[OF assms(1-5)] assms(6) by auto
  let ?t = "(newTryCatch ?H)\<lparr>tc_exception := v, tc_message_obj := pending_message_obj w, tc_rethrow := True\<rparr>"
  let ?u = "u\<lparr>tryCatches := (tryCatches u)(k \<mapsto> ?t)\<rparr>"
  have a: "tc_act k AReThrow u = Inr ?u" "in_try k ?H ?u"
    using rethrow_act[OF u(2), of "(newTryCatch ?H)\<lparr>tc_exception := v, tc_message_obj := pending_message_obj w\<rparr>"] u(7) assms(3)
    by simp_all
  have t: "tryCatches ?u k = Some ?t" "tc_rethrow ?t" "capture_message ?t" "tc_exception ?t = v" "\<not> is_verbose ?t"
    by (simp_all add: newTryCatch_def ResetInternal_def)
  obtain z x p y where z: "exc_inv x" "tryCatches x = tryCatches ?u" "try_catch_handler x = ?H"
    "pending_exception_obj x = v" "reports x = reports w" "callDepth x = callDepth w" "message_callback x = message_callback w"
    "handleMem x p = Some (js_handle v)" "ThrowException (Some p) x = Inr y" "z = (snd y)\<lparr>handleScopes := handleScopes ?u\<rparr>"
    "extraData x = extraData w"
    and d: "TryCatch_dtor obj k ?u = (if sholdReportPendingMessage False z then ReportPendingMessages obj True z else Inr z)"
    and kz: "keeps {k} (?u\<lparr>try_catch_handler := ?H\<rparr>) z"
    using dtor_rethrow[OF a(2) t(1,2)] t u(5,6,8,9) by (auto simp: TryCatch_dtor_def load_tc_def)
  have th: "thrown v x (snd y)" using ThrowException_thrown[OF z(1,8) assms(3)] z(9) by auto
  have rx: "receives x = receives w" using z(2,3) u(7) assms(5) by (auto simp: receives_def)
  have zf: "exc_inv z" "try_catch_handler z = ?H" "scheduled_exception z = v"
    "pending_exception_obj z = (if receives w then 0 else v)" "callDepth z = callDepth w" "reports z = reports w"
    "message_callback z = message_callback w"
    using th z rx assms(3) keeps_inv[OF kz] by (auto simp: thrown_def)
  have za: "extraData z = extraData w" using th z(10,11) by (simp add: thrown_def)
  note za = api_object_cong[OF za]
  have zt: "tryCatches z p = tryCatches w p" if "p \<noteq> k" "p \<noteq> ?H" for p
    using th z(2,3,10) u(7) that by (auto simp: thrown_def split: if_splits)
  have zr: "tc_exception (the (tryCatches z ?H)) = v" if "receives w"
    using th z(2,3,10) rx that by (auto simp: thrown_def)
  have zs: "\<exists>t. tryCatches z ?H = Some t \<and> tc_settings t = tc_settings (the (tryCatches w ?H))" if H: "?H \<noteq> 0"
  proof -
    obtain t where t: "tryCatches w ?H = Some t" using assms(1) H by (auto simp: exc_inv_def)
    then show ?thesis using th z(2,3,10) u(7) assms(5) by (auto simp: thrown_def tc_settings_def split: if_splits)
  qed
  have e: "texec obj (TTry k [AReThrow] (TThrow h)) w = TryCatch_dtor obj k ?u" using u(1) a(1) by simp
  have sr: "sholdReportPendingMessage False z = (\<not> receives w \<and> callDepth w = 0)"
    using zf(4,5) assms(3) by (simp add: sholdReportPendingMessage_def has_pending_exception_def)
  show ?thesis
  proof (cases "receives w \<or> callDepth w > 0")
    case True
    then have "texec obj (TTry k [AReThrow] (TThrow h)) w = Inr z" using e d sr by auto
    then show ?thesis using zf zt zr zs True by (auto simp: rethrow_aborts_def)
  next
    case False
    then have n: "pending_exception_obj z = v" "pending_exception_obj z \<noteq> 0" "callDepth w = 0" "\<not> receives w"
      using zf(4) assms(3) by auto
    have er: "texec obj (TTry k [AReThrow] (TThrow h)) w = ReportPendingMessages obj True z" using e d sr n(3,4) by simp
    show ?thesis
    proof (cases "api_object obj w v")
      case True
      then show ?thesis using er ReportPendingMessages_aborts[OF zf(1) n(2)] za n by (simp add: rethrow_aborts_def)
    next
      case False
      then obtain r where r: "ReportPendingMessages obj True z = Inr r" "keeps {k} z r" "scheduled_exception r = scheduled_exception z"
        "pending_exception_obj r = pending_exception_obj z" "tryCatches r = tryCatches z"
        "length (reports r) = length (reports z) + (if message_callback z = None then 0 else 1)"
        using ReportPendingMessages_runs[OF zf(1) n(2), where K = "{k}" and verbose = True and obj = obj] za n(1) by (auto simp: runs_def)
      have "exc_inv r" "try_catch_handler r = ?H" "callDepth r = callDepth w" using r(2) zf by (auto simp: keeps_def)
      then show ?thesis using er zf zt zr zs n r(1,3-6) False by (auto simp: rethrow_aborts_def)
    qed
  qed
qed

section \<open>Leaving a call\<close>

text \<open>Where an exception ends that leaves a call, in the state \<open>w\<close> of the caller. Inside of another call the handler on
  top takes it, and it stays scheduled only if something was pending; without such a handler it is pending and scheduled for
  the caller. Out of the outermost call it is reported.\<close>

definition delivered :: "ptr \<Rightarrow> 'a exc_scheme \<Rightarrow> 'a exc_scheme \<Rightarrow> bool" where
  "delivered e w u = (if callDepth w = 0 then reported e w u
     else if receives w then tc_exception (the (tryCatches u (try_catch_handler w))) = e \<and> pending_exception_obj u = 0 \<and>
       scheduled_exception u = (if pending_exception_obj w = 0 then 0 else e)
     else pending_exception_obj u = e \<and> scheduled_exception u = e)"

text \<open>An object of the interface is not reported: it aborts the process.\<close>

definition leaves_call :: "(ptr \<Rightarrow> bool) \<Rightarrow> ptr \<Rightarrow> 'a exc_scheme \<Rightarrow> 'a exc_scheme res \<Rightarrow> bool" where
  "leaves_call obj e w r = (if callDepth w = 0 \<and> api_object obj w e then r = Inl CheckFailed
     else \<exists>u. r = Inr u \<and> keeps {} w u \<and> delivered e w u)"

lemma keeps_pending:
  assumes "keeps K w v"
  shows "keeps K w (v\<lparr>pending_exception_obj := e, pending_message_obj := 0\<rparr>)"
proof -
  have "exc_inv (v\<lparr>pending_exception_obj := e, pending_message_obj := 0\<rparr>)"
    using keeps_inv[OF assms] by (simp add: exc_inv_def fresh_mem_def)
  then show ?thesis using assms by (simp add: keeps_def)
qed

lemma keeps_data: "exc_inv w \<Longrightarrow> keeps K w (setExtraData e d w)"
  using keeps_fields(5)[of w K e "Some d"] by (simp add: setExtraData_def)

lemma SetPending_keeps:
  assumes "exc_inv w" "e \<noteq> 0" "\<not> api_object obj w e"
  shows "\<exists>u. SetPendingExceptionAndMessage obj e st w = Inr u \<and> keeps K w u \<and> pending_exception_obj u = e \<and>
    scheduled_exception u = scheduled_exception w \<and> reports u = reports w \<and> message_callback u = message_callback w \<and>
    tryCatches u = tryCatches w \<and> try_catch_handler u = try_catch_handler w \<and> \<not> api_object obj u e"
proof -
  let ?v = "if obj e \<and> extraData w e = None then setExtraData e (newExceptionObjectData st) w else w"
  have v: "keeps K w ?v" using keeps_data[OF assms(1)] keeps_refl[OF assms(1)] by simp
  have "SetPendingExceptionAndMessage obj e st w = Inr (?v\<lparr>pending_exception_obj := e, pending_message_obj := 0\<rparr>)"
    using assms by (auto simp: SetPendingExceptionAndMessage_def asExceptionObjectData_def api_object_def set_pending_exception_def
        set_pending_message_obj_def split: option.splits extra_data.splits)
  moreover have "\<not> api_object obj ?v e" using assms(3) by (simp add: api_object_def setExtraData_def newExceptionObjectData_def)
  ultimately show ?thesis using keeps_pending[OF v] by (simp add: setExtraData_def api_object_def)
qed

lemma SetPending_aborts: "api_object obj w e \<Longrightarrow> SetPendingExceptionAndMessage obj e st w = Inl CheckFailed"
  by (auto simp: SetPendingExceptionAndMessage_def asExceptionObjectData_def api_object_def split: option.splits extra_data.splits)

lemma schedule_leaves:
  assumes "exc_inv w" "e \<noteq> 0" "callDepth w > 0"
  shows "leaves_call obj e w (ScheduleThrow e w)"
proof -
  obtain s where s: "ScheduleThrow e w = Inr s" "thrown e w s" "keeps {} w s" using ScheduleThrow_thrown[OF assms(1,2)] by blast
  show ?thesis using s assms(3) by (auto simp: leaves_call_def delivered_def thrown_def)
qed

lemma set_and_report:
  assumes "exc_inv w" "e \<noteq> 0" "\<not> api_object obj w e"
  shows "\<exists>u. rbind (SetPendingExceptionAndMessage obj e st w) (ReportPendingMessages obj False) = Inr u \<and> keeps {} w u \<and> reported e w u"
proof -
  obtain p where p: "SetPendingExceptionAndMessage obj e st w = Inr p" "keeps {} w p" "pending_exception_obj p = e"
    "scheduled_exception p = scheduled_exception w" "reports p = reports w" "message_callback p = message_callback w"
    "tryCatches p = tryCatches w" "try_catch_handler p = try_catch_handler w" "\<not> api_object obj p e"
    using SetPending_keeps[OF assms, of st "{}"] by blast
  obtain s where s: "ReportPendingMessages obj False p = Inr s" "keeps {} p s" "reported (pending_exception_obj p) p s"
    using ReportPendingMessages_runs[OF keeps_inv[OF p(2)], where K = "{}" and verbose = False and obj = obj] p(3,9) assms(2)
    by (auto simp: runs_def)
  have "reported e w s" using s(3) p(3-8) by (simp add: reported_def receives_def tells_def)
  then show ?thesis using p(1) s(1) keeps_trans[OF p(2) s(2)] by simp
qed

lemma report_leaves:
  assumes "exc_inv w" "e \<noteq> 0" "callDepth w = 0"
  shows "leaves_call obj e w (rbind (SetPendingExceptionAndMessage obj e st w) (ReportPendingMessages obj False))"
proof (cases "api_object obj w e")
  case True
  then show ?thesis using assms(3) by (simp add: leaves_call_def SetPending_aborts)
next
  case False
  then show ?thesis using set_and_report[OF assms(1,2) False, of st] assms(3) by (auto simp: leaves_call_def delivered_def)
qed

text \<open>A handled exception of an inner call gets its stack trace first, whatever data it carried.\<close>

lemma handleException_leaves:
  assumes "exc_inv w" "e \<noteq> 0"
  shows "leaves_call obj e w (handleException obj e st w)"
proof (cases "callDepth w = 0")
  case True
  then show ?thesis using report_leaves[OF assms True] by (simp add: handleException_def hasCallDepth_def)
next
  case False
  let ?v = "if obj e then setExtraData e (newExceptionObjectData st) w else w"
  have v: "keeps {} w ?v" using keeps_data[OF assms(1)] keeps_refl[OF assms(1)] by simp
  have f: "callDepth ?v = callDepth w" "receives ?v = receives w" "pending_exception_obj ?v = pending_exception_obj w"
    "try_catch_handler ?v = try_catch_handler w" by (auto simp: receives_def setExtraData_def)
  have "leaves_call obj e ?v (ScheduleThrow e ?v)" using schedule_leaves[OF keeps_inv[OF v] assms(2)] False f(1) by simp
  then show ?thesis using False f keeps_trans[OF v]
    by (auto simp: leaves_call_def delivered_def handleException_def hasCallDepth_def)
qed

section \<open>Properties\<close>


text \<open>A state with an entered context, whose global object \<open>4\<close> carries its data.\<close>

definition sample_exc :: exc where
  "sample_exc = isolate.extend (scopes.extend (base_scopes [7 \<mapsto> js_handle 3] False) (isolate.fields StateActive
      (newGlobalHandles 1) [] (\<lambda>_. None) [] [] 2 1 0 0 0 (replicate 7 0) [] None None False []))
    (exc.fields (\<lambda>_. None) 0 0 0 0 0 None [4 \<mapsto> OtherExtraData 1] 1000 [])"

definition ready_exc :: exc where
  "ready_exc = sample_exc\<lparr>s_currentIsolate := 1, contextScopes := [9]\<rparr>"

lemmas ready_exc_defs = ready_exc_def sample_exc_def base_scopes_def scopes.defs isolate.defs exc.defs

lemma ready_exc_simps [simp]:
  "exc_inv ready_exc" "handleMem ready_exc = [7 \<mapsto> js_handle 3]" "try_catch_handler ready_exc = 0"
  "pending_exception_obj ready_exc = 0" "scheduled_exception ready_exc = 0" "callDepth ready_exc = 0"
  "tryCatches ready_exc = (\<lambda>_. None)" "extraData ready_exc = [4 \<mapsto> OtherExtraData 1]"
  by (simp_all add: ready_exc_defs exc_inv_def fresh_mem_def newScope_def)

lemma ready_exc_api [simp]: "api_object obj ready_exc x = (x = 4 \<and> obj 4)"
  by (auto simp: api_object_def split: if_splits)


text \<open>C16. A thrown exception is contained by the block that catches it: afterwards nothing is pending, nothing
  is reported and no other handler has changed. Rethrown, it reaches the enclosing handler if that one has
  caught nothing yet; otherwise it stays pending, and outside of all calls it is reported once, where an object that carries
  data of the interface aborts the process.\<close>

theorem exceptions_are_delivered:
  fixes w :: "'a exc_scheme"
  assumes "exc_inv w" "handleMem w h = Some (js_handle v)" "v \<noteq> 0" "k \<noteq> 0" "k \<noteq> try_catch_handler w"
    and "pending_exception_obj w = 0"
  shows "(\<exists>u. texec obj (TTry k [] (TThrow h)) w = Inr u \<and> pending_exception_obj u = 0 \<and> scheduled_exception u = 0 \<and>
      reports u = reports w \<and> (\<forall>p. p \<noteq> k \<longrightarrow> tryCatches u p = tryCatches w p))
    \<and> (if \<not> receives w \<and> callDepth w = 0 \<and> api_object obj w v
      then texec obj (TTry k [AReThrow] (TThrow h)) w = Inl CheckFailed
      else \<exists>u. texec obj (TTry k [AReThrow] (TThrow h)) w = Inr u \<and>
      (if receives w then tc_exception (the (tryCatches u (try_catch_handler w))) = v \<and> pending_exception_obj u = 0
       else pending_exception_obj u = v) \<and>
      length (reports u) = length (reports w) +
        (if \<not> receives w \<and> callDepth w = 0 \<and> message_callback w \<noteq> None then 1 else 0))"
proof
  obtain u where u: "texec obj (TThrow h) (TryCatch_ctor k w) = Inr u" "in_try k (try_catch_handler w) u"
    "pending_exception_obj u = 0" "scheduled_exception u = 0" "reports u = reports w"
    "tryCatches u = (tryCatches w)(k \<mapsto> (newTryCatch (try_catch_handler w))\<lparr>tc_exception := v, tc_message_obj := pending_message_obj w\<rparr>)"
    using throw_in_try[OF assms(1-5)] assms(6) by auto
  have "TryCatch_dtor obj k u = Inr (u\<lparr>try_catch_handler := try_catch_handler w\<rparr>)"
    by (rule dtor_plain[OF u(2) _ _ u(3)]) (auto simp: u(6) newTryCatch_def ResetInternal_def)
  then show "\<exists>u. texec obj (TTry k [] (TThrow h)) w = Inr u \<and> pending_exception_obj u = 0 \<and> scheduled_exception u = 0 \<and>
      reports u = reports w \<and> (\<forall>p. p \<noteq> k \<longrightarrow> tryCatches u p = tryCatches w p)"
    using u by simp
next
  show "if \<not> receives w \<and> callDepth w = 0 \<and> api_object obj w v
      then texec obj (TTry k [AReThrow] (TThrow h)) w = Inl CheckFailed
      else \<exists>u. texec obj (TTry k [AReThrow] (TThrow h)) w = Inr u \<and>
      (if receives w then tc_exception (the (tryCatches u (try_catch_handler w))) = v \<and> pending_exception_obj u = 0
       else pending_exception_obj u = v) \<and>
      length (reports u) = length (reports w) +
        (if \<not> receives w \<and> callDepth w = 0 \<and> message_callback w \<noteq> None then 1 else 0)"
    using rethrow_in_try[OF assms, of obj] unfolding rethrow_aborts_def[symmetric] by (auto simp del: texec.simps split: if_splits)
qed

theorem exceptions_are_delivered_witness:
  "\<exists>u. texec (\<lambda>_. True) (TTry 600 [] (TThrow 7)) ready_exc = Inr u \<and> pending_exception_obj u = 0 \<and>
    scheduled_exception u = 0 \<and> reports u = reports ready_exc"
  using exceptions_are_delivered[of ready_exc 7 3 600 "\<lambda>_. True"] by (auto simp del: texec.simps)

text \<open>C37. A rethrown exception stays scheduled although the enclosing handler catches it, and destroying that
  handler does not cancel it: back in the engine, it is thrown into the script a second time if the script has
  a try block, and otherwise the process aborts, because nothing is pending that could be reported.\<close>

theorem rethrown_exception_not_cancelled:
  fixes w :: "'a exc_scheme"
  assumes "exc_inv w" "handleMem w h = Some (js_handle v)" "v \<noteq> 0" "outer \<noteq> 0" "inner \<noteq> 0" "inner \<noteq> outer"
    and "try_catch_handler w = 0" "pending_exception_obj w = 0"
  shows "\<exists>u. texec obj (TTry outer [] (TTry inner [AReThrow] (TThrow h))) w = Inr u \<and>
    try_catch_handler u = 0 \<and> pending_exception_obj u = 0 \<and> scheduled_exception u = v \<and>
    tc_exception (the (tryCatches u outer)) = v \<and>
    ThrowErrorIfHasException obj [] u = Inl CheckFailed \<and>
    (\<exists>u'. ThrowErrorIfHasException obj [True] u = Inr (Some v, u'))"
proof -
  let ?c = "TryCatch_ctor outer w"
  have c: "in_try outer 0 ?c" using TryCatch_ctor_in_try[of w outer] assms by simp
  have f: "exc_inv ?c" "handleMem ?c = handleMem w" "try_catch_handler ?c = outer" "pending_exception_obj ?c = 0" "receives ?c"
    "tryCatches ?c outer = Some (newTryCatch 0)"
    using c assms(4,7,8) by (simp_all add: TryCatch_ctor_def RegisterTryCatchHandler_def in_try_def receives_def newTryCatch_def ResetInternal_def)
  obtain u where u: "texec obj (TTry inner [AReThrow] (TThrow h)) ?c = Inr u" "exc_inv u" "try_catch_handler u = outer"
    "scheduled_exception u = v" "pending_exception_obj u = 0" "tc_exception (the (tryCatches u outer)) = v"
    "\<exists>t. tryCatches u outer = Some t \<and> tc_settings t = tc_settings (newTryCatch 0)"
    using rethrow_in_try[of ?c h v inner obj] f assms by (auto simp: rethrow_aborts_def simp del: texec.simps)
  obtain t where t: "tryCatches u outer = Some t" "tc_next t = 0" "\<not> tc_rethrow t" "tc_exception t = v"
    using u(6,7) by (auto simp: tc_settings_def newTryCatch_def ResetInternal_def)
  have "in_try outer 0 u" using u(2,3) t assms(4) by (auto simp: in_try_def)
  from dtor_plain[OF this t(1,3) u(5)]
  have d: "texec obj (TTry outer [] (TTry inner [AReThrow] (TThrow h))) w = Inr (u\<lparr>try_catch_handler := 0\<rparr>)"
    using u(1) by simp
  show ?thesis
    by (rule exI[of _ "u\<lparr>try_catch_handler := 0\<rparr>"])
      (use d u t assms(3) in \<open>simp add: ThrowErrorIfHasException_def has_scheduled_exception_def clear_scheduled_exception_def
        hasExternalTryCatch_def ReportPendingMessages_def pending_exception_def has_pending_exception_def
        ClearPendingExceptionAndMessage_def clear_pending_exception_def clear_pending_message_obj_def del: texec.simps\<close>)
qed

theorem rethrown_exception_not_cancelled_witness:
  "\<exists>u. texec (\<lambda>_. True) (TTry 600 [] (TTry 601 [AReThrow] (TThrow 7))) ready_exc = Inr u \<and>
    try_catch_handler u = 0 \<and> pending_exception_obj u = 0 \<and> scheduled_exception u = 3 \<and>
    ThrowErrorIfHasException (\<lambda>_. True) [] u = Inl CheckFailed"
  using rethrown_exception_not_cancelled[of ready_exc 7 3 600 601 "\<lambda>_. True"] by (auto simp del: texec.simps)

text \<open>Reporting outside of the verbose mode compares the scheduled exception with the pending one only after
  the pending one was cleared, so it never clears a scheduled exception; it leaves nothing pending, and in
  verbose mode it leaves everything. A pending object of the interface is not told to anyone: it aborts the process.\<close>

theorem report_keeps_scheduled:
  fixes w :: "'a exc_scheme"
  assumes "exc_inv w" "pending_exception_obj w \<noteq> 0"
  shows "if api_object obj w (pending_exception_obj w) \<and> (verbose \<or> tells w) then ReportPendingMessages obj verbose w = Inl CheckFailed
    else \<exists>u. ReportPendingMessages obj verbose w = Inr u \<and> scheduled_exception u = scheduled_exception w \<and>
      pending_exception_obj u = (if verbose then pending_exception_obj w else 0)"
  using ReportPendingMessages_runs[OF assms, where K = "{}" and verbose = verbose and obj = obj]
    ReportPendingMessages_aborts[OF assms, where verbose = verbose and obj = obj]
  by (auto simp: runs_def)

theorem report_keeps_scheduled_witness:
  "\<exists>u. ReportPendingMessages (\<lambda>_. True) False (ready_exc\<lparr>pending_exception_obj := 3, scheduled_exception := 3\<rparr>) = Inr u \<and>
    scheduled_exception u = 3 \<and> pending_exception_obj u = 0"
  using report_keeps_scheduled[of "ready_exc\<lparr>pending_exception_obj := 3, scheduled_exception := 3\<rparr>" "\<lambda>_. True" False]
    ready_exc_simps(1)
  by (auto simp: exc_inv_def fresh_mem_def)

end
