(* ===== verification/ExtraData.thy ===== *)
theory ExtraData
  imports TryBlocks
begin

text \<open>
  Extra data of engine objects and templates: the class hierarchy of \<^verbatim>\<open>src/src/api/extra-data.h\<close>,
  its operations in \<^verbatim>\<open>extra-data.cc\<close> over \<^verbatim>\<open>GCContainer\<close>
  (\<^verbatim>\<open>src/src/api/utils/gc-container.h\<close>), and the helpers \<^verbatim>\<open>ObjectRefHelper\<close> and
  \<^verbatim>\<open>ExtraDataHelper\<close> of \<^verbatim>\<open>src/src/api/es-helper.h\<close> and \<^verbatim>\<open>es-helper.cc\<close>.

  Extra data lives in a memory of its own, so that an object and the template it was created from may share
  it. The data of an exception is never changed after its creation and is kept as a value. Objects and
  templates of the engine are pointers; an object may carry extra data, a template has a slot for the extra
  data of its instances.
\<close>

section \<open>State\<close>

record InternalFieldData =
  internalFields :: "ptr list option"

record TemplateData = InternalFieldData +
  functionTemplate :: ptr

record FunctionTemplateData = TemplateData +
  ft_isolate :: ptr
  ft_callback :: ptr
  ft_callbackData :: ptr
  ft_signature :: ptr

record ObjectData = TemplateData +
  objectTemplate :: ptr
  functionObject :: ptr

datatype ExtraData =
    FunctionTemplateD FunctionTemplateData
  | ObjectTemplateD TemplateData
  | ObjectD ObjectData
  | FunctionD ObjectData
  | ExternalD ObjectData
  | GlobalD ObjectData
  | StackTraceD StackTraceData

record world = exc +
  dataMem :: "ptr \<Rightarrow> ExtraData option"
  nextData :: ptr
  ftplExtra :: "ptr \<Rightarrow> ptr"
  otplExtra :: "ptr \<Rightarrow> ptr"

definition new_data :: "ExtraData \<Rightarrow> 'a world_scheme \<Rightarrow> ptr \<times> 'a world_scheme" where
  "new_data x w = (nextData w, w\<lparr>dataMem := (dataMem w)(nextData w \<mapsto> x), nextData := nextData w + 1\<rparr>)"

definition load_data :: "ptr \<Rightarrow> 'a world_scheme \<Rightarrow> ExtraData res" where
  "load_data d w = (case dataMem w d of None \<Rightarrow> Inl NullDeref | Some x \<Rightarrow> Inr x)"

section \<open>Kinds\<close>

fun isFunctionTemplateData :: "ExtraData \<Rightarrow> bool" where
  "isFunctionTemplateData (FunctionTemplateD _) = True"
| "isFunctionTemplateData _ = False"

fun isObjectTemplateData :: "ExtraData \<Rightarrow> bool" where
  "isObjectTemplateData (ObjectTemplateD _) = True"
| "isObjectTemplateData _ = False"

fun isObjectData :: "ExtraData \<Rightarrow> bool" where
  "isObjectData (ObjectD _) = True"
| "isObjectData (FunctionD _) = True"
| "isObjectData (ExternalD _) = True"
| "isObjectData (GlobalD _) = True"
| "isObjectData _ = False"

fun isFunctionData :: "ExtraData \<Rightarrow> bool" where
  "isFunctionData (FunctionD _) = True"
| "isFunctionData _ = False"

fun isExternalObjectData :: "ExtraData \<Rightarrow> bool" where
  "isExternalObjectData (ExternalD _) = True"
| "isExternalObjectData _ = False"

fun isGlobalObjectData :: "ExtraData \<Rightarrow> bool" where
  "isGlobalObjectData (GlobalD _) = True"
| "isGlobalObjectData _ = False"

fun isStackTraceData :: "ExtraData \<Rightarrow> bool" where
  "isStackTraceData (StackTraceD _) = True"
| "isStackTraceData _ = False"

fun isInternalFieldData :: "ExtraData \<Rightarrow> bool" where
  "isInternalFieldData (StackTraceD _) = False"
| "isInternalFieldData _ = True"

text \<open>The checked downcasts: \<open>is\<close> is the virtual test of the class.\<close>

definition as_kind :: "(ExtraData \<Rightarrow> bool) \<Rightarrow> extra_data \<Rightarrow> 'a world_scheme \<Rightarrow> ptr res" where
  "as_kind is_kind e w = (case e of ExceptionObjectData _ \<Rightarrow> Inl CheckFailed
   | OtherExtraData d \<Rightarrow> rbind (load_data d w) (\<lambda>x. check (is_kind x) (Inr d)))"

definition has_kind :: "(ExtraData \<Rightarrow> bool) \<Rightarrow> extra_data \<Rightarrow> 'a world_scheme \<Rightarrow> bool res" where
  "has_kind is_kind e w = (case e of ExceptionObjectData _ \<Rightarrow> Inr False
   | OtherExtraData d \<Rightarrow> rbind (load_data d w) (\<lambda>x. Inr (is_kind x)))"

section \<open>Members\<close>

text \<open>A member function of \<^verbatim>\<open>InternalFieldData\<close> called on other data goes through the table of
  another class.\<close>

fun fields_of :: "ExtraData \<Rightarrow> ptr list option res" where
  "fields_of (FunctionTemplateD x) = Inr (internalFields x)"
| "fields_of (ObjectTemplateD x) = Inr (internalFields x)"
| "fields_of (ObjectD x) = Inr (internalFields x)"
| "fields_of (FunctionD x) = Inr (internalFields x)"
| "fields_of (ExternalD x) = Inr (internalFields x)"
| "fields_of (GlobalD x) = Inr (internalFields x)"
| "fields_of (StackTraceD x) = Inl TypeConfusion"

fun with_fields :: "ptr list option \<Rightarrow> ExtraData \<Rightarrow> ExtraData" where
  "with_fields f (FunctionTemplateD x) = FunctionTemplateD (x\<lparr>internalFields := f\<rparr>)"
| "with_fields f (ObjectTemplateD x) = ObjectTemplateD (x\<lparr>internalFields := f\<rparr>)"
| "with_fields f (ObjectD x) = ObjectD (x\<lparr>internalFields := f\<rparr>)"
| "with_fields f (FunctionD x) = FunctionD (x\<lparr>internalFields := f\<rparr>)"
| "with_fields f (ExternalD x) = ExternalD (x\<lparr>internalFields := f\<rparr>)"
| "with_fields f (GlobalD x) = GlobalD (x\<lparr>internalFields := f\<rparr>)"
| "with_fields f (StackTraceD x) = StackTraceD x"

fun template_of :: "ExtraData \<Rightarrow> ptr res" where
  "template_of (FunctionTemplateD x) = Inr (functionTemplate x)"
| "template_of (ObjectTemplateD x) = Inr (functionTemplate x)"
| "template_of (ObjectD x) = Inr (functionTemplate x)"
| "template_of (FunctionD x) = Inr (functionTemplate x)"
| "template_of (ExternalD x) = Inr (functionTemplate x)"
| "template_of (GlobalD x) = Inr (functionTemplate x)"
| "template_of (StackTraceD x) = Inl TypeConfusion"

fun object_of :: "ExtraData \<Rightarrow> ObjectData res" where
  "object_of (ObjectD x) = Inr x"
| "object_of (FunctionD x) = Inr x"
| "object_of (ExternalD x) = Inr x"
| "object_of (GlobalD x) = Inr x"
| "object_of _ = Inl TypeConfusion"

fun with_functionObject :: "ptr \<Rightarrow> ExtraData \<Rightarrow> ExtraData" where
  "with_functionObject f (ObjectD x) = ObjectD (x\<lparr>functionObject := f\<rparr>)"
| "with_functionObject f (FunctionD x) = FunctionD (x\<lparr>functionObject := f\<rparr>)"
| "with_functionObject f (ExternalD x) = ExternalD (x\<lparr>functionObject := f\<rparr>)"
| "with_functionObject f (GlobalD x) = GlobalD (x\<lparr>functionObject := f\<rparr>)"
| "with_functionObject f x = x"

fun functionTemplateData_of :: "ExtraData \<Rightarrow> FunctionTemplateData res" where
  "functionTemplateData_of (FunctionTemplateD x) = Inr x"
| "functionTemplateData_of _ = Inl TypeConfusion"

definition set_data :: "ptr \<Rightarrow> ExtraData \<Rightarrow> 'a world_scheme \<Rightarrow> 'a world_scheme" where
  "set_data d x w = w\<lparr>dataMem := (dataMem w)(d \<mapsto> x)\<rparr>"

definition newTemplateData :: "ptr \<Rightarrow> TemplateData" where
  "newTemplateData ft = \<lparr>internalFields = None, functionTemplate = ft\<rparr>"

definition newFunctionTemplateData :: "ptr \<Rightarrow> ptr \<Rightarrow> ptr \<Rightarrow> ptr \<Rightarrow> ptr \<Rightarrow> FunctionTemplateData" where
  "newFunctionTemplateData ft isolate callback callbackData signature = TemplateData.extend (newTemplateData ft)
     (FunctionTemplateData.fields isolate callback callbackData signature)"

definition newObjectData :: "ptr \<Rightarrow> ptr \<Rightarrow> ptr \<Rightarrow> ObjectData" where
  "newObjectData ft ot fo = TemplateData.extend (newTemplateData ft) (ObjectData.fields ot fo)"

section \<open>Containers\<close>

definition newContainer :: "nat \<Rightarrow> ptr list" where
  "newContainer n = replicate n 0"

definition container_get :: "ptr list \<Rightarrow> nat \<Rightarrow> ptr res" where
  "container_get c idx = guard AssertFailed (idx < length c) (Inr (c ! idx))"

definition container_set :: "ptr list \<Rightarrow> nat \<Rightarrow> ptr \<Rightarrow> ptr list res" where
  "container_set c idx v = guard AssertFailed (idx < length c) (Inr (c[idx := v]))"

section \<open>Internal fields\<close>

definition load_fields :: "ptr \<Rightarrow> 'a world_scheme \<Rightarrow> ptr list option res" where
  "load_fields d w = rbind (load_data d w) fields_of"

definition store_fields :: "ptr \<Rightarrow> ptr list option \<Rightarrow> 'a world_scheme \<Rightarrow> 'a world_scheme res" where
  "store_fields d f w = rbind (load_data d w) (\<lambda>x. Inr (set_data d (with_fields f x) w))"

definition internalFieldCount :: "ptr \<Rightarrow> 'a world_scheme \<Rightarrow> int res" where
  "internalFieldCount d w = rbind (load_fields d w) (\<lambda>f.
     Inr (case f of None \<Rightarrow> 0 | Some c \<Rightarrow> to_int (length c)))"

definition isValidIndex :: "ptr \<Rightarrow> int \<Rightarrow> 'a world_scheme \<Rightarrow> bool res" where
  "isValidIndex d idx w = rbind (internalFieldCount d w) (\<lambda>n. Inr (0 \<le> idx \<and> idx < n))"

text \<open>The fatal error is reported to the current isolate.\<close>

definition out_of_bounds :: "string \<Rightarrow> 'a scopes_scheme \<Rightarrow> 'a scopes_scheme res" where
  "out_of_bounds location w = guard NullDeref (s_currentIsolate w \<noteq> 0)
     (onFatalError location ''Internal field out of bounds'' w)"

definition setInternalField :: "int \<Rightarrow> ptr \<Rightarrow> ptr \<Rightarrow> 'a world_scheme \<Rightarrow> 'a world_scheme res" where
  "setInternalField idx v d w = rbind (load_fields d w) (\<lambda>f. case f of None \<Rightarrow> Inl CheckFailed | Some c \<Rightarrow>
     rbind (isValidIndex d idx w) (\<lambda>valid.
     if \<not> valid then out_of_bounds ''InternalFieldData::setInternalField'' w
     else rbind (container_set c (nat idx) v) (\<lambda>c. store_fields d (Some c) w)))"

definition internalField :: "int \<Rightarrow> ptr \<Rightarrow> 'a world_scheme \<Rightarrow> (ptr \<times> 'a world_scheme) res" where
  "internalField idx d w = rbind (load_fields d w) (\<lambda>f. case f of None \<Rightarrow> Inl CheckFailed | Some c \<Rightarrow>
     rbind (isValidIndex d idx w) (\<lambda>valid.
     if \<not> valid then rbind (out_of_bounds ''InternalFieldData::internalField'' w) (\<lambda>w. Inr (0, w))
     else rbind (container_get c (nat idx)) (\<lambda>field. Inr (field, w))))"

definition setInternalFieldCount :: "int \<Rightarrow> ptr \<Rightarrow> 'a world_scheme \<Rightarrow> 'a world_scheme res" where
  "setInternalFieldCount n d w = (if n \<le> 0 then out_of_bounds ''InternalFieldData::setInternalFieldCount'' w
     else rbind (store_fields d (Some (newContainer (nat n))) w)
       (foldM (\<lambda>i. setInternalField (int i) 0 d) [0..<nat n]))"

section \<open>Extra data of templates\<close>

definition getObjectTemplateExtraData :: "ptr \<Rightarrow> 'a world_scheme \<Rightarrow> ptr res" where
  "getObjectTemplateExtraData t w = (if otplExtra w t = 0 then Inr 0
     else as_kind isObjectTemplateData (OtherExtraData (otplExtra w t)) w)"

definition getFunctionTemplateExtraData :: "ptr \<Rightarrow> 'a world_scheme \<Rightarrow> ptr res" where
  "getFunctionTemplateExtraData t w = (if ftplExtra w t = 0 then Inr 0
     else as_kind isFunctionTemplateData (OtherExtraData (ftplExtra w t)) w)"

definition setObjectTemplateExtraData :: "ptr \<Rightarrow> ptr \<Rightarrow> 'a world_scheme \<Rightarrow> 'a world_scheme res" where
  "setObjectTemplateExtraData t d w = guard CheckFailed (otplExtra w t = 0)
     (Inr (w\<lparr>otplExtra := (otplExtra w)(t := d)\<rparr>))"

definition setFunctionTemplateExtraData :: "ptr \<Rightarrow> ptr \<Rightarrow> 'a world_scheme \<Rightarrow> 'a world_scheme res" where
  "setFunctionTemplateExtraData t d w = guard CheckFailed (ftplExtra w t = 0)
     (Inr (w\<lparr>ftplExtra := (ftplExtra w)(t := d)\<rparr>))"

definition ObjectTemplate_setInternalFieldCount :: "ptr \<Rightarrow> int \<Rightarrow> 'a world_scheme \<Rightarrow> 'a world_scheme res" where
  "ObjectTemplate_setInternalFieldCount t n w = rbind (getObjectTemplateExtraData t w) (\<lambda>d. setInternalFieldCount n d w)"

definition ObjectTemplate_getInternalFieldCount :: "ptr \<Rightarrow> 'a world_scheme \<Rightarrow> int res" where
  "ObjectTemplate_getInternalFieldCount t w = rbind (getObjectTemplateExtraData t w) (\<lambda>d.
     if d = 0 then Inr 0 else internalFieldCount d w)"

section \<open>Extra data of objects\<close>

text \<open>An object carries no data, or a pointer to it. Data of every kind is replaced without a check; an
  earlier one is only logged.\<close>

definition getExtraData :: "ptr \<Rightarrow> 'a world_scheme \<Rightarrow> extra_data option" where
  "getExtraData o' w = extraData w o'"

definition setObjectData :: "ptr \<Rightarrow> ptr \<Rightarrow> 'a world_scheme \<Rightarrow> 'a world_scheme" where
  "setObjectData o' d w = w\<lparr>extraData := (extraData w)(o' \<mapsto> OtherExtraData d)\<rparr>"

definition getFunctionExtraData :: "ptr \<Rightarrow> 'a world_scheme \<Rightarrow> ptr res" where
  "getFunctionExtraData o' w = (case extraData w o' of None \<Rightarrow> Inr 0 | Some e \<Rightarrow> as_kind isFunctionData e w)"

definition getObjectTemplateExtraData_of_object :: "ptr \<Rightarrow> 'a world_scheme \<Rightarrow> ptr res" where
  "getObjectTemplateExtraData_of_object o' w = (case extraData w o' of None \<Rightarrow> Inr 0
   | Some e \<Rightarrow> as_kind isObjectTemplateData e w)"

text \<open>\<^verbatim>\<open>ObjectRefHelper::getExtraData\<close> casts to \<^verbatim>\<open>ObjectData\<close> without a test; the members
  of \<^verbatim>\<open>InternalFieldData\<close> are then called on whatever the object carries.\<close>

definition unchecked_data :: "extra_data \<Rightarrow> ptr res" where
  "unchecked_data e = (case e of ExceptionObjectData _ \<Rightarrow> Inl TypeConfusion | OtherExtraData d \<Rightarrow> Inr d)"

definition object_data :: "ptr \<Rightarrow> 'a world_scheme \<Rightarrow> ptr res" where
  "object_data o' w = (case extraData w o' of None \<Rightarrow> Inl CheckFailed | Some e \<Rightarrow> unchecked_data e)"

definition getInternalFieldCount :: "ptr \<Rightarrow> 'a world_scheme \<Rightarrow> int res" where
  "getInternalFieldCount o' w = (case extraData w o' of None \<Rightarrow> Inr 0
   | Some e \<Rightarrow> rbind (unchecked_data e) (\<lambda>d. internalFieldCount d w))"

definition obj_setInternalField :: "ptr \<Rightarrow> int \<Rightarrow> ptr \<Rightarrow> 'a world_scheme \<Rightarrow> 'a world_scheme res" where
  "obj_setInternalField o' idx v w = rbind (object_data o' w) (\<lambda>d. setInternalField idx v d w)"

definition getInternalField :: "ptr \<Rightarrow> int \<Rightarrow> 'a world_scheme \<Rightarrow> (ptr \<times> 'a world_scheme) res" where
  "getInternalField o' idx w = rbind (object_data o' w) (\<lambda>d. rbind (internalField idx d w) (\<lambda>(field, w).
     if field = 0 then guard NullDeref (s_currentIsolate w \<noteq> 0) (Inr (undefined_value w, w)) else Inr (field, w)))"

definition setInternalPointer :: "ptr \<Rightarrow> int \<Rightarrow> ptr \<Rightarrow> 'a world_scheme \<Rightarrow> 'a world_scheme res" where
  "setInternalPointer o' idx p w = rbind (object_data o' w) (\<lambda>d. setInternalField idx p d w)"

definition getInternalPointer :: "ptr \<Rightarrow> int \<Rightarrow> 'a world_scheme \<Rightarrow> (ptr \<times> 'a world_scheme) res" where
  "getInternalPointer o' idx w = rbind (object_data o' w) (\<lambda>d. internalField idx d w)"

fun SetAlignedPointerInInternalFields :: "ptr \<Rightarrow> (int \<times> ptr) list \<Rightarrow> 'a world_scheme \<Rightarrow> 'a world_scheme res" where
  "SetAlignedPointerInInternalFields o' [] w = Inr w"
| "SetAlignedPointerInInternalFields o' ((idx, v) # ivs) w =
     rbind (setInternalPointer o' idx v w) (SetAlignedPointerInInternalFields o' ivs)"

section \<open>Data of new objects\<close>

definition newObjectData_of_template :: "ptr \<Rightarrow> 'a world_scheme \<Rightarrow> ObjectData res" where
  "newObjectData_of_template t w = rbind (getObjectTemplateExtraData t w) (\<lambda>d. rbind (load_data d w) (\<lambda>x.
     rbind (template_of x) (\<lambda>ft. Inr (newObjectData ft t 0))))"

definition copy_field :: "ptr \<Rightarrow> ptr \<Rightarrow> nat \<Rightarrow> 'a world_scheme \<Rightarrow> 'a world_scheme res" where
  "copy_field this d i w = rbind (internalField (int i) this w) (\<lambda>(v, w). setInternalField (int i) v d w)"

definition createObjectData :: "ptr \<Rightarrow> ptr \<Rightarrow> 'a world_scheme \<Rightarrow> (ptr \<times> 'a world_scheme) res" where
  "createObjectData this objTemplate w = rbind (newObjectData_of_template objTemplate w) (\<lambda>x.
     let (newData, w) = new_data (ObjectD x) w in
     rbind (internalFieldCount this w) (\<lambda>count.
     rbind (if count > 0 then setInternalFieldCount count newData w else Inr w) (\<lambda>w.
     rbind (foldM (copy_field this newData) [0..<nat count] w) (\<lambda>w. Inr (newData, w)))))"

definition setFunctionObject :: "ptr \<Rightarrow> ptr \<Rightarrow> 'a world_scheme \<Rightarrow> 'a world_scheme res" where
  "setFunctionObject d f w = rbind (load_data d w) (\<lambda>x. rbind (object_of x) (\<lambda>y.
     guard CheckFailed (functionObject y = 0) (Inr (set_data d (with_functionObject f x) w))))"

section \<open>Function data\<close>

text \<open>The members of a function's data are those of its function template.\<close>

definition functionData_member :: "(FunctionTemplateData \<Rightarrow> ptr) \<Rightarrow> ptr \<Rightarrow> 'a world_scheme \<Rightarrow> ptr res" where
  "functionData_member f d w = rbind (load_data d w) (\<lambda>x. rbind (template_of x) (\<lambda>t.
     if t \<noteq> 0 then rbind (getFunctionTemplateExtraData t w) (\<lambda>td. rbind (load_data td w) (\<lambda>y.
       rbind (functionTemplateData_of y) (\<lambda>z. Inr (f z)))) else Inr 0))"

definition fd_isolate :: "ptr \<Rightarrow> 'a world_scheme \<Rightarrow> ptr res" where
  "fd_isolate d w = functionData_member ft_isolate d w"

definition fd_callback :: "ptr \<Rightarrow> 'a world_scheme \<Rightarrow> ptr res" where
  "fd_callback d w = functionData_member ft_callback d w"

definition fd_callbackData :: "ptr \<Rightarrow> 'a world_scheme \<Rightarrow> ptr res" where
  "fd_callbackData d w = functionData_member ft_callbackData d w"

definition fd_signature :: "ptr \<Rightarrow> 'a world_scheme \<Rightarrow> ptr res" where
  "fd_signature d w = functionData_member ft_signature d w"

text \<open>\<open>parent\<close> is the engine's function from a function template to the one it inherits from; the loop
  over it may not end.\<close>

partial_function (option) inherits_from :: "(ptr \<Rightarrow> ptr) \<Rightarrow> ptr \<Rightarrow> ptr \<Rightarrow> bool option" where
  "inherits_from parent t p = (if p = 0 then Some False else if p = t then Some True
     else inherits_from parent t (parent p))"

definition handle_ftpl :: "ptr \<Rightarrow> 'a scopes_scheme \<Rightarrow> ptr res" where
  "handle_ftpl h w = (case handleMem w h of None \<Rightarrow> Inl NullDeref | Some x \<Rightarrow> get_ftpl x)"

text \<open>A loop that does not end is the fault \<open>NoFuel\<close>.\<close>

definition ends :: "'b option \<Rightarrow> 'b res" where
  "ends x = (case x of None \<Rightarrow> Inl NoFuel | Some y \<Rightarrow> Inr y)"

definition checkSignature :: "(ptr \<Rightarrow> ptr) \<Rightarrow> ptr \<Rightarrow> ptr \<Rightarrow> 'a world_scheme \<Rightarrow> bool res" where
  "checkSignature parent d receiver w = rbind (fd_signature d w) (\<lambda>calleeSignature.
     if calleeSignature = 0 then Inr True
     else (case extraData w receiver of None \<Rightarrow> Inr False | Some e \<Rightarrow>
       rbind (rbind (has_kind isObjectData e w) (\<lambda>b. if b then rbind (as_kind isObjectData e w) (\<lambda>r. load_data r w)
           else rbind (has_kind isObjectTemplateData e w) (\<lambda>b.
             if b then rbind (as_kind isObjectTemplateData e w) (\<lambda>r. load_data r w) else Inl CheckFailed)))
         (\<lambda>x. rbind (template_of x) (\<lambda>t. rbind (handle_ftpl calleeSignature w) (\<lambda>callee.
            ends (inherits_from parent callee t))))))"

end
