(* ===== verification/Templates.thy ===== *)
theory Templates
  imports ExtraData
begin

text \<open>
  Templates and calls: \<^verbatim>\<open>FunctionTemplate\<close> and \<^verbatim>\<open>ObjectTemplate\<close> of
  \<^verbatim>\<open>src/src/api-template.cc\<close>, the creation of instances and the calls of
  \<^verbatim>\<open>v8::Function\<close> in \<^verbatim>\<open>src/src/api-data.cc\<close>, and \<^verbatim>\<open>v8::External\<close> in
  \<^verbatim>\<open>src/src/api-environment.cc\<close>.

  What the engine computes is an argument: the template or object it creates, the instance template and the
  parent of a function template, the outcome of a run of JavaScript, whether a value is an object or can be
  called. Handles that are passed in stand for the engine value they hold.
\<close>

section \<open>Handles of templates\<close>

definition NewLocal_handle :: "HandleWrap res \<Rightarrow> 'a scopes_scheme \<Rightarrow> (ptr \<times> 'a scopes_scheme) res" where
  "NewLocal_handle created w = rbind created (\<lambda>h. let (p, w) = alloc_handle h w in CreateHandle p w)"

definition NewLocal_ftpl :: "ptr \<Rightarrow> 'a scopes_scheme \<Rightarrow> (ptr \<times> 'a scopes_scheme) res" where
  "NewLocal_ftpl t w = NewLocal_handle (createFunctionTemplate t) w"

definition NewLocal_otpl :: "ptr \<Rightarrow> 'a scopes_scheme \<Rightarrow> (ptr \<times> 'a scopes_scheme) res" where
  "NewLocal_otpl t w = NewLocal_handle (createObjectTemplate t) w"

text \<open>A result handle, where the code may also return the empty one.\<close>

definition some_local :: "(ptr \<times> 'w) res \<Rightarrow> (ptr option \<times> 'w) res" where
  "some_local r = rbind r (\<lambda>(h, w). Inr (Some h, w))"

section \<open>Function templates\<close>

definition FunctionTemplate_New :: "ptr \<Rightarrow> ptr \<Rightarrow> ptr \<Rightarrow> ptr \<Rightarrow> ptr \<Rightarrow> ptr \<Rightarrow> 'a world_scheme \<Rightarrow> (ptr option \<times> 'a world_scheme) res" where
  "FunctionTemplate_New c_function esFunctionTemplate isolate callback callbackData signature w =
     (if c_function \<noteq> 0 then Inr (None, w)
      else let (functionTemplateData, w) = new_data (FunctionTemplateD
             (newFunctionTemplateData esFunctionTemplate isolate callback callbackData signature)) w in
        rbind (setFunctionTemplateExtraData esFunctionTemplate functionTemplateData w) (\<lambda>w.
        some_local (NewLocal_ftpl esFunctionTemplate w)))"

definition SetCallHandler :: "ptr \<Rightarrow> bool \<Rightarrow> ptr \<Rightarrow> ptr \<Rightarrow> ptr \<Rightarrow> 'a world_scheme \<Rightarrow> 'a world_scheme res" where
  "SetCallHandler c_function hasSideEffect callback callbackData self w = (if c_function \<noteq> 0 \<or> \<not> hasSideEffect then Inr w
     else rbind (getFunctionTemplateExtraData self w) (\<lambda>d. rbind (load_data d w) (\<lambda>x.
       rbind (functionTemplateData_of x) (\<lambda>y.
       Inr (set_data d (FunctionTemplateD (y\<lparr>ft_callback := callback, ft_callbackData := callbackData\<rparr>)) w)))))"

definition InstanceTemplate :: "(ptr \<Rightarrow> ptr) \<Rightarrow> ptr \<Rightarrow> 'a world_scheme \<Rightarrow> (ptr \<times> 'a world_scheme) res" where
  "InstanceTemplate instanceTemplate self w = rbind (getFunctionTemplateExtraData self w) (\<lambda>functionTemplateData.
     guard CheckFailed (functionTemplateData \<noteq> 0)
     (let esObjectTemplate = instanceTemplate self in
      rbind (getObjectTemplateExtraData esObjectTemplate w) (\<lambda>objectTemplateData.
      rbind (if objectTemplateData \<noteq> 0 then Inr w
             else let (d, w) = new_data (ObjectTemplateD (newTemplateData self)) w in
               setObjectTemplateExtraData esObjectTemplate d w) (\<lambda>w.
      guard NullDeref (s_currentIsolate w \<noteq> 0) (NewLocal_otpl esObjectTemplate w)))))"

definition GetFunction :: "ptr \<Rightarrow> ptr \<Rightarrow> 'a world_scheme \<Rightarrow> (ptr option \<times> 'a world_scheme) res" where
  "GetFunction esFunction self w = (if IsExecutionTerminating w then Inr (None, w)
     else rbind (getFunctionTemplateExtraData self w) (\<lambda>_.
       rbind (case extraData w esFunction of None \<Rightarrow> Inl CheckFailed | Some functionData \<Rightarrow>
         rbind (has_kind isFunctionTemplateData functionData w) (\<lambda>b. if b
           then let (newFunctionData, w) = new_data (FunctionD (newObjectData self 0 0)) w in
             Inr (setObjectData esFunction newFunctionData w)
           else rbind (has_kind isFunctionData functionData w) (\<lambda>b. guard CheckFailed b (Inr w)))) (\<lambda>w.
       some_local (NewLocal esFunction w))))"

definition HasInstance :: "(ptr \<Rightarrow> ptr) \<Rightarrow> (ptr \<Rightarrow> bool) \<Rightarrow> ptr \<Rightarrow> ptr \<Rightarrow> 'a world_scheme \<Rightarrow> bool res" where
  "HasInstance parent obj esValue self w = (if \<not> obj esValue then Inr False
     else (case extraData w esValue of None \<Rightarrow> Inr False | Some e \<Rightarrow>
       rbind (rbind (has_kind isObjectData e w) (\<lambda>b. if b
           then rbind (as_kind isObjectData e w) (\<lambda>d. rbind (load_data d w) (\<lambda>x. rbind (object_of x) (\<lambda>y.
             if objectTemplate y \<noteq> 0 then rbind (getObjectTemplateExtraData (objectTemplate y) w) (\<lambda>od.
               rbind (load_data od w) template_of) else Inr 0)))
           else rbind (has_kind isObjectTemplateData e w) (\<lambda>b. if b
             then rbind (as_kind isObjectTemplateData e w) (\<lambda>d. rbind (load_data d w) template_of) else Inl CheckFailed)))
         (\<lambda>esOtherFunctionTemplate. ends (inherits_from parent self esOtherFunctionTemplate))))"

section \<open>Object templates\<close>

definition ObjectTemplate_New :: "ptr \<Rightarrow> ptr option \<Rightarrow> 'a world_scheme \<Rightarrow> (ptr \<times> 'a world_scheme) res" where
  "ObjectTemplate_New esObjectTemplate constr w =
     rbind (case constr of None \<Rightarrow> Inr 0 | Some h \<Rightarrow> handle_ftpl h w) (\<lambda>esFunctionTemplate.
     let (d, w) = new_data (ObjectTemplateD (newTemplateData esFunctionTemplate)) w in
     rbind (setObjectTemplateExtraData esObjectTemplate d w) (NewLocal_otpl esObjectTemplate))"

definition ObjectTemplate_SetInternalFieldCount :: "bool \<Rightarrow> ptr \<Rightarrow> int \<Rightarrow> 'a world_scheme \<Rightarrow> 'a world_scheme res" where
  "ObjectTemplate_SetInternalFieldCount didInstantiate self n w = (if didInstantiate then Inr w
     else ObjectTemplate_setInternalFieldCount self n w)"

definition ObjectTemplate_NewInstance :: "ptr \<Rightarrow> ptr \<Rightarrow> 'a world_scheme \<Rightarrow> (ptr option \<times> 'a world_scheme) res" where
  "ObjectTemplate_NewInstance esNewObject self w = (if IsExecutionTerminating w then Inr (None, w)
     else rbind (getObjectTemplateExtraData self w) (\<lambda>objectTemplateData.
       case extraData w esNewObject of None \<Rightarrow> Inl CheckFailed | Some e \<Rightarrow>
         rbind (has_kind isObjectTemplateData e w) (\<lambda>b. guard CheckFailed b
           (rbind (createObjectData objectTemplateData self w) (\<lambda>(d, w).
            some_local (NewLocal esNewObject (setObjectData esNewObject d w)))))))"

section \<open>The native function of a template\<close>

definition getFunctionDataFromCallee :: "ptr \<Rightarrow> 'a world_scheme \<Rightarrow> (ptr \<times> 'a world_scheme) res" where
  "getFunctionDataFromCallee callee w = (case extraData w callee of None \<Rightarrow> Inl NullDeref | Some e \<Rightarrow>
     rbind (has_kind isFunctionData e w) (\<lambda>b. if b then rbind (as_kind isFunctionData e w) (\<lambda>d. Inr (d, w))
     else rbind (has_kind isFunctionTemplateData e w) (\<lambda>b. if b
       then rbind (as_kind isFunctionTemplateData e w) (\<lambda>d. rbind (load_data d w) (\<lambda>x. rbind (template_of x) (\<lambda>t.
         Inr (new_data (FunctionD (newObjectData t 0 0)) w))))
       else Inl CheckFailed)))"

definition setExtraDataToNewObjectInstance :: "(ptr \<Rightarrow> ptr) \<Rightarrow> ptr \<Rightarrow> ptr \<Rightarrow> 'a world_scheme \<Rightarrow> 'a world_scheme res" where
  "setExtraDataToNewObjectInstance instanceTemplate thisValue newTarget w =
     rbind (getFunctionExtraData newTarget w) (\<lambda>targetData. if targetData = 0 then Inr w
     else rbind (load_data targetData w) (\<lambda>x. rbind (template_of x) (\<lambda>t. guard NullDeref (t \<noteq> 0)
       (let objTemplate = instanceTemplate t in
        rbind (getObjectTemplateExtraData_of_object thisValue w) (\<lambda>newInstanceData.
        if newInstanceData \<noteq> 0 then rbind (createObjectData newInstanceData objTemplate w) (\<lambda>(d, w).
          Inr (setObjectData thisValue d w))
        else rbind (getObjectTemplateExtraData objTemplate w) (\<lambda>objectTemplateData.
          if objectTemplateData \<noteq> 0 then rbind (createObjectData objectTemplateData objTemplate w) (\<lambda>(d, w).
            Inr (setObjectData thisValue d w))
          else let (d, w) = new_data (ObjectD (newObjectData t 0 0)) w in Inr (setObjectData thisValue d w)))))))"

text \<open>How a native function ends: with an exception thrown into the engine, with the null pointer, or with a
  value. \<open>invoke\<close> is the embedder's callback, which returns the handle of its result or none.\<close>

datatype native_result = Threw ptr | ReturnedNull | Returned ptr

definition runNativeFunctionCallback ::
  "(ptr \<Rightarrow> ptr) \<Rightarrow> (ptr \<Rightarrow> bool) \<Rightarrow> (ptr \<Rightarrow> ptr \<Rightarrow> 'a world_scheme \<Rightarrow> (ptr option \<times> 'a world_scheme) res) \<Rightarrow>
   bool list \<Rightarrow> ptr \<Rightarrow> ptr \<Rightarrow> ptr \<Rightarrow> ptr \<Rightarrow> 'a world_scheme \<Rightarrow> (native_result \<times> 'a world_scheme) res" where
  "runNativeFunctionCallback parent obj invoke state errorObject undef functionData thisValue w =
     rbind (checkSignature parent functionData thisValue w) (\<lambda>matches. if \<not> matches
     then rbind (ScheduleThrow errorObject w) (\<lambda>w. rbind (ThrowErrorIfHasException obj state w) (\<lambda>(thrown, w).
       Inr (case thrown of Some e \<Rightarrow> Threw e | None \<Rightarrow> ReturnedNull, w)))
     else rbind (fd_callback functionData w) (\<lambda>callback. if callback = 0 then Inr (Returned undef, w)
     else rbind (fd_callbackData functionData w) (\<lambda>callbackData.
       rbind (invoke callback callbackData (increaseCallDepth w)) (\<lambda>(h, w).
       rbind (ThrowErrorIfHasException obj state (decreaseCallDepth w)) (\<lambda>(thrown, w).
       case thrown of Some e \<Rightarrow> Inr (Threw e, w) | None \<Rightarrow>
         (case h of None \<Rightarrow> Inr (Returned undef, w)
          | Some r \<Rightarrow> rbind (handle_value (Some r) w) (\<lambda>v. Inr (Returned v, w))))))))"

definition FunctionTemplateNativeFunction ::
  "(ptr \<Rightarrow> ptr) \<Rightarrow> (ptr \<Rightarrow> ptr) \<Rightarrow> (ptr \<Rightarrow> bool) \<Rightarrow> (ptr \<Rightarrow> ptr \<Rightarrow> 'a world_scheme \<Rightarrow> (ptr option \<times> 'a world_scheme) res) \<Rightarrow>
   bool list \<Rightarrow> ptr \<Rightarrow> ptr \<Rightarrow> ptr \<Rightarrow> ptr \<Rightarrow> ptr option \<Rightarrow> 'a world_scheme \<Rightarrow> (native_result \<times> 'a world_scheme) res" where
  "FunctionTemplateNativeFunction parent instanceTemplate obj invoke state errorObject undef callee thisValue newTarget w =
     rbind (getFunctionDataFromCallee callee w) (\<lambda>(functionData, w).
     rbind (case newTarget of Some target \<Rightarrow> setExtraDataToNewObjectInstance instanceTemplate thisValue target w
            | None \<Rightarrow> Inr w) (\<lambda>w.
     rbind (runNativeFunctionCallback parent obj invoke state errorObject undef functionData thisValue w) (\<lambda>(r, w).
     Inr (case r of Threw e \<Rightarrow> Threw e | ReturnedNull \<Rightarrow> Returned undef
          | Returned v \<Rightarrow> (if newTarget \<noteq> None then Returned thisValue else Returned v), w))))"

section \<open>Functions\<close>

text \<open>The outcome of a run in the engine: a result, or an error with its stack trace.\<close>

datatype eval_result = Success ptr | Failure ptr "StackTraceData list"

definition Function_NewInstance :: "(ptr \<Rightarrow> bool) \<Rightarrow> eval_result \<Rightarrow> ptr \<Rightarrow> 'a world_scheme \<Rightarrow> (ptr option \<times> 'a world_scheme) res" where
  "Function_NewInstance obj r esFunction w = (if IsExecutionTerminating w then Inr (None, w) else case r of
     Failure e stackTrace \<Rightarrow> rbind (handleException obj e stackTrace w) (\<lambda>w. Inr (None, w))
   | Success esNewObject \<Rightarrow>
       rbind (case extraData w esNewObject of None \<Rightarrow> Inr 0 | Some e \<Rightarrow> as_kind isObjectData e w) (\<lambda>existing.
       rbind (case extraData w esFunction of
           Some functionData \<Rightarrow> rbind (has_kind isFunctionData functionData w) (\<lambda>b. guard CheckFailed b
             (if existing \<noteq> 0 then setFunctionObject existing esFunction w
              else let (d, w) = new_data (ObjectD (newObjectData 0 0 esFunction)) w in Inr (setObjectData esNewObject d w)))
         | None \<Rightarrow> guard CheckFailed (existing = 0)
             (let (d, w) = new_data (ObjectD (newObjectData 0 0 esFunction)) w in Inr (setObjectData esNewObject d w))) (\<lambda>w.
       some_local (NewLocal esNewObject w))))"

text \<open>\<open>run\<close> is the call in the engine and \<open>trace\<close> the stack trace it records when an exception is thrown
  after it; \<open>onUncaught\<close> is set when the process is to abort on an uncaught exception.\<close>

definition Function_Call :: "(ptr \<Rightarrow> bool) \<Rightarrow> bool \<Rightarrow> bool \<Rightarrow> ('a world_scheme \<Rightarrow> (eval_result \<times> 'a world_scheme) res) \<Rightarrow>
   bool list \<Rightarrow> StackTraceData list \<Rightarrow> 'a world_scheme \<Rightarrow> (ptr option \<times> 'a world_scheme) res" where
  "Function_Call obj callable onUncaught run state trace w = (if IsExecutionTerminating w then Inr (None, w)
     else guard CheckFailed callable (rbind (run (increaseCallDepth w)) (\<lambda>(r, w).
      rbind (case r of Failure e st \<Rightarrow> Inr (r, w) | Success v \<Rightarrow>
          rbind (ThrowErrorIfHasException obj state w) (\<lambda>(thrown, w).
          Inr (case thrown of Some e \<Rightarrow> Failure e trace | None \<Rightarrow> Success v, w))) (\<lambda>(r, w).
      let w = decreaseCallDepth w in
      case r of
        Failure e st \<Rightarrow> guard FatalError (\<not> onUncaught)
          (rbind (if hasCallDepth w then ScheduleThrow e w
             else rbind (SetPendingExceptionAndMessage obj e st w) (ReportPendingMessages obj False)) (\<lambda>w. Inr (None, w)))
      | Success v \<Rightarrow> if sholdReportPendingMessage False w
          then rbind (ReportPendingMessages obj False w) (\<lambda>w. Inr (None, w))
          else some_local (NewLocal v w)))))"

section \<open>Externals\<close>

definition External_New :: "ptr \<Rightarrow> ptr \<Rightarrow> 'a world_scheme \<Rightarrow> (ptr \<times> 'a world_scheme) res" where
  "External_New esObject val w = rbind (GetCurrentContext w) (\<lambda>_.
     let (d, w) = new_data (ExternalD (newObjectData 0 0 0)) w in
     rbind (setInternalFieldCount 1 d w) (\<lambda>w. rbind (setInternalField 0 val d w) (\<lambda>w.
     NewLocal esObject (setObjectData esObject d w))))"

definition External_Value :: "ptr \<Rightarrow> 'a world_scheme \<Rightarrow> (ptr \<times> 'a world_scheme) res" where
  "External_Value esObject w = (case extraData w esObject of None \<Rightarrow> Inl CheckFailed | Some e \<Rightarrow>
     rbind (as_kind isExternalObjectData e w) (\<lambda>d. internalField 0 d w))"

definition IsExternal :: "(ptr \<Rightarrow> bool) \<Rightarrow> ptr \<Rightarrow> 'a world_scheme \<Rightarrow> bool res" where
  "IsExternal obj esSelf w = (if \<not> obj esSelf then Inr False
     else (case extraData w esSelf of None \<Rightarrow> Inr False | Some e \<Rightarrow> has_kind isExternalObjectData e w))"

end
