(* ===== verification/FieldProps.thy ===== *)
theory FieldProps
  imports Templates
begin

text \<open>
  Internal fields: the operations on the fields of extra data refine operations on lists, objects created from
  an object template get fields of their own, and what happens on data that has no fields.
\<close>

section \<open>Loading and storing\<close>

lemma set_data_simps [simp]:
  "dataMem (set_data d x w) = (dataMem w)(d \<mapsto> x)" "nextData (set_data d x w) = nextData w"
  "fatal_error_callback (set_data d x w) = fatal_error_callback w" "s_currentIsolate (set_data d x w) = s_currentIsolate w"
  "fatalReports (set_data d x w) = fatalReports w" "extraData (set_data d x w) = extraData w"
  "otplExtra (set_data d x w) = otplExtra w" "ftplExtra (set_data d x w) = ftplExtra w"
  "handleMem (set_data d x w) = handleMem w" "handleScopes (set_data d x w) = handleScopes w"
  "nextHandle (set_data d x w) = nextHandle w"
  by (simp_all add: set_data_def)

lemma fst_new_data [simp]: "fst (new_data x w) = nextData w"
  by (simp add: new_data_def)

lemma fields_with_fields [simp]: "fields_of x = Inr f \<Longrightarrow> fields_of (with_fields g x) = Inr g"
  by (cases x) auto

lemma with_fields_twice [simp]: "with_fields f (with_fields g x) = with_fields f x"
  by (cases x) auto

lemma load_fields_eq: "load_fields d w = Inr f \<longleftrightarrow> (\<exists>x. dataMem w d = Some x \<and> fields_of x = Inr f)"
  by (auto simp: load_fields_def load_data_def rbind_eq_Inr split: option.splits)

lemma store_fields_eq: "dataMem w d = Some x \<Longrightarrow> store_fields d f w = Inr (set_data d (with_fields f x) w)"
  by (simp add: store_fields_def load_data_def)

lemma internalFieldCount_eq:
  "load_fields d w = Inr f \<Longrightarrow> internalFieldCount d w = Inr (case f of None \<Rightarrow> 0 | Some c \<Rightarrow> to_int (length c))"
  by (simp add: internalFieldCount_def)

lemma isValidIndex_eq:
  "load_fields d w = Inr (Some c) \<Longrightarrow> length c < 2 ^ 31 \<Longrightarrow> isValidIndex d idx w = Inr (0 \<le> idx \<and> idx < int (length c))"
  by (simp add: isValidIndex_def internalFieldCount_eq to_int_small)

lemma setInternalField_in:
  assumes "dataMem w d = Some x" "fields_of x = Inr (Some c)" "length c < 2 ^ 31" "i < length c"
  shows "setInternalField (int i) v d w = Inr (set_data d (with_fields (Some (c[i := v])) x) w)"
proof -
  have l: "load_fields d w = Inr (Some c)" using assms by (auto simp: load_fields_eq)
  show ?thesis using assms by (simp add: setInternalField_def l isValidIndex_eq[OF l] container_set_def store_fields_eq)
qed

lemma internalField_in:
  assumes "dataMem w d = Some x" "fields_of x = Inr (Some c)" "length c < 2 ^ 31" "i < length c"
  shows "internalField (int i) d w = Inr (c ! i, w)"
proof -
  have l: "load_fields d w = Inr (Some c)" using assms by (auto simp: load_fields_eq)
  show ?thesis using assms by (simp add: internalField_def l isValidIndex_eq[OF l] container_get_def)
qed

lemma set_data_twice [simp]: "set_data d y (set_data d x w) = set_data d y w"
  by (simp add: set_data_def)

text \<open>A loop that writes all fields of a fresh container.\<close>

lemma fill_fields:
  assumes "dataMem w d = Some x" "fields_of x = Inr (Some c)" "length c < 2 ^ 31" "n \<le> length c"
  shows "foldM (\<lambda>i. setInternalField (int i) (f i) d) [0..<n] w =
    Inr (if n = 0 then w else set_data d (with_fields (Some (map f [0..<n] @ drop n c)) x) w)"
  using assms(4)
proof (induction n)
  case (Suc n)
  let ?c = "map f [0..<n] @ drop n c"
  let ?w = "if n = 0 then w else set_data d (with_fields (Some ?c) x) w"
  let ?x = "if n = 0 then x else with_fields (Some ?c) x"
  have "dataMem ?w d = Some ?x" "fields_of ?x = Inr (Some ?c)" using assms(1,2) by auto
  then have "setInternalField (int n) (f n) d ?w = Inr (set_data d (with_fields (Some (?c[n := f n])) ?x) ?w)"
    using assms(3) Suc.prems by (intro setInternalField_in) auto
  moreover have "?c[n := f n] = map f [0..<Suc n] @ drop (Suc n) c"
    using Suc.prems by (simp add: list_update_append Cons_nth_drop_Suc[symmetric])
  ultimately show ?case using Suc by (simp add: foldM_snoc del: upt_Suc) (auto simp: foldM_snoc)
qed simp

lemma setInternalFieldCount_pos:
  assumes "dataMem w d = Some x" "fields_of x = Inr f" "0 < n" "n < 2 ^ 31"
  shows "setInternalFieldCount n d w = Inr (set_data d (with_fields (Some (replicate (nat n) 0)) x) w)"
proof -
  let ?x = "with_fields (Some (newContainer (nat n))) x"
  have "foldM (\<lambda>i. setInternalField (int i) 0 d) [0..<nat n] (set_data d ?x w) =
    Inr (set_data d (with_fields (Some (replicate (nat n) 0)) ?x) (set_data d ?x w))"
    using fill_fields[of "set_data d ?x w" d ?x "newContainer (nat n)" "nat n" "\<lambda>_. 0"] assms
    by (auto simp: newContainer_def map_replicate_const split: if_splits)
  then show ?thesis using assms by (simp add: setInternalFieldCount_def store_fields_eq)
qed

section \<open>Fields as lists\<close>

datatype field_op = SetCount int | SetField int ptr

fun exec_field :: "ptr \<Rightarrow> field_op \<Rightarrow> 'a world_scheme \<Rightarrow> 'a world_scheme res" where
  "exec_field d (SetCount n) w = setInternalFieldCount n d w"
| "exec_field d (SetField i v) w = setInternalField i v d w"

text \<open>What the operations do to the list of fields; \<open>h\<close> tells whether the embedder handles fatal errors.\<close>

fun field_step :: "bool \<Rightarrow> field_op \<Rightarrow> ptr list option \<Rightarrow> ptr list option res" where
  "field_step h (SetCount n) f = (if n > 0 then Inr (Some (replicate (nat n) 0)) else if h then Inr f else Inl CheckFailed)"
| "field_step h (SetField i v) None = Inl CheckFailed"
| "field_step h (SetField i v) (Some c) = (if 0 \<le> i \<and> nat i < length c then Inr (Some (c[nat i := v]))
     else if h then Inr (Some c) else Inl CheckFailed)"

fun small_count :: "field_op \<Rightarrow> bool" where
  "small_count (SetCount n) = (n < 2 ^ 31)"
| "small_count (SetField _ _) = True"

lemma out_of_bounds_eq:
  "s_currentIsolate w \<noteq> 0 \<Longrightarrow> out_of_bounds l w = (if fatal_error_callback w
     then Inr (w\<lparr>fatalReports := fatalReports w @ [(l, ''Internal field out of bounds'')]\<rparr>) else Inl CheckFailed)"
  by (simp add: out_of_bounds_def onFatalError_def)

lemma field_step_refines:
  assumes "load_fields d w = Inr f" "s_currentIsolate w \<noteq> 0" "small_count p" "case f of None \<Rightarrow> True | Some c \<Rightarrow> length c < 2 ^ 31"
  shows "case field_step (fatal_error_callback w) p f of Inl e \<Rightarrow> exec_field d p w = Inl e
    | Inr f' \<Rightarrow> (\<exists>w'. exec_field d p w = Inr w' \<and> load_fields d w' = Inr f' \<and> s_currentIsolate w' = s_currentIsolate w \<and>
        fatal_error_callback w' = fatal_error_callback w \<and> (case f' of None \<Rightarrow> True | Some c \<Rightarrow> length c < 2 ^ 31))"
proof -
  obtain x where x: "dataMem w d = Some x" "fields_of x = Inr f" using assms(1) by (auto simp: load_fields_eq)
  show ?thesis
  proof (cases p)
    case (SetCount n)
    show ?thesis
    proof (cases "n > 0")
      case True
      then show ?thesis using SetCount x assms setInternalFieldCount_pos[OF x True]
        by (auto simp: load_fields_eq)
    next
      case False
      then show ?thesis using SetCount x assms
        by (auto simp: setInternalFieldCount_def out_of_bounds_eq load_fields_eq)
    qed
  next
    case (SetField i v)
    show ?thesis
    proof (cases f)
      case None
      then show ?thesis using SetField assms(1) by (simp add: setInternalField_def)
    next
      case (Some c)
      show ?thesis
      proof (cases "0 \<le> i \<and> nat i < length c")
        case True
        then show ?thesis using SetField Some x assms setInternalField_in[of w d x c "nat i" v]
          by (auto simp: load_fields_eq)
      next
        case False
        then have "\<not> (0 \<le> i \<and> i < int (length c))" by auto
        then have "setInternalField i v d w = out_of_bounds ''InternalFieldData::setInternalField'' w"
          using Some assms by (simp add: setInternalField_def isValidIndex_eq)
        then show ?thesis using SetField Some False x assms by (auto simp: out_of_bounds_eq load_fields_eq)
      qed
    qed
  qed
qed

lemma field_steps_refine:
  assumes "load_fields d w = Inr f" "s_currentIsolate w \<noteq> 0" "list_all small_count ps" "case f of None \<Rightarrow> True | Some c \<Rightarrow> length c < 2 ^ 31"
  shows "rbind (foldM (exec_field d) ps w) (load_fields d) = foldM (field_step (fatal_error_callback w)) ps f"
  using assms
proof (induction ps arbitrary: w f)
  case (Cons p ps)
  show ?case
  proof (cases "field_step (fatal_error_callback w) p f")
    case (Inl e)
    then show ?thesis using field_step_refines[OF Cons.prems(1,2) _ Cons.prems(4), of p] Cons.prems(3) by simp
  next
    case (Inr f')
    obtain w' where w': "exec_field d p w = Inr w'" "load_fields d w' = Inr f'" "s_currentIsolate w' = s_currentIsolate w"
      "fatal_error_callback w' = fatal_error_callback w" "case f' of None \<Rightarrow> True | Some c \<Rightarrow> length c < 2 ^ 31"
      using field_step_refines[OF Cons.prems(1,2) _ Cons.prems(4), of p] Cons.prems(3) Inr by auto
    then show ?thesis using Cons.IH[OF w'(2)] Cons.prems Inr by simp
  qed
qed simp

section \<open>Handles\<close>

definition can_handle :: "'a scopes_scheme \<Rightarrow> bool" where
  "can_handle w = (s_currentIsolate w \<noteq> 0 \<and> handleScopes w \<noteq> [] \<and> scope_type_of (last (handleScopes w)) \<noteq> Sealed \<and>
     nextHandle w > 0)"

definition with_local :: "HandleWrap \<Rightarrow> 'a scopes_scheme \<Rightarrow> 'a scopes_scheme" where
  "with_local h w = w\<lparr>handleMem := (handleMem w)(nextHandle w \<mapsto> h), nextHandle := Suc (nextHandle w),
     handleScopes := butlast (handleScopes w) @ [grow [nextHandle w] (last (handleScopes w))]\<rparr>"

lemma NewLocal_handle_eq:
  assumes "can_handle w" "isValid h" "h_location h = Local"
  shows "NewLocal_handle (Inr h) w = Inr (nextHandle w, with_local h w)" "can_handle (with_local h w)"
proof -
  let ?u = "w\<lparr>handleMem := (handleMem w)(nextHandle w \<mapsto> h), nextHandle := Suc (nextHandle w)\<rparr>"
  have s: "handleScopes ?u = butlast (handleScopes w) @ [last (handleScopes w)]" using assms(1) by (simp add: can_handle_def)
  have "isCurrentScopeSealed ?u = Inr False" using assms(1) by (auto simp: can_handle_def isCurrentScopeSealed_def)
  then show "NewLocal_handle (Inr h) w = Inr (nextHandle w, with_local h w)"
    using assms add_handle[OF s] by (simp add: NewLocal_handle_def alloc_handle_def CreateHandle_def with_local_def can_handle_def)
  show "can_handle (with_local h w)" using assms(1) by (simp add: can_handle_def with_local_def)
qed

lemma NewLocal_eq:
  assumes "can_handle w" "v \<noteq> 0"
  shows "NewLocal v w = Inr (nextHandle w, with_local (js_handle v) w)" "can_handle (with_local (js_handle v) w)"
proof -
  have "NewLocal v w = NewLocal_handle (Inr (js_handle v)) w"
    using assms(2) by (simp add: NewLocal_def NewLocal_handle_def createValue_js)
  then show "NewLocal v w = Inr (nextHandle w, with_local (js_handle v) w)" "can_handle (with_local (js_handle v) w)"
    using NewLocal_handle_eq[OF assms(1), of "js_handle v"] by simp_all
qed

lemma with_local_simps [simp]:
  "dataMem (with_local h w) = dataMem w" "nextData (with_local h w) = nextData w" "extraData (with_local h w) = extraData w"
  "otplExtra (with_local h w) = otplExtra w" "ftplExtra (with_local h w) = ftplExtra w"
  "s_currentIsolate (with_local h w) = s_currentIsolate w" "fatal_error_callback (with_local h w) = fatal_error_callback w"
  by (simp_all add: with_local_def)

section \<open>Instances\<close>

lemma newObjectData_simps [simp]:
  "fields_of (ObjectD (newObjectData ft ot fo)) = Inr None" "template_of (ObjectD (newObjectData ft ot fo)) = Inr ft"
  "object_of (ObjectD (newObjectData ft ot fo)) = Inr (newObjectData ft ot fo)"
  "objectTemplate (newObjectData ft ot fo) = ot" "functionObject (newObjectData ft ot fo) = fo"
  "functionTemplate (newObjectData ft ot fo) = ft" "internalFields (newObjectData ft ot fo) = None"
  "(newObjectData ft ot fo)\<lparr>internalFields := None\<rparr> = newObjectData ft ot fo"
  by (simp_all add: newObjectData_def newTemplateData_def TemplateData.defs ObjectData.defs)

lemma getObjectTemplateExtraData_eq:
  "otplExtra w t = d \<Longrightarrow> d \<noteq> 0 \<Longrightarrow> dataMem w d = Some (ObjectTemplateD x) \<Longrightarrow> getObjectTemplateExtraData t w = Inr d"
  by (simp add: getObjectTemplateExtraData_def as_kind_def load_data_def)

text \<open>A new data object with a copy of the fields of \<open>this\<close>.\<close>

lemma createObjectData_eq:
  assumes "dataMem w this = Some y" "fields_of y = Inr f" "case f of None \<Rightarrow> True | Some c \<Rightarrow> 0 < length c \<and> length c < 2 ^ 31"
    and "otplExtra w t = d" "d \<noteq> 0" "dataMem w d = Some (ObjectTemplateD x)" "dataMem w (nextData w) = None"
  shows "createObjectData this t w = Inr (nextData w, snd (new_data (with_fields f (ObjectD (newObjectData (functionTemplate x) t 0))) w))"
proof -
  let ?n = "nextData w" and ?x = "ObjectD (newObjectData (functionTemplate x) t 0)"
  let ?w = "snd (new_data ?x w)"
  have n: "newObjectData_of_template t w = Inr (newObjectData (functionTemplate x) t 0)"
    using getObjectTemplateExtraData_eq[OF assms(4-6)] assms(6) by (simp add: newObjectData_of_template_def load_data_def)
  have nt: "this \<noteq> ?n" using assms(1,7) by auto
  have w: "dataMem ?w ?n = Some ?x" "dataMem ?w this = Some y" using assms(1) nt by (auto simp: new_data_def)
  have c: "internalFieldCount this ?w = Inr (case f of None \<Rightarrow> 0 | Some c \<Rightarrow> to_int (length c))"
    using w assms(2) by (auto simp: load_fields_eq intro: internalFieldCount_eq)
  show ?thesis
  proof (cases f)
    case None
    then show ?thesis using n c by (simp add: createObjectData_def new_data_def newObjectData_def newTemplateData_def
          TemplateData.defs ObjectData.defs)
  next
    case (Some cs)
    let ?m = "length cs"
    have m: "0 < ?m" "?m < 2 ^ 31" "to_int ?m = int ?m" using assms(3) Some to_int_small by auto
    let ?z = "with_fields (Some (replicate ?m 0)) ?x"
    have s: "setInternalFieldCount (int ?m) ?n ?w = Inr (set_data ?n ?z ?w)"
      using setInternalFieldCount_pos[of ?w ?n ?x None "int ?m"] w m by simp
    have copy: "foldM (copy_field this ?n) [0..<k] (set_data ?n ?z ?w) =
      Inr (if k = 0 then set_data ?n ?z ?w else set_data ?n (with_fields (Some (take k cs @ replicate (?m - k) 0)) ?x) ?w)"
      if "k \<le> ?m" for k
      using that
    proof (induction k)
      case (Suc k)
      let ?c = "take k cs @ replicate (?m - k) 0"
      let ?u = "set_data ?n (with_fields (Some ?c) ?x) ?w"
      have u: "foldM (copy_field this ?n) [0..<k] (set_data ?n ?z ?w) = Inr ?u" using Suc by (cases "k = 0") auto
      have g: "internalField (int k) this ?u = Inr (cs ! k, ?u)"
        by (rule internalField_in) (use w nt assms(2) Some m Suc.prems in auto)
      have p: "setInternalField (int k) (cs ! k) ?n ?u = Inr (set_data ?n (with_fields (Some (?c[k := cs ! k])) (with_fields (Some ?c) ?x)) ?u)"
        by (rule setInternalField_in) (use m Suc.prems in auto)
      have e: "?c[k := cs ! k] = take (Suc k) cs @ replicate (?m - Suc k) 0"
        using Suc.prems by (cases "?m - k") (auto simp: list_update_append take_Suc_conv_app_nth Suc_diff_Suc)
      have "copy_field this ?n k ?u =
        Inr (set_data ?n (with_fields (Some (take (Suc k) cs @ replicate (?m - Suc k) 0)) ?x) ?w)"
        unfolding copy_field_def g using p unfolding e by simp
      moreover have "foldM (copy_field this ?n) [0..<Suc k] (set_data ?n ?z ?w) = copy_field this ?n k ?u"
        using u by (simp add: foldM_snoc del: with_fields.simps)
      ultimately show ?case by (simp del: with_fields.simps)
    qed simp
    have "fst (new_data ?x w) = ?n" by (simp add: new_data_def)
    moreover have "set_data ?n (with_fields (Some cs) ?x) ?w = snd (new_data (with_fields (Some cs) ?x) w)"
      by (simp add: set_data_def new_data_def)
    moreover have "foldM (copy_field this ?n) [0..<?m] (set_data ?n ?z ?w) = Inr (set_data ?n (with_fields (Some cs) ?x) ?w)"
      using copy[of ?m] m(1) by (simp del: with_fields.simps)
    ultimately show ?thesis using n c s m Some by (simp add: createObjectData_def case_prod_beta del: with_fields.simps)
  qed
qed

section \<open>Properties\<close>

text \<open>C17. The fields of extra data behave as a list: a sequence of operations that set the number of fields and
  set fields by index leaves exactly what the same operations leave in a list, an index outside of it is
  refused without a change, and the process only ends when the embedder does not handle the error.\<close>

theorem internal_fields_refine_lists:
  assumes "load_fields d w = Inr f" "s_currentIsolate w \<noteq> 0" "list_all small_count ps"
    and "case f of None \<Rightarrow> True | Some c \<Rightarrow> length c < 2 ^ 31"
  shows "rbind (foldM (exec_field d) ps w) (load_fields d) = foldM (field_step (fatal_error_callback w)) ps f"
  using assms by (rule field_steps_refine)

definition empty_world :: world where
  "empty_world = exc.extend (isolate.extend (scopes.extend (base_scopes [7 \<mapsto> js_handle 3] False) (isolate.fields StateActive
      (newGlobalHandles 1) [] (\<lambda>_. None) [] [] 2 1 0 0 0 (replicate 7 0) [] None None False []))
    (exc.fields (\<lambda>_. None) 0 0 0 0 0 None (\<lambda>_. None) 1000 [])) (world.fields (\<lambda>_. None) 1 (\<lambda>_. 0) (\<lambda>_. 0))"

definition ready_world :: world where
  "ready_world = empty_world\<lparr>s_currentIsolate := 1, contextScopes := [9]\<rparr>"

lemmas ready_world_defs = ready_world_def empty_world_def base_scopes_def scopes.defs isolate.defs exc.defs world.defs

lemma ready_world_simps [simp]:
  "exc_inv ready_world" "can_handle ready_world" "s_currentIsolate ready_world = 1" "dataMem ready_world = (\<lambda>_. None)"
  "nextData ready_world = 1" "extraData ready_world = (\<lambda>_. None)" "otplExtra ready_world = (\<lambda>_. 0)"
  "ftplExtra ready_world = (\<lambda>_. 0)" "contextScopes ready_world = [9]" "callDepth ready_world = 0"
  "handleMem ready_world = [7 \<mapsto> js_handle 3]" "fatal_error_callback ready_world = False"
  "try_catch_handler ready_world = 0" "pending_exception_obj ready_world = 0" "scheduled_exception ready_world = 0"
  by (simp_all add: ready_world_defs exc_inv_def can_handle_def fresh_mem_def newScope_def)

theorem internal_fields_refine_lists_witness:
  "rbind (foldM (exec_field 1) [SetCount 2, SetField 1 8] (snd (new_data (ExternalD (newObjectData 0 0 0)) ready_world))) (load_fields 1)
     = Inr (Some [0, 8])"
proof -
  let ?w = "snd (new_data (ExternalD (newObjectData 0 0 0)) ready_world)"
  have "load_fields 1 ?w = Inr None" "s_currentIsolate ?w \<noteq> 0" by (simp_all add: load_fields_def load_data_def new_data_def)
  from internal_fields_refine_lists[OF this, of "[SetCount 2, SetField 1 8]"] show ?thesis by (simp add: numeral_2_eq_2)
qed

lemma NewInstance_eq:
  assumes "can_handle w" "otplExtra w t = d" "d \<noteq> 0" "dataMem w d = Some (ObjectTemplateD x)" "dataMem w (nextData w) = None"
    and "case internalFields x of None \<Rightarrow> True | Some c \<Rightarrow> 0 < length c \<and> length c < 2 ^ 31"
    and "extraData w o' = Some (OtherExtraData d)" "o' \<noteq> 0"
  shows "ObjectTemplate_NewInstance o' t w = Inr (Some (nextHandle w), with_local (js_handle o') (setObjectData o' (nextData w)
    (snd (new_data (with_fields (internalFields x) (ObjectD (newObjectData (functionTemplate x) t 0))) w))))"
proof -
  let ?u = "setObjectData o' (nextData w) (snd (new_data (with_fields (internalFields x) (ObjectD (newObjectData (functionTemplate x) t 0))) w))"
  have u: "can_handle ?u" "nextHandle ?u = nextHandle w" using assms(1) by (simp_all add: can_handle_def setObjectData_def new_data_def)
  have "createObjectData d t w = Inr (nextData w, snd (new_data (with_fields (internalFields x) (ObjectD (newObjectData (functionTemplate x) t 0))) w))"
    by (rule createObjectData_eq) (use assms in auto)
  then show ?thesis
    using NewLocal_eq(1)[OF u(1) assms(8)] u(2) getObjectTemplateExtraData_eq[OF assms(2-4)] assms(4,7)
    by (simp add: ObjectTemplate_NewInstance_def IsExecutionTerminating_def has_kind_def load_data_def some_local_def)
qed

lemma object_fields:
  assumes "extraData w o' = Some (OtherExtraData d)" "dataMem w d = Some x" "fields_of x = Inr (Some c)" "length c < 2 ^ 31" "i < length c"
  shows "obj_setInternalField o' (int i) v w = Inr (set_data d (with_fields (Some (c[i := v])) x) w)"
    and "getInternalPointer o' (int i) w = Inr (c ! i, w)"
    and "getInternalFieldCount o' w = Inr (int (length c))"
proof -
  have l: "load_fields d w = Inr (Some c)" using assms by (auto simp: load_fields_eq)
  show "obj_setInternalField o' (int i) v w = Inr (set_data d (with_fields (Some (c[i := v])) x) w)"
    using assms setInternalField_in[OF assms(2-5)] by (simp add: obj_setInternalField_def object_data_def unchecked_data_def)
  show "getInternalPointer o' (int i) w = Inr (c ! i, w)"
    using assms internalField_in[OF assms(2-5)] by (simp add: getInternalPointer_def object_data_def unchecked_data_def)
  show "getInternalFieldCount o' w = Inr (int (length c))"
    using assms internalFieldCount_eq[OF l] to_int_small by (simp add: getInternalFieldCount_def unchecked_data_def)
qed

text \<open>C18. Instances of an object template have fields of their own, as many as the template has: a field set on
  one instance is read back from it, and the other instance still has the template's value.\<close>

theorem instances_own_fields:
  assumes "can_handle w" "otplExtra w t = d" "0 < d" "d < nextData w" "dataMem w d = Some (ObjectTemplateD x)"
    and "\<forall>p \<ge> nextData w. dataMem w p = None"
    and "internalFields x = Some c" "length c < 2 ^ 31" "i < length c"
    and "extraData w a = Some (OtherExtraData d)" "extraData w b = Some (OtherExtraData d)" "a \<noteq> 0" "b \<noteq> 0" "a \<noteq> b"
  shows "\<exists>h w1 g w2 w3. ObjectTemplate_NewInstance a t w = Inr (Some h, w1) \<and> ObjectTemplate_NewInstance b t w1 = Inr (Some g, w2) \<and>
    obj_setInternalField a (int i) v w2 = Inr w3 \<and>
    getInternalPointer a (int i) w3 = Inr (v, w3) \<and> getInternalPointer b (int i) w3 = Inr (c ! i, w3) \<and>
    getInternalFieldCount a w3 = Inr (int (length c)) \<and> getInternalFieldCount b w3 = Inr (int (length c))"
proof -
  let ?x = "with_fields (Some c) (ObjectD (newObjectData (functionTemplate x) t 0))"
  let ?w1 = "with_local (js_handle a) (setObjectData a (nextData w) (snd (new_data ?x w)))"
  have ok: "case internalFields x of None \<Rightarrow> True | Some c \<Rightarrow> 0 < length c \<and> length c < 2 ^ 31" using assms(7-9) by auto
  have 1: "ObjectTemplate_NewInstance a t w = Inr (Some (nextHandle w), ?w1)"
    using NewInstance_eq[OF assms(1,2) _ assms(5) _ ok assms(10,12)] assms(3,6,7) by simp
  have f1: "can_handle ?w1" "otplExtra ?w1 t = d" "dataMem ?w1 d = Some (ObjectTemplateD x)" "nextData ?w1 = Suc (nextData w)"
    "dataMem ?w1 (nextData w) = Some ?x" "dataMem ?w1 (Suc (nextData w)) = None" "extraData ?w1 b = Some (OtherExtraData d)"
    "extraData ?w1 a = Some (OtherExtraData (nextData w))"
    using assms NewLocal_eq(2)[of "setObjectData a (nextData w) (snd (new_data ?x w))" a]
    by (simp_all add: setObjectData_def new_data_def can_handle_def)
  let ?w2 = "with_local (js_handle b) (setObjectData b (nextData ?w1) (snd (new_data ?x ?w1)))"
  have 2: "ObjectTemplate_NewInstance b t ?w1 = Inr (Some (nextHandle ?w1), ?w2)"
    using NewInstance_eq[OF f1(1,2) _ f1(3) _ ok f1(7) assms(13)] assms(3,7) f1(4,6) by simp
  have f2: "extraData ?w2 a = Some (OtherExtraData (nextData w))" "extraData ?w2 b = Some (OtherExtraData (Suc (nextData w)))"
    "dataMem ?w2 (nextData w) = Some ?x" "dataMem ?w2 (Suc (nextData w)) = Some ?x"
    using f1 assms(14) by (simp_all add: setObjectData_def new_data_def)
  have fx: "fields_of ?x = Inr (Some c)" by simp
  let ?w3 = "set_data (nextData w) (with_fields (Some (c[i := v])) ?x) ?w2"
  have 3: "obj_setInternalField a (int i) v ?w2 = Inr ?w3" by (rule object_fields(1)[OF f2(1,3) fx assms(8,9)])
  have a: "getInternalPointer a (int i) ?w3 = Inr (c[i := v] ! i, ?w3)" "getInternalFieldCount a ?w3 = Inr (int (length (c[i := v])))"
    using object_fields(2,3)[of ?w3 a "nextData w" "with_fields (Some (c[i := v])) ?x" "c[i := v]" i] f2(1) assms(8,9)
    by simp_all
  have b: "getInternalPointer b (int i) ?w3 = Inr (c ! i, ?w3)" "getInternalFieldCount b ?w3 = Inr (int (length c))"
    using object_fields(2,3)[of ?w3 b "Suc (nextData w)" ?x c i] f2(2,4) fx assms(8,9) by simp_all
  show ?thesis using 1 2 3 a b assms(9)
    by (intro exI[of _ "nextHandle w"] exI[of _ ?w1] exI[of _ "nextHandle ?w1"] exI[of _ ?w2] exI[of _ ?w3]) simp
qed

definition template_world :: world where
  "template_world = ready_world\<lparr>dataMem := [1 \<mapsto> ObjectTemplateD \<lparr>internalFields = Some [0, 0], functionTemplate = 0\<rparr>],
     nextData := 2, otplExtra := (\<lambda>_. 0)(50 := 1), extraData := [60 \<mapsto> OtherExtraData 1, 61 \<mapsto> OtherExtraData 1]\<rparr>"

theorem instances_own_fields_witness:
  "\<exists>h w1 g w2 w3. ObjectTemplate_NewInstance 60 50 template_world = Inr (Some h, w1) \<and>
    ObjectTemplate_NewInstance 61 50 w1 = Inr (Some g, w2) \<and> obj_setInternalField 60 1 9 w2 = Inr w3 \<and>
    getInternalPointer 60 1 w3 = Inr (9, w3) \<and> getInternalPointer 61 1 w3 = Inr (0, w3)"
proof -
  have "can_handle template_world" using ready_world_simps(2) by (simp add: template_world_def can_handle_def)
  then show ?thesis
    using instances_own_fields[of template_world 50 1 "\<lparr>internalFields = Some [0, 0], functionTemplate = 0\<rparr>" "[0, 0]" 1 60 61 9]
    by (simp add: template_world_def) blast
qed

end
