(* ===== verification/Messages.thy ===== *)
theory Messages
  imports TryBlocks
begin

text \<open>
  The accessors of \<^verbatim>\<open>v8::Message\<close> in \<^verbatim>\<open>src/src/api-exception.cc\<close> against a
  reference definition of the lines of a source.
\<close>


fun lines_of :: "string \<Rightarrow> string list" where
  "lines_of [] = []"
| "lines_of (c # s) = (if c = CHR 0x0A then [] # lines_of s
     else case lines_of s of [] \<Rightarrow> [[c]] | l # ls \<Rightarrow> (c # l) # ls)"

lemma lines_of_Nil_iff: "lines_of s = [] \<longleftrightarrow> s = []"
  by (cases s) (auto split: list.split)

lemma lines_of_newline:
  "CHR 0x0A \<in> set s \<Longrightarrow> lines_of s = takeWhile (\<lambda>c. c \<noteq> CHR 0x0A) s # lines_of (tl (dropWhile (\<lambda>c. c \<noteq> CHR 0x0A) s))"
  by (induction s) auto

lemma lines_of_one: "CHR 0x0A \<notin> set s \<Longrightarrow> s \<noteq> [] \<Longrightarrow> lines_of s = [s]"
proof (induction s)
  case (Cons c s)
  then show ?case by (cases "s = []") auto
qed simp

lemma last_rest:
  "CHR 0x0A \<in> set s \<Longrightarrow> tl (dropWhile (\<lambda>c. c \<noteq> CHR 0x0A) s) = [] \<Longrightarrow> last s = CHR 0x0A"
  "tl (dropWhile (\<lambda>c. c \<noteq> CHR 0x0A) s) \<noteq> [] \<Longrightarrow> last (tl (dropWhile (\<lambda>c. c \<noteq> CHR 0x0A) s)) = last s"
  by (induction s) (auto simp: lines_of_Nil_iff split: list.split if_splits)

lemma findLine_lines:
  "i \<le> target \<Longrightarrow> findLine i target (s, False) line =
     (if target - i < length (lines_of s) then lines_of s ! (target - i)
      else if s = [] \<or> last s = CHR 0x0A then [] else last (lines_of s))"
proof (induction "length s" arbitrary: s i line rule: less_induct)
  case less
  show ?case
  proof (cases "CHR 0x0A \<in> set s")
    case False
    then show ?thesis using less.prems
      by (cases "s = []") (auto simp: lines_of_one Let_def dest: last_in_set)
  next
    case True
    let ?r = "tl (dropWhile (\<lambda>c. c \<noteq> CHR 0x0A) s)"
    have s: "s \<noteq> []" "lines_of s = takeWhile (\<lambda>c. c \<noteq> CHR 0x0A) s # lines_of ?r" using True lines_of_newline by auto
    show ?thesis
    proof (cases "i = target")
      case True
      then show ?thesis using \<open>CHR 0x0A \<in> set s\<close> s by simp
    next
      case False
      have "length ?r < length s" using rest_shorter[OF True] by simp
      then have "findLine (i + 1) target (?r, False) (takeWhile (\<lambda>c. c \<noteq> CHR 0x0A) s) =
        (if target - (i + 1) < length (lines_of ?r) then lines_of ?r ! (target - (i + 1))
         else if ?r = [] \<or> last ?r = CHR 0x0A then [] else last (lines_of ?r))"
        using less.hyps False less.prems by simp
      moreover have "target - i = Suc (target - (i + 1))" using False less.prems by simp
      moreover have "findLine i target (s, False) line = findLine (i + 1) target (?r, False) (takeWhile (\<lambda>c. c \<noteq> CHR 0x0A) s)"
        by (subst findLine.simps) (use s(1) True False in \<open>simp del: findLine.simps\<close>)
      moreover have "?r = [] \<or> last ?r = CHR 0x0A \<longleftrightarrow> last s = CHR 0x0A"
        using last_rest(1)[OF True] last_rest(2)[of s] by (cases "?r = []") simp_all
      moreover have "last (lines_of s) = last (lines_of ?r)" if "?r \<noteq> []" using that s(2) by (simp add: lines_of_Nil_iff)
      ultimately show ?thesis using s
        by (cases "?r = []") (auto simp: lines_of_Nil_iff simp del: findLine.simps)
    qed
  qed
qed

text \<open>The source line of a message, read with a loop over the stream of the source, is the line of the
  topmost frame among the lines of the source, and its line number is that of the frame. A line the source
  does not have gives the empty line if the source ends with a newline, and else the last line.\<close>

theorem source_line_is_line:
  assumes "obj self" "extraData w self = Some (newExceptionObjectData (t # ts))" "isValidStackFrame t"
    and "loc_line t < 2 ^ 31"
  shows "GetLineNumber obj self w = Inr (int (loc_line t)) \<and>
    GetSourceLine obj self w = Inr (let ls = lines_of (sourceCode t); n = loc_line t in
      if n - 1 < length ls then ls ! (n - 1)
      else if sourceCode t = [] \<or> last (sourceCode t) = CHR 0x0A then [] else last ls)"
proof -
  have n: "to_int (loc_line t) = int (loc_line t)" "loc_line t > 0"
    using assms(3,4) by (auto simp: isValidStackFrame_def Let_def to_int_small)
  have "hasStackTraceData obj self w = Inr True" "exception_stackTrace self w = Inr (t # filter isValidStackFrame ts)"
    using assms(1-3) by (simp_all add: hasStackTraceData_def exception_stackTrace_def asExceptionObjectData_def newExceptionObjectData_def)
  then show "GetLineNumber obj self w = Inr (int (loc_line t)) \<and>
    GetSourceLine obj self w = Inr (let ls = lines_of (sourceCode t); n = loc_line t in
      if n - 1 < length ls then ls ! (n - 1)
      else if sourceCode t = [] \<or> last (sourceCode t) = CHR 0x0A then [] else last ls)"
    using n by (simp add: GetLineNumber_def GetSourceLine_def top_frame_def findLine_lines Let_def del: findLine.simps)
qed

definition sample_frame :: StackTraceData where
  "sample_frame = \<lparr>srcName = ''a.js'', sourceCode = ''x'' @ [CHR 0x0A] @ ''throw y'' @ [CHR 0x0A], loc_line = 2, loc_column = 1, loc_index = 2\<rparr>"

theorem source_line_is_line_witness:
  "GetSourceLine (\<lambda>_. True) 40 (ready_exc\<lparr>extraData := [40 \<mapsto> newExceptionObjectData [sample_frame]]\<rparr>) = Inr ''throw y''"
  using source_line_is_line[of "\<lambda>_. True" 40 "ready_exc\<lparr>extraData := [40 \<mapsto> newExceptionObjectData [sample_frame]]\<rparr>" sample_frame "[]"]
  by (simp add: sample_frame_def isValidStackFrame_def to_int_small Let_def)

end
