(* ===== verification/CallProps.thy ===== *)
theory CallProps
  imports FieldProps Messages
begin

text \<open>
  Templates and calls: signatures and instances against the inheritance of templates, the life of the extra data
  of instances, externals, and where a call of a function leaves the exception state.
\<close>

section \<open>Inheritance\<close>

text \<open>\<open>t\<close> is among the templates that \<open>p\<close> inherits from, \<open>p\<close> included.\<close>

definition ancestor :: "(ptr \<Rightarrow> ptr) \<Rightarrow> ptr \<Rightarrow> ptr \<Rightarrow> bool" where
  "ancestor parent t p = (\<exists>n. (parent ^^ n) p = t \<and> (\<forall>k\<le>n. (parent ^^ k) p \<noteq> 0))"

lemma ancestor_0 [simp]: "\<not> ancestor parent t 0"
  by (auto simp: ancestor_def intro: exI[of _ 0])

lemma ancestor_step: "p \<noteq> 0 \<Longrightarrow> ancestor parent t p \<longleftrightarrow> p = t \<or> ancestor parent t (parent p)"
proof
  assume p: "p \<noteq> 0" "ancestor parent t p"
  obtain n where n: "(parent ^^ n) p = t" "\<forall>k\<le>n. (parent ^^ k) p \<noteq> 0" using p(2) by (auto simp: ancestor_def)
  show "p = t \<or> ancestor parent t (parent p)"
  proof (cases n)
    case (Suc m)
    have "(parent ^^ k) (parent p) \<noteq> 0" if "k \<le> m" for k
      using n(2)[rule_format, of "Suc k"] that Suc by (simp add: funpow_swap1)
    moreover have "(parent ^^ m) (parent p) = t" using n(1) Suc by (simp add: funpow_swap1)
    ultimately show ?thesis by (auto simp: ancestor_def)
  qed (use n in auto)
next
  assume p: "p \<noteq> 0" "p = t \<or> ancestor parent t (parent p)"
  show "ancestor parent t p"
  proof (cases "p = t")
    case True
    then show ?thesis using p(1) unfolding ancestor_def by (intro exI[of _ 0]) simp
  next
    case False
    then obtain n where n: "(parent ^^ n) (parent p) = t" "\<forall>k\<le>n. (parent ^^ k) (parent p) \<noteq> 0"
      using p(2) by (auto simp: ancestor_def)
    have "(parent ^^ k) p \<noteq> 0" if "k \<le> Suc n" for k
      using n(2) p(1) that by (cases k) (auto simp: funpow_swap1)
    then show ?thesis using n(1) unfolding ancestor_def by (intro exI[of _ "Suc n"]) (auto simp: funpow_swap1)
  qed
qed

lemma inherits_from_ancestor:
  "(parent ^^ n) p = 0 \<Longrightarrow> inherits_from parent t p = Some (ancestor parent t p)"
proof (induction n arbitrary: p)
  case 0
  then show ?case by (simp add: inherits_from.simps)
next
  case (Suc n)
  then have "inherits_from parent t (parent p) = Some (ancestor parent t (parent p))" by (simp add: funpow_swap1)
  then show ?case by (cases "p = 0") (auto simp: inherits_from.simps[of parent t p] ancestor_step inherits_from.simps[of parent t 0])
qed

text \<open>A template that is its own ancestor: the loop runs forever unless it meets the one it looks for.\<close>

lemma inherits_from_self: "p \<noteq> 0 \<Longrightarrow> inherits_from parent p p = Some True"
  by (simp add: inherits_from.simps)

text \<open>The template that a receiver was created from, \<open>0\<close> for none. Data of other kinds has none to be asked for.\<close>

definition receiver_template :: "'a world_scheme \<Rightarrow> ptr \<Rightarrow> ptr option" where
  "receiver_template w receiver = (case extraData w receiver of None \<Rightarrow> Some 0 | Some (ExceptionObjectData _) \<Rightarrow> None
   | Some (OtherExtraData d) \<Rightarrow> (case the (dataMem w d) of
        ObjectD z \<Rightarrow> Some (functionTemplate z) | FunctionD z \<Rightarrow> Some (functionTemplate z)
      | ExternalD z \<Rightarrow> Some (functionTemplate z) | GlobalD z \<Rightarrow> Some (functionTemplate z)
      | ObjectTemplateD z \<Rightarrow> Some (functionTemplate z) | FunctionTemplateD _ \<Rightarrow> None | StackTraceD _ \<Rightarrow> None))"

lemma fd_signature_eq:
  assumes "dataMem w fd = Some (FunctionD x)" "functionTemplate x \<noteq> 0" "ftplExtra w (functionTemplate x) \<noteq> 0"
    and "dataMem w (ftplExtra w (functionTemplate x)) = Some (FunctionTemplateD y)"
  shows "fd_signature fd w = Inr (ft_signature y)"
  using assms by (simp add: fd_signature_def functionData_member_def load_data_def getFunctionTemplateExtraData_def
      as_kind_def has_kind_def)

lemma fd_signature_none:
  "dataMem w fd = Some (FunctionD x) \<Longrightarrow> functionTemplate x = 0 \<Longrightarrow> fd_signature fd w = Inr 0"
  by (simp add: fd_signature_def functionData_member_def load_data_def)

lemma checkSignature_eq:
  assumes "fd_signature fd w = Inr sg" "sg \<noteq> 0" "handle_ftpl sg w = Inr callee"
    and "\<And>d. extraData w receiver = Some (OtherExtraData d) \<Longrightarrow> dataMem w d \<noteq> None"
    and "\<And>t. receiver_template w receiver = Some t \<Longrightarrow> \<exists>n. (parent ^^ n) t = 0"
  shows "checkSignature parent fd receiver w =
    (case receiver_template w receiver of None \<Rightarrow> Inl CheckFailed | Some t \<Rightarrow> Inr (ancestor parent callee t))"
proof (cases "extraData w receiver")
  case None
  then show ?thesis using assms(1,2) by (simp add: checkSignature_def receiver_template_def)
next
  case (Some e)
  have i: "inherits_from parent callee t = Some (ancestor parent callee t)" if "receiver_template w receiver = Some t" for t
    using assms(5)[OF that] inherits_from_ancestor by blast
  show ?thesis
  proof (cases e)
    case (ExceptionObjectData fs)
    then show ?thesis using Some assms(1,2) by (simp add: checkSignature_def receiver_template_def has_kind_def)
  next
    case (OtherExtraData d)
    then obtain x where x: "dataMem w d = Some x" using assms(4)[of d] Some by auto
    have r: "receiver_template w receiver = (case x of ObjectD z \<Rightarrow> Some (functionTemplate z) | FunctionD z \<Rightarrow> Some (functionTemplate z)
      | ExternalD z \<Rightarrow> Some (functionTemplate z) | GlobalD z \<Rightarrow> Some (functionTemplate z)
      | ObjectTemplateD z \<Rightarrow> Some (functionTemplate z) | FunctionTemplateD _ \<Rightarrow> None | StackTraceD _ \<Rightarrow> None)"
      using Some OtherExtraData x by (simp add: receiver_template_def)
    show ?thesis using Some OtherExtraData assms(1-3) x r i
      by (cases x) (simp_all add: checkSignature_def has_kind_def as_kind_def load_data_def ends_def)
  qed
qed

text \<open>C38. A function whose template has a signature accepts exactly the receivers created from a template that inherits
  from the signature's template, and so none without data; a receiver whose data belongs to neither objects nor object templates
  aborts the process. A function without a signature accepts every receiver. The check ends whenever inheritance does.\<close>

theorem signature_is_ancestry:
  assumes "dataMem w fd = Some (FunctionD x)"
    and "functionTemplate x \<noteq> 0 \<Longrightarrow> ftplExtra w (functionTemplate x) \<noteq> 0 \<and>
      dataMem w (ftplExtra w (functionTemplate x)) = Some (FunctionTemplateD y)"
    and "functionTemplate x \<noteq> 0 \<Longrightarrow> ft_signature y \<noteq> 0 \<Longrightarrow> handle_ftpl (ft_signature y) w = Inr callee"
    and "\<And>d. extraData w receiver = Some (OtherExtraData d) \<Longrightarrow> dataMem w d \<noteq> None"
    and "\<And>t. receiver_template w receiver = Some t \<Longrightarrow> \<exists>n. (parent ^^ n) t = 0"
  shows "checkSignature parent fd receiver w =
    (if functionTemplate x = 0 \<or> ft_signature y = 0 then Inr True
     else case receiver_template w receiver of None \<Rightarrow> Inl CheckFailed | Some t \<Rightarrow> Inr (ancestor parent callee t))"
proof (cases "functionTemplate x = 0 \<or> ft_signature y = 0")
  case True
  then have "fd_signature fd w = Inr 0"
    using fd_signature_none[OF assms(1)] fd_signature_eq[OF assms(1)] assms(2) by (cases "functionTemplate x = 0") auto
  then show ?thesis using True by (simp add: checkSignature_def)
next
  case False
  then have "fd_signature fd w = Inr (ft_signature y)" using fd_signature_eq[OF assms(1)] assms(2) by blast
  from checkSignature_eq[OF this _ _ assms(4,5)] show ?thesis using False assms(3) by simp
qed

definition signature_world :: world where
  "signature_world = ready_world\<lparr>handleMem := [8 \<mapsto> emptyHandle\<lparr>h_val := 70, h_type := FunctionTemplate\<rparr>],
     dataMem := [1 \<mapsto> FunctionD (newObjectData 71 0 0), 2 \<mapsto> FunctionTemplateD (newFunctionTemplateData 71 1 5 6 8),
       3 \<mapsto> ObjectD (newObjectData 71 0 0)],
     nextData := 4, ftplExtra := (\<lambda>_. 0)(71 := 2), extraData := [60 \<mapsto> OtherExtraData 3]\<rparr>"

lemma newFunctionTemplateData_simps [simp]:
  "functionTemplate (newFunctionTemplateData t i c d s) = t" "ft_isolate (newFunctionTemplateData t i c d s) = i"
  "ft_callback (newFunctionTemplateData t i c d s) = c" "ft_callbackData (newFunctionTemplateData t i c d s) = d"
  "ft_signature (newFunctionTemplateData t i c d s) = s" "internalFields (newFunctionTemplateData t i c d s) = None"
  by (simp_all add: newFunctionTemplateData_def newTemplateData_def TemplateData.defs FunctionTemplateData.defs)

theorem signature_is_ancestry_witness:
  "checkSignature (\<lambda>t. if t = 71 then 70 else 0) 1 60 signature_world = Inr True \<and>
   checkSignature (\<lambda>t. if t = 71 then 70 else 0) 1 61 signature_world = Inr False"
proof -
  let ?p = "\<lambda>t :: ptr. if t = 71 then 70 else 0 :: ptr"
  have a: "ancestor ?p 70 71" unfolding ancestor_def by (intro exI[of _ 1]) (auto simp: le_Suc_eq)
  have n: "\<exists>n. (?p ^^ n) t = 0" for t by (rule exI[of _ 2]) (simp add: numeral_2_eq_2)
  have r: "receiver_template signature_world 60 = Some 71" "receiver_template signature_world 61 = Some 0"
    by (simp_all add: receiver_template_def signature_world_def)
  have "checkSignature ?p 1 v signature_world = (case receiver_template signature_world v of None \<Rightarrow> Inl CheckFailed
      | Some t \<Rightarrow> Inr (ancestor ?p 70 t))" if "v = 60 \<or> v = 61" for v
    using signature_is_ancestry[of signature_world 1 "newObjectData 71 0 0" "newFunctionTemplateData 71 1 5 6 8" 70 v ?p] that n
    by (auto simp: signature_world_def handle_ftpl_def get_ftpl_def emptyHandle_def)
  then show ?thesis using a r by simp
qed

text \<open>An object constructed with the function of a template is accepted by signatures of that template, but
  \<^verbatim>\<open>HasInstance\<close> only recognises it when the template's instance template was requested before.\<close>

theorem has_instance_needs_instance_template:
  assumes "extraData w newTarget = Some (OtherExtraData fd)" "dataMem w fd = Some (FunctionD x)" "fd \<noteq> 0"
    and "functionTemplate x = t" "t \<noteq> 0" "extraData w this = None" "obj this"
    and "dataMem w (nextData w) = None" "nextData w \<noteq> 0"
    and "otplExtra w (instanceTemplate t) = 0 \<or> instanceTemplate t \<noteq> 0 \<and>
      dataMem w (otplExtra w (instanceTemplate t)) = Some (ObjectTemplateD (newTemplateData t))"
  shows "\<exists>u d z. setExtraDataToNewObjectInstance instanceTemplate this newTarget w = Inr u \<and>
    extraData u this = Some (OtherExtraData d) \<and> dataMem u d = Some (ObjectD z) \<and> functionTemplate z = t \<and>
    HasInstance parent obj this t u = Inr (otplExtra w (instanceTemplate t) \<noteq> 0)"
proof -
  have f: "getFunctionExtraData newTarget w = Inr fd" using assms(1,2) by (simp add: getFunctionExtraData_def as_kind_def load_data_def)
  have nf: "fd \<noteq> nextData w" using assms(2,8) by auto
  show ?thesis
  proof (cases "otplExtra w (instanceTemplate t) = 0")
    case True
    let ?u = "setObjectData this (nextData w) (snd (new_data (ObjectD (newObjectData t 0 0)) w))"
    have "setExtraDataToNewObjectInstance instanceTemplate this newTarget w = Inr ?u"
      using f assms True by (simp add: setExtraDataToNewObjectInstance_def load_data_def getObjectTemplateExtraData_of_object_def
          getObjectTemplateExtraData_def case_prod_beta Let_def)
    then show ?thesis using assms(7) True
      by (intro exI[of _ ?u] exI[of _ "nextData w"] exI[of _ "newObjectData t 0 0"])
        (simp add: setObjectData_def new_data_def HasInstance_def has_kind_def as_kind_def load_data_def ends_def inherits_from.simps)
  next
    case False
    let ?o = "instanceTemplate t"
    let ?d = "otplExtra w ?o"
    let ?z = "newObjectData t ?o 0"
    let ?u = "setObjectData this (nextData w) (snd (new_data (ObjectD ?z) w))"
    have d: "dataMem w ?d = Some (ObjectTemplateD (newTemplateData t))" "?o \<noteq> 0" using assms(10) False by auto
    have n: "functionTemplate (newTemplateData t) = t" "internalFields (newTemplateData t) = None" by (simp_all add: newTemplateData_def)
    have "createObjectData ?d ?o w = Inr (nextData w, snd (new_data (ObjectD ?z) w))"
      using createObjectData_eq[of w ?d "ObjectTemplateD (newTemplateData t)" None ?o ?d "newTemplateData t"] d n False assms(8)
      by simp
    then have "setExtraDataToNewObjectInstance instanceTemplate this newTarget w = Inr ?u"
      using f assms False getObjectTemplateExtraData_eq[OF refl False d(1)]
      by (simp add: setExtraDataToNewObjectInstance_def load_data_def getObjectTemplateExtraData_of_object_def Let_def)
    moreover have "?d \<noteq> nextData w" using d(1) assms(8) by auto
    ultimately show ?thesis using assms(5,7) False d n
      by (intro exI[of _ ?u] exI[of _ "nextData w"] exI[of _ ?z])
        (simp add: setObjectData_def new_data_def HasInstance_def has_kind_def as_kind_def load_data_def ends_def inherits_from.simps
          getObjectTemplateExtraData_def)
  qed
qed

definition constructor_world :: world where
  "constructor_world = ready_world\<lparr>dataMem := [1 \<mapsto> FunctionD (newObjectData 71 0 0)], nextData := 2,
     extraData := [61 \<mapsto> OtherExtraData 1]\<rparr>"

theorem has_instance_needs_instance_template_witness:
  "\<exists>u. setExtraDataToNewObjectInstance (\<lambda>_. 72) 60 61 constructor_world = Inr u \<and> HasInstance (\<lambda>_. 0) (\<lambda>_. True) 60 71 u = Inr False"
  using has_instance_needs_instance_template[of constructor_world 61 1 "newObjectData 71 0 0" 71 60 "\<lambda>_. True" "\<lambda>_. 72" "\<lambda>_. 0"]
  by (auto simp: constructor_world_def)

section \<open>Instances of functions\<close>

text \<open>A JavaScript constructor may return an object that exists already: constructing with it through the
  interface works the first time, and aborts the process the second time, because the object carries the
  extra data of the first.\<close>

theorem new_instance_of_same_object_aborts:
  assumes "can_handle w" "extraData w o' = None" "o' \<noteq> 0" "f \<noteq> 0" "f \<noteq> o'" "dataMem w (nextData w) = None"
    and "extraData w f = None \<or> extraData w f = Some (OtherExtraData fd) \<and> dataMem w fd = Some (FunctionD x)"
    and "nextData w \<noteq> 0"
  shows "\<exists>h u. Function_NewInstance obj (Success o') f w = Inr (Some h, u) \<and>
    Function_NewInstance obj (Success o') f u = Inl CheckFailed"
proof -
  let ?d = "nextData w"
  let ?v = "setObjectData o' ?d (snd (new_data (ObjectD (newObjectData 0 0 f)) w))"
  let ?u = "with_local (js_handle o') ?v"
  have v: "can_handle ?v" "nextHandle ?v = nextHandle w" using assms(1) by (simp_all add: can_handle_def setObjectData_def new_data_def)
  have n: "NewLocal o' ?v = Inr (nextHandle w, ?u)" using NewLocal_eq(1)[OF v(1) assms(3)] v(2) by simp
  have 1: "Function_NewInstance obj (Success o') f w = Inr (Some (nextHandle w), ?u)"
    using assms n by (auto simp: Function_NewInstance_def IsExecutionTerminating_def has_kind_def load_data_def some_local_def
        case_prod_beta)
  have u: "extraData ?u o' = Some (OtherExtraData ?d)" "dataMem ?u ?d = Some (ObjectD (newObjectData 0 0 f))"
    "extraData ?u f = extraData w f" "\<And>p. p \<noteq> ?d \<Longrightarrow> dataMem ?u p = dataMem w p"
    using assms(5) by (simp_all add: setObjectData_def new_data_def)
  have "dataMem ?u fd = dataMem w fd" if "dataMem w fd = Some (FunctionD x)" using that u(4)[of fd] assms(6) by force
  then have "Function_NewInstance obj (Success o') f ?u = Inl CheckFailed"
    using assms(4,7,8) u by (auto simp: Function_NewInstance_def IsExecutionTerminating_def has_kind_def as_kind_def
        load_data_def setFunctionObject_def)
  then show ?thesis using 1 by blast
qed

theorem new_instance_of_same_object_aborts_witness:
  "\<exists>h u. Function_NewInstance (\<lambda>_. True) (Success 60) 61 ready_world = Inr (Some h, u) \<and>
    Function_NewInstance (\<lambda>_. True) (Success 60) 61 u = Inl CheckFailed"
  using new_instance_of_same_object_aborts[of ready_world 60 61 0 "newObjectData 0 0 0" "\<lambda>_. True"] by simp

section \<open>Externals\<close>

lemma External_New_eq:
  assumes "can_handle w" "contextScopes w \<noteq> []" "e \<noteq> 0"
  shows "External_New e v w = Inr (nextHandle w, with_local (js_handle e) (setObjectData e (nextData w)
    (snd (new_data (ExternalD ((newObjectData 0 0 0)\<lparr>internalFields := Some [v]\<rparr>)) w))))"
proof -
  let ?d = "nextData w" and ?x = "ExternalD (newObjectData 0 0 0)"
  let ?w = "snd (new_data ?x w)"
  have m: "dataMem ?w ?d = Some ?x" "fields_of ?x = Inr None" by (simp_all add: new_data_def)
  have c: "setInternalFieldCount 1 ?d ?w = Inr (set_data ?d (with_fields (Some [0]) ?x) ?w)"
    using setInternalFieldCount_pos[OF m(1,2), of 1] by simp
  let ?u = "set_data ?d (with_fields (Some [0]) ?x) ?w"
  have "setInternalField (int 0) v ?d ?u = Inr (set_data ?d (with_fields (Some ([0][0 := v])) (with_fields (Some [0]) ?x)) ?u)"
    by (rule setInternalField_in) auto
  then have s: "setInternalField 0 v ?d ?u = Inr (snd (new_data (with_fields (Some [v]) ?x) w))"
    by (simp add: set_data_def new_data_def)
  have g: "GetCurrentContext w = Inr (last (contextScopes w))" using assms(2) by (simp add: GetCurrentContext_def Suc_le_eq)
  let ?v = "setObjectData e ?d (snd (new_data (with_fields (Some [v]) ?x) w))"
  have v: "can_handle ?v" "nextHandle ?v = nextHandle w" using assms(1) by (simp_all add: can_handle_def setObjectData_def new_data_def)
  show ?thesis using NewLocal_eq(1)[OF v(1) assms(3)] v(2) c s by (simp add: External_New_def g case_prod_beta)
qed

lemma External_Value_eq:
  assumes "extraData w e = Some (OtherExtraData d)" "dataMem w d = Some (ExternalD x)" "internalFields x = Some [v]"
  shows "External_Value e w = Inr (v, w)"
proof -
  have "internalField (int 0) d w = Inr ([v] ! 0, w)" by (rule internalField_in) (use assms in auto)
  then show ?thesis using assms by (simp add: External_Value_def as_kind_def load_data_def)
qed

text \<open>An external gives back the pointer it was created with, also after another one was created, and only
  objects created this way are externals.\<close>

theorem external_round_trip:
  assumes "can_handle w" "contextScopes w \<noteq> []" "a \<noteq> 0" "b \<noteq> 0" "a \<noteq> b" "obj a"
    and "\<forall>p \<ge> nextData w. dataMem w p = None"
  shows "\<exists>h u g w'. External_New a v w = Inr (h, u) \<and> External_Value a u = Inr (v, u) \<and> IsExternal obj a u = Inr True \<and>
    External_New b v' u = Inr (g, w') \<and> External_Value a w' = Inr (v, w') \<and> External_Value b w' = Inr (v', w') \<and>
    (\<forall>o'. o' \<noteq> a \<longrightarrow> o' \<noteq> b \<longrightarrow> extraData w' o' = extraData w o')"
proof -
  let ?x = "\<lambda>v. ExternalD ((newObjectData 0 0 0)\<lparr>internalFields := Some [v]\<rparr>)"
  let ?v = "setObjectData a (nextData w) (snd (new_data (?x v) w))"
  let ?u = "with_local (js_handle a) ?v"
  have v: "can_handle ?v" using assms(1) by (simp add: can_handle_def setObjectData_def new_data_def)
  have u: "External_New a v w = Inr (nextHandle w, ?u)" by (rule External_New_eq[OF assms(1-3)])
  have uf: "can_handle ?u" "contextScopes ?u \<noteq> []" "nextData ?u = Suc (nextData w)"
    using NewLocal_eq(2)[OF v assms(3)] assms(2) by (simp_all add: with_local_def setObjectData_def new_data_def)
  let ?w = "with_local (js_handle b) (setObjectData b (nextData ?u) (snd (new_data (?x v') ?u)))"
  have w: "External_New b v' ?u = Inr (nextHandle ?u, ?w)" by (rule External_New_eq[OF uf(1,2) assms(4)])
  have du: "extraData ?u a = Some (OtherExtraData (nextData w))" "dataMem ?u (nextData w) = Some (?x v)"
    by (simp_all add: setObjectData_def new_data_def)
  have dw: "extraData ?w a = Some (OtherExtraData (nextData w))" "dataMem ?w (nextData w) = Some (?x v)"
    "extraData ?w b = Some (OtherExtraData (Suc (nextData w)))" "dataMem ?w (Suc (nextData w)) = Some (?x v')"
    "\<And>o'. o' \<noteq> a \<Longrightarrow> o' \<noteq> b \<Longrightarrow> extraData ?w o' = extraData w o'"
    using assms(5) uf(3) by (simp_all add: setObjectData_def new_data_def)
  have "External_Value a ?u = Inr (v, ?u)" "External_Value a ?w = Inr (v, ?w)" "External_Value b ?w = Inr (v', ?w)"
    by (rule External_Value_eq[OF du], simp, rule External_Value_eq[OF dw(1,2)], simp, rule External_Value_eq[OF dw(3,4)], simp)
  moreover have "IsExternal obj a ?u = Inr True" using du assms(6) by (simp add: IsExternal_def has_kind_def load_data_def)
  ultimately show ?thesis using u w dw(5) by blast
qed

theorem external_round_trip_witness:
  "\<exists>h u. External_New 60 77 ready_world = Inr (h, u) \<and> External_Value 60 u = Inr (77, u) \<and> IsExternal (\<lambda>_. True) 60 u = Inr True"
  using external_round_trip[of ready_world 60 61 "\<lambda>_. True" 77 78] by auto

section \<open>Objects as exceptions\<close>

text \<open>An object that has been thrown carries exception data. Asking it for its internal fields, which worked
  before, then calls a member function of a class it does not belong to.\<close>

theorem thrown_object_fields_confused:
  assumes "exc_inv w" "hasCallDepth w" "obj e" "e \<noteq> 0" "extraData w e = None"
  shows "getInternalFieldCount e w = Inr 0 \<and>
    (\<exists>u. handleException obj e st w = Inr u \<and> getInternalFieldCount e u = Inl TypeConfusion \<and>
       getInternalPointer e i u = Inl TypeConfusion)"
proof -
  let ?u = "setExtraData e (newExceptionObjectData st) w"
  have u: "exc_inv ?u" using assms(1) by (auto simp: exc_inv_def fresh_mem_def setExtraData_def newExceptionObjectData_def)
  obtain s where s: "ScheduleThrow e ?u = Inr s" "thrown e ?u s" using ScheduleThrow_thrown[OF u assms(4)] by blast
  have "extraData s e = Some (newExceptionObjectData st)" using s(2) by (simp add: thrown_def setExtraData_def)
  then show ?thesis using assms s(1)
    by (simp add: handleException_def getInternalFieldCount_def getInternalPointer_def object_data_def unchecked_data_def
        newExceptionObjectData_def)
qed

theorem thrown_object_fields_confused_witness:
  "\<exists>u. handleException (\<lambda>_. True) 60 [] (ready_world\<lparr>callDepth := 1\<rparr>) = Inr u \<and> getInternalFieldCount 60 u = Inl TypeConfusion"
proof -
  have "exc_inv (ready_world\<lparr>callDepth := 1\<rparr>)" using ready_world_simps(1) by (simp add: exc_inv_def fresh_mem_def)
  then show ?thesis
    using thrown_object_fields_confused[of "ready_world\<lparr>callDepth := 1\<rparr>" "\<lambda>_. True" 60 "[]" 0] by (auto simp: hasCallDepth_def)
qed

section \<open>Calls\<close>

text \<open>A script that throws an object created from a template, or an external, out of an outermost call aborts
  the process, whatever handlers are registered.\<close>

theorem thrown_api_object_aborts:
  assumes "callDepth w = 0" "run (increaseCallDepth w) = Inr (Failure e st, u)" "callDepth u = 1" "obj e"
    and "extraData u e = Some (OtherExtraData d)"
  shows "Function_Call obj True False run state trace w = Inl CheckFailed"
  using assms
  by (simp add: Function_Call_def IsExecutionTerminating_def decreaseCallDepth_def hasCallDepth_def sub64_def
      SetPendingExceptionAndMessage_def asExceptionObjectData_def size_max_def)

theorem thrown_api_object_aborts_witness:
  "Function_Call (\<lambda>_. True) True False (\<lambda>w. Inr (Failure 60 [], w\<lparr>extraData := [60 \<mapsto> OtherExtraData 1]\<rparr>)) [] [] ready_world = Inl CheckFailed"
  using thrown_api_object_aborts[of ready_world "\<lambda>w. Inr (Failure 60 [], w\<lparr>extraData := [60 \<mapsto> OtherExtraData 1]\<rparr>)" 60 "[]"
      "(increaseCallDepth ready_world)\<lparr>extraData := [60 \<mapsto> OtherExtraData 1]\<rparr>" "\<lambda>_. True" 1 "[]" "[]"]
  by (simp add: increaseCallDepth_def add64_def size_max_def)

lemma depth_keeps:
  assumes "exc_inv w" "callDepth w < 2 ^ 64 - 1" "keeps K (increaseCallDepth w) u"
  shows "keeps K w (decreaseCallDepth u)"
proof -
  have k: "callDepth u = add64 (callDepth w) 1" "exc_inv u" using assms(3) by (simp_all add: keeps_def increaseCallDepth_def)
  have "callDepth (decreaseCallDepth u) = callDepth w"
    using assms(2) k(1) by (simp add: decreaseCallDepth_def sub64_exact add64_exact size_max_def)
  moreover have "exc_inv (decreaseCallDepth u)" using k(2) by (simp add: exc_inv_def fresh_mem_def decreaseCallDepth_def)
  moreover have "handleScopes (decreaseCallDepth u) = handleScopes u" "contextScopes (decreaseCallDepth u) = contextScopes u"
    "handleMem (decreaseCallDepth u) = handleMem u" "tryCatches (decreaseCallDepth u) = tryCatches u"
    "try_catch_handler (decreaseCallDepth u) = try_catch_handler u" by (simp_all add: decreaseCallDepth_def)
  ultimately show ?thesis using assms(3) by (simp add: keeps_def increaseCallDepth_def)
qed

text \<open>How a call settles that the engine has left with the exception \<open>e\<close>, and with the value \<open>v\<close>, in the state
  \<open>d\<close> of the caller.\<close>

definition call_throws :: "(ptr \<Rightarrow> bool) \<Rightarrow> bool \<Rightarrow> ptr \<Rightarrow> 'a world_scheme \<Rightarrow> (ptr option \<times> 'a world_scheme) res \<Rightarrow> bool" where
  "call_throws obj onUncaught e d r = (if onUncaught then r = Inl FatalError
     else if callDepth d = 0 \<and> api_object obj d e then r = Inl CheckFailed
     else \<exists>w'. r = Inr (None, w') \<and> keeps {} d w' \<and> delivered e d w')"

definition call_returns :: "(ptr \<Rightarrow> bool) \<Rightarrow> ptr \<Rightarrow> 'a world_scheme \<Rightarrow> (ptr option \<times> 'a world_scheme) res \<Rightarrow> bool" where
  "call_returns obj v d r = (if callDepth d = 0 \<and> pending_exception_obj d \<noteq> 0
     then (if api_object obj d (pending_exception_obj d) \<and> tells d then r = Inl CheckFailed
       else \<exists>w'. r = Inr (None, w') \<and> keeps {} d w' \<and> reported (pending_exception_obj d) d w')
     else \<exists>p w'. r = Inr (Some p, w') \<and> keeps {} d w' \<and> handleMem w' p = Some (js_handle v) \<and>
       pending_exception_obj w' = pending_exception_obj d \<and> scheduled_exception w' = scheduled_exception d)"

definition call_end :: "(ptr \<Rightarrow> bool) \<Rightarrow> bool \<Rightarrow> eval_result \<Rightarrow> 'a world_scheme \<Rightarrow> (ptr option \<times> 'a world_scheme) res" where
  "call_end obj onUncaught r w = (case r of
        Failure e st \<Rightarrow> guard FatalError (\<not> onUncaught)
          (rbind (if hasCallDepth w then ScheduleThrow e w
             else rbind (SetPendingExceptionAndMessage obj e st w) (ReportPendingMessages obj False)) (\<lambda>w. Inr (None, w)))
      | Success v \<Rightarrow> if sholdReportPendingMessage False w
          then rbind (ReportPendingMessages obj False w) (\<lambda>w. Inr (None, w))
          else some_local (NewLocal v w))"

lemma call_end_throws:
  assumes "exc_inv d" "e \<noteq> 0"
  shows "call_throws obj onUncaught e d (call_end obj onUncaught (Failure e st) d)"
proof -
  have "leaves_call obj e d (if hasCallDepth d then ScheduleThrow e d
      else rbind (SetPendingExceptionAndMessage obj e st d) (ReportPendingMessages obj False))"
    using schedule_leaves[OF assms, of obj] report_leaves[OF assms, of obj st] by (simp add: hasCallDepth_def)
  then show ?thesis by (auto simp: call_throws_def leaves_call_def call_end_def split: if_splits)
qed

lemma call_end_returns:
  assumes "exc_inv d" "v \<noteq> 0"
  shows "call_returns obj v d (call_end obj onUncaught (Success v) d)"
proof (cases "callDepth d = 0 \<and> pending_exception_obj d \<noteq> 0")
  case True
  then have p: "pending_exception_obj d \<noteq> 0" and e: "call_end obj onUncaught (Success v) d =
      rbind (ReportPendingMessages obj False d) (\<lambda>w. Inr (None, w))"
    by (simp_all add: call_end_def sholdReportPendingMessage_def has_pending_exception_def)
  show ?thesis using True e ReportPendingMessages_runs[OF assms(1) p, where obj = obj and verbose = False and K = "{}"]
      ReportPendingMessages_aborts[OF assms(1) p, where obj = obj and verbose = False]
    by (auto simp: call_returns_def runs_def)
next
  case False
  obtain p w' where p: "NewLocal v d = Inr (p, w')" "memory_grows d w'" "handleMem w' p = Some (js_handle v)"
    using NewLocal_exc[OF assms] by blast
  have "call_end obj onUncaught (Success v) d = Inr (Some p, w')"
    using False p(1) by (auto simp: call_end_def sholdReportPendingMessage_def has_pending_exception_def some_local_def)
  then show ?thesis using False p(3) memory_grows_keeps[OF assms(1) p(2)] memory_grows_fields(3,4)[OF p(2)]
    by (auto simp: call_returns_def)
qed

text \<open>What the interface turns a scheduled exception into, when the engine returns normally.\<close>

definition given_back :: "'a world_scheme \<Rightarrow> 'a world_scheme" where
  "given_back w = (let w = w\<lparr>scheduled_exception := 0, pending_exception_obj := 0, pending_message_obj := 0\<rparr> in
     if try_catch_handler w = 0 then w else w\<lparr>tryCatches := (tryCatches w)(try_catch_handler w \<mapsto>
       (the (tryCatches w (try_catch_handler w)))\<lparr>can_continue := False, has_terminated := True, tc_exception := 0\<rparr>)\<rparr>)"

lemma given_back_keeps: "exc_inv w \<Longrightarrow> keeps {} w (given_back w)"
  by (auto simp: given_back_def Let_def keeps_def exc_inv_def fresh_mem_def tc_settings_def intro!: exI[of _ "[]"])

lemma ThrowError_catchable:
  assumes "exc_inv w" "scheduled_exception w \<noteq> 0" "isCatchableByJavascript state"
  shows "ThrowErrorIfHasException obj state w = Inr (Some (scheduled_exception w), given_back w)"
  using assms by (auto simp: ThrowErrorIfHasException_def has_scheduled_exception_def given_back_def Let_def
      ClearPendingExceptionAndMessage_def clear_pending_message_obj_def clear_pending_exception_def clear_scheduled_exception_def
      hasExternalTryCatch_def SetTerminationOnExternalTryCatch_def modify_tc_def load_tc_def exc_inv_def)

lemma ThrowError_uncatchable:
  assumes "exc_inv w" "scheduled_exception w \<noteq> 0" "\<not> isCatchableByJavascript state"
  shows "if pending_exception_obj w = 0 then ThrowErrorIfHasException obj state w =
      (if try_catch_handler w = 0 then Inl CheckFailed else Inr (None, w\<lparr>scheduled_exception := 0\<rparr>))
    else if api_object obj w (pending_exception_obj w) \<and> tells w then ThrowErrorIfHasException obj state w = Inl CheckFailed
    else \<exists>u. ThrowErrorIfHasException obj state w = Inr (None, u) \<and> keeps {} w u \<and>
      reported (pending_exception_obj w) (w\<lparr>scheduled_exception := 0\<rparr>) u"
proof -
  let ?c = "w\<lparr>scheduled_exception := 0\<rparr>"
  have c: "keeps {} w ?c" by (rule keeps_fields(1)[OF assms(1)])
  have f: "tells ?c = tells w" by (simp add: tells_def)
  have e: "ThrowErrorIfHasException obj state w = (if try_catch_handler w = 0 \<or> pending_exception_obj w \<noteq> 0
      then rbind (ReportPendingMessages obj False ?c) (\<lambda>w. Inr (None, w)) else Inr (None, ?c))"
    using assms(2,3) by (auto simp: ThrowErrorIfHasException_def has_scheduled_exception_def Let_def clear_scheduled_exception_def
        hasExternalTryCatch_def has_pending_exception_def)
  show ?thesis
  proof (cases "pending_exception_obj w = 0")
    case True
    then show ?thesis using e by (simp add: ReportPendingMessages_def pending_exception_def has_pending_exception_def)
  next
    case False
    then have p: "pending_exception_obj ?c \<noteq> 0" by simp
    show ?thesis using e False f ReportPendingMessages_runs[OF keeps_inv[OF c] p, where obj = obj and verbose = False and K = "{}"]
        ReportPendingMessages_aborts[OF keeps_inv[OF c] p, where obj = obj and verbose = False] keeps_trans[OF c]
      by (auto simp: runs_def)
  qed
qed

lemma Function_Call_end:
  "Function_Call obj True onUncaught run state trace w = rbind (run (increaseCallDepth w)) (\<lambda>(r, u). case r of
       Failure e st \<Rightarrow> call_end obj onUncaught r (decreaseCallDepth u)
     | Success v \<Rightarrow> rbind (ThrowErrorIfHasException obj state u) (\<lambda>(thrown, u).
         call_end obj onUncaught (case thrown of Some e \<Rightarrow> Failure e trace | None \<Rightarrow> Success v) (decreaseCallDepth u)))"
proof (cases "run (increaseCallDepth w)")
  case (Inr x)
  obtain r u where x: "x = (r, u)" by (cases x)
  note d = Function_Call_def IsExecutionTerminating_def call_end_def Let_def
  show ?thesis
  proof (cases r)
    case (Success v)
    show ?thesis
    proof (cases "ThrowErrorIfHasException obj state u")
      case (Inr y)
      then show ?thesis using \<open>run (increaseCallDepth w) = Inr x\<close> x Success by (cases y; cases "fst y") (simp_all add: d)
    qed (use Inr x Success in \<open>simp add: d\<close>)
  qed (use Inr x in \<open>simp add: d\<close>)
qed (simp add: Function_Call_def IsExecutionTerminating_def)

lemma call_throws_keeps: "call_throws obj b e d (Inr (h, w')) \<Longrightarrow> keeps {} d w'"
  by (auto simp: call_throws_def split: if_splits)

lemma call_returns_keeps: "call_returns obj v d (Inr (h, w')) \<Longrightarrow> keeps {} d w'"
  by (auto simp: call_returns_def split: if_splits)

text \<open>How a call settles whose run ends with \<open>r\<close> in the state \<open>u\<close>. An exception that is scheduled although the engine
  returned normally is thrown if the script has a try block, and otherwise gives way to the pending one, which is reported.\<close>

definition call_settles :: "(ptr \<Rightarrow> bool) \<Rightarrow> bool \<Rightarrow> bool list \<Rightarrow> eval_result \<Rightarrow> 'a world_scheme \<Rightarrow>
   (ptr option \<times> 'a world_scheme) res \<Rightarrow> bool" where
  "call_settles obj onUncaught state r u R = (case r of Failure e st \<Rightarrow> call_throws obj onUncaught e (decreaseCallDepth u) R
   | Success v \<Rightarrow>
       if scheduled_exception u = 0 then call_returns obj v (decreaseCallDepth u) R
       else if isCatchableByJavascript state
         then call_throws obj onUncaught (scheduled_exception u) (decreaseCallDepth (given_back u)) R
       else if pending_exception_obj u = 0 then
         (if try_catch_handler u = 0 then R = Inl CheckFailed
          else call_returns obj v (decreaseCallDepth (u\<lparr>scheduled_exception := 0\<rparr>)) R)
       else if api_object obj u (pending_exception_obj u) \<and> tells u then R = Inl CheckFailed
       else \<exists>x. keeps {} u x \<and> reported (pending_exception_obj u) (u\<lparr>scheduled_exception := 0\<rparr>) x \<and>
         call_returns obj v (decreaseCallDepth x) R)"

text \<open>C11. Calling a function restores the call depth, the handler and the scopes, whatever the run does inside
  them. A result comes back as a handle of it. An exception that leaves the outermost call is reported, to the handler on top if
  that has caught nothing, unless it carries data of the interface, which aborts; one that leaves an inner call is in the
  enclosing handler, or pending and scheduled for the caller; what a run that returns left scheduled or pending is thrown or
  reported.\<close>

theorem function_call_settles:
  assumes "exc_inv w" "callDepth w < 2 ^ 64 - 1" "run (increaseCallDepth w) = Inr (r, u)" "keeps K (increaseCallDepth w) u"
    and "case r of Success v \<Rightarrow> v \<noteq> 0 | Failure e st \<Rightarrow> e \<noteq> 0"
  shows "call_settles obj onUncaught state r u (Function_Call obj True onUncaught run state trace w) \<and>
    (\<forall>h w'. Function_Call obj True onUncaught run state trace w = Inr (h, w') \<longrightarrow> keeps K w w')"
proof -
  let ?R = "Function_Call obj True onUncaught run state trace w"
  have iu: "exc_inv u" by (rule keeps_inv[OF assms(4)])
  have d: "keeps K w (decreaseCallDepth x)" if "keeps {} u x" for x
    by (rule depth_keeps[OF assms(1,2)]) (use keeps_trans[OF assms(4) keeps_mono[OF that]] in blast)
  have fin: "\<forall>h w'. ?R = Inr (h, w') \<longrightarrow> keeps K w w'"
    if "keeps {} u x" "\<And>h w'. ?R = Inr (h, w') \<Longrightarrow> keeps {} (decreaseCallDepth x) w'" for x
    using keeps_trans[OF d[OF that(1)] keeps_mono[OF that(2)]] by blast
  note i = keeps_inv[OF d]
  show ?thesis
  proof (cases r)
    case (Failure e st)
    then have "?R = call_end obj onUncaught (Failure e st) (decreaseCallDepth u)" using assms(3) by (simp add: Function_Call_end)
    then have t: "call_throws obj onUncaught e (decreaseCallDepth u) ?R"
      using call_end_throws[OF i[OF keeps_refl[OF iu]]] Failure assms(5) by simp
    then show ?thesis using fin[OF keeps_refl[OF iu]] call_throws_keeps Failure by (fastforce simp: call_settles_def)
  next
    case (Success v)
    then have v: "v \<noteq> 0" using assms(5) by simp
    have R: "?R = rbind (ThrowErrorIfHasException obj state u) (\<lambda>(thrown, u).
         call_end obj onUncaught (case thrown of Some e \<Rightarrow> Failure e trace | None \<Rightarrow> Success v) (decreaseCallDepth u))"
      using assms(3) Success by (simp add: Function_Call_end)
    have ret: "call_returns obj v (decreaseCallDepth x) ?R \<and> (\<forall>h w'. ?R = Inr (h, w') \<longrightarrow> keeps K w w')"
      if x: "ThrowErrorIfHasException obj state u = Inr (None, x)" "keeps {} u x" for x
    proof -
      have c: "call_returns obj v (decreaseCallDepth x) ?R" using call_end_returns[OF i[OF x(2)] v] x(1) R by simp
      then show ?thesis using fin[OF x(2)] call_returns_keeps by fastforce
    qed
    consider (none) "scheduled_exception u = 0" | (catch) "scheduled_exception u \<noteq> 0" "isCatchableByJavascript state"
      | (rest) "scheduled_exception u \<noteq> 0" "\<not> isCatchableByJavascript state" by blast
    then show ?thesis
    proof cases
      case none
      then have "ThrowErrorIfHasException obj state u = Inr (None, u)"
        by (simp add: ThrowErrorIfHasException_def has_scheduled_exception_def)
      from ret[OF this keeps_refl[OF iu]] show ?thesis using Success none by (simp add: call_settles_def)
    next
      case catch
      note g = given_back_keeps[OF iu]
      have "call_throws obj onUncaught (scheduled_exception u) (decreaseCallDepth (given_back u)) ?R"
        using call_end_throws[OF i[OF g] catch(1)] ThrowError_catchable[OF iu catch] R by simp
      then show ?thesis using fin[OF g] call_throws_keeps Success catch by (fastforce simp: call_settles_def)
    next
      case rest
      note t = ThrowError_uncatchable[OF iu rest, of obj]
      show ?thesis
      proof (cases "pending_exception_obj u = 0")
        case True
        then show ?thesis using t ret[of "u\<lparr>scheduled_exception := 0\<rparr>"] keeps_fields(1)[OF iu] Success rest R
          by (cases "try_catch_handler u = 0") (auto simp: call_settles_def)
      next
        case False
        then show ?thesis using t ret Success rest R by (auto simp: call_settles_def split: if_splits)
      qed
    qed
  qed
qed

text \<open>In a state where a context is entered, whose global object \<open>4\<close> has its data, a script throws a plain object out of
  the outermost call.\<close>

definition global_world :: world where
  "global_world = ready_world\<lparr>extraData := [4 \<mapsto> OtherExtraData 1], dataMem := [1 \<mapsto> GlobalD (newObjectData 0 0 0)], nextData := 2\<rparr>"

lemma global_world_simps [simp]:
  "exc_inv global_world" "can_handle global_world" "s_currentIsolate global_world = 1" "extraData global_world = [4 \<mapsto> OtherExtraData 1]"
  "nextData global_world = 2" "dataMem global_world = [1 \<mapsto> GlobalD (newObjectData 0 0 0)]" "contextScopes global_world = [9]"
  "callDepth global_world = 0" "handleMem global_world = [7 \<mapsto> js_handle 3]" "try_catch_handler global_world = 0"
  "pending_exception_obj global_world = 0" "scheduled_exception global_world = 0"
  using ready_world_simps by (simp_all add: global_world_def exc_inv_def can_handle_def fresh_mem_def)

theorem function_call_settles_witness:
  "\<exists>w'. Function_Call (\<lambda>_. True) True False (\<lambda>w. Inr (Failure 60 [], w)) [] [] global_world = Inr (None, w') \<and>
    callDepth w' = 0 \<and> pending_exception_obj w' = 0 \<and> scheduled_exception w' = 0"
proof -
  let ?w = global_world
  let ?R = "Function_Call (\<lambda>_. True) True False (\<lambda>w. Inr (Failure 60 [], w)) [] [] global_world"
  have i: "exc_inv (increaseCallDepth ?w)" using global_world_simps(1) by (simp add: exc_inv_def fresh_mem_def increaseCallDepth_def)
  then have k: "keeps {} (increaseCallDepth ?w) (increaseCallDepth ?w)" by (rule keeps_refl)
  have d: "decreaseCallDepth (increaseCallDepth ?w) = ?w" by (simp add: increaseCallDepth_def decreaseCallDepth_def add64_def sub64_def size_max_def)
  have a: "\<not> api_object (\<lambda>_. True) ?w 60" by (simp add: api_object_def)
  have "call_settles (\<lambda>_. True) False [] (Failure 60 []) (increaseCallDepth ?w) ?R \<and> (\<forall>h w'. ?R = Inr (h, w') \<longrightarrow> keeps {} ?w w')"
    using function_call_settles[where obj = "\<lambda>_. True" and state = "[]" and trace = "[]" and run = "\<lambda>w. Inr (Failure 60 [], w)"
      and onUncaught = False, OF _ _ refl k] by simp
  then show ?thesis using a d by (auto simp: call_settles_def call_throws_def delivered_def reported_def keeps_def)
qed

end
