(* ===== verification/TemplateSafety.thy ===== *)
theory TemplateSafety
  imports CallProps
begin

text \<open>
  Type safety of templates: over every sequence of operations on templates and their instances, the extra data
  that templates, functions and instances point to exists and is of the class the code casts it to.
\<close>

section \<open>Sound worlds\<close>

fun cell_ok :: "(ptr \<Rightarrow> ptr) \<Rightarrow> (ptr \<Rightarrow> ptr) \<Rightarrow> ExtraData \<Rightarrow> bool" where
  "cell_ok fx ox (FunctionD x) = (functionTemplate x \<noteq> 0 \<and> fx (functionTemplate x) \<noteq> 0 \<and> objectTemplate x = 0)"
| "cell_ok fx ox (ObjectD x) = (objectTemplate x \<noteq> 0 \<longrightarrow> ox (objectTemplate x) \<noteq> 0)"
| "cell_ok fx ox (ExternalD x) = (objectTemplate x = 0)"
| "cell_ok fx ox (GlobalD x) = (objectTemplate x = 0)"
| "cell_ok fx ox _ = True"

definition fields_ok :: "ExtraData \<Rightarrow> bool" where
  "fields_ok x = (case fields_of x of Inr (Some c) \<Rightarrow> 0 < length c \<and> length c < 2 ^ 31 | _ \<Rightarrow> True)"

definition templates_ok :: "'a world_scheme \<Rightarrow> bool" where
  "templates_ok w = (0 < nextData w \<and> dataMem w 0 = None \<and> ftplExtra w 0 = 0 \<and> otplExtra w 0 = 0 \<and>
     (\<forall>p x. dataMem w p = Some x \<longrightarrow> p < nextData w \<and> cell_ok (ftplExtra w) (otplExtra w) x \<and> fields_ok x) \<and>
     (\<forall>t. ftplExtra w t \<noteq> 0 \<longrightarrow> (\<exists>x. dataMem w (ftplExtra w t) = Some (FunctionTemplateD x))) \<and>
     (\<forall>t. otplExtra w t \<noteq> 0 \<longrightarrow> (\<exists>x. dataMem w (otplExtra w t) = Some (ObjectTemplateD x))) \<and>
     (\<forall>o' d. extraData w o' = Some (OtherExtraData d) \<longrightarrow> dataMem w d \<noteq> None))"

lemma ok_fresh: "templates_ok w \<Longrightarrow> dataMem w (nextData w) = None"
  by (cases "dataMem w (nextData w)") (auto simp: templates_ok_def)

lemma ok_no_null: "templates_ok w \<Longrightarrow> dataMem w 0 = None"
  by (cases "dataMem w 0") (auto simp: templates_ok_def)

lemma ok_ftpl: "templates_ok w \<Longrightarrow> ftplExtra w t \<noteq> 0 \<Longrightarrow> \<exists>x. dataMem w (ftplExtra w t) = Some (FunctionTemplateD x)"
  by (auto simp: templates_ok_def)

lemma ok_cell:
  "templates_ok w \<Longrightarrow> dataMem w p = Some x \<Longrightarrow> p < nextData w \<and> cell_ok (ftplExtra w) (otplExtra w) x \<and> fields_ok x"
  by (simp add: templates_ok_def)

lemma ok_otpl:
  assumes "templates_ok w" "otplExtra w t \<noteq> 0"
  shows "\<exists>x. dataMem w (otplExtra w t) = Some (ObjectTemplateD x) \<and>
      (case internalFields x of None \<Rightarrow> True | Some c \<Rightarrow> 0 < length c \<and> length c < 2 ^ 31)"
proof -
  obtain x where x: "dataMem w (otplExtra w t) = Some (ObjectTemplateD x)" using assms unfolding templates_ok_def by blast
  have "fields_ok (ObjectTemplateD x)" using ok_cell[OF assms(1) x] by simp
  then show ?thesis using x by (simp add: fields_ok_def split: option.splits)
qed

lemma ok_local [simp]: "templates_ok (with_local h w) = templates_ok w"
  by (simp add: templates_ok_def)

lemma ok_new:
  assumes "templates_ok w" "cell_ok (ftplExtra w) (otplExtra w) x" "fields_ok x"
  shows "templates_ok (snd (new_data x w))"
  unfolding templates_ok_def
proof (intro conjI allI impI)
  fix p y assume "dataMem (snd (new_data x w)) p = Some y"
  then show "p < nextData (snd (new_data x w))" "fields_ok y"
    "cell_ok (ftplExtra (snd (new_data x w))) (otplExtra (snd (new_data x w))) y"
    using assms ok_cell[OF assms(1), of p y] by (auto simp: new_data_def templates_ok_def less_Suc_eq split: if_splits)
next
  fix t assume "ftplExtra (snd (new_data x w)) t \<noteq> 0"
  then obtain z where "dataMem w (ftplExtra w t) = Some (FunctionTemplateD z)" using ok_ftpl[OF assms(1), of t] by (auto simp: new_data_def)
  then show "\<exists>y. dataMem (snd (new_data x w)) (ftplExtra (snd (new_data x w)) t) = Some (FunctionTemplateD y)"
    using ok_fresh[OF assms(1)] by (auto simp: new_data_def)
next
  fix t assume "otplExtra (snd (new_data x w)) t \<noteq> 0"
  then obtain z where "dataMem w (otplExtra w t) = Some (ObjectTemplateD z)" using ok_otpl[OF assms(1), of t] by (auto simp: new_data_def)
  then show "\<exists>y. dataMem (snd (new_data x w)) (otplExtra (snd (new_data x w)) t) = Some (ObjectTemplateD y)"
    using ok_fresh[OF assms(1)] by (auto simp: new_data_def)
next
  fix o' d assume "extraData (snd (new_data x w)) o' = Some (OtherExtraData d)"
  then show "dataMem (snd (new_data x w)) d \<noteq> None" using assms(1) by (auto simp: new_data_def templates_ok_def)
qed (use assms(1) in \<open>simp_all add: new_data_def templates_ok_def\<close>)

lemma ok_object: "templates_ok w \<Longrightarrow> dataMem w d \<noteq> None \<Longrightarrow> templates_ok (setObjectData o' d w)"
  by (auto simp: templates_ok_def setObjectData_def)

lemma ok_set:
  assumes "templates_ok w" "dataMem w d = Some x" "cell_ok (ftplExtra w) (otplExtra w) y" "fields_ok y"
    and "isFunctionTemplateData x = isFunctionTemplateData y" "isObjectTemplateData x = isObjectTemplateData y"
  shows "templates_ok (set_data d y w)"
  unfolding templates_ok_def
proof (intro conjI allI impI)
  have d: "d \<noteq> 0" using ok_no_null[OF assms(1)] assms(2) by (intro notI) simp
  show "dataMem (set_data d y w) 0 = None" using ok_no_null[OF assms(1)] d by simp
  fix p z assume "dataMem (set_data d y w) p = Some z"
  then show "p < nextData (set_data d y w)" "fields_ok z" "cell_ok (ftplExtra (set_data d y w)) (otplExtra (set_data d y w)) z"
    using assms(3,4) ok_cell[OF assms(1)] assms(2) by (auto split: if_splits)
next
  fix t assume t: "ftplExtra (set_data d y w) t \<noteq> 0"
  obtain z where "dataMem w (ftplExtra w t) = Some (FunctionTemplateD z)" using ok_ftpl[OF assms(1), of t] t by auto
  then show "\<exists>v. dataMem (set_data d y w) (ftplExtra (set_data d y w) t) = Some (FunctionTemplateD v)"
    using assms(2,5) by (cases y) auto
next
  fix t assume t: "otplExtra (set_data d y w) t \<noteq> 0"
  obtain z where "dataMem w (otplExtra w t) = Some (ObjectTemplateD z)" using ok_otpl[OF assms(1), of t] t by auto
  then show "\<exists>v. dataMem (set_data d y w) (otplExtra (set_data d y w) t) = Some (ObjectTemplateD v)"
    using assms(2,6) by (cases y) auto
qed (use assms(1) in \<open>auto simp: templates_ok_def\<close>)

lemma cell_ok_mono: "cell_ok fx ox x \<Longrightarrow> (\<And>t. fx t \<noteq> 0 \<Longrightarrow> fy t \<noteq> 0) \<Longrightarrow> (\<And>t. ox t \<noteq> 0 \<Longrightarrow> oy t \<noteq> 0) \<Longrightarrow> cell_ok fy oy x"
  by (cases x) auto

lemma ok_set_otpl:
  assumes "templates_ok w" "otplExtra w t = 0" "t \<noteq> 0" "dataMem w d = Some (ObjectTemplateD x)"
  shows "templates_ok (w\<lparr>otplExtra := (otplExtra w)(t := d)\<rparr>)"
proof -
  have "d \<noteq> 0" using ok_no_null[OF assms(1)] assms(4) by (intro notI) simp
  then have "cell_ok (ftplExtra w) ((otplExtra w)(t := d)) y" if "cell_ok (ftplExtra w) (otplExtra w) y" for y
    using that assms(2) by (elim cell_ok_mono) auto
  then show ?thesis using assms unfolding templates_ok_def by auto
qed

lemma ok_set_ftpl:
  assumes "templates_ok w" "ftplExtra w t = 0" "t \<noteq> 0" "dataMem w d = Some (FunctionTemplateD x)"
  shows "templates_ok (w\<lparr>ftplExtra := (ftplExtra w)(t := d)\<rparr>)"
proof -
  have "d \<noteq> 0" using ok_no_null[OF assms(1)] assms(4) by (intro notI) simp
  then have "cell_ok ((ftplExtra w)(t := d)) (otplExtra w) y" if "cell_ok (ftplExtra w) (otplExtra w) y" for y
    using that assms(2) by (elim cell_ok_mono) auto
  then show ?thesis using assms unfolding templates_ok_def by auto
qed

section \<open>Operations\<close>

datatype template_op =
    NewFunctionTemplate ptr ptr ptr ptr
  | SetHandler ptr ptr ptr
  | RequestInstanceTemplate ptr
  | NewObjectTemplate ptr
  | SetFieldCount ptr int
  | Instantiate ptr ptr
  | TakeFunction ptr ptr
  | ConstructWith ptr ptr
  | MakeExternal ptr ptr

text \<open>The engine puts the instance data of a template on what it instantiates from it.\<close>

fun template_exec :: "(ptr \<Rightarrow> ptr) \<Rightarrow> template_op \<Rightarrow> 'a world_scheme \<Rightarrow> 'a world_scheme res" where
  "template_exec it (NewFunctionTemplate t callback callbackData signature) w =
     rbind (FunctionTemplate_New 0 t (iso_self w) callback callbackData signature w) (\<lambda>r. Inr (snd r))"
| "template_exec it (SetHandler t callback callbackData) w = SetCallHandler 0 True callback callbackData t w"
| "template_exec it (RequestInstanceTemplate t) w = rbind (InstanceTemplate it t w) (\<lambda>r. Inr (snd r))"
| "template_exec it (NewObjectTemplate t) w = rbind (ObjectTemplate_New t None w) (\<lambda>r. Inr (snd r))"
| "template_exec it (SetFieldCount t n) w = ObjectTemplate_SetInternalFieldCount False t n w"
| "template_exec it (Instantiate o' t) w =
     rbind (ObjectTemplate_NewInstance o' t (setObjectData o' (otplExtra w t) w)) (\<lambda>r. Inr (snd r))"
| "template_exec it (TakeFunction f t) w =
     rbind (GetFunction f t (setObjectData f (ftplExtra w t) w)) (\<lambda>r. Inr (snd r))"
| "template_exec it (ConstructWith o' f) w = setExtraDataToNewObjectInstance it o' f w"
| "template_exec it (MakeExternal o' v) w = rbind (External_New o' v w) (\<lambda>r. Inr (snd r))"

text \<open>What the engine hands out is new, templates are used after their creation, and objects are constructed with
  functions of templates.\<close>

fun op_ok :: "'a world_scheme \<Rightarrow> template_op \<Rightarrow> bool" where
  "op_ok w (NewFunctionTemplate t _ _ _) = (t \<noteq> 0 \<and> ftplExtra w t = 0)"
| "op_ok w (SetHandler t _ _) = (ftplExtra w t \<noteq> 0)"
| "op_ok w (RequestInstanceTemplate t) = (ftplExtra w t \<noteq> 0)"
| "op_ok w (NewObjectTemplate t) = (t \<noteq> 0 \<and> otplExtra w t = 0)"
| "op_ok w (SetFieldCount t n) = (otplExtra w t \<noteq> 0 \<and> 0 < n \<and> n < 2 ^ 31)"
| "op_ok w (Instantiate o' t) = (o' \<noteq> 0 \<and> extraData w o' = None \<and> otplExtra w t \<noteq> 0)"
| "op_ok w (TakeFunction f t) = (f \<noteq> 0 \<and> extraData w f = None \<and> ftplExtra w t \<noteq> 0)"
| "op_ok w (ConstructWith o' f) = (extraData w o' = None \<and>
     (\<exists>d x. extraData w f = Some (OtherExtraData d) \<and> dataMem w d = Some (FunctionD x)))"
| "op_ok w (MakeExternal o' v) = (o' \<noteq> 0 \<and> extraData w o' = None)"

definition sound :: "'a world_scheme \<Rightarrow> bool" where
  "sound w = (templates_ok w \<and> can_handle w \<and> contextScopes w \<noteq> [])"

lemma sound_local: "sound w \<Longrightarrow> isValid h \<Longrightarrow> h_location h = Local \<Longrightarrow> sound (with_local h w)"
  using NewLocal_handle_eq(2)[of w h] by (simp add: sound_def) (simp add: with_local_def)

lemma local_sound:
  assumes "sound w" "created = Inr h" "isValid h" "h_location h = Local"
  shows "\<exists>p u. NewLocal_handle created w = Inr (p, u) \<and> sound u"
  using NewLocal_handle_eq(1)[of w h] assms sound_local[of w h] by (auto simp: sound_def)

lemma ftpl_sound: "sound w \<Longrightarrow> t \<noteq> 0 \<Longrightarrow> \<exists>p u. NewLocal_ftpl t w = Inr (p, u) \<and> sound u"
  unfolding NewLocal_ftpl_def
  by (rule local_sound[where h = "\<lparr>h_val = t, h_type = FunctionTemplate, h_valueType = NoValueType, h_location = Local\<rparr>"])
    (simp_all add: handle_defs)

lemma otpl_sound: "sound w \<Longrightarrow> t \<noteq> 0 \<Longrightarrow> \<exists>p u. NewLocal_otpl t w = Inr (p, u) \<and> sound u"
  unfolding NewLocal_otpl_def
  by (rule local_sound[where h = "\<lparr>h_val = t, h_type = ObjectTemplate, h_valueType = NoValueType, h_location = Local\<rparr>"])
    (simp_all add: handle_defs)

lemma value_sound: "sound w \<Longrightarrow> v \<noteq> 0 \<Longrightarrow> \<exists>p u. NewLocal v w = Inr (p, u) \<and> sound u"
  using NewLocal_eq[of w v] sound_local[of w "js_handle v"] by (auto simp: sound_def)

lemma new_data_fields [simp]:
  "extraData (snd (new_data x w)) = extraData w" "ftplExtra (snd (new_data x w)) = ftplExtra w"
  "otplExtra (snd (new_data x w)) = otplExtra w" "dataMem (snd (new_data x w)) (nextData w) = Some x"
  "contextScopes (snd (new_data x w)) = contextScopes w" "s_currentIsolate (snd (new_data x w)) = s_currentIsolate w"
  by (simp_all add: new_data_def)

lemma setObjectData_fields [simp]:
  "dataMem (setObjectData o' d w) = dataMem w" "ftplExtra (setObjectData o' d w) = ftplExtra w"
  "otplExtra (setObjectData o' d w) = otplExtra w" "nextData (setObjectData o' d w) = nextData w"
  "contextScopes (setObjectData o' d w) = contextScopes w" "extraData (setObjectData o' d w) = (extraData w)(o' \<mapsto> OtherExtraData d)"
  by (simp_all add: setObjectData_def)

lemma can_handle_updates [simp]:
  "can_handle (snd (new_data x w)) = can_handle w" "can_handle (setObjectData o' d w) = can_handle w"
  "can_handle (set_data d x w) = can_handle w" "can_handle (w\<lparr>otplExtra := f\<rparr>) = can_handle w"
  "can_handle (w\<lparr>ftplExtra := g\<rparr>) = can_handle w" "contextScopes (set_data d x w) = contextScopes w"
  by (simp_all add: can_handle_def new_data_def setObjectData_def set_data_def)

lemma sound_new: "sound w \<Longrightarrow> cell_ok (ftplExtra w) (otplExtra w) x \<Longrightarrow> fields_ok x \<Longrightarrow> sound (snd (new_data x w))"
  by (simp add: sound_def ok_new)

lemma sound_object: "sound w \<Longrightarrow> dataMem w d \<noteq> None \<Longrightarrow> sound (setObjectData o' d w)"
  using ok_object[of w d o'] by (auto simp: sound_def)

lemma get_ftpl_data: "templates_ok w \<Longrightarrow> ftplExtra w t \<noteq> 0 \<Longrightarrow> getFunctionTemplateExtraData t w = Inr (ftplExtra w t)"
  using ok_ftpl[of w t] by (auto simp: getFunctionTemplateExtraData_def as_kind_def load_data_def)

lemma get_otpl_data: "templates_ok w \<Longrightarrow> getObjectTemplateExtraData t w = Inr (otplExtra w t)"
  using ok_otpl[of w t] by (cases "otplExtra w t = 0") (auto simp: getObjectTemplateExtraData_def as_kind_def load_data_def)

lemma fields_ok_new [simp]: "fields_ok (ObjectD (newObjectData a b c))" "fields_ok (FunctionD (newObjectData a b c))"
  "fields_ok (ObjectTemplateD (newTemplateData a))" "fields_ok (FunctionTemplateD (newFunctionTemplateData a b c d e))"
  by (simp_all add: fields_ok_def newTemplateData_def)

text \<open>The data of an instance of an object template.\<close>

lemma create_sound:
  assumes "sound w" "otplExtra w t \<noteq> 0"
  shows "\<exists>u. createObjectData (otplExtra w t) t w = Inr (nextData w, u) \<and> sound u \<and> extraData u = extraData w \<and>
    dataMem u (nextData w) \<noteq> None"
proof -
  have ok: "templates_ok w" using assms(1) by (simp add: sound_def)
  obtain x where x: "dataMem w (otplExtra w t) = Some (ObjectTemplateD x)"
    "case internalFields x of None \<Rightarrow> True | Some c \<Rightarrow> 0 < length c \<and> length c < 2 ^ 31" using ok_otpl[OF ok assms(2)] by blast
  let ?y = "with_fields (internalFields x) (ObjectD (newObjectData (functionTemplate x) t 0))"
  have "createObjectData (otplExtra w t) t w = Inr (nextData w, snd (new_data ?y w))"
    by (rule createObjectData_eq[OF x(1) _ x(2) refl assms(2) x(1) ok_fresh[OF ok]]) simp
  moreover have "sound (snd (new_data ?y w))"
    using assms x(2) by (intro sound_new) (auto simp: fields_ok_def split: option.split)
  ultimately show ?thesis by simp
qed

lemma exec_NewFunctionTemplate:
  assumes "sound w" "t \<noteq> 0" "ftplExtra w t = 0"
  shows "\<exists>p u. FunctionTemplate_New 0 t i c d s w = Inr (p, u) \<and> sound u"
proof -
  let ?x = "FunctionTemplateD (newFunctionTemplateData t i c d s)"
  let ?v = "snd (new_data ?x w)"
  have v: "sound ?v" using assms(1) by (intro sound_new) simp_all
  let ?u = "?v\<lparr>ftplExtra := (ftplExtra ?v)(t := nextData w)\<rparr>"
  have "templates_ok ?u" by (rule ok_set_ftpl) (use v assms in \<open>auto simp: sound_def\<close>)
  then have u: "sound ?u" using v by (simp add: sound_def)
  then show ?thesis using ftpl_sound[OF u assms(2)] assms
    by (auto simp: FunctionTemplate_New_def case_prod_beta setFunctionTemplateExtraData_def some_local_def)
qed

lemma object_template_data:
  assumes "sound w" "t \<noteq> 0" "otplExtra w t = 0"
  shows "\<exists>u. setObjectTemplateExtraData t (nextData w) (snd (new_data (ObjectTemplateD (newTemplateData f)) w)) = Inr u \<and> sound u"
proof -
  let ?v = "snd (new_data (ObjectTemplateD (newTemplateData f)) w)"
  have v: "sound ?v" using assms(1) by (intro sound_new) simp_all
  let ?u = "?v\<lparr>otplExtra := (otplExtra ?v)(t := nextData w)\<rparr>"
  have "templates_ok ?u" by (rule ok_set_otpl) (use v assms in \<open>auto simp: sound_def\<close>)
  then show ?thesis using v assms by (simp add: sound_def setObjectTemplateExtraData_def)
qed

lemma exec_InstanceTemplate:
  assumes "sound w" "ftplExtra w t \<noteq> 0" "it t \<noteq> 0"
  shows "\<exists>p u. InstanceTemplate it t w = Inr (p, u) \<and> sound u"
proof -
  have ok: "templates_ok w" using assms(1) by (simp add: sound_def)
  obtain u where u: "(if otplExtra w (it t) \<noteq> 0 then Inr w else case new_data (ObjectTemplateD (newTemplateData t)) w of
      (d, w) \<Rightarrow> setObjectTemplateExtraData (it t) d w) = Inr u" "sound u"
    using object_template_data[OF assms(1,3), of t] assms(1) by (cases "otplExtra w (it t) = 0") (auto simp: case_prod_beta)
  have "s_currentIsolate u \<noteq> 0" using u(2) by (simp add: sound_def can_handle_def)
  then show ?thesis using otpl_sound[OF u(2) assms(3)] u(1) assms(2)
    by (auto simp: InstanceTemplate_def get_ftpl_data[OF ok] get_otpl_data[OF ok] Let_def)
qed

lemma exec_SetFieldCount:
  assumes "sound w" "otplExtra w t \<noteq> 0" "0 < n" "n < 2 ^ 31"
  shows "\<exists>u. ObjectTemplate_SetInternalFieldCount False t n w = Inr u \<and> sound u"
proof -
  have ok: "templates_ok w" using assms(1) by (simp add: sound_def)
  obtain x where x: "dataMem w (otplExtra w t) = Some (ObjectTemplateD x)" using ok_otpl[OF ok assms(2)] by blast
  let ?y = "with_fields (Some (replicate (nat n) 0)) (ObjectTemplateD x)"
  have "setInternalFieldCount n (otplExtra w t) w = Inr (set_data (otplExtra w t) ?y w)"
    by (rule setInternalFieldCount_pos[OF x _ assms(3,4)]) simp
  moreover have "templates_ok (set_data (otplExtra w t) ?y w)"
    by (rule ok_set[OF ok x]) (use assms(3,4) in \<open>auto simp: fields_ok_def\<close>)
  ultimately show ?thesis using assms(1)
    by (simp add: ObjectTemplate_SetInternalFieldCount_def ObjectTemplate_setInternalFieldCount_def get_otpl_data[OF ok] sound_def)
qed

lemma exec_Instantiate:
  assumes "sound w" "otplExtra w t \<noteq> 0" "o' \<noteq> 0"
  shows "\<exists>p u. ObjectTemplate_NewInstance o' t (setObjectData o' (otplExtra w t) w) = Inr (p, u) \<and> sound u"
proof -
  have ok: "templates_ok w" using assms(1) by (simp add: sound_def)
  obtain x where x: "dataMem w (otplExtra w t) = Some (ObjectTemplateD x)" using ok_otpl[OF ok assms(2)] by blast
  let ?v = "setObjectData o' (otplExtra w t) w"
  have v: "sound ?v" using sound_object[OF assms(1), of "otplExtra w t" o'] x by simp
  obtain u where u: "createObjectData (otplExtra ?v t) t ?v = Inr (nextData ?v, u)" "sound u" "dataMem u (nextData ?v) \<noteq> None"
    using create_sound[OF v, of t] assms(2) by auto
  have s: "sound (setObjectData o' (nextData ?v) u)" using sound_object[OF u(2,3)] .
  have g: "getObjectTemplateExtraData t ?v = Inr (otplExtra w t)" using get_otpl_data[of ?v t] v by (simp add: sound_def)
  show ?thesis using value_sound[OF s assms(3)] u(1) x
    by (auto simp: ObjectTemplate_NewInstance_def IsExecutionTerminating_def g has_kind_def load_data_def some_local_def)
qed

lemma exec_TakeFunction:
  assumes "sound w" "ftplExtra w t \<noteq> 0" "f \<noteq> 0"
  shows "\<exists>p u. GetFunction f t (setObjectData f (ftplExtra w t) w) = Inr (p, u) \<and> sound u"
proof -
  have ok: "templates_ok w" using assms(1) by (simp add: sound_def)
  obtain x where x: "dataMem w (ftplExtra w t) = Some (FunctionTemplateD x)" using ok_ftpl[OF ok assms(2)] by blast
  let ?v = "setObjectData f (ftplExtra w t) w"
  have v: "sound ?v" using sound_object[OF assms(1), of "ftplExtra w t" f] x by simp
  have t: "t \<noteq> 0" using assms(2) ok by (intro notI) (simp add: templates_ok_def)
  let ?u = "snd (new_data (FunctionD (newObjectData t 0 0)) ?v)"
  have u: "sound ?u" using v t assms(2) by (intro sound_new) simp_all
  have s: "sound (setObjectData f (nextData w) ?u)"
    by (rule sound_object[OF u]) (use new_data_fields(4)[of "FunctionD (newObjectData t 0 0)" ?v] in simp)
  have g: "getFunctionTemplateExtraData t ?v = Inr (ftplExtra w t)" using get_ftpl_data[of ?v t] v assms(2) by (simp add: sound_def)
  show ?thesis using value_sound[OF s assms(3)] x
    by (auto simp: GetFunction_def IsExecutionTerminating_def g has_kind_def load_data_def some_local_def case_prod_beta)
qed

lemma exec_Construct:
  assumes "sound w" "extraData w o' = None" "extraData w f = Some (OtherExtraData d)" "dataMem w d = Some (FunctionD x)"
    and "\<forall>t. it t \<noteq> 0"
  shows "\<exists>u. setExtraDataToNewObjectInstance it o' f w = Inr u \<and> sound u"
proof -
  have ok: "templates_ok w" using assms(1) by (simp add: sound_def)
  have "d \<noteq> 0" using ok_no_null[OF ok] assms(4) by (intro notI) simp
  then have t: "functionTemplate x \<noteq> 0" "d \<noteq> 0" using ok_cell[OF ok assms(4)] by auto
  have f: "getFunctionExtraData f w = Inr d" using assms(3,4) by (simp add: getFunctionExtraData_def as_kind_def load_data_def)
  show ?thesis
  proof (cases "otplExtra w (it (functionTemplate x)) = 0")
    case True
    let ?u = "snd (new_data (ObjectD (newObjectData (functionTemplate x) 0 0)) w)"
    have "sound ?u" using assms(1) by (intro sound_new) simp_all
    then have "sound (setObjectData o' (nextData w) ?u)" by (rule sound_object) simp
    then show ?thesis using f t assms(2,4) True
      by (simp add: setExtraDataToNewObjectInstance_def load_data_def getObjectTemplateExtraData_of_object_def
          get_otpl_data[OF ok] case_prod_beta Let_def)
  next
    case False
    obtain u where u: "createObjectData (otplExtra w (it (functionTemplate x))) (it (functionTemplate x)) w = Inr (nextData w, u)"
      "sound u" "dataMem u (nextData w) \<noteq> None" using create_sound[OF assms(1) False] by blast
    have "sound (setObjectData o' (nextData w) u)" using sound_object[OF u(2,3)] .
    then show ?thesis using f t assms(2,4) False u(1)
      by (simp add: setExtraDataToNewObjectInstance_def load_data_def getObjectTemplateExtraData_of_object_def
          get_otpl_data[OF ok] Let_def)
  qed
qed

lemma exec_External:
  assumes "sound w" "o' \<noteq> 0"
  shows "\<exists>p u. External_New o' v w = Inr (p, u) \<and> sound u"
proof -
  let ?x = "ExternalD ((newObjectData 0 0 0)\<lparr>internalFields := Some [v]\<rparr>)"
  have "sound (snd (new_data ?x w))" using assms(1) by (intro sound_new) (simp_all add: fields_ok_def)
  then have "sound (setObjectData o' (nextData w) (snd (new_data ?x w)))" by (rule sound_object) simp
  from sound_local[OF this, of "js_handle o'"] show ?thesis
    using External_New_eq[of w o' v] assms by (simp add: sound_def[of w])
qed

lemma exec_SetHandler:
  assumes "sound w" "ftplExtra w t \<noteq> 0"
  shows "\<exists>u. SetCallHandler 0 True c d t w = Inr u \<and> sound u"
proof -
  have ok: "templates_ok w" using assms(1) by (simp add: sound_def)
  obtain x where x: "dataMem w (ftplExtra w t) = Some (FunctionTemplateD x)" using ok_ftpl[OF ok assms(2)] by blast
  have "fields_ok (FunctionTemplateD x)" using ok_cell[OF ok x] by simp
  then have "templates_ok (set_data (ftplExtra w t) (FunctionTemplateD (x\<lparr>ft_callback := c, ft_callbackData := d\<rparr>)) w)"
    by (intro ok_set[OF ok x]) (auto simp: fields_ok_def)
  then show ?thesis using assms(1) x by (simp add: SetCallHandler_def get_ftpl_data[OF ok assms(2)] load_data_def sound_def)
qed

text \<open>Every allowed operation succeeds and leaves a sound world.\<close>

lemma template_exec_sound:
  assumes "sound w" "op_ok w op" "\<forall>t. it t \<noteq> 0"
  shows "\<exists>u. template_exec it op w = Inr u \<and> sound u"
proof (cases op)
  case (NewFunctionTemplate t c d s)
  then show ?thesis using exec_NewFunctionTemplate[OF assms(1), of t "iso_self w" c d s] assms(2) by auto
next
  case (SetHandler t c d)
  then show ?thesis using exec_SetHandler[OF assms(1)] assms(2) by simp
next
  case (RequestInstanceTemplate t)
  then show ?thesis using exec_InstanceTemplate[OF assms(1), of t it] assms(2,3) by auto
next
  case (NewObjectTemplate t)
  obtain u where "setObjectTemplateExtraData t (nextData w) (snd (new_data (ObjectTemplateD (newTemplateData 0)) w)) = Inr u" "sound u"
    using object_template_data[OF assms(1), of t 0] assms(2) NewObjectTemplate by auto
  then show ?thesis using otpl_sound[of u t] assms(2) NewObjectTemplate by (auto simp: ObjectTemplate_New_def case_prod_beta)
next
  case (SetFieldCount t n)
  then show ?thesis using exec_SetFieldCount[OF assms(1)] assms(2) by simp
next
  case (Instantiate o' t)
  then show ?thesis using exec_Instantiate[OF assms(1), of t o'] assms(2) by auto
next
  case (TakeFunction f t)
  then show ?thesis using exec_TakeFunction[OF assms(1), of t f] assms(2) by auto
next
  case (ConstructWith o' f)
  then show ?thesis using exec_Construct[OF assms(1), of o' f] assms(2,3) by auto
next
  case (MakeExternal o' v)
  then show ?thesis using exec_External[OF assms(1), of o' v] assms(2) by auto
qed

inductive reachable_templates :: "(ptr \<Rightarrow> ptr) \<Rightarrow> 'a world_scheme \<Rightarrow> 'a world_scheme \<Rightarrow> bool"
  for it :: "ptr \<Rightarrow> ptr" and w0 :: "'a world_scheme" where
  rt_start: "reachable_templates it w0 w0"
| rt_step: "reachable_templates it w0 w \<Longrightarrow> op_ok w op \<Longrightarrow> template_exec it op w = Inr u \<Longrightarrow> reachable_templates it w0 u"

lemma reachable_sound:
  "reachable_templates it w0 w \<Longrightarrow> sound w0 \<Longrightarrow> \<forall>t. it t \<noteq> 0 \<Longrightarrow> sound w"
proof (induction rule: reachable_templates.induct)
  case (rt_step w op u)
  then show ?case using template_exec_sound[of w op it] by auto
qed

definition type_fault :: "'b res \<Rightarrow> bool" where
  "type_fault r = (r = Inl TypeConfusion \<or> r = Inl NullDeref)"

lemma HasInstance_sound:
  assumes "templates_ok w" "\<forall>t. \<exists>n. (parent ^^ n) t = 0"
  shows "\<not> type_fault (HasInstance parent obj v t w)"
proof (cases "extraData w v")
  case (Some e)
  have ends: "\<not> type_fault (ends (inherits_from parent t p))" for p
    using assms(2) inherits_from_ancestor[of _ parent p t] by (auto simp: type_fault_def ends_def split: option.split)
  show ?thesis
  proof (cases e)
    case (OtherExtraData d)
    then obtain x where x: "dataMem w d = Some x" using assms(1) Some by (force simp: templates_ok_def)
    have c: "cell_ok (ftplExtra w) (otplExtra w) x" using ok_cell[OF assms(1) x] by simp
    show ?thesis
    proof (cases x)
      case (ObjectD y)
      then show ?thesis using Some OtherExtraData x c ends ok_otpl[OF assms(1), of "objectTemplate y"] get_otpl_data[OF assms(1), of "objectTemplate y"]
        by (auto simp: HasInstance_def has_kind_def as_kind_def load_data_def type_fault_def)
    qed (use Some OtherExtraData x c ends in \<open>auto simp: HasInstance_def has_kind_def as_kind_def load_data_def type_fault_def\<close>)
  qed (use Some in \<open>auto simp: HasInstance_def has_kind_def type_fault_def\<close>)
qed (auto simp: HasInstance_def type_fault_def)

lemma getFunctionData_sound:
  assumes "templates_ok w" "extraData w f \<noteq> None"
  shows "\<not> type_fault (getFunctionDataFromCallee f w)"
proof (cases "extraData w f")
  case (Some e)
  then show ?thesis
  proof (cases e)
    case (OtherExtraData d)
    then obtain x where x: "dataMem w d = Some x" using assms(1) Some by (force simp: templates_ok_def)
    then show ?thesis using Some OtherExtraData
      by (cases x) (auto simp: getFunctionDataFromCallee_def has_kind_def as_kind_def load_data_def type_fault_def)
  qed (auto simp: getFunctionDataFromCallee_def has_kind_def type_fault_def)
qed (use assms(2) in simp)

text \<open>C4. Templates are type-safe: from a sound world on, every operation on templates, functions and instances
  that the rules allow succeeds, and in every world reached that way no test of an object against a template,
  and no lookup of the data of a called function, reads data that does not exist or is of another class.\<close>

theorem templates_type_safe:
  assumes "reachable_templates it w0 w" "sound w0" "\<forall>t. it t \<noteq> 0" "\<forall>t. \<exists>n. (parent ^^ n) t = 0"
  shows "(\<forall>op. op_ok w op \<longrightarrow> (\<exists>u. template_exec it op w = Inr u)) \<and>
    (\<forall>v t. \<not> type_fault (HasInstance parent obj v t w)) \<and>
    (\<forall>f. extraData w f \<noteq> None \<longrightarrow> \<not> type_fault (getFunctionDataFromCallee f w))"
proof -
  have s: "sound w" using reachable_sound[OF assms(1-3)] .
  then have ok: "templates_ok w" by (simp add: sound_def)
  show ?thesis using template_exec_sound[OF s _ assms(3)] HasInstance_sound[OF ok assms(4)] getFunctionData_sound[OF ok] by blast
qed

lemma sound_ready: "sound ready_world"
  by (simp add: sound_def templates_ok_def)

theorem templates_type_safe_witness:
  "\<exists>u. template_exec (\<lambda>_. 72) (NewFunctionTemplate 71 5 6 0) ready_world = Inr u \<and>
    (\<exists>u'. template_exec (\<lambda>_. 72) (TakeFunction 60 71) u = Inr u' \<and> \<not> type_fault (HasInstance (\<lambda>_. 0) (\<lambda>_. True) 60 71 u'))"
proof -
  let ?it = "\<lambda>_ :: ptr. 72 :: ptr"
  have c: "\<forall>t. \<exists>n. ((\<lambda>_ :: ptr. 0 :: ptr) ^^ n) t = 0" by (intro allI exI[of _ 1]) simp
  have nz: "\<forall>t :: ptr. (72 :: ptr) \<noteq> 0" by simp
  note safe = templates_type_safe[where obj = "\<lambda>_. True", OF _ sound_ready nz c]
  have "op_ok ready_world (NewFunctionTemplate 71 5 6 0)" by simp
  then obtain u where u: "template_exec ?it (NewFunctionTemplate 71 5 6 0) ready_world = Inr u"
    using safe[OF rt_start] by blast
  have r: "reachable_templates ?it ready_world u" by (rule rt_step[OF rt_start _ u]) simp
  let ?v = "(snd (new_data (FunctionTemplateD (newFunctionTemplateData 71 (iso_self ready_world) 5 6 0)) ready_world))
    \<lparr>ftplExtra := (\<lambda>_. 0)(71 := 1)\<rparr>"
  have "\<exists>p. NewLocal_ftpl 71 ?v = Inr (p, u)"
    using u by (auto simp: FunctionTemplate_New_def case_prod_beta setFunctionTemplateExtraData_def some_local_def rbind_eq_Inr)
  moreover have "NewLocal_ftpl 71 ?v = Inr (nextHandle ?v, with_local (emptyHandle\<lparr>h_val := 71, h_type := FunctionTemplate\<rparr>) ?v)"
    unfolding NewLocal_ftpl_def createFunctionTemplate_def newValueWrap_def
    by (simp add: NewLocal_handle_eq(1) handle_defs)
  ultimately have e: "ftplExtra u 71 \<noteq> 0" "extraData u = (\<lambda>_. None)" by auto
  have op: "op_ok u (TakeFunction 60 71)" using e by simp
  obtain u' where u': "template_exec ?it (TakeFunction 60 71) u = Inr u'" using safe[OF r] op by blast
  have "reachable_templates ?it ready_world u'" by (rule rt_step[OF r op u'])
  then have "\<not> type_fault (HasInstance (\<lambda>_. 0) (\<lambda>_. True) 60 71 u')" using safe by blast
  then show ?thesis using u u' by blast
qed

end
