(* ===== verification/Callbacks.thy ===== *)
theory Callbacks
  imports Templates
begin

text \<open>
  What a callback of the embedder sees and returns: \<^verbatim>\<open>FunctionCallbackInfoWrap\<close> and
  \<^verbatim>\<open>PropertyCallbackInfoWrap\<close> of \<^verbatim>\<open>src/src/api/function.cc\<close> with the accessors of
  \<^verbatim>\<open>src/include/v8.h\<close>, the interceptors of object templates in \<^verbatim>\<open>src/src/api-template.cc\<close> and
  the native accessors of \<^verbatim>\<open>src/src/api/object.cc\<close>.

  The two classes share memory with the inline accessors of the interface, which address it by index. The
  cells are lists whose \<open>None\<close> is a cell that was never written; reading one, or one outside of its
  array, is a fault. Values of the engine are its pointers; the embedder's callbacks are arguments that take the
  cells they may write.
\<close>

section \<open>Cells\<close>

type_synonym cells = "ptr option list"

definition read_cell :: "cells \<Rightarrow> int \<Rightarrow> ptr res" where
  "read_cell c i = guard OutOfBounds (0 \<le> i \<and> i < int (length c))
     (case c ! nat i of None \<Rightarrow> Inl UninitRead | Some p \<Rightarrow> Inr p)"

definition write_cell :: "cells \<Rightarrow> int \<Rightarrow> ptr \<Rightarrow> cells res" where
  "write_cell c i p = guard OutOfBounds (0 \<le> i \<and> i < int (length c)) (Inr (c[nat i := Some p]))"

text \<open>A new handle that belongs to no scope.\<close>

definition new_value :: "ptr \<Rightarrow> 'a scopes_scheme \<Rightarrow> (ptr \<times> 'a scopes_scheme) res" where
  "new_value esValue w = rbind (createValue esValue) (\<lambda>h. Inr (alloc_handle h w))"

text \<open>The model has one isolate; a word that is read as the isolate must be its address.\<close>

definition fromV8 :: "ptr \<Rightarrow> 'a isolate_scheme \<Rightarrow> 'b res \<Rightarrow> 'b res" where
  "fromV8 isolate w m = guard TypeConfusion (isolate = iso_self w) m"

section \<open>The indices of the interface\<close>

definition f_kArgsLength :: nat where "f_kArgsLength = 6"
definition f_kHolderIndex :: nat where "f_kHolderIndex = 0"
definition f_kIsolateIndex :: nat where "f_kIsolateIndex = 1"
definition f_kReturnValueDefaultValueIndex :: nat where "f_kReturnValueDefaultValueIndex = 2"
definition f_kReturnValueIndex :: nat where "f_kReturnValueIndex = 3"
definition f_kDataIndex :: nat where "f_kDataIndex = 4"
definition f_kNewTargetIndex :: nat where "f_kNewTargetIndex = 5"

definition p_kArgsLength :: nat where "p_kArgsLength = 7"
definition p_kShouldThrowOnErrorIndex :: nat where "p_kShouldThrowOnErrorIndex = 0"
definition p_kHolderIndex :: nat where "p_kHolderIndex = 1"
definition p_kIsolateIndex :: nat where "p_kIsolateIndex = 2"
definition p_kReturnValueIndex :: nat where "p_kReturnValueIndex = 4"
definition p_kDataIndex :: nat where "p_kDataIndex = 5"
definition p_kThisIndex :: nat where "p_kThisIndex = 6"

lemmas info_indices = f_kArgsLength_def f_kHolderIndex_def f_kIsolateIndex_def f_kReturnValueDefaultValueIndex_def
  f_kReturnValueIndex_def f_kDataIndex_def f_kNewTargetIndex_def p_kArgsLength_def p_kShouldThrowOnErrorIndex_def
  p_kHolderIndex_def p_kIsolateIndex_def p_kReturnValueIndex_def p_kDataIndex_def p_kThisIndex_def

section \<open>Return values\<close>

text \<open>A \<^verbatim>\<open>ReturnValue\<close> is the address of a cell, here its index; the default value and the isolate are
  found relative to it.\<close>

definition GetDefaultValue :: "nat \<Rightarrow> cells \<Rightarrow> ptr res" where
  "GetDefaultValue slot c = read_cell c (int slot - 1)"

definition rv_GetIsolate :: "nat \<Rightarrow> cells \<Rightarrow> ptr res" where
  "rv_GetIsolate slot c = read_cell c (int slot - 2)"

definition rv_Get :: "nat \<Rightarrow> cells \<Rightarrow> 'a exc_scheme \<Rightarrow> (ptr option \<times> 'a exc_scheme) res" where
  "rv_Get slot c w = rbind (rv_GetIsolate slot c) (\<lambda>isolate. rbind (read_cell c (int slot)) (\<lambda>p.
     fromV8 isolate w (Local_New (if p = 0 then None else Some p) w)))"

text \<open>The setters. \<open>num\<close> is the engine's value of an integer; a double is given as the engine's value of
  it.\<close>

datatype return_value_op = SetLocal "ptr option" | SetGlobal "ptr option" | SetBool bool | SetDouble ptr
  | SetInt32 "32 word" | SetUint32 "32 word" | SetNull | SetUndefined | SetEmptyString

definition set_root :: "nat \<Rightarrow> nat \<Rightarrow> cells \<Rightarrow> 'a isolate_scheme \<Rightarrow> cells res" where
  "set_root slot root_index c w = rbind (rv_GetIsolate slot c) (\<lambda>isolate. fromV8 isolate w
     (rbind (getGlobal (int root_index) w) (\<lambda>p. write_cell c (int slot) p)))"

definition set_default :: "nat \<Rightarrow> cells \<Rightarrow> cells res" where
  "set_default slot c = rbind (GetDefaultValue slot c) (\<lambda>d. write_cell c (int slot) d)"

definition set_new :: "nat \<Rightarrow> ptr \<Rightarrow> cells \<Rightarrow> 'a exc_scheme \<Rightarrow> (cells \<times> 'a exc_scheme) res" where
  "set_new slot esValue c w = rbind (rv_GetIsolate slot c) (\<lambda>isolate. fromV8 isolate w
     (rbind (NewLocal esValue w) (\<lambda>(h, w). rbind (write_cell c (int slot) h) (\<lambda>c. Inr (c, w)))))"

definition on_cells :: "cells res \<Rightarrow> 'w \<Rightarrow> (cells \<times> 'w) res" where
  "on_cells m w = rbind m (\<lambda>c. Inr (c, w))"

fun rv_Set :: "(int \<Rightarrow> ptr) \<Rightarrow> nat \<Rightarrow> return_value_op \<Rightarrow> cells \<times> 'a exc_scheme \<Rightarrow> (cells \<times> 'a exc_scheme) res" where
  "rv_Set num slot (SetLocal None) (c, w) = on_cells (set_default slot c) w"
| "rv_Set num slot (SetLocal (Some h)) (c, w) = on_cells (write_cell c (int slot) h) w"
| "rv_Set num slot (SetGlobal None) (c, w) = on_cells (set_default slot c) w"
| "rv_Set num slot (SetGlobal (Some g)) (c, w) = (case handleMem w g of None \<Rightarrow> Inl NullDeref | Some x \<Rightarrow>
     on_cells (write_cell c (int slot) (h_val x)) w)"
| "rv_Set num slot (SetBool b) (c, w) =
     on_cells (set_root slot (if b then kTrueValueRootIndex else kFalseValueRootIndex) c w) w"
| "rv_Set num slot (SetDouble d) (c, w) = set_new slot d c w"
| "rv_Set num slot (SetInt32 i) (c, w) = set_new slot (num (sint i)) c w"
| "rv_Set num slot (SetUint32 i) (c, w) = (if and i (push_bit 31 1) = 0 then set_new slot (num (sint i)) c w
     else set_new slot (num (uint i)) c w)"
| "rv_Set num slot SetNull (c, w) = on_cells (set_root slot kNullValueRootIndex c w) w"
| "rv_Set num slot SetUndefined (c, w) = on_cells (set_root slot kUndefinedValueRootIndex c w) w"
| "rv_Set num slot SetEmptyString (c, w) = on_cells (set_root slot kEmptyStringRootIndex c w) w"

section \<open>Function callbacks\<close>

text \<open>\<open>call_args\<close> is the block that \<^verbatim>\<open>m_args\<close> owns, \<open>values_start\<close> the index in it that
  \<^verbatim>\<open>values_\<close> points to; for a call without arguments it is the one before the block.\<close>

record callback_info =
  call_args :: cells
  implicit_args :: cells
  values_start :: int
  call_length :: int

text \<open>The size of the block is computed in \<^verbatim>\<open>int\<close>, whose overflow is undefined, and a negative one
  becomes a size no allocation meets.\<close>

definition wrap_argument :: "int \<Rightarrow> ptr list \<Rightarrow> nat \<Rightarrow> cells \<times> 'a scopes_scheme \<Rightarrow> (cells \<times> 'a scopes_scheme) res" where
  "wrap_argument idx_end argv i cw = guard OutOfBounds (i < length argv)
     (rbind (new_value (argv ! i) (snd cw)) (\<lambda>(h, w). on_cells (write_cell (fst cw) (idx_end - int i) h) w))"

definition toWrapperArgs :: "ptr \<Rightarrow> int \<Rightarrow> ptr list \<Rightarrow> 'a scopes_scheme \<Rightarrow> (cells \<times> int \<times> 'a scopes_scheme) res" where
  "toWrapperArgs thisValue argc argv w = guard UndefinedConversion (argc + 1 < 2 ^ 31) (guard OutOfMemory (0 \<le> argc + 1)
     (let m_args = replicate (nat (argc + 1)) None; idx_end = argc - 1; idx_this = argc in
      rbind (foldM (wrap_argument idx_end argv) [0..<nat argc] (m_args, w)) (\<lambda>(m_args, w).
      rbind (new_value thisValue w) (\<lambda>(h, w). rbind (write_cell m_args idx_this h) (\<lambda>m_args.
      Inr (m_args, idx_end, w))))))"

definition FunctionCallbackInfoWrap_ctor :: "ptr \<Rightarrow> ptr \<Rightarrow> ptr \<Rightarrow> ptr option \<Rightarrow> ptr \<Rightarrow> int \<Rightarrow> ptr list \<Rightarrow>
    'a isolate_scheme \<Rightarrow> (callback_info \<times> 'a isolate_scheme) res" where
  "FunctionCallbackInfoWrap_ctor isolate holder thisValue newTarget data argc argv w =
     rbind (toWrapperArgs thisValue argc argv w) (\<lambda>(m_args, values, w). fromV8 isolate w
     (let c = replicate f_kArgsLength None in
      rbind (new_value holder w) (\<lambda>(h, w). rbind (write_cell c (int f_kHolderIndex) h) (\<lambda>c.
      rbind (write_cell c (int f_kIsolateIndex) isolate) (\<lambda>c.
      rbind (write_cell c (int f_kReturnValueDefaultValueIndex) (undefined_value w)) (\<lambda>c.
      rbind (write_cell c (int f_kReturnValueIndex) (defaultReturnValue w)) (\<lambda>c.
      rbind (write_cell c (int f_kDataIndex) data) (\<lambda>c.
      rbind (case newTarget of Some t \<Rightarrow> new_value t w | None \<Rightarrow> Inr (undefined_value w, w)) (\<lambda>(h, w).
      rbind (write_cell c (int f_kNewTargetIndex) h) (\<lambda>c.
      Inr (\<lparr>call_args = m_args, implicit_args = c, values_start = values, call_length = argc\<rparr>, w)))))))))))"

text \<open>The accessors; \<open>undef\<close> is the engine's undefined, \<open>isUndefined\<close> recognises it.\<close>

definition fci_Length :: "callback_info \<Rightarrow> int" where
  "fci_Length info = call_length info"

definition fci_GetIsolate :: "callback_info \<Rightarrow> ptr res" where
  "fci_GetIsolate info = read_cell (implicit_args info) (int f_kIsolateIndex)"

definition fci_at :: "ptr \<Rightarrow> callback_info \<Rightarrow> int \<Rightarrow> 'a isolate_scheme \<Rightarrow> (ptr \<times> 'a isolate_scheme) res" where
  "fci_at undef info i w = (if i < 0 \<or> call_length info \<le> i
     then rbind (fci_GetIsolate info) (\<lambda>isolate. fromV8 isolate w (NewLocal undef w))
     else rbind (read_cell (call_args info) (values_start info - i)) (\<lambda>h. Inr (h, w)))"

definition fci_This :: "callback_info \<Rightarrow> ptr res" where
  "fci_This info = read_cell (call_args info) (values_start info + 1)"

definition fci_Holder :: "callback_info \<Rightarrow> ptr res" where
  "fci_Holder info = read_cell (implicit_args info) (int f_kHolderIndex)"

definition fci_NewTarget :: "callback_info \<Rightarrow> ptr res" where
  "fci_NewTarget info = read_cell (implicit_args info) (int f_kNewTargetIndex)"

definition fci_Data :: "callback_info \<Rightarrow> ptr res" where
  "fci_Data info = read_cell (implicit_args info) (int f_kDataIndex)"

definition fci_IsConstructCall :: "(ptr \<Rightarrow> bool) \<Rightarrow> callback_info \<Rightarrow> 'a exc_scheme \<Rightarrow> bool res" where
  "fci_IsConstructCall isUndefined info w = rbind (fci_NewTarget info) (\<lambda>h.
     rbind (handle_value (Some h) w) (\<lambda>v. Inr (\<not> isUndefined v)))"

text \<open>The call of the callback of a template: its result is the cells that the callback leaves behind.\<close>

definition callTemplateCallback :: "(ptr \<Rightarrow> bool) \<Rightarrow> bool list \<Rightarrow> ptr \<Rightarrow>
    (callback_info \<Rightarrow> 'a exc_scheme \<Rightarrow> (cells \<times> 'a exc_scheme) res) option \<Rightarrow> ptr \<Rightarrow> ptr \<Rightarrow> ptr \<Rightarrow> ptr option \<Rightarrow> int \<Rightarrow> ptr list \<Rightarrow>
    'a exc_scheme \<Rightarrow> (native_result \<times> 'a exc_scheme) res" where
  "callTemplateCallback obj state undef callback isolate callbackData thisValue newTarget argc argv w = (case callback of
     None \<Rightarrow> Inr (Returned undef, w)
   | Some f \<Rightarrow> rbind (FunctionCallbackInfoWrap_ctor isolate thisValue thisValue newTarget callbackData argc argv (increaseCallDepth w)) (\<lambda>(info, w).
     rbind (f info w) (\<lambda>(c, w).
     rbind (ThrowErrorIfHasException obj state (decreaseCallDepth w)) (\<lambda>(thrown, w).
     case thrown of Some e \<Rightarrow> Inr (Threw e, w)
     | None \<Rightarrow> rbind (rv_Get f_kReturnValueIndex c w) (\<lambda>(result, w).
         case result of None \<Rightarrow> Inr (Returned undef, w)
         | Some h \<Rightarrow> rbind (handle_value (Some h) w) (\<lambda>v. Inr (Returned v, w)))))))"

section \<open>Property callbacks\<close>

text \<open>Two of the seven cells are never written: whether an error is to be thrown, and the default of the
  return value.\<close>

definition PropertyCallbackInfoWrap_ctor :: "ptr \<Rightarrow> ptr \<Rightarrow> ptr \<Rightarrow> ptr \<Rightarrow> 'a isolate_scheme \<Rightarrow> (cells \<times> 'a isolate_scheme) res" where
  "PropertyCallbackInfoWrap_ctor isolate holder thisValue data w = fromV8 isolate w
     (let c = replicate p_kArgsLength None in
      rbind (new_value holder w) (\<lambda>(h, w). rbind (write_cell c (int p_kHolderIndex) h) (\<lambda>c.
      rbind (write_cell c (int p_kIsolateIndex) isolate) (\<lambda>c.
      rbind (write_cell c (int p_kReturnValueIndex) (defaultReturnValue w)) (\<lambda>c.
      rbind (write_cell c (int p_kDataIndex) data) (\<lambda>c.
      rbind (new_value thisValue w) (\<lambda>(h, w). rbind (write_cell c (int p_kThisIndex) h) (\<lambda>c. Inr (c, w)))))))))"

definition hasReturnValue :: "cells \<Rightarrow> 'a isolate_scheme \<Rightarrow> bool res" where
  "hasReturnValue c w = rbind (read_cell c (int p_kIsolateIndex)) (\<lambda>isolate.
     rbind (read_cell c (int p_kReturnValueIndex)) (\<lambda>p. fromV8 isolate w (Inr (p \<noteq> defaultReturnValue w))))"

definition pci_GetIsolate :: "cells \<Rightarrow> ptr res" where
  "pci_GetIsolate c = read_cell c (int p_kIsolateIndex)"

definition pci_Data :: "cells \<Rightarrow> ptr res" where
  "pci_Data c = read_cell c (int p_kDataIndex)"

definition pci_This :: "cells \<Rightarrow> ptr res" where
  "pci_This c = read_cell c (int p_kThisIndex)"

definition pci_Holder :: "cells \<Rightarrow> ptr res" where
  "pci_Holder c = read_cell c (int p_kHolderIndex)"

text \<open>The two modes as the words \<^verbatim>\<open>IntToSmi\<close> makes of them; without a mode of its own the
  property asks \<^verbatim>\<open>i::ShouldThrowOnError\<close>, which is unimplemented and false.\<close>

definition IntToSmi :: "nat \<Rightarrow> ptr" where
  "IntToSmi n = n * 2 ^ 32"

definition pci_ShouldThrowOnError :: "cells \<Rightarrow> bool res" where
  "pci_ShouldThrowOnError c = rbind (read_cell c (int p_kShouldThrowOnErrorIndex)) (\<lambda>m.
     if m \<noteq> IntToSmi 2 then Inr (m \<noteq> IntToSmi 1) else rbind (pci_GetIsolate c) (\<lambda>_. Inr False))"

section \<open>Interceptors\<close>

text \<open>A configuration of the embedder: \<open>'n\<close> is its type of names, \<open>'w\<close> the world; a
  callback that is absent is the null pointer. The setter also takes the value, the definer the descriptor.\<close>

type_synonym 'w property_callback = "cells \<Rightarrow> 'w \<Rightarrow> (cells \<times> 'w) res"

record ('n, 'w) handler_configuration =
  hc_getter :: "('n \<Rightarrow> 'w property_callback) option"
  hc_setter :: "('n \<Rightarrow> ptr \<Rightarrow> 'w property_callback) option"
  hc_query :: "('n \<Rightarrow> 'w property_callback) option"
  hc_deleter :: "('n \<Rightarrow> 'w property_callback) option"
  hc_enumerator :: "'w property_callback option"
  hc_definer :: "('n \<Rightarrow> ptr \<Rightarrow> 'w property_callback) option"
  hc_descriptor :: "('n \<Rightarrow> 'w property_callback) option"
  hc_data :: ptr
  hc_flags :: int

record ('n, 'w) helper_data =
  hd_isolate :: ptr
  hd_config :: "('n, 'w) handler_configuration"

datatype interceptor = Getter | Setter | Query | Deleter | Enumerator | Definer | Descriptor

text \<open>The hooks that the engine gets: \<open>applyHelper\<close> tells for each whether it is set.\<close>

fun applyHelper :: "('n, 'w) handler_configuration \<Rightarrow> interceptor \<Rightarrow> bool" where
  "applyHelper v8Config Getter = (hc_getter v8Config \<noteq> None)"
| "applyHelper v8Config Setter = (hc_setter v8Config \<noteq> None)"
| "applyHelper v8Config Query = (hc_query v8Config \<noteq> None)"
| "applyHelper v8Config Deleter = (hc_deleter v8Config \<noteq> None)"
| "applyHelper v8Config Enumerator = (hc_enumerator v8Config \<noteq> None)"
| "applyHelper v8Config Definer = (hc_definer v8Config \<noteq> None)"
| "applyHelper v8Config Descriptor = (hc_descriptor v8Config \<noteq> None)"

text \<open>\<^verbatim>\<open>ObjectTemplate::SetHandler\<close>: the data of the hooks and the hooks themselves, which the
  engine keeps with the template.\<close>

definition SetHandler :: "('n, 'w) handler_configuration \<Rightarrow> 'a isolate_scheme \<Rightarrow> ('n, 'w) helper_data \<times> (interceptor \<Rightarrow> bool)" where
  "SetHandler config w = (\<lparr>hd_isolate = s_currentIsolate w, hd_config = config\<rparr>, applyHelper config)"

text \<open>The two policies for names: a handle of the name, or the index that the engine makes of it.\<close>

type_synonym ('n, 'w) name_policy = "ptr \<Rightarrow> 'w \<Rightarrow> ('n \<times> 'w) res"

definition NamePropertyPolicy :: "(ptr, 'a isolate_scheme) name_policy" where
  "NamePropertyPolicy value w = new_value value w"

definition IndexPropertyPolicy :: "(ptr \<Rightarrow> 32 word) \<Rightarrow> (32 word, 'a isolate_scheme) name_policy" where
  "IndexPropertyPolicy tryToUseAsIndexProperty value w = Inr (tryToUseAsIndexProperty value, w)"

definition call_hook :: "'b option \<Rightarrow> ('b \<Rightarrow> 'c res) \<Rightarrow> 'c res" where
  "call_hook hook run = (case hook of None \<Rightarrow> Inl NullDeref | Some f \<Rightarrow> run f)"

definition hook_info :: "('n, 'a exc_scheme) helper_data \<Rightarrow> ptr \<Rightarrow> ptr \<Rightarrow> 'a exc_scheme \<Rightarrow> (cells \<times> 'a exc_scheme) res" where
  "hook_info d esSelf esReceiver w =
     PropertyCallbackInfoWrap_ctor (hd_isolate d) esSelf esReceiver (hc_data (hd_config d)) w"

text \<open>The calls of the hooks that take a name, and the value that a callback returned.\<close>

definition call_named :: "('n, 'a exc_scheme) name_policy \<Rightarrow> ('n \<Rightarrow> 'a exc_scheme property_callback) option \<Rightarrow>
    ('n, 'a exc_scheme) helper_data \<Rightarrow> ptr \<Rightarrow> ptr \<Rightarrow> ptr \<Rightarrow> 'a exc_scheme \<Rightarrow> (cells \<times> 'a exc_scheme) res" where
  "call_named getPropertyName hook d esSelf esReceiver propertyName w =
     rbind (hook_info d esSelf esReceiver w) (\<lambda>(c, w). call_hook hook (\<lambda>f.
     rbind (getPropertyName propertyName w) (\<lambda>(n, w). f n c w)))"

definition returned_value :: "cells \<Rightarrow> 'a exc_scheme \<Rightarrow> (ptr \<times> 'a exc_scheme) res" where
  "returned_value c w = rbind (rv_Get p_kReturnValueIndex c w) (\<lambda>(h, w).
     rbind (handle_value h w) (\<lambda>v. Inr (v, w)))"

definition optional_value :: "cells \<Rightarrow> 'a exc_scheme \<Rightarrow> (ptr option \<times> 'a exc_scheme) res" where
  "optional_value c w = rbind (hasReturnValue c w) (\<lambda>b. if b
     then rbind (returned_value c w) (\<lambda>(v, w). Inr (Some v, w)) else Inr (None, w))"

text \<open>The hooks. The results are the values the engine gets; \<open>None\<close> tells it that the access is not
  intercepted.\<close>

definition getterCallback :: "('n, 'a exc_scheme) name_policy \<Rightarrow> ('n, 'a exc_scheme) helper_data \<Rightarrow> ptr \<Rightarrow> ptr \<Rightarrow> ptr \<Rightarrow>
    'a exc_scheme \<Rightarrow> (ptr option \<times> 'a exc_scheme) res" where
  "getterCallback getPropertyName d esSelf esReceiver propertyName w =
     rbind (call_named getPropertyName (hc_getter (hd_config d)) d esSelf esReceiver propertyName w) (\<lambda>(c, w). optional_value c w)"

definition deleterCallback :: "('n, 'a exc_scheme) name_policy \<Rightarrow> ('n, 'a exc_scheme) helper_data \<Rightarrow> ptr \<Rightarrow> ptr \<Rightarrow> ptr \<Rightarrow>
    'a exc_scheme \<Rightarrow> (ptr option \<times> 'a exc_scheme) res" where
  "deleterCallback getPropertyName d esSelf esReceiver propertyName w =
     rbind (call_named getPropertyName (hc_deleter (hd_config d)) d esSelf esReceiver propertyName w) (\<lambda>(c, w). optional_value c w)"

definition descriptorCallback :: "('n, 'a exc_scheme) name_policy \<Rightarrow> ('n, 'a exc_scheme) helper_data \<Rightarrow> ptr \<Rightarrow> ptr \<Rightarrow> ptr \<Rightarrow>
    'a exc_scheme \<Rightarrow> (ptr option \<times> 'a exc_scheme) res" where
  "descriptorCallback getPropertyName d esSelf esReceiver propertyName w =
     rbind (call_named getPropertyName (hc_descriptor (hd_config d)) d esSelf esReceiver propertyName w) (\<lambda>(c, w). optional_value c w)"

definition definerCallback :: "('n, 'a exc_scheme) name_policy \<Rightarrow> ('n, 'a exc_scheme) helper_data \<Rightarrow> ptr \<Rightarrow> ptr \<Rightarrow> ptr \<Rightarrow>
    ptr \<Rightarrow> 'a exc_scheme \<Rightarrow> (ptr option \<times> 'a exc_scheme) res" where
  "definerCallback getPropertyName d esSelf esReceiver propertyName esDescriptor w =
     rbind (hook_info d esSelf esReceiver w) (\<lambda>(c, w). call_hook (hc_definer (hd_config d)) (\<lambda>f.
     rbind (getPropertyName propertyName w) (\<lambda>(n, w). rbind (f n esDescriptor c w) (\<lambda>(c, w). optional_value c w))))"

text \<open>The compiler may create the handles of the name and of the value in either order; here the name is first.\<close>

definition setterCallback :: "('n, 'a exc_scheme) name_policy \<Rightarrow> (ptr \<Rightarrow> bool) \<Rightarrow> ('n, 'a exc_scheme) helper_data \<Rightarrow> ptr \<Rightarrow> ptr \<Rightarrow>
    ptr \<Rightarrow> ptr \<Rightarrow> 'a exc_scheme \<Rightarrow> (bool option \<times> 'a exc_scheme) res" where
  "setterCallback getPropertyName isFalse d esSelf esReceiver propertyName esValue w =
     rbind (hook_info d esSelf esReceiver w) (\<lambda>(c, w). call_hook (hc_setter (hd_config d)) (\<lambda>f.
     rbind (getPropertyName propertyName w) (\<lambda>(n, w). rbind (new_value esValue w) (\<lambda>(v, w).
     rbind (f n v c w) (\<lambda>(c, w). rbind (hasReturnValue c w) (\<lambda>b. if b
       then rbind (returned_value c w) (\<lambda>(v, w). Inr (Some (\<not> isFalse v), w)) else Inr (None, w)))))))"

datatype template_attribute = PropertyAttributeNotExist | PropertyAttributeExist | PropertyAttributeEnumerable

definition PropertyHandlerFlags_kNone :: int where "PropertyHandlerFlags_kNone = 0"
definition PropertyHandlerFlags_kHasNoSideEffect :: int where "PropertyHandlerFlags_kHasNoSideEffect = 8"

definition queryCallback :: "('n, 'a exc_scheme) name_policy \<Rightarrow> ('n, 'a exc_scheme) helper_data \<Rightarrow> ptr \<Rightarrow> ptr \<Rightarrow> ptr \<Rightarrow>
    'a exc_scheme \<Rightarrow> (template_attribute \<times> 'a exc_scheme) res" where
  "queryCallback getPropertyName d esSelf esReceiver propertyName w =
     rbind (call_named getPropertyName (hc_query (hd_config d)) d esSelf esReceiver propertyName w) (\<lambda>(c, w).
     rbind (hasReturnValue c w) (\<lambda>b. Inr (if b
       then let hasNone = hc_flags (hd_config d) = PropertyHandlerFlags_kNone;
                hasNoSideEffect = and (hc_flags (hd_config d)) PropertyHandlerFlags_kHasNoSideEffect \<noteq> 0
            in if hasNone then PropertyAttributeExist else if hasNoSideEffect then PropertyAttributeEnumerable
               else PropertyAttributeExist
       else PropertyAttributeNotExist, w)))"

text \<open>The engine tells whether a value is an array, how long it is and what its elements are as strings.\<close>

definition enumeratorCallback :: "(ptr \<Rightarrow> bool) \<Rightarrow> (ptr \<Rightarrow> nat) \<Rightarrow> (ptr \<Rightarrow> nat \<Rightarrow> ptr) \<Rightarrow> ('n, 'a exc_scheme) helper_data \<Rightarrow> ptr \<Rightarrow> ptr \<Rightarrow>
    'a exc_scheme \<Rightarrow> (ptr list \<times> 'a exc_scheme) res" where
  "enumeratorCallback isArray lengthOf string_at d esSelf esReceiver w =
     rbind (hook_info d esSelf esReceiver w) (\<lambda>(c, w). call_hook (hc_enumerator (hd_config d)) (\<lambda>f.
     rbind (f c w) (\<lambda>(c, w). rbind (hasReturnValue c w) (\<lambda>b. if b
       then rbind (returned_value c w) (\<lambda>(esArray, w). guard TypeConfusion (isArray esArray)
         (Inr (map (string_at esArray) [0..<lengthOf esArray], w)))
       else Inr ([], w)))))"

section \<open>Native accessors\<close>

record 'w accessor_data =
  isWritable :: bool
  isEnumerable :: bool
  isConfigurable :: bool
  has_native_setter :: bool
  acc_isolate :: ptr
  acc_name :: ptr
  acc_getter :: "(ptr \<Rightarrow> 'w property_callback) option"
  acc_setter :: "(ptr \<Rightarrow> ptr \<Rightarrow> 'w property_callback) option"
  acc_data :: ptr

definition newAccessorData :: "ptr \<Rightarrow> ptr \<Rightarrow> (ptr \<Rightarrow> 'w property_callback) option \<Rightarrow> (ptr \<Rightarrow> ptr \<Rightarrow> 'w property_callback) option \<Rightarrow>
    ptr \<Rightarrow> bool \<Rightarrow> bool \<Rightarrow> bool \<Rightarrow> 'w accessor_data" where
  "newAccessorData isolate name getter setter data writable enumerable configurable =
     \<lparr>isWritable = writable, isEnumerable = enumerable, isConfigurable = configurable,
      has_native_setter = (setter \<noteq> None), acc_isolate = isolate, acc_name = name, acc_getter = getter,
      acc_setter = setter, acc_data = data\<rparr>"

definition accessorPropertyGetter :: "(ptr \<Rightarrow> bool) \<Rightarrow> bool list \<Rightarrow> ptr \<Rightarrow> 'a exc_scheme accessor_data \<Rightarrow> ptr \<Rightarrow> ptr \<Rightarrow>
    'a exc_scheme \<Rightarrow> (native_result \<times> 'a exc_scheme) res" where
  "accessorPropertyGetter obj state undef d self receiver w =
     rbind (PropertyCallbackInfoWrap_ctor (acc_isolate d) self receiver (acc_data d) w) (\<lambda>(c, w).
     case acc_getter d of None \<Rightarrow> Inr (Returned undef, w)
     | Some f \<Rightarrow> rbind (f (acc_name d) c w) (\<lambda>(c, w). fromV8 (acc_isolate d) w
         (rbind (ThrowErrorIfHasException obj state w) (\<lambda>(thrown, w).
          case thrown of Some e \<Rightarrow> Inr (Threw e, w)
          | None \<Rightarrow> rbind (returned_value c w) (\<lambda>(v, w). Inr (Returned v, w))))))"

text \<open>The setter returns true unless an exception is thrown; the handle scope is closed on both ways out.\<close>

definition accessorPropertySetter :: "(ptr \<Rightarrow> bool) \<Rightarrow> bool list \<Rightarrow> ptr \<Rightarrow> 'a exc_scheme accessor_data \<Rightarrow> ptr \<Rightarrow> ptr \<Rightarrow>
    ptr \<Rightarrow> 'a exc_scheme \<Rightarrow> (ptr option \<times> 'a exc_scheme) res" where
  "accessorPropertySetter obj state scope d self receiver setterInputData w = fromV8 (acc_isolate d) w
     (rbind (NewLocal setterInputData (HandleScope_ctor scope w)) (\<lambda>(v8SetValue, w).
      rbind (PropertyCallbackInfoWrap_ctor (acc_isolate d) self receiver (acc_data d) w) (\<lambda>(c, w).
      case acc_setter d of None \<Rightarrow> Inl CheckFailed
      | Some f \<Rightarrow> rbind (f (acc_name d) v8SetValue c w) (\<lambda>(_, w).
          rbind (ThrowErrorIfHasException obj state w) (\<lambda>(thrown, w).
          rbind (HandleScope_dtor scope w) (\<lambda>w. Inr (thrown, w)))))))"

definition ReadOnly :: int where "ReadOnly = 1"
definition DontEnum :: int where "DontEnum = 2"
definition DontDelete :: int where "DontDelete = 4"

definition accessorDataFor :: "ptr \<Rightarrow> ptr \<Rightarrow> (ptr \<Rightarrow> 'w property_callback) option \<Rightarrow> (ptr \<Rightarrow> ptr \<Rightarrow> 'w property_callback) option \<Rightarrow>
    ptr \<Rightarrow> int \<Rightarrow> 'w accessor_data" where
  "accessorDataFor isolate name getter setter data attribute = newAccessorData isolate name getter setter data
     (and attribute ReadOnly = 0) (and attribute DontEnum = 0) (and attribute DontDelete = 0)"

text \<open>On objects and on templates. The engine defines the property: its outcome is \<open>define\<close>;
  \<open>named\<close> recognises strings and symbols, \<open>asBoolean\<close> reads a boolean. A template only keeps
  the name and the data.\<close>

definition ObjectUtils_SetAccessor :: "(ptr \<Rightarrow> bool) \<Rightarrow> (ptr \<Rightarrow> bool) \<Rightarrow> (ptr \<Rightarrow> bool) \<Rightarrow>
    (ptr \<Rightarrow> 'a exc_scheme accessor_data \<Rightarrow> 'a exc_scheme \<Rightarrow> (eval_result \<times> 'a exc_scheme) res) \<Rightarrow> ptr \<Rightarrow> ptr \<Rightarrow>
    (ptr \<Rightarrow> 'a exc_scheme property_callback) option \<Rightarrow> (ptr \<Rightarrow> ptr \<Rightarrow> 'a exc_scheme property_callback) option \<Rightarrow> ptr \<Rightarrow> int \<Rightarrow>
    'a exc_scheme \<Rightarrow> (bool option \<times> 'a exc_scheme) res" where
  "ObjectUtils_SetAccessor obj named asBoolean define lwIsolate name getter setter data attribute w =
     (let accessorWrapData = accessorDataFor lwIsolate name getter setter data attribute in
      rbind (handle_value (Some name) w) (\<lambda>esName. guard CheckFailed (named esName)
      (rbind (define esName accessorWrapData w) (\<lambda>(result, w). case result of
         Failure e st \<Rightarrow> rbind (handleException obj e st w) (\<lambda>w. Inr (None, w))
       | Success v \<Rightarrow> Inr (Some (asBoolean v), w)))))"

definition ObjectTemplateUtils_SetAccessor :: "ptr \<Rightarrow> ptr \<Rightarrow> (ptr \<Rightarrow> 'a exc_scheme property_callback) option \<Rightarrow>
    (ptr \<Rightarrow> ptr \<Rightarrow> 'a exc_scheme property_callback) option \<Rightarrow> ptr \<Rightarrow> int \<Rightarrow> 'a exc_scheme \<Rightarrow>
    (ptr \<times> 'a exc_scheme accessor_data) res" where
  "ObjectTemplateUtils_SetAccessor lwIsolate name getter setter data attribute w =
     (let accessorWrapData = accessorDataFor lwIsolate name getter setter data attribute in
      rbind (handle_value (Some name) w) (\<lambda>esName. Inr (esName, accessorWrapData)))"

end
