(* ===== verification/CallbackProps.thy ===== *)
theory CallbackProps
  imports Callbacks CallProps
begin

text \<open>
  The properties of callbacks: what a callback sees of its call, which value of the ones it sets is returned,
  what the engine learns from interceptors, and where exceptions of callbacks go.
\<close>

section \<open>Handles that belong to no scope\<close>

lemma new_value_exc:
  assumes "exc_inv w" "v \<noteq> 0"
  shows "\<exists>p u. new_value v w = Inr (p, u) \<and> memory_grows w u \<and> exc_inv u \<and> p \<noteq> 0 \<and> handleMem u p = Some (js_handle v)"
proof -
  let ?u = "w\<lparr>handleMem := (handleMem w)(nextHandle w \<mapsto> js_handle v), nextHandle := Suc (nextHandle w)\<rparr>"
  have g: "memory_grows w ?u" using assms(1) by (rule alloc_grows)
  have "new_value v w = Inr (nextHandle w, ?u)"
    using assms(2) by (simp add: new_value_def createValue_js alloc_handle_def)
  moreover have "exc_inv ?u" using memory_grows_keeps[OF assms(1) g, of "{}"] by (simp add: keeps_def)
  moreover have "nextHandle w \<noteq> 0" using assms(1) by (simp add: exc_inv_def)
  ultimately show ?thesis using g by auto
qed

lemma grows_self: "memory_grows w u \<Longrightarrow> iso_self u = iso_self w"
  by (auto simp: memory_grows_def)

lemma grows_roots:
  assumes "memory_grows w u"
  shows "undefined_value u = undefined_value w" "defaultReturnValue u = defaultReturnValue w"
  using memory_grows_fields(13)[OF assms] by (simp_all add: undefined_value_def defaultReturnValue_def)

lemma grows_chain: "exc_inv u \<Longrightarrow> memory_grows u v \<Longrightarrow> memory_grows v w \<Longrightarrow> memory_grows u w"
  by (rule memory_grows_trans) (simp_all add: exc_inv_def)

lemma grows_refl: "exc_inv w \<Longrightarrow> memory_grows w w"
  unfolding memory_grows_def
  by (intro exI[of _ "handleMem w"] exI[of _ "nextHandle w"] exI[of _ "[]"]) (auto simp: exc_inv_def fresh_mem_def)

section \<open>Arguments\<close>

definition args_done :: "ptr list \<Rightarrow> 'a exc_scheme \<Rightarrow> nat \<Rightarrow> cells \<times> 'a exc_scheme \<Rightarrow> bool" where
  "args_done argv w i cu = (length (fst cu) = Suc (length argv) \<and> exc_inv (snd cu) \<and> memory_grows w (snd cu) \<and>
     (\<forall>j < i. \<exists>h. fst cu ! (length argv - 1 - j) = Some h \<and> handleMem (snd cu) h = Some (js_handle (argv ! j))))"

lemma wrap_argument_step:
  assumes "exc_inv w" "0 \<notin> set argv" "i < length argv" "args_done argv w i cu"
  shows "\<exists>cv. wrap_argument (int (length argv) - 1) argv i cu = Inr cv \<and> args_done argv w (Suc i) cv"
proof -
  obtain c u where cu: "cu = (c, u)" by (cases cu)
  have a: "length c = Suc (length argv)" "exc_inv u" "memory_grows w u"
    "\<And>j. j < i \<Longrightarrow> \<exists>h. c ! (length argv - 1 - j) = Some h \<and> handleMem u h = Some (js_handle (argv ! j))"
    using assms(4) by (auto simp: args_done_def cu)
  have "argv ! i \<noteq> 0" using assms(2,3) by (metis nth_mem)
  then obtain p v where p: "new_value (argv ! i) u = Inr (p, v)" "memory_grows u v" "exc_inv v"
    "handleMem v p = Some (js_handle (argv ! i))" using new_value_exc[OF a(2)] by blast
  let ?k = "length argv - 1 - i"
  have k: "nat (int (length argv) - 1 - int i) = ?k" "?k < length c" "0 \<le> int (length argv) - 1 - int i"
    "int (length argv) - 1 - int i < int (length c)" using assms(3) a(1) by auto
  have s: "wrap_argument (int (length argv) - 1) argv i cu = Inr (c[?k := Some p], v)"
    using assms(3) p(1) k by (simp add: wrap_argument_def cu on_cells_def write_cell_def)
  have "\<exists>h. c[?k := Some p] ! (length argv - 1 - j) = Some h \<and> handleMem v h = Some (js_handle (argv ! j))" if "j < Suc i" for j
  proof (cases "j = i")
    case True
    then show ?thesis using k(2) p(4) by simp
  next
    case False
    then have j: "j < i" using that by simp
    then have "length argv - 1 - j \<noteq> ?k" using assms(3) by linarith
    then show ?thesis using a(4)[OF j] memory_grows_mem[OF p(2)] by auto
  qed
  then show ?thesis using s a(1) p(3) grows_chain[OF assms(1) a(3) p(2)] by (simp add: args_done_def)
qed

lemma toWrapperArgs_exc:
  assumes "exc_inv w" "0 \<notin> set argv" "thisValue \<noteq> 0" "length argv < 2 ^ 31 - 1"
  shows "\<exists>m u h. toWrapperArgs thisValue (int (length argv)) argv w = Inr (m, int (length argv) - 1, u) \<and>
    args_done argv w (length argv) (m, u) \<and> m ! length argv = Some h \<and> handleMem u h = Some (js_handle thisValue)"
proof -
  let ?n = "length argv" let ?m = "replicate (Suc ?n) (None :: ptr option)"
  have "args_done argv w 0 (?m, w)" using assms(1) grows_refl by (simp add: args_done_def)
  then obtain cu where cu: "foldM (wrap_argument (int ?n - 1) argv) [0..<?n] (?m, w) = Inr cu" "args_done argv w ?n cu"
    using foldM_upt_invariant[of 0 ?n "args_done argv w" "(?m, w)" "wrap_argument (int ?n - 1) argv"]
      wrap_argument_step[OF assms(1,2)] by auto
  obtain c u where e: "cu = (c, u)" by (cases cu)
  have a: "length c = Suc ?n" "exc_inv u" "memory_grows w u" using cu(2) by (auto simp: args_done_def e)
  obtain p v where p: "new_value thisValue u = Inr (p, v)" "memory_grows u v" "exc_inv v"
    "handleMem v p = Some (js_handle thisValue)" using new_value_exc[OF a(2) assms(3)] by blast
  have r: "toWrapperArgs thisValue (int ?n) argv w = Inr (c[?n := Some p], int ?n - 1, v)"
  proof -
    have "nat (int ?n + 1) = Suc ?n" by simp
    then show ?thesis using assms(4) cu(1) p(1) a(1) by (simp add: toWrapperArgs_def e write_cell_def del: replicate_Suc)
  qed
  have "args_done argv w ?n (c[?n := Some p], v)"
    using cu(2) a(1) p(2,3) grows_chain[OF assms(1) a(3) p(2)] memory_grows_mem[OF p(2)]
    by (fastforce simp: args_done_def e)
  then show ?thesis using r a(1) p(4) by auto
qed

section \<open>What a function callback sees\<close>

lemma function_cells:
  assumes "exc_inv w" "holder \<noteq> 0" "newTarget \<noteq> Some 0" "toWrapperArgs thisValue argc argv w = Inr (m, values, u)"
    "exc_inv u" "memory_grows w u"
  shows "\<exists>info v h t. FunctionCallbackInfoWrap_ctor (iso_self w) holder thisValue newTarget data argc argv w = Inr (info, v) \<and>
    info = \<lparr>call_args = m, implicit_args = [Some h, Some (iso_self w), Some (undefined_value w), Some (defaultReturnValue w),
      Some data, Some t], values_start = values, call_length = argc\<rparr> \<and> memory_grows u v \<and> exc_inv v \<and>
    handleMem v h = Some (js_handle holder) \<and>
    (case newTarget of None \<Rightarrow> t = undefined_value w | Some x \<Rightarrow> handleMem v t = Some (js_handle x))"
proof -
  obtain h v where h: "new_value holder u = Inr (h, v)" "memory_grows u v" "exc_inv v"
    "handleMem v h = Some (js_handle holder)" using new_value_exc[OF assms(5,2)] by blast
  have g: "iso_self u = iso_self w" "undefined_value v = undefined_value w" "defaultReturnValue v = defaultReturnValue w"
    using grows_self[OF assms(6)] grows_roots[OF assms(6)] grows_roots[OF h(2)] by simp_all
  show ?thesis
  proof (cases newTarget)
    case None
    then show ?thesis using assms(4) h g
      by (simp add: FunctionCallbackInfoWrap_ctor_def fromV8_def info_indices write_cell_def eval_nat_numeral)
  next
    case (Some x)
    then obtain t y where t: "new_value x v = Inr (t, y)" "memory_grows v y" "exc_inv y" "handleMem y t = Some (js_handle x)"
      using new_value_exc[OF h(3)] assms(3) by blast
    then show ?thesis using assms(4) h g Some grows_chain[OF assms(5) h(2) t(2)] memory_grows_mem[OF t(2) h(4)]
      by (simp add: FunctionCallbackInfoWrap_ctor_def fromV8_def info_indices write_cell_def eval_nat_numeral)
  qed
qed

text \<open>C12. A callback sees exactly its call: the arguments in their order, undefined outside of them, the receiver,
  the holder, the data, the isolate and whether it is a construct call. No accessor reads outside of the block of
  the arguments, also when there are none, or a cell that was not written.\<close>

theorem callback_sees_the_call:
  assumes "exc_inv w" "length argv < 2 ^ 31 - 1" "0 \<notin> set argv" "thisValue \<noteq> 0" "holder \<noteq> 0" "undef \<noteq> 0"
    and "newTarget \<noteq> Some 0" "newTarget \<noteq> Some undef" "handleMem w (undefined_value w) = Some (js_handle undef)"
  shows "\<exists>info u. FunctionCallbackInfoWrap_ctor (iso_self w) holder thisValue newTarget data (int (length argv)) argv w = Inr (info, u) \<and>
    memory_grows w u \<and> exc_inv u \<and> fci_Length info = int (length argv) \<and>
    (\<forall>i < length argv. \<exists>h. fci_at undef info (int i) u = Inr (h, u) \<and> handleMem u h = Some (js_handle (argv ! i))) \<and>
    (\<forall>i. i < 0 \<or> int (length argv) \<le> i \<longrightarrow>
       (\<exists>h v. fci_at undef info i u = Inr (h, v) \<and> handleMem v h = Some (js_handle undef))) \<and>
    (\<exists>h. fci_This info = Inr h \<and> handleMem u h = Some (js_handle thisValue)) \<and>
    (\<exists>h. fci_Holder info = Inr h \<and> handleMem u h = Some (js_handle holder)) \<and>
    fci_Data info = Inr data \<and> fci_GetIsolate info = Inr (iso_self w) \<and>
    fci_IsConstructCall (\<lambda>v. v = undef) info u = Inr (newTarget \<noteq> None)"
proof -
  let ?n = "length argv"
  obtain m u h0 where m: "toWrapperArgs thisValue (int ?n) argv w = Inr (m, int ?n - 1, u)" "args_done argv w ?n (m, u)"
    "m ! ?n = Some h0" "handleMem u h0 = Some (js_handle thisValue)"
    using toWrapperArgs_exc[OF assms(1,3,4,2)] by blast
  have a: "length m = Suc ?n" "exc_inv u" "memory_grows w u"
    "\<And>j. j < ?n \<Longrightarrow> \<exists>h. m ! (?n - 1 - j) = Some h \<and> handleMem u h = Some (js_handle (argv ! j))"
    using m(2) by (auto simp: args_done_def)
  obtain info v h t where i: "FunctionCallbackInfoWrap_ctor (iso_self w) holder thisValue newTarget data (int ?n) argv w = Inr (info, v)"
    "info = \<lparr>call_args = m, implicit_args = [Some h, Some (iso_self w), Some (undefined_value w), Some (defaultReturnValue w),
      Some data, Some t], values_start = int ?n - 1, call_length = int ?n\<rparr>" "memory_grows u v" "exc_inv v"
    "handleMem v h = Some (js_handle holder)"
    "case newTarget of None \<Rightarrow> t = undefined_value w | Some x \<Rightarrow> handleMem v t = Some (js_handle x)"
    using function_cells[OF assms(1,5,7) m(1) a(2,3)] by blast
  have g: "memory_grows w v" by (rule grows_chain[OF assms(1) a(3) i(3)])
  have args: "\<exists>h. fci_at undef info (int j) v = Inr (h, v) \<and> handleMem v h = Some (js_handle (argv ! j))" if "j < ?n" for j
  proof -
    have "nat (int ?n - 1 - int j) = ?n - 1 - j" "int ?n - 1 - int j \<ge> 0" using that by auto
    then show ?thesis using that a(1) a(4)[OF that] memory_grows_mem[OF i(3)] i(2) by (auto simp: fci_at_def read_cell_def)
  qed
  have out: "\<exists>h y. fci_at undef info j v = Inr (h, y) \<and> handleMem y h = Some (js_handle undef)" if "j < 0 \<or> int ?n \<le> j" for j
    using NewLocal_exc[OF i(4) assms(6)] that grows_self[OF g] i(2)
    by (auto simp: fci_at_def fci_GetIsolate_def read_cell_def info_indices fromV8_def)
  have recv: "fci_This info = Inr h0" using m(3) a(1) i(2) by (simp add: fci_This_def read_cell_def)
  have nt: "fci_IsConstructCall (\<lambda>v. v = undef) info v = Inr (newTarget \<noteq> None)"
    using i(2,6) assms(8) memory_grows_mem[OF g assms(9)]
    by (auto simp: fci_IsConstructCall_def fci_NewTarget_def read_cell_def info_indices handle_value_def split: option.splits)
  show ?thesis
    using i(1,2,4,5) g args out recv nt memory_grows_mem[OF i(3) m(4)]
    by (intro exI[of _ info] exI[of _ v]) (auto simp: fci_Length_def fci_Holder_def fci_Data_def fci_GetIsolate_def read_cell_def info_indices)
qed

section \<open>Return values\<close>

text \<open>The roots of an initialized isolate.\<close>

definition roots_ok :: "engine_values \<Rightarrow> 'a isolate_scheme \<Rightarrow> bool" where
  "roots_ok es w = (engine_ok es \<and> length (globalSlot w) = 7 \<and> distinct (globalSlot w) \<and> 0 \<notin> set (globalSlot w) \<and>
     (\<forall>i < 7. handleMem w (globalSlot w ! i) = Some (js_handle (slot_contents es ! i))))"

lemma roots_ok_slot:
  assumes "roots_ok es w" "i < 7"
  shows "getGlobal (int i) w = Inr (globalSlot w ! i)" "handleMem w (globalSlot w ! i) = Some (js_handle (slot_contents es ! i))"
    "globalSlot w ! i \<noteq> 0" "globalSlot w ! i = defaultReturnValue w \<longleftrightarrow> i = 6"
proof -
  have "globalSlot w ! i \<in> set (globalSlot w)" using assms by (simp add: roots_ok_def)
  then show "globalSlot w ! i \<noteq> 0" using assms(1) by (metis roots_ok_def)
qed (use assms in \<open>auto simp: roots_ok_def getGlobal_def root_indices defaultReturnValue_def nth_eq_iff_index_eq\<close>)

lemma grows_roots_ok: "memory_grows w u \<Longrightarrow> roots_ok es w \<Longrightarrow> roots_ok es u"
  using memory_grows_fields(13)[of w u] memory_grows_mem[of w u] by (simp add: roots_ok_def)

lemma NewLocal_fresh:
  assumes "exc_inv w" "v \<noteq> 0" "NewLocal v w = Inr (p, u)"
  shows "handleMem w p = None"
proof -
  let ?u = "w\<lparr>handleMem := (handleMem w)(nextHandle w \<mapsto> js_handle v), nextHandle := Suc (nextHandle w)\<rparr>"
  have "exc_inv ?u" using memory_grows_keeps[OF assms(1) alloc_grows[OF assms(1)], of "{}"] by (simp add: keeps_def)
  then obtain x where "CreateHandle (nextHandle w) ?u = Inr (nextHandle w, x)"
    using CreateHandle_local[of ?u "nextHandle w" v] assms(1) by (auto simp: exc_inv_def)
  then have "p = nextHandle w" using assms(2,3) by (simp add: NewLocal_def createValue_js alloc_handle_def)
  then show ?thesis using assms(1) by (auto simp: exc_inv_def fresh_mem_def)
qed

text \<open>What a setter makes of the result: the value that it means, or for a persistent handle the address of a value of
  the engine, which the reader of the result takes for a handle. The embedder calls a setter with handles of values; the address of
  a value is not the one of a handle.\<close>

fun set_result :: "engine_values \<Rightarrow> (int \<Rightarrow> ptr) \<Rightarrow> (ptr \<Rightarrow> HandleWrap option) \<Rightarrow> return_value_op \<Rightarrow> ptr res" where
  "set_result es num mem (SetLocal h) = Inr (case h of None \<Rightarrow> es_undefined es | Some p \<Rightarrow> h_val (the (mem p)))"
| "set_result es num mem (SetGlobal h) = (case h of None \<Rightarrow> Inr (es_undefined es) | Some p \<Rightarrow> Inl NullDeref)"
| "set_result es num mem (SetBool b) = Inr (if b then es_true es else es_false es)"
| "set_result es num mem (SetDouble d) = Inr d"
| "set_result es num mem (SetInt32 i) = Inr (num (sint i))"
| "set_result es num mem (SetUint32 i) = Inr (num (uint i))"
| "set_result es num mem SetNull = Inr (es_null es)"
| "set_result es num mem SetUndefined = Inr (es_undefined es)"
| "set_result es num mem SetEmptyString = Inr (es_emptyString es)"

fun set_ok :: "(int \<Rightarrow> ptr) \<Rightarrow> 'a isolate_scheme \<Rightarrow> return_value_op \<Rightarrow> bool" where
  "set_ok num w (SetLocal h) = (case h of None \<Rightarrow> True
     | Some p \<Rightarrow> p \<noteq> 0 \<and> p \<noteq> defaultReturnValue w \<and> (case handleMem w p of None \<Rightarrow> False | Some x \<Rightarrow> x = js_handle (h_val x)))"
| "set_ok num w (SetGlobal h) = (case h of None \<Rightarrow> True
     | Some p \<Rightarrow> (case handleMem w p of None \<Rightarrow> False
         | Some x \<Rightarrow> h_val x \<noteq> 0 \<and> handleMem w (h_val x) = None \<and> h_val x < nextHandle w))"
| "set_ok num w (SetDouble d) = (d \<noteq> 0)"
| "set_ok num w (SetInt32 i) = (num (sint i) \<noteq> 0)"
| "set_ok num w (SetUint32 i) = (num (uint i) \<noteq> 0)"
| "set_ok num w _ = True"

text \<open>What is in a cell when it reads as \<open>r\<close>.\<close>

definition holds :: "ptr res \<Rightarrow> ptr \<Rightarrow> 'a isolate_scheme \<Rightarrow> bool" where
  "holds r p w = (p \<noteq> 0 \<and> (case r of Inr v \<Rightarrow> handleMem w p = Some (js_handle v)
     | Inl e \<Rightarrow> e = NullDeref \<and> handleMem w p = None \<and> p < nextHandle w))"

lemma holds_grows: "memory_grows w u \<Longrightarrow> holds r p w \<Longrightarrow> holds r p u"
  using memory_grows_old[of w u p] memory_grows_mem[of w u p] by (auto simp: holds_def split: sum.splits)

definition resets :: "return_value_op \<Rightarrow> bool" where
  "resets op = (op = SetLocal None \<or> op = SetGlobal None)"

definition value_at :: "nat \<Rightarrow> cells \<Rightarrow> 'a isolate_scheme \<Rightarrow> bool" where
  "value_at k c w = (2 \<le> k \<and> k < length c \<and> c ! (k - 2) = Some (iso_self w))"

lemma read_below: "j \<le> k \<Longrightarrow> k < length c \<Longrightarrow> read_cell c (int k - int j) = (case c ! (k - j) of None \<Rightarrow> Inl UninitRead | Some p \<Rightarrow> Inr p)"
  by (auto simp: read_cell_def nat_diff_distrib guard_def)

lemma value_at_isolate: "value_at k c w \<Longrightarrow> rv_GetIsolate k c = Inr (iso_self w)"
  using read_below[of 2 k c] by (simp add: value_at_def rv_GetIsolate_def)

lemma write_value: "value_at k c w \<Longrightarrow> write_cell c (int k) p = Inr (c[k := Some p])"
  by (simp add: value_at_def write_cell_def)

lemma bit_31_clear: "and (i :: 32 word) (push_bit 31 1) = 0 \<Longrightarrow> \<not> bit i 31"
proof
  assume a: "and i (push_bit 31 1) = 0" and "bit i 31"
  then have "bit (and i (push_bit 31 1)) 31" unfolding bit_and_iff bit_push_bit_iff by simp
  then show False unfolding a by simp
qed

lemma uint32_small:
  assumes "and (i :: 32 word) (push_bit 31 1) = 0"
  shows "sint i = uint i"
proof -
  have b: "\<not> bit i 31" by (rule bit_31_clear[OF assms])
  have "take_bit 31 (uint i) = uint i"
  proof (rule bit_eqI)
    fix n
    show "bit (take_bit 31 (uint i)) n = bit (uint i) n"
      using b by (cases "n < 31"; cases "n = 31") (simp_all add: bit_take_bit_iff bit_uint_iff)
  qed
  then show ?thesis using b by (simp add: sint_uint signed_take_bit_eq_if_positive bit_uint_iff)
qed

lemma set_root_ok:
  assumes "roots_ok es w" "value_at k c w" "i < 7"
  shows "set_root k i c w = Inr (c[k := Some (globalSlot w ! i)])"
  using roots_ok_slot(1)[OF assms(1,3)] write_value[OF assms(2)] value_at_isolate[OF assms(2)]
  by (simp add: set_root_def fromV8_def)

lemma set_new_ok:
  assumes "exc_inv w" "value_at k c w" "v \<noteq> 0"
  shows "\<exists>p u. set_new k v c w = Inr (c[k := Some p], u) \<and> memory_grows w u \<and> p \<noteq> 0 \<and> handleMem u p = Some (js_handle v) \<and>
    handleMem w p = None"
proof -
  obtain p u where "NewLocal v w = Inr (p, u)" "memory_grows w u" "p \<noteq> 0" "handleMem u p = Some (js_handle v)"
    using NewLocal_exc[OF assms(1,3)] by blast
  then show ?thesis using NewLocal_fresh[OF assms(1,3)] value_at_isolate[OF assms(2)] write_value[OF assms(2)]
    by (auto simp: set_new_def fromV8_def)
qed

lemma roots_slots:
  assumes "roots_ok es w"
  shows "handleMem w (globalSlot w ! 0) = Some (js_handle (es_undefined es))" "handleMem w (globalSlot w ! 2) = Some (js_handle (es_null es))"
    "handleMem w (globalSlot w ! 3) = Some (js_handle (es_true es))" "handleMem w (globalSlot w ! 4) = Some (js_handle (es_false es))"
    "handleMem w (globalSlot w ! 5) = Some (js_handle (es_emptyString es))" "handleMem w (globalSlot w ! 6) = Some (js_handle (es_undefined es))"
  using assms by (auto simp: roots_ok_def slot_contents_def eval_nat_numeral dest: spec)

text \<open>One setter: the cell holds a new handle of the value that the setter means, which is not the default
  value.\<close>

lemma rv_Set_step:
  assumes "exc_inv w" "roots_ok es w" "value_at k c w" "set_ok num w op"
    and "resets op \<longrightarrow> c ! (k - 1) = Some (undefined_value w)"
  shows "\<exists>p u. rv_Set num k op (c, w) = Inr (c[k := Some p], u) \<and> memory_grows w u \<and> p \<noteq> 0 \<and> p \<noteq> defaultReturnValue w \<and>
    holds (set_result es num (handleMem w) op) p u"
proof -
  note g = grows_refl[OF assms(1)]
  have d: "handleMem w (defaultReturnValue w) \<noteq> None"
    using roots_slots(6)[OF assms(2)] by (simp add: defaultReturnValue_def root_indices)
  have def: "set_default k c = Inr (c[k := Some (undefined_value w)])" if "resets op"
    using assms(3,5) that read_below[of 1 k c] write_value[OF assms(3)]
    by (simp add: set_default_def GetDefaultValue_def value_at_def)
  have u: "undefined_value w \<noteq> 0" "undefined_value w \<noteq> defaultReturnValue w"
    "handleMem w (undefined_value w) = Some (js_handle (es_undefined es))"
    using roots_ok_slot[OF assms(2), of 0] roots_slots(1)[OF assms(2)] by (simp_all add: undefined_value_def root_indices)
  have new: "\<exists>p u. set_new k v c w = Inr (c[k := Some p], u) \<and> memory_grows w u \<and> p \<noteq> 0 \<and> p \<noteq> defaultReturnValue w \<and>
      holds (Inr v) p u" if nz: "v \<noteq> 0" for v
  proof -
    obtain p u where p: "set_new k v c w = Inr (c[k := Some p], u)" "memory_grows w u" "p \<noteq> 0" "handleMem u p = Some (js_handle v)"
      "handleMem w p = None" using set_new_ok[OF assms(1,3) nz] by blast
    have "p \<noteq> defaultReturnValue w" using p(5) d by auto
    then show ?thesis using p(1-4) by (auto simp: holds_def)
  qed
  have root: "set_root k i c w = Inr (c[k := Some (globalSlot w ! i)])" "globalSlot w ! i \<noteq> 0"
    "globalSlot w ! i \<noteq> defaultReturnValue w" if "i < 6" for i
    using set_root_ok[OF assms(2,3), of i] roots_ok_slot(3,4)[OF assms(2), of i] that by simp_all
  show ?thesis
  proof (cases op)
    case (SetLocal h)
    then show ?thesis using assms(4) def u g write_value[OF assms(3)]
      by (cases h) (auto simp: resets_def on_cells_def holds_def split: option.splits)
  next
    case (SetGlobal h)
    show ?thesis
    proof (cases h)
      case None
      then show ?thesis using SetGlobal def u g by (auto simp: resets_def on_cells_def holds_def)
    next
      case (Some q)
      then obtain x where x: "handleMem w q = Some x" "h_val x \<noteq> 0" "handleMem w (h_val x) = None" "h_val x < nextHandle w"
        using SetGlobal assms(4) by (auto split: option.splits)
      have "h_val x \<noteq> defaultReturnValue w" using d x(3) by metis
      then show ?thesis using SetGlobal Some x g write_value[OF assms(3), of "h_val x"] by (auto simp: on_cells_def holds_def)
    qed
  next
    case (SetBool b)
    then show ?thesis using root[of 3] root[of 4] roots_slots[OF assms(2)] g by (auto simp: on_cells_def root_indices holds_def)
  next
    case (SetUint32 i)
    then show ?thesis using assms(4) new[of "num (uint i)"] uint32_small[of i] by simp
  qed (use assms(4) new root[of 0] root[of 2] root[of 5] roots_slots[OF assms(2)] g in \<open>auto simp: on_cells_def root_indices holds_def\<close>)
qed

text \<open>A callback that calls setters, in their order.\<close>

definition set_all :: "(int \<Rightarrow> ptr) \<Rightarrow> nat \<Rightarrow> return_value_op list \<Rightarrow> cells \<Rightarrow> 'a exc_scheme \<Rightarrow> (cells \<times> 'a exc_scheme) res" where
  "set_all num k ops c w = foldM (rv_Set num k) ops (c, w)"

definition last_result :: "engine_values \<Rightarrow> (int \<Rightarrow> ptr) \<Rightarrow> (ptr \<Rightarrow> HandleWrap option) \<Rightarrow> return_value_op list \<Rightarrow> ptr res" where
  "last_result es num mem ops = (if ops = [] then Inr (es_undefined es) else set_result es num mem (last ops))"

lemma set_ok_grows:
  assumes "memory_grows w u" "set_ok num w op"
  shows "set_ok num u op"
    "set_result es num (handleMem u) op = set_result es num (handleMem w) op"
  using assms grows_roots(2)[OF assms(1)] memory_grows_mem[OF assms(1)] memory_grows_old[OF assms(1)]
  by (cases op; force split: option.splits)+

lemma set_all_snoc: "set_all num k (ops @ [op]) c w = rbind (set_all num k ops c w) (rv_Set num k op)"
  by (simp add: set_all_def foldM_snoc)

lemma set_all_exc:
  assumes "exc_inv w" "roots_ok es w" "value_at k c w" "\<forall>op \<in> set ops. set_ok num w op"
    and "\<exists>op \<in> set ops. resets op \<Longrightarrow> c ! (k - 1) = Some (undefined_value w)" "ops \<noteq> []"
  shows "\<exists>p u. set_all num k ops c w = Inr (c[k := Some p], u) \<and> memory_grows w u \<and> p \<noteq> 0 \<and> p \<noteq> defaultReturnValue w \<and>
    holds (last_result es num (handleMem w) ops) p u"
  using assms(4-6)
proof (induction ops rule: rev_induct)
  case Nil
  then show ?case by simp
next
  case (snoc op ops)
  have s: "\<exists>p u. rv_Set num k op (c', v) = Inr (c[k := Some p], u) \<and> memory_grows w u \<and> p \<noteq> 0 \<and> p \<noteq> defaultReturnValue w \<and>
      holds (last_result es num (handleMem w) (ops @ [op])) p u"
    if "memory_grows w v" "c' = c \<or> (\<exists>q. c' = c[k := Some q])" for c' v
  proof -
    have v: "exc_inv v" "roots_ok es v" "undefined_value v = undefined_value w" "defaultReturnValue v = defaultReturnValue w"
      using memory_grows_keeps[OF assms(1) that(1), of "{}"] grows_roots_ok[OF that(1) assms(2)] grows_roots[OF that(1)]
      by (simp_all add: keeps_def)
    have c: "value_at k c' v" "resets op \<longrightarrow> c' ! (k - 1) = Some (undefined_value v)" "\<And>p. c'[k := Some p] = c[k := Some p]"
      using assms(3) that(2) snoc.prems(2) v(3) grows_self[OF that(1)] by (auto simp: value_at_def)
    have "set_ok num w op" using snoc.prems(1) by simp
    note ok = set_ok_grows[OF that(1) this]
    obtain p u where "rv_Set num k op (c', v) = Inr (c'[k := Some p], u)" "memory_grows v u" "p \<noteq> 0" "p \<noteq> defaultReturnValue v"
      "holds (set_result es num (handleMem v) op) p u"
      using rv_Set_step[OF v(1,2) c(1) ok(1) c(2)] by blast
    then show ?thesis using grows_chain[OF assms(1) that(1)] ok(2) c(3) v(4)
      by (auto simp: last_result_def)
  qed
  show ?case
  proof (cases "ops = []")
    case True
    then show ?thesis using s[OF grows_refl[OF assms(1)], of c] by (auto simp: set_all_def)
  next
    case False
    then obtain p u where "set_all num k ops c w = Inr (c[k := Some p], u)" "memory_grows w u"
      using snoc.IH snoc.prems by auto
    then show ?thesis using s[of u "c[k := Some p]"] by (auto simp: set_all_snoc)
  qed
qed

lemma get_value_at:
  assumes "exc_inv w" "value_at k c w" "c ! k = Some p" "holds (Inr v) p w"
  shows "\<exists>u. rv_Get k c w = Inr (Some p, u) \<and> memory_grows w u \<and> handle_value (Some p) u = Inr v"
proof -
  have p: "handleMem w p = Some (js_handle v)" "p \<noteq> 0" using assms(4) by (simp_all add: holds_def)
  obtain u where u: "CreateHandle p w = Inr (p, u)" "memory_grows w u" using CreateHandle_local[OF assms(1) p] by blast
  have "read_cell c (int k) = Inr p" using assms(2,3) by (simp add: read_cell_def value_at_def)
  then show ?thesis using u p(2) value_at_isolate[OF assms(2)] memory_grows_mem[OF u(2) p(1)]
    by (auto simp: rv_Get_def Local_New_def handle_value_def fromV8_def)
qed

lemma get_confused_at:
  assumes "exc_inv w" "value_at k c w" "c ! k = Some p" "holds (Inl e) p w"
  shows "rv_Get k c w = Inl e"
proof -
  have p: "handleMem w p = None" "p \<noteq> 0" "e = NullDeref" using assms(4) by (simp_all add: holds_def)
  have "CreateHandle p w = Inl NullDeref" using p isCurrentScopeSealed_exc[OF assms(1)] by (simp add: CreateHandle_def)
  moreover have "read_cell c (int k) = Inr p" using assms(2,3) by (simp add: read_cell_def value_at_def)
  ultimately show ?thesis using p value_at_isolate[OF assms(2)] by (simp add: rv_Get_def fromV8_def Local_New_def)
qed

text \<open>The cell of a return value after any setters, none included.\<close>

lemma set_all_gets:
  assumes "exc_inv w" "roots_ok es w" "value_at k c w" "\<forall>op \<in> set ops. set_ok num w op"
    and "\<exists>op \<in> set ops. resets op \<Longrightarrow> c ! (k - 1) = Some (undefined_value w)" "c ! k = Some (defaultReturnValue w)"
  shows "\<exists>c' u. set_all num k ops c w = Inr (c', u) \<and> memory_grows w u \<and> exc_inv u \<and> value_at k c' u \<and>
    (\<exists>p. c' = c[k := Some p] \<and> p \<noteq> 0 \<and> (p = defaultReturnValue w \<longleftrightarrow> ops = []) \<and>
      holds (last_result es num (handleMem w) ops) p u)"
proof (cases "ops = []")
  case True
  have "c = c[k := Some (defaultReturnValue w)]" using assms(6) by (metis list_update_id)
  then show ?thesis using True assms(1,3) roots_slots(6)[OF assms(2)] roots_ok_slot(3)[OF assms(2), of 6] grows_refl[OF assms(1)]
    by (auto simp: set_all_def last_result_def defaultReturnValue_def root_indices holds_def)
next
  case False
  then obtain p u where "set_all num k ops c w = Inr (c[k := Some p], u)" "memory_grows w u" "p \<noteq> 0" "p \<noteq> defaultReturnValue w"
    "holds (last_result es num (handleMem w) ops) p u" using set_all_exc[OF assms(1-5)] by blast
  moreover from this have "exc_inv u" "value_at k (c[k := Some p]) u"
    using memory_grows_keeps[OF assms(1), of u "{}"] grows_self[of w u] assms(3) by (auto simp: keeps_def value_at_def)
  ultimately show ?thesis using False by blast
qed

lemma set_all_grows:
  assumes "memory_grows w u" "\<forall>op \<in> set ops. set_ok num w op"
  shows "\<forall>op \<in> set ops. set_ok num u op"
    "last_result es num (handleMem u) ops = last_result es num (handleMem w) ops"
  using assms set_ok_grows[OF assms(1)] by (auto simp: last_result_def)

lemma depth_simps [simp]:
  "handleMem (increaseCallDepth w) = handleMem w" "globalSlot (increaseCallDepth w) = globalSlot w"
  "iso_self (increaseCallDepth w) = iso_self w" "undefined_value (increaseCallDepth w) = undefined_value w"
  "defaultReturnValue (increaseCallDepth w) = defaultReturnValue w" "roots_ok es (increaseCallDepth w) = roots_ok es w"
  "exc_inv (increaseCallDepth w) = exc_inv w" "scheduled_exception (increaseCallDepth w) = scheduled_exception w"
  "handleMem (decreaseCallDepth w) = handleMem w" "iso_self (decreaseCallDepth w) = iso_self w"
  "scheduled_exception (decreaseCallDepth w) = scheduled_exception w"
  by (simp_all add: increaseCallDepth_def decreaseCallDepth_def undefined_value_def defaultReturnValue_def roots_ok_def
      exc_inv_def fresh_mem_def)

lemma depth_next [simp]: "nextHandle (increaseCallDepth w) = nextHandle w"
  by (simp add: increaseCallDepth_def)

lemma holds_depth [simp]: "holds r p (decreaseCallDepth w) = holds r p w"
  by (cases r) (simp_all add: holds_def decreaseCallDepth_def)

lemma set_ok_depth [simp]: "set_ok num (increaseCallDepth w) op = set_ok num w op"
  by (cases op) (simp_all split: option.split)

text \<open>C13. A template's callback returns to the script the value it set last, whatever it set before: a handle's
  value, a boolean, an integer of either sign in full, null, undefined, the empty string; undefined when it set
  nothing or reset its result with the empty handle. A persistent handle set last is not returned: the address of its value is
  taken for a handle and dereferenced. Otherwise the call depth, the scopes and the handlers are restored.\<close>

theorem callback_returns_last_value:
  fixes w :: "'a exc_scheme" and data :: ptr and state :: "bool list" and obj :: "ptr \<Rightarrow> bool"
  assumes "exc_inv w" "roots_ok es w" "callDepth w < 2 ^ 64 - 1" "scheduled_exception w = 0"
    and "length argv < 2 ^ 31 - 1" "0 \<notin> set argv" "thisValue \<noteq> 0" "newTarget \<noteq> Some 0"
    and "\<forall>op \<in> set ops. set_ok num w op"
  defines "r \<equiv> callTemplateCallback obj state (es_undefined es) (Some (\<lambda>info. set_all num f_kReturnValueIndex ops (implicit_args info)))
      (iso_self w) data thisValue newTarget (int (length argv)) argv w"
  shows "case last_result es num (handleMem w) ops of Inl e \<Rightarrow> r = Inl e
    | Inr v \<Rightarrow> \<exists>u. r = Inr (Returned v, u) \<and> keeps {} w u \<and> callDepth u = callDepth w"
proof -
  let ?w = "increaseCallDepth w"
  obtain m v h0 where m: "toWrapperArgs thisValue (int (length argv)) argv ?w = Inr (m, int (length argv) - 1, v)"
    "args_done argv ?w (length argv) (m, v)" using toWrapperArgs_exc[of ?w argv thisValue] assms(1,5-7) by auto
  have v: "exc_inv v" "memory_grows ?w v" using m(2) by (auto simp: args_done_def)
  obtain info x h t where i: "FunctionCallbackInfoWrap_ctor (iso_self w) thisValue thisValue newTarget data (int (length argv)) argv ?w = Inr (info, x)"
    "info = \<lparr>call_args = m, implicit_args = [Some h, Some (iso_self w), Some (undefined_value w), Some (defaultReturnValue w),
      Some data, Some t], values_start = int (length argv) - 1, call_length = int (length argv)\<rparr>" "memory_grows v x" "exc_inv x"
    using function_cells[of ?w thisValue newTarget thisValue "int (length argv)" argv m _ v data] assms(1,7,8) m(1) v by auto
  have gx: "memory_grows ?w x" using grows_chain[OF _ v(2) i(3)] assms(1) by simp
  have x: "roots_ok es x" "undefined_value x = undefined_value w" "defaultReturnValue x = defaultReturnValue w" "iso_self x = iso_self w"
    using grows_roots_ok[OF gx, of es] grows_roots[OF gx] grows_self[OF gx] assms(2) by simp_all
  have ops: "\<forall>op \<in> set ops. set_ok num x op"
    "last_result es num (handleMem x) ops = last_result es num (handleMem w) ops"
    using set_all_grows[OF gx, where ops = ops and num = num] assms(9) by simp_all
  let ?c = "implicit_args info"
  have "value_at 3 ?c x" "?c ! 2 = Some (undefined_value x)" "?c ! 3 = Some (defaultReturnValue x)"
    using i(2) x by (simp_all add: value_at_def)
  then obtain c y p where y: "set_all num 3 ops ?c x = Inr (c, y)" "memory_grows x y" "exc_inv y" "value_at 3 c y"
    "c = ?c[3 := Some p]" "holds (last_result es num (handleMem x) ops) p y"
    using set_all_gets[OF i(4) x(1) _ ops(1), of 3 ?c] by auto
  have k: "keeps {} w (decreaseCallDepth y)"
    using depth_keeps[OF assms(1,3)] memory_grows_keeps[OF _ grows_chain[OF _ gx y(2)]] assms(1) by simp
  have c: "value_at 3 c (decreaseCallDepth y)" "c ! 3 = Some p" "holds (last_result es num (handleMem x) ops) p (decreaseCallDepth y)"
    using y(4-6) i(2) by (simp_all add: value_at_def)
  have s: "scheduled_exception y = 0" using memory_grows_fields(3)[OF gx] memory_grows_fields(3)[OF y(2)] assms(4) by simp
  have e: "r = rbind (rv_Get 3 c (decreaseCallDepth y)) (\<lambda>(result, w). case result of None \<Rightarrow> Inr (Returned (es_undefined es), w)
      | Some h \<Rightarrow> rbind (handle_value (Some h) w) (\<lambda>v. Inr (Returned v, w)))"
    using i(1) y(1) s by (simp add: r_def callTemplateCallback_def ThrowErrorIfHasException_def has_scheduled_exception_def f_kReturnValueIndex_def)
  show ?thesis
  proof (cases "last_result es num (handleMem w) ops")
    case (Inl f)
    then show ?thesis using e get_confused_at[OF keeps_inv[OF k] c(1,2)] c(3) ops(2) by simp
  next
    case (Inr v)
    obtain u where u: "rv_Get 3 c (decreaseCallDepth y) = Inr (Some p, u)" "memory_grows (decreaseCallDepth y) u"
      "handle_value (Some p) u = Inr v"
      using get_value_at[OF keeps_inv[OF k] c(1,2)] c(3) Inr ops(2) by auto
    have "keeps {} w u" by (rule keeps_trans[OF k memory_grows_keeps[OF keeps_inv[OF k] u(2)]])
    then show ?thesis using e u Inr by (auto simp: keeps_def)
  qed
qed

section \<open>Interceptors\<close>

lemma property_cells:
  assumes "exc_inv w" "self \<noteq> 0" "receiver \<noteq> 0"
  shows "\<exists>h t u. PropertyCallbackInfoWrap_ctor (iso_self w) self receiver data w =
      Inr ([None, Some h, Some (iso_self w), None, Some (defaultReturnValue w), Some data, Some t], u) \<and>
    memory_grows w u \<and> exc_inv u \<and> handleMem u h = Some (js_handle self) \<and> handleMem u t = Some (js_handle receiver)"
proof -
  obtain h v where h: "new_value self w = Inr (h, v)" "memory_grows w v" "exc_inv v" "handleMem v h = Some (js_handle self)"
    using new_value_exc[OF assms(1,2)] by blast
  obtain t u where t: "new_value receiver v = Inr (t, u)" "memory_grows v u" "exc_inv u" "handleMem u t = Some (js_handle receiver)"
    using new_value_exc[OF h(3) assms(3)] by blast
  show ?thesis using h t grows_roots(2)[OF h(2)] grows_chain[OF assms(1) h(2) t(2)] memory_grows_mem[OF t(2) h(4)]
    by (auto simp: PropertyCallbackInfoWrap_ctor_def fromV8_def info_indices write_cell_def eval_nat_numeral)
qed

text \<open>A callback of a property that sets its result: what the cells tell afterwards. A reset reads the cell of the default
  value, which was never written.\<close>

definition answers :: "'c res \<Rightarrow> 'a exc_scheme \<Rightarrow> ('c \<times> 'a exc_scheme) res \<Rightarrow> bool" where
  "answers r w m = (case r of Inl e \<Rightarrow> m = Inl e | Inr x \<Rightarrow> \<exists>u. m = Inr (x, u) \<and> memory_grows w u)"

lemma answers_simps [simp]:
  "answers (Inl e) w m = (m = Inl e)" "answers (Inr x) w m = (\<exists>u. m = Inr (x, u) \<and> memory_grows w u)"
  by (simp_all add: answers_def)

lemma hook_resets:
  assumes "exc_inv w" "roots_ok es w" "memory_grows w v" "\<forall>op \<in> set ops. set_ok num w op"
    and "\<exists>op \<in> set ops. resets op"
    and "c = [None, Some h, Some (iso_self w), None, Some (defaultReturnValue w), Some data, Some t]"
  shows "set_all num p_kReturnValueIndex ops c v = Inl UninitRead"
proof -
  have v: "exc_inv v" "roots_ok es v" "iso_self v = iso_self w" "defaultReturnValue v = defaultReturnValue w"
    using memory_grows_keeps[OF assms(1,3), of "{}"] grows_roots_ok[OF assms(3,2)] grows_self[OF assms(3)] grows_roots[OF assms(3)]
    by (simp_all add: keeps_def)
  obtain as op bs where ops: "ops = as @ op # bs" "resets op" "\<forall>a \<in> set as. \<not> resets a"
    using split_list_first_prop[OF assms(5)] by blast
  have "value_at 4 c v" "c ! 4 = Some (defaultReturnValue v)" using assms(6) v by (simp_all add: value_at_def)
  then obtain c' u p where u: "set_all num 4 as c v = Inr (c', u)" "c' = c[4 := Some p]"
    using set_all_gets[OF v(1,2), of 4 c as num] set_all_grows(1)[OF assms(3), where ops = as and num = num] assms(4) ops(1,3)
    by auto
  have "read_cell c' 3 = Inl UninitRead" using u(2) assms(6) by (simp add: read_cell_def)
  then have "rv_Set num 4 op (c', u) = Inl UninitRead"
    using ops(2) by (auto simp: resets_def on_cells_def set_default_def GetDefaultValue_def)
  then show ?thesis using u(1) ops(1) by (simp add: set_all_def foldM_append p_kReturnValueIndex_def)
qed

lemma hook_answers:
  assumes "exc_inv w" "roots_ok es w" "memory_grows w v" "\<forall>op \<in> set ops. set_ok num w op"
    and "\<not> (\<exists>op \<in> set ops. resets op)"
    and "c = [None, Some h, Some (iso_self w), None, Some (defaultReturnValue w), Some data, Some t]"
  shows "\<exists>c' u. set_all num p_kReturnValueIndex ops c v = Inr (c', u) \<and> memory_grows w u \<and>
    hasReturnValue c' u = Inr (ops \<noteq> []) \<and> answers (last_result es num (handleMem w) ops) w (returned_value c' u)"
proof -
  have v: "exc_inv v" "roots_ok es v" "iso_self v = iso_self w" "defaultReturnValue v = defaultReturnValue w"
    using memory_grows_keeps[OF assms(1,3), of "{}"] grows_roots_ok[OF assms(3,2)] grows_self[OF assms(3)] grows_roots[OF assms(3)]
    by (simp_all add: keeps_def)
  have ops: "\<forall>op \<in> set ops. set_ok num v op"
    "last_result es num (handleMem v) ops = last_result es num (handleMem w) ops"
    using set_all_grows[OF assms(3), where ops = ops and num = num] assms(4) by simp_all
  have "value_at 4 c v" "c ! 4 = Some (defaultReturnValue v)" using assms(6) v by (simp_all add: value_at_def)
  then obtain c' u p where u: "set_all num 4 ops c v = Inr (c', u)" "memory_grows v u" "exc_inv u" "value_at 4 c' u"
    "c' = c[4 := Some p]" "p = defaultReturnValue v \<longleftrightarrow> ops = []" "holds (last_result es num (handleMem w) ops) p u"
    using set_all_gets[OF v(1,2) _ ops(1), of 4 c] assms(5) ops(2) by force
  have c: "c' ! 4 = Some p" using u(5) assms(6) by simp
  have gu: "memory_grows w u" by (rule grows_chain[OF assms(1,3) u(2)])
  have h: "hasReturnValue c' u = Inr (ops \<noteq> [])"
    using u(5,6) assms(6) v(3) grows_self[OF u(2)] grows_roots(2)[OF u(2)]
    by (simp add: hasReturnValue_def read_cell_def info_indices fromV8_def)
  have "answers (last_result es num (handleMem w) ops) w (returned_value c' u)"
  proof (cases "last_result es num (handleMem w) ops")
    case (Inl e)
    then show ?thesis using get_confused_at[OF u(3,4) c] u(7) by (simp add: returned_value_def p_kReturnValueIndex_def)
  next
    case (Inr r)
    then obtain x where x: "rv_Get 4 c' u = Inr (Some p, x)" "memory_grows u x" "handle_value (Some p) x = Inr r"
      using get_value_at[OF u(3,4) c] u(7) by auto
    then show ?thesis using Inr grows_chain[OF assms(1) gu x(2)] by (simp add: returned_value_def p_kReturnValueIndex_def)
  qed
  then show ?thesis using u(1) gu h by (auto simp: p_kReturnValueIndex_def)
qed

text \<open>What a hook gets that reads the result, where \<open>f\<close> makes the answer of a value.\<close>

definition hook_result :: "engine_values \<Rightarrow> (int \<Rightarrow> ptr) \<Rightarrow> (ptr \<Rightarrow> HandleWrap option) \<Rightarrow> return_value_op list \<Rightarrow> 'c \<Rightarrow> (ptr \<Rightarrow> 'c res) \<Rightarrow> 'c res" where
  "hook_result es num mem ops d f = (if \<exists>op \<in> set ops. resets op then Inl UninitRead
     else if ops = [] then Inr d else rbind (last_result es num mem ops) f)"

lemma hook_runs:
  assumes "exc_inv w" "roots_ok es w" "memory_grows w v" "\<forall>op \<in> set ops. set_ok num w op"
    and "c = [None, Some h, Some (iso_self w), None, Some (defaultReturnValue w), Some data, Some t]"
  shows "answers (hook_result es num (handleMem w) ops d f) w (rbind (set_all num p_kReturnValueIndex ops c v) (\<lambda>(c, w).
     rbind (hasReturnValue c w) (\<lambda>b. if b then rbind (returned_value c w) (\<lambda>(v, w). rbind (f v) (\<lambda>x. Inr (x, w))) else Inr (d, w))))"
    and "answers (if \<exists>op \<in> set ops. resets op then Inl UninitRead else Inr (g (ops \<noteq> []))) w
      (rbind (set_all num p_kReturnValueIndex ops c v) (\<lambda>(c, w). rbind (hasReturnValue c w) (\<lambda>b. Inr (g b, w))))"
proof -
  have "answers (hook_result es num (handleMem w) ops d f) w (rbind (set_all num p_kReturnValueIndex ops c v) (\<lambda>(c, w).
     rbind (hasReturnValue c w) (\<lambda>b. if b then rbind (returned_value c w) (\<lambda>(v, w). rbind (f v) (\<lambda>x. Inr (x, w))) else Inr (d, w)))) \<and>
     answers (if \<exists>op \<in> set ops. resets op then Inl UninitRead else Inr (g (ops \<noteq> []))) w
      (rbind (set_all num p_kReturnValueIndex ops c v) (\<lambda>(c, w). rbind (hasReturnValue c w) (\<lambda>b. Inr (g b, w))))"
  proof (cases "\<exists>op \<in> set ops. resets op")
    case True
    then show ?thesis using hook_resets[OF assms(1-4) True assms(5)] by (simp add: hook_result_def)
  next
    case False
    obtain c' u where u: "set_all num p_kReturnValueIndex ops c v = Inr (c', u)" "memory_grows w u"
      "hasReturnValue c' u = Inr (ops \<noteq> [])" "answers (last_result es num (handleMem w) ops) w (returned_value c' u)"
      using hook_answers[OF assms(1-4) False assms(5)] by blast
    show ?thesis
    proof (cases "last_result es num (handleMem w) ops")
      case (Inl e)
      then show ?thesis using False u by (auto simp: hook_result_def)
    next
      case (Inr x)
      then show ?thesis using False u by (cases "f x") (auto simp: hook_result_def)
    qed
  qed
  then show "answers (hook_result es num (handleMem w) ops d f) w (rbind (set_all num p_kReturnValueIndex ops c v) (\<lambda>(c, w).
     rbind (hasReturnValue c w) (\<lambda>b. if b then rbind (returned_value c w) (\<lambda>(v, w). rbind (f v) (\<lambda>x. Inr (x, w))) else Inr (d, w))))"
    "answers (if \<exists>op \<in> set ops. resets op then Inl UninitRead else Inr (g (ops \<noteq> []))) w
      (rbind (set_all num p_kReturnValueIndex ops c v) (\<lambda>(c, w). rbind (hasReturnValue c w) (\<lambda>b. Inr (g b, w))))" by blast+
qed

text \<open>What the hooks need of a policy for names: it answers, and only creates handles.\<close>

locale name_source =
  fixes getPropertyName :: "ptr \<Rightarrow> 'a exc_scheme \<Rightarrow> ('n \<times> 'a exc_scheme) res"
  assumes name_law: "exc_inv w \<Longrightarrow> name \<noteq> 0 \<Longrightarrow> \<exists>n u. getPropertyName name w = Inr (n, u) \<and> memory_grows w u \<and> exc_inv u"
begin

lemma named_info:
  assumes "exc_inv w" "hd_isolate d = iso_self w" "self \<noteq> 0" "receiver \<noteq> 0" "name \<noteq> 0"
  shows "\<exists>h t y n z. hook_info d self receiver w =
      Inr ([None, Some h, Some (iso_self w), None, Some (defaultReturnValue w), Some (hc_data (hd_config d)), Some t], y) \<and>
    memory_grows w y \<and> getPropertyName name y = Inr (n, z) \<and> memory_grows w z \<and> exc_inv z"
proof -
  obtain h t y where y: "hook_info d self receiver w =
      Inr ([None, Some h, Some (iso_self w), None, Some (defaultReturnValue w), Some (hc_data (hd_config d)), Some t], y)"
    "memory_grows w y" "exc_inv y"
    using property_cells[OF assms(1,3,4), of "hc_data (hd_config d)"] assms(2) by (auto simp: hook_info_def)
  obtain n z where "getPropertyName name y = Inr (n, z)" "memory_grows y z" "exc_inv z" using name_law[OF y(3) assms(5)] by blast
  then show ?thesis using y grows_chain[OF assms(1) y(2)] by blast
qed

end

interpretation named: name_source "NamePropertyPolicy :: ptr \<Rightarrow> 'a exc_scheme \<Rightarrow> (ptr \<times> 'a exc_scheme) res"
proof
  fix w :: "'a exc_scheme" and name :: ptr
  assume "exc_inv w" "name \<noteq> 0"
  from new_value_exc[OF this] show "\<exists>n u. NamePropertyPolicy name w = Inr (n, u) \<and> memory_grows w u \<and> exc_inv u"
    unfolding NamePropertyPolicy_def by blast
qed

interpretation indexed: name_source "IndexPropertyPolicy i :: ptr \<Rightarrow> 'a exc_scheme \<Rightarrow> (32 word \<times> 'a exc_scheme) res" for i
  by unfold_locales (auto simp: IndexPropertyPolicy_def grows_refl)

text \<open>A configuration whose callbacks all call the same setters.\<close>

definition setting_config :: "(int \<Rightarrow> ptr) \<Rightarrow> return_value_op list \<Rightarrow> ptr \<Rightarrow> int \<Rightarrow> ('n, 'a exc_scheme) handler_configuration" where
  "setting_config num ops data flags = (let f = set_all num p_kReturnValueIndex ops in
     \<lparr>hc_getter = Some (\<lambda>_. f), hc_setter = Some (\<lambda>_ _. f), hc_query = Some (\<lambda>_. f), hc_deleter = Some (\<lambda>_. f),
      hc_enumerator = Some f, hc_definer = Some (\<lambda>_ _. f), hc_descriptor = Some (\<lambda>_. f), hc_data = data, hc_flags = flags\<rparr>)"

lemma setting_config_simps [simp]:
  "hc_getter (setting_config num ops data flags) = Some (\<lambda>_. set_all num p_kReturnValueIndex ops)"
  "hc_setter (setting_config num ops data flags) = Some (\<lambda>_ _. set_all num p_kReturnValueIndex ops)"
  "hc_query (setting_config num ops data flags) = Some (\<lambda>_. set_all num p_kReturnValueIndex ops)"
  "hc_deleter (setting_config num ops data flags) = Some (\<lambda>_. set_all num p_kReturnValueIndex ops)"
  "hc_enumerator (setting_config num ops data flags) = Some (set_all num p_kReturnValueIndex ops)"
  "hc_definer (setting_config num ops data flags) = Some (\<lambda>_ _. set_all num p_kReturnValueIndex ops)"
  "hc_descriptor (setting_config num ops data flags) = Some (\<lambda>_. set_all num p_kReturnValueIndex ops)"
  "hc_data (setting_config num ops data flags) = data" "hc_flags (setting_config num ops data flags) = flags"
  by (simp_all add: setting_config_def Let_def)

text \<open>The hooks with such a configuration, as runs of the setters that end in reading the result.\<close>

definition set_and_read :: "(int \<Rightarrow> ptr) \<Rightarrow> return_value_op list \<Rightarrow> 'c \<Rightarrow> (ptr \<Rightarrow> 'c res) \<Rightarrow> cells \<Rightarrow> 'a exc_scheme \<Rightarrow> ('c \<times> 'a exc_scheme) res" where
  "set_and_read num ops d f c v = rbind (set_all num p_kReturnValueIndex ops c v) (\<lambda>(c, w).
     rbind (hasReturnValue c w) (\<lambda>b. if b then rbind (returned_value c w) (\<lambda>(v, w). rbind (f v) (\<lambda>x. Inr (x, w))) else Inr (d, w)))"

lemma guard_bind: "rbind (guard e b (Inr l)) (\<lambda>x. Inr (x, w)) = guard e b (Inr (l, w))"
  by (simp add: guard_def)

lemma hooks_run:
  assumes "hd_config d = setting_config num ops data flags" "hook_info d self receiver w = Inr (c, y)" "getPropertyName name y = Inr (n, z)"
  shows "getterCallback getPropertyName d self receiver name w = set_and_read num ops None (\<lambda>v. Inr (Some v)) c z"
    "deleterCallback getPropertyName d self receiver name w = set_and_read num ops None (\<lambda>v. Inr (Some v)) c z"
    "descriptorCallback getPropertyName d self receiver name w = set_and_read num ops None (\<lambda>v. Inr (Some v)) c z"
    "definerCallback getPropertyName d self receiver name esDescriptor w = set_and_read num ops None (\<lambda>v. Inr (Some v)) c z"
    "new_value esValue z = Inr (p, x) \<Longrightarrow> setterCallback getPropertyName isFalse d self receiver name esValue w =
       set_and_read num ops None (\<lambda>v. Inr (Some (\<not> isFalse v))) c x"
    "enumeratorCallback isArray lengthOf string_at d self receiver w = set_and_read num ops []
       (\<lambda>v. guard TypeConfusion (isArray v) (Inr (map (string_at v) [0..<lengthOf v]))) c y"
  using assms by (simp_all add: getterCallback_def deleterCallback_def descriptorCallback_def definerCallback_def setterCallback_def
      enumeratorCallback_def call_named_def call_hook_def optional_value_def[abs_def] set_and_read_def guard_bind cong: if_cong)

lemma query_run:
  assumes "hd_config d = setting_config num ops data flags" "hook_info d self receiver w = Inr (c, y)" "getPropertyName name y = Inr (n, z)"
  shows "queryCallback getPropertyName d self receiver name w = rbind (set_all num p_kReturnValueIndex ops c z) (\<lambda>(c, w).
    rbind (hasReturnValue c w) (\<lambda>b. Inr (if \<not> b then PropertyAttributeNotExist
      else if flags \<noteq> 0 \<and> bit flags 3 then PropertyAttributeEnumerable else PropertyAttributeExist, w)))"
proof -
  have b: "and flags 8 \<noteq> 0 \<longleftrightarrow> bit flags 3" using and_exp_eq_0_iff_not_bit[of flags 3] by simp
  have e: "(if x then let hasNone = hc_flags (hd_config d) = PropertyHandlerFlags_kNone;
                hasNoSideEffect = and (hc_flags (hd_config d)) PropertyHandlerFlags_kHasNoSideEffect \<noteq> 0
            in if hasNone then PropertyAttributeExist else if hasNoSideEffect then PropertyAttributeEnumerable
               else PropertyAttributeExist
       else PropertyAttributeNotExist) = (if \<not> x then PropertyAttributeNotExist
      else if flags \<noteq> 0 \<and> bit flags 3 then PropertyAttributeEnumerable else PropertyAttributeExist)" for x
    using assms(1) b by (auto simp: PropertyHandlerFlags_kNone_def PropertyHandlerFlags_kHasNoSideEffect_def)
  show ?thesis unfolding queryCallback_def e using assms by (simp add: call_named_def call_hook_def)
qed

text \<open>C14. What the engine learns from the interceptors of an object template, whatever setters their callbacks call: an access
  is not intercepted exactly when the callback sets nothing; otherwise getters, deleters, definers and descriptor callbacks answer
  with the last value set, a setter succeeds unless that value is false, a query says that the property exists, whatever
  attributes it returned, and enumerable only by the flags of the configuration, and an enumerator answers with
  the elements of its array, where anything else is taken for one. A reset anywhere reads a cell that was never written, and a
  persistent handle set last is read as a handle of its value, except by queries, which do not read. No callback is missing that a
  hook calls.\<close>

theorem interceptors_answer:
  fixes w :: "'a exc_scheme" and es :: engine_values
  assumes "exc_inv w" "roots_ok es w" "hd_isolate d = iso_self w" "hd_config d = setting_config num ops data flags"
    and "self \<noteq> 0" "receiver \<noteq> 0" "name \<noteq> 0" "esValue \<noteq> 0" "\<forall>op \<in> set ops. set_ok num w op"
  defines "result \<equiv> if \<exists>op \<in> set ops. resets op then Inl UninitRead else if ops = [] then Inr None
      else rbind (last_result es num (handleMem w) ops) (\<lambda>v. Inr (Some v))"
  shows "answers result w (getterCallback NamePropertyPolicy d self receiver name w) \<and>
    answers result w (deleterCallback NamePropertyPolicy d self receiver name w) \<and>
    answers result w (descriptorCallback NamePropertyPolicy d self receiver name w) \<and>
    answers result w (definerCallback NamePropertyPolicy d self receiver name esDescriptor w) \<and>
    answers (rbind result (\<lambda>r. Inr (map_option (\<lambda>v. \<not> isFalse v) r))) w
      (setterCallback NamePropertyPolicy isFalse d self receiver name esValue w) \<and>
    answers (if \<exists>op \<in> set ops. resets op then Inl UninitRead else Inr (if ops = [] then PropertyAttributeNotExist
       else if flags \<noteq> 0 \<and> bit flags 3 then PropertyAttributeEnumerable else PropertyAttributeExist)) w
      (queryCallback NamePropertyPolicy d self receiver name w) \<and>
    answers (rbind result (\<lambda>r. case r of None \<Rightarrow> Inr []
       | Some v \<Rightarrow> if isArray v then Inr (map (string_at v) [0..<lengthOf v]) else Inl TypeConfusion)) w
      (enumeratorCallback isArray lengthOf string_at d self receiver w) \<and>
    applyHelper (hd_config d) i"
proof -
  have hr: "hook_result es num (handleMem w) ops None (\<lambda>v. Inr (Some v)) = result"
    by (simp add: hook_result_def result_def)
  have hs: "hook_result es num (handleMem w) ops None (\<lambda>v. Inr (Some (\<not> isFalse v))) = rbind result (\<lambda>r. Inr (map_option (\<lambda>v. \<not> isFalse v) r))"
    by (cases "last_result es num (handleMem w) ops") (simp_all add: hook_result_def result_def)
  have he: "hook_result es num (handleMem w) ops [] (\<lambda>v. guard TypeConfusion (isArray v) (Inr (map (string_at v) [0..<lengthOf v]))) =
      rbind result (\<lambda>r. case r of None \<Rightarrow> Inr [] | Some v \<Rightarrow> if isArray v then Inr (map (string_at v) [0..<lengthOf v]) else Inl TypeConfusion)"
    by (cases "last_result es num (handleMem w) ops") (simp_all add: hook_result_def result_def guard_def)
  obtain h t y n z where y: "hook_info d self receiver w =
      Inr ([None, Some h, Some (iso_self w), None, Some (defaultReturnValue w), Some (hc_data (hd_config d)), Some t], y)"
    "memory_grows w y" "NamePropertyPolicy name y = Inr (n, z)" "memory_grows w z" "exc_inv z"
    using named.named_info[OF assms(1,3,5-7)] by blast
  obtain p x where x: "new_value esValue z = Inr (p, x)" "memory_grows z x" using new_value_exc[OF y(5) assms(8)] by blast
  have gx: "memory_grows w x" by (rule grows_chain[OF assms(1) y(4) x(2)])
  note r = hooks_run[where getPropertyName = NamePropertyPolicy, OF assms(4) y(1,3)]
    and q = query_run[where getPropertyName = NamePropertyPolicy, OF assms(4) y(1,3)]
  note a = hook_runs(1)[OF assms(1,2) _ assms(9) refl, folded set_and_read_def]
  have "applyHelper (hd_config d) i" using assms(4) by (cases i) simp_all
  moreover have "answers (if \<exists>op \<in> set ops. resets op then Inl UninitRead else Inr (if ops = [] then PropertyAttributeNotExist
       else if flags \<noteq> 0 \<and> bit flags 3 then PropertyAttributeEnumerable else PropertyAttributeExist)) w
      (queryCallback NamePropertyPolicy d self receiver name w)"
    unfolding q by (rule hook_runs(2)[OF assms(1,2) y(4) assms(9) refl, where g = "\<lambda>b. if \<not> b then PropertyAttributeNotExist
      else if flags \<noteq> 0 \<and> bit flags 3 then PropertyAttributeEnumerable else PropertyAttributeExist", unfolded not_not])
  ultimately show ?thesis unfolding r(1-4,6) r(5)[OF x(1)]
    using a[OF y(4), where d = None and f = "\<lambda>v. Inr (Some v)", unfolded hr]
      a[OF gx, where d = None and f = "\<lambda>v. Inr (Some (\<not> isFalse v))", unfolded hs]
      a[OF y(2), where d = "[]" and f = "\<lambda>v. guard TypeConfusion (isArray v) (Inr (map (string_at v) [0..<lengthOf v]))", unfolded he]
    by blast
qed

section \<open>Cells that are never written\<close>

text \<open>The default of the return value and the mode for errors of a property callback are never written:
  resetting the result, and asking whether to throw, reads an uninitialised cell. The same reset in a function
  callback gives undefined.\<close>

theorem property_reset_reads_uninitialised:
  assumes "exc_inv w" "self \<noteq> 0" "receiver \<noteq> 0" "resets op"
  shows "\<exists>c u. PropertyCallbackInfoWrap_ctor (iso_self w) self receiver data w = Inr (c, u) \<and> memory_grows w u \<and>
    rv_Set num p_kReturnValueIndex op (c, u) = Inl UninitRead \<and> pci_ShouldThrowOnError c = Inl UninitRead \<and>
    pci_Data c = Inr data \<and> pci_GetIsolate c = Inr (iso_self w) \<and>
    (\<exists>h. pci_Holder c = Inr h \<and> handleMem u h = Some (js_handle self)) \<and>
    (\<exists>h. pci_This c = Inr h \<and> handleMem u h = Some (js_handle receiver))"
proof -
  obtain h t u where u: "PropertyCallbackInfoWrap_ctor (iso_self w) self receiver data w =
      Inr ([None, Some h, Some (iso_self w), None, Some (defaultReturnValue w), Some data, Some t], u)"
    "memory_grows w u" "handleMem u h = Some (js_handle self)" "handleMem u t = Some (js_handle receiver)"
    using property_cells[OF assms(1-3)] by blast
  show ?thesis using u assms(4)
    by (auto simp: resets_def on_cells_def set_default_def GetDefaultValue_def read_cell_def info_indices
        pci_ShouldThrowOnError_def pci_Data_def pci_GetIsolate_def pci_Holder_def pci_This_def)
qed

text \<open>A callback that returns a local handle returns its value; one that returns a persistent handle returns
  the address of the value of the engine as if it were a handle, which no reader of the result survives.\<close>

theorem persistent_result_confused:
  assumes "exc_inv w" "value_at k c w" "handleMem w h = Some (js_handle v)" "h \<noteq> 0"
    and "handleMem w g = Some x" "h_val x = v" "v \<noteq> 0" "handleMem w v = None"
  shows "(\<exists>c' u. rv_Set num k (SetLocal (Some h)) (c, w) = Inr (c', w) \<and> rv_Get k c' w = Inr (Some h, u) \<and>
      handle_value (Some h) u = Inr v) \<and>
    (\<exists>c'. rv_Set num k (SetGlobal (Some g)) (c, w) = Inr (c', w) \<and> rv_Get k c' w = Inl NullDeref)"
proof -
  have c: "value_at k (c[k := Some p]) w" "c[k := Some p] ! k = Some p" for p using assms(2) by (auto simp: value_at_def)
  have "read_cell (c[k := Some v]) (int k) = Inr v" using assms(2) by (simp add: read_cell_def value_at_def)
  moreover have "CreateHandle v w = Inl NullDeref"
    using assms(7,8) isCurrentScopeSealed_exc[OF assms(1)] by (simp add: CreateHandle_def)
  ultimately have "rv_Get k (c[k := Some v]) w = Inl NullDeref"
    using value_at_isolate[OF c(1), of v] assms(7) by (simp add: rv_Get_def fromV8_def Local_New_def)
  moreover have "rv_Set num k (SetGlobal (Some g)) (c, w) = Inr (c[k := Some v], w)"
    using write_value[OF assms(2)] assms(5,6) by (simp add: on_cells_def)
  moreover have "rv_Set num k (SetLocal (Some h)) (c, w) = Inr (c[k := Some h], w)"
    using write_value[OF assms(2)] by (simp add: on_cells_def)
  moreover have "holds (Inr v) h w" using assms(3,4) by (simp add: holds_def)
  ultimately show ?thesis using get_value_at[OF assms(1) c] by blast
qed

section \<open>Exceptions of callbacks\<close>

text \<open>A callback that throws, and returns at once.\<close>

definition throwing :: "ptr \<Rightarrow> cells \<Rightarrow> 'a exc_scheme \<Rightarrow> (cells \<times> 'a exc_scheme) res" where
  "throwing h c w = rbind (ThrowException (Some h) w) (\<lambda>(_, w). Inr (c, w))"

lemma Propagate_roots:
  assumes "PropagatePendingExceptionToExternalTryCatch w = Inr (b, u)"
  shows "iso_self u = iso_self w" "globalSlot u = globalSlot w"
  using assms by (auto simp: PropagatePendingExceptionToExternalTryCatch_def modify_tc_def load_tc_def
      split: if_splits option.splits)

lemma ThrowException_roots:
  assumes "exc_inv w" "ThrowException (Some h) w = Inr (p, u)" "handleMem w h = Some (js_handle v)" "v \<noteq> 0"
  shows "iso_self u = iso_self w" "globalSlot u = globalSlot w"
proof -
  obtain s where s: "ScheduleThrow v w = Inr s" "keeps {} w s" using ScheduleThrow_thrown[OF assms(1,4)] by blast
  obtain x q where x: "NewLocal v s = Inr (q, x)" "memory_grows s x" using NewLocal_exc[OF keeps_inv[OF s(2)] assms(4)] by blast
  have "s_currentIsolate w \<noteq> 0" using assms(1) by (simp add: exc_inv_def)
  then have "ThrowException (Some h) w = Inr (q, x)" using assms(3) s(1) x(1) by (simp add: ThrowException_def)
  then have u: "u = x" using assms(2) by simp
  obtain b y where y: "PropagatePendingExceptionToExternalTryCatch (w\<lparr>scheduled_exception := v, pending_exception_obj := v\<rparr>) = Inr (b, y)"
    "s = y \<or> s = clear_pending_exception y \<or> s = clear_scheduled_exception (clear_pending_exception y)"
    using s(1) assms(4)
    by (cases "PropagatePendingExceptionToExternalTryCatch (w\<lparr>scheduled_exception := v, pending_exception_obj := v\<rparr>)")
      (auto simp: ScheduleThrow_def set_scheduled_exception_def set_pending_exception_def Let_def split: if_splits)
  have "iso_self s = iso_self w \<and> globalSlot s = globalSlot w"
    using Propagate_roots[OF y(1)] y(2) by (auto simp: clear_pending_exception_def clear_scheduled_exception_def)
  then show "iso_self u = iso_self w" "globalSlot u = globalSlot w"
    using u grows_self[OF x(2)] memory_grows_fields(13)[OF x(2)] by simp_all
qed

lemma throwing_schedules:
  assumes "exc_inv w" "handleMem w h = Some (js_handle e)" "e \<noteq> 0" "\<not> receives w"
  shows "\<exists>u. throwing h c w = Inr (c, u) \<and> exc_inv u \<and> scheduled_exception u = e \<and> iso_self u = iso_self w \<and>
    defaultReturnValue u = defaultReturnValue w \<and> try_catch_handler u = try_catch_handler w"
proof -
  obtain r where r: "ThrowException (Some h) w = Inr r" "thrown e w (snd r)" using ThrowException_thrown[OF assms(1-3)] by blast
  obtain p u where pu: "r = (p, u)" by (cases r)
  show ?thesis using r ThrowException_roots[OF assms(1) r(1)[unfolded pu] assms(2,3)] assms(4)
    by (auto simp: throwing_def thrown_def pu defaultReturnValue_def)
qed

lemma grows_receives: "memory_grows w u \<Longrightarrow> receives u = receives w"
  using memory_grows_fields(1,2)[of w u] by (simp add: receives_def)

lemma throws_into_engine:
  assumes "exc_inv w" "scheduled_exception w = e" "e \<noteq> 0" "isCatchableByJavascript state"
  shows "\<exists>u. ThrowErrorIfHasException obj state w = Inr (Some e, u) \<and> scheduled_exception u = 0 \<and> pending_exception_obj u = 0"
  using assms by (auto simp: ThrowErrorIfHasException_def has_scheduled_exception_def Let_def ClearPendingExceptionAndMessage_def
      clear_pending_message_obj_def clear_pending_exception_def clear_scheduled_exception_def hasExternalTryCatch_def
      SetTerminationOnExternalTryCatch_def modify_tc_def load_tc_def exc_inv_def)

text \<open>An exception of the callback of an interceptor is not thrown into the script: the interceptor answers
  that the access is not intercepted and leaves the exception scheduled for whatever native code runs next, while
  the getter of a native accessor with the same callback throws it and leaves none behind.\<close>

theorem interceptor_exception_not_thrown:
  assumes "exc_inv w" "handleMem w h = Some (js_handle e)" "e \<noteq> 0" "\<not> receives w" "isCatchableByJavascript state"
    and "hd_isolate d = iso_self w" "hc_getter (hd_config d) = Some (\<lambda>_. throwing h)"
    and "acc_isolate a = iso_self w" "acc_getter a = Some (\<lambda>_. throwing h)"
    and "self \<noteq> 0" "receiver \<noteq> 0" "name \<noteq> 0"
  shows "(\<exists>u. getterCallback NamePropertyPolicy d self receiver name w = Inr (None, u) \<and> scheduled_exception u = e) \<and>
    (\<exists>u. accessorPropertyGetter obj state undef a self receiver w = Inr (Threw e, u) \<and> scheduled_exception u = 0 \<and>
       pending_exception_obj u = 0)"
proof
  obtain p t v where v: "hook_info d self receiver w =
      Inr ([None, Some p, Some (iso_self w), None, Some (defaultReturnValue w), Some (hc_data (hd_config d)), Some t], v)"
    "memory_grows w v" "exc_inv v"
    using property_cells[OF assms(1,10,11), of "hc_data (hd_config d)"] assms(6) by (auto simp: hook_info_def)
  obtain n z where z: "NamePropertyPolicy name v = Inr (n, z)" "memory_grows v z" "exc_inv z"
    using named.name_law[OF v(3) assms(12)] by blast
  have g: "memory_grows w z" by (rule grows_chain[OF assms(1) v(2) z(2)])
  have hz: "handleMem z h = Some (js_handle e)" "\<not> receives z" using memory_grows_mem[OF g assms(2)] grows_receives[OF g] assms(4) by auto
  let ?c = "[None, Some p, Some (iso_self w), None, Some (defaultReturnValue w), Some (hc_data (hd_config d)), Some t]"
  obtain u where u: "throwing h ?c z = Inr (?c, u)" "scheduled_exception u = e" "iso_self u = iso_self z"
    "defaultReturnValue u = defaultReturnValue z" using throwing_schedules[OF z(3) hz(1) assms(3) hz(2), of ?c] by blast
  show "\<exists>u. getterCallback NamePropertyPolicy d self receiver name w = Inr (None, u) \<and> scheduled_exception u = e"
    using v(1) z(1) u assms(7) grows_self[OF g] grows_roots(2)[OF g]
    by (simp add: getterCallback_def call_named_def call_hook_def optional_value_def hasReturnValue_def read_cell_def info_indices fromV8_def)
next
  obtain c v where v: "PropertyCallbackInfoWrap_ctor (iso_self w) self receiver (acc_data a) w = Inr (c, v)" "memory_grows w v" "exc_inv v"
    using property_cells[OF assms(1,10,11)] by blast
  have "handleMem v h = Some (js_handle e)" "\<not> receives v" using memory_grows_mem[OF v(2) assms(2)] grows_receives[OF v(2)] assms(4) by auto
  from throwing_schedules[OF v(3) this(1) assms(3) this(2), of c]
  obtain y where y: "throwing h c v = Inr (c, y)" "exc_inv y" "scheduled_exception y = e" "iso_self y = iso_self v" by blast
  from throws_into_engine[OF y(2,3) assms(3,5), of obj]
  show "\<exists>u. accessorPropertyGetter obj state undef a self receiver w = Inr (Threw e, u) \<and> scheduled_exception u = 0 \<and>
       pending_exception_obj u = 0"
    using v(1) y assms(8,9) grows_self[OF v(2)] by (auto simp: accessorPropertyGetter_def fromV8_def)
qed

section \<open>Witnesses\<close>

text \<open>An isolate with its roots, outside of any call: the global object \<open>4\<close> of the entered context and a function
  \<open>5\<close> that was made of a template have their data.\<close>

definition rooted_world :: world where
  "rooted_world = ready_world\<lparr>globalSlot := [11, 12, 13, 14, 15, 16, 17], nextHandle := 70,
     extraData := [4 \<mapsto> OtherExtraData 1, 5 \<mapsto> OtherExtraData 2],
     dataMem := [1 \<mapsto> GlobalD (newObjectData 0 0 0), 2 \<mapsto> FunctionD (newObjectData 71 0 0)], nextData := 3,
     handleMem := [11 \<mapsto> js_handle 41, 12 \<mapsto> js_handle 41, 13 \<mapsto> js_handle 42, 14 \<mapsto> js_handle 43, 15 \<mapsto> js_handle 44,
       16 \<mapsto> js_handle 45, 17 \<mapsto> js_handle 41, 18 \<mapsto> js_handle 60]\<rparr>"

definition rooted_values :: engine_values where
  "rooted_values = \<lparr>es_vm = 1, es_undefined = 41, es_null = 42, es_true = 43, es_false = 44, es_emptyString = 45\<rparr>"

lemma rooted_world_simps [simp]:
  "exc_inv rooted_world" "roots_ok rooted_values rooted_world" "callDepth rooted_world = 0" "scheduled_exception rooted_world = 0"
  "undefined_value rooted_world = 11" "defaultReturnValue rooted_world = 17" "handleMem rooted_world 11 = Some (js_handle 41)"
  "handleMem rooted_world 18 = Some (js_handle 60)" "handleMem rooted_world 60 = None" "try_catch_handler rooted_world = 0"
  "nextHandle rooted_world = 70"
proof -
  show "exc_inv rooted_world" using ready_world_simps(1) by (auto simp: rooted_world_def exc_inv_def fresh_mem_def)
  show "roots_ok rooted_values rooted_world"
    by (simp add: roots_ok_def engine_ok_def rooted_world_def rooted_values_def slot_contents_def eval_nat_numeral less_Suc_eq
        all_conj_distrib)
qed (simp_all add: rooted_world_def undefined_value_def defaultReturnValue_def root_indices)

lemma rooted_values_simps [simp]: "es_undefined rooted_values = 41" "es_false rooted_values = 44"
  by (simp_all add: rooted_values_def)

theorem callback_sees_the_call_witness:
  "\<exists>info u. FunctionCallbackInfoWrap_ctor (iso_self rooted_world) 5 5 (Some 6) 9 2 [7, 8] rooted_world = Inr (info, u) \<and>
    fci_Length info = 2 \<and> fci_IsConstructCall (\<lambda>v. v = 41) info u = Inr True"
  using callback_sees_the_call[of rooted_world "[7, 8]" 5 5 41 "Some 6" 9] by auto

theorem callback_returns_last_value_witness:
  "\<exists>u. callTemplateCallback (\<lambda>_. True) [] 41 (Some (\<lambda>info. set_all (\<lambda>i. nat i) 3 [SetGlobal (Some 18), SetUint32 (2 ^ 31)] (implicit_args info)))
     (iso_self rooted_world) 0 5 None 0 [] rooted_world = Inr (Returned (2 ^ 31), u) \<and> callDepth u = 0"
  using callback_returns_last_value[of rooted_world rooted_values "[]" 5 None "[SetGlobal (Some 18), SetUint32 (2 ^ 31)]" "\<lambda>i. nat i"
      "\<lambda>_. True" "[]" 0]
  by (auto simp: last_result_def f_kReturnValueIndex_def js_handle_def)

definition rooted_hooks :: "return_value_op list \<Rightarrow> (ptr, world) helper_data" where
  "rooted_hooks ops = \<lparr>hd_isolate = iso_self rooted_world, hd_config = setting_config (\<lambda>i. nat i) ops 0 8\<rparr>"

theorem interceptors_answer_witness:
  "(\<exists>u. getterCallback NamePropertyPolicy (rooted_hooks [SetGlobal (Some 18), SetBool False]) 5 5 6 rooted_world = Inr (Some 44, u)) \<and>
   getterCallback NamePropertyPolicy (rooted_hooks [SetGlobal (Some 18)]) 5 5 6 rooted_world = Inl NullDeref \<and>
   getterCallback NamePropertyPolicy (rooted_hooks [SetGlobal None, SetBool False]) 5 5 6 rooted_world = Inl UninitRead"
proof -
  note i = interceptors_answer[where w = rooted_world and es = rooted_values and num = "\<lambda>i. nat i" and data = 0 and flags = 8 and
      self = 5 and receiver = 5 and name = 6 and esValue = 7 and isArray = "\<lambda>_. True" and esDescriptor = 0 and isFalse = "\<lambda>_. True" and
      lengthOf = "\<lambda>_. 0" and string_at = "\<lambda>_ _. 0" and i = Getter]
  show ?thesis
    using i[where d = "rooted_hooks [SetGlobal (Some 18), SetBool False]" and ops = "[SetGlobal (Some 18), SetBool False]"]
      i[where d = "rooted_hooks [SetGlobal (Some 18)]" and ops = "[SetGlobal (Some 18)]"]
      i[where d = "rooted_hooks [SetGlobal None, SetBool False]" and ops = "[SetGlobal None, SetBool False]"]
    by (auto simp: rooted_hooks_def last_result_def resets_def js_handle_def)
qed

theorem property_reset_reads_uninitialised_witness:
  "\<exists>c u. PropertyCallbackInfoWrap_ctor (iso_self rooted_world) 5 5 0 rooted_world = Inr (c, u) \<and>
    rv_Set (\<lambda>i. nat i) p_kReturnValueIndex (SetLocal None) (c, u) = Inl UninitRead"
  using property_reset_reads_uninitialised[of rooted_world 5 5 "SetLocal None" 0 "\<lambda>i. nat i"] by (auto simp: resets_def)

theorem persistent_result_confused_witness:
  "\<exists>c'. rv_Set (\<lambda>i. nat i) 2 (SetGlobal (Some 18)) ([Some (iso_self rooted_world), None, None], rooted_world) = Inr (c', rooted_world) \<and>
    rv_Get 2 c' rooted_world = Inl NullDeref"
  using persistent_result_confused[of rooted_world 2 "[Some (iso_self rooted_world), None, None]" 18 60 18 "js_handle 60" "\<lambda>i. nat i"]
  by (auto simp: value_at_def js_handle_def)

theorem interceptor_exception_not_thrown_witness:
  "\<exists>u. getterCallback NamePropertyPolicy \<lparr>hd_isolate = iso_self rooted_world,
      hd_config = (setting_config (\<lambda>i. nat i) [] 0 0)\<lparr>hc_getter := Some (\<lambda>_. throwing 18)\<rparr>\<rparr> 5 5 6 rooted_world = Inr (None, u) \<and>
    scheduled_exception u = 60"
  using interceptor_exception_not_thrown[of rooted_world 18 60 "[True]" "\<lparr>hd_isolate = iso_self rooted_world,
      hd_config = (setting_config (\<lambda>i. nat i) [] 0 0)\<lparr>hc_getter := Some (\<lambda>_. throwing 18)\<rparr>\<rparr>"
    "newAccessorData (iso_self rooted_world) 6 (Some (\<lambda>_. throwing 18)) None 0 True True True" 5 5 6]
  by (auto simp: receives_def newAccessorData_def)

end
