(* ===== verification/Scripts.thy ===== *)
theory Scripts
  imports CallProps
begin

text \<open>
  Compilation and runs of scripts, \<^verbatim>\<open>src/src/api-scripts.cc\<close>: what becomes of the text of a source, of
  parse errors and of the exceptions of a run.

  The parser of the engine is an argument. It is given the source, the name of the resource and whether the source
  is a module, and answers with a script or with the error that the code makes of its message; the script keeps the
  source and the name. A run is an argument too. Contexts that are passed in belong to the isolate.
\<close>

section \<open>Sources\<close>

record source =
  source_string :: ptr
  resource_name :: "ptr option"
  is_module :: bool
  cached_rejected :: "bool option"

datatype parse_result = Parsed ptr | ParseError ptr

text \<open>Strings of the engine: one-byte or two-byte code units. What its \<^verbatim>\<open>charAt\<close> answers behind the end
  is an argument.\<close>

record es_string =
  has8BitContent :: bool
  code_units :: "nat list"

definition charAt :: "nat \<Rightarrow> es_string \<Rightarrow> nat \<Rightarrow> nat" where
  "charAt beyond s i = (if i < length (code_units s) then code_units s ! i else beyond)"

text \<open>The buffer is written in place, in either width.\<close>

definition put_unit :: "nat \<Rightarrow> nat \<Rightarrow> es_string \<Rightarrow> es_string res" where
  "put_unit i c s = guard OutOfBounds (i < length (code_units s)) (Inr (s\<lparr>code_units := (code_units s)[i := c]\<rparr>))"

definition handleShebang :: "nat \<Rightarrow> es_string \<Rightarrow> es_string res" where
  "handleShebang beyond s = (if charAt beyond s 0 = 35 \<and> charAt beyond s 1 = 33
     then rbind (put_unit 0 47 s) (put_unit 1 47) else Inr s)"

section \<open>Compilation\<close>

definition NewLocal_script :: "ptr \<Rightarrow> 'a scopes_scheme \<Rightarrow> (ptr \<times> 'a scopes_scheme) res" where
  "NewLocal_script esScript w = NewLocal_handle (createScript esScript) w"

definition script_of :: "ptr \<Rightarrow> 'a scopes_scheme \<Rightarrow> ptr res" where
  "script_of h w = (case handleMem w h of None \<Rightarrow> Inl NullDeref | Some x \<Rightarrow> get_script x)"

text \<open>\<^verbatim>\<open>asString\<close> on the values of handles; \<open>str\<close> recognises strings of the engine.\<close>

definition string_of :: "(ptr \<Rightarrow> bool) \<Rightarrow> ptr \<Rightarrow> 'a exc_scheme \<Rightarrow> ptr res" where
  "string_of str h w = rbind (handle_value (Some h) w) (\<lambda>v. guard TypeConfusion (str v) (Inr v))"

definition report_parse_error :: "(ptr \<Rightarrow> bool) \<Rightarrow> ptr \<Rightarrow> 'a exc_scheme \<Rightarrow> 'a exc_scheme res" where
  "report_parse_error obj e w = rbind (SetPendingExceptionAndMessage obj e [] w) (ReportPendingMessages obj False)"

definition CompileUnboundInternal :: "(ptr \<Rightarrow> bool) \<Rightarrow> (ptr \<Rightarrow> bool) \<Rightarrow> ptr \<Rightarrow> (ptr \<Rightarrow> ptr \<Rightarrow> bool \<Rightarrow> parse_result) \<Rightarrow> source \<Rightarrow>
    'a exc_scheme \<Rightarrow> (ptr option \<times> 'a exc_scheme) res" where
  "CompileUnboundInternal obj str emptyName initializeScript src w = (if IsExecutionTerminating w then Inr (None, w)
     else rbind (string_of str (source_string src) w) (\<lambda>esSource.
       rbind (case resource_name src of None \<Rightarrow> Inr emptyName | Some h \<Rightarrow> string_of str h w) (\<lambda>esResourceName.
       case initializeScript esSource esResourceName (is_module src) of
         ParseError e \<Rightarrow> rbind (report_parse_error obj e w) (\<lambda>w. Inr (None, w))
       | Parsed script \<Rightarrow> some_local (NewLocal_script script w))))"

text \<open>\<open>codeOf\<close> and \<open>srcOf\<close> read what a script keeps of its source.\<close>

definition BindToCurrentContext :: "(ptr \<Rightarrow> ptr \<Rightarrow> bool \<Rightarrow> parse_result) \<Rightarrow> (ptr \<Rightarrow> ptr) \<Rightarrow> (ptr \<Rightarrow> ptr) \<Rightarrow> ptr \<Rightarrow>
    'a exc_scheme \<Rightarrow> (ptr \<times> 'a exc_scheme) res" where
  "BindToCurrentContext initializeScript codeOf srcOf this w = rbind (script_of this w) (\<lambda>esScript.
     rbind (GetCurrentContext w) (\<lambda>_. case initializeScript (codeOf esScript) (srcOf esScript) False of
       ParseError _ \<Rightarrow> Inl CheckFailed
     | Parsed script \<Rightarrow> NewLocal_script script w))"

definition ScriptCompiler_Compile :: "(ptr \<Rightarrow> bool) \<Rightarrow> (ptr \<Rightarrow> bool) \<Rightarrow> ptr \<Rightarrow> (ptr \<Rightarrow> ptr \<Rightarrow> bool \<Rightarrow> parse_result) \<Rightarrow> (ptr \<Rightarrow> ptr) \<Rightarrow>
    (ptr \<Rightarrow> ptr) \<Rightarrow> ptr \<Rightarrow> source \<Rightarrow> 'a exc_scheme \<Rightarrow> (ptr option \<times> 'a exc_scheme) res" where
  "ScriptCompiler_Compile obj str emptyName initializeScript codeOf srcOf cx src w =
     rbind (CompileUnboundInternal obj str emptyName initializeScript src w) (\<lambda>(maybe, w). case maybe of
       None \<Rightarrow> Inr (None, w)
     | Some result \<Rightarrow> rbind (context_Enter cx w) (\<lambda>w.
         rbind (BindToCurrentContext initializeScript codeOf srcOf result w) (\<lambda>(h, w).
         rbind (context_Exit cx w) (\<lambda>w. Inr (Some h, w)))))"

text \<open>The handle of a module holds a new empty \<^verbatim>\<open>ModuleWrap\<close>, at the address \<open>wrap\<close>; the script is
  dropped.\<close>

datatype compile_options = kNoCompileOptions | kConsumeCodeCache | kEagerCompile

definition CompileModule :: "(ptr \<Rightarrow> bool) \<Rightarrow> (ptr \<Rightarrow> bool) \<Rightarrow> ptr \<Rightarrow> (ptr \<Rightarrow> ptr \<Rightarrow> bool \<Rightarrow> parse_result) \<Rightarrow> ptr \<Rightarrow> compile_options \<Rightarrow>
    source \<Rightarrow> 'a exc_scheme \<Rightarrow> (ptr option \<times> 'a exc_scheme) res" where
  "CompileModule obj str emptyName initializeScript wrap options src w =
     guard CheckFailed (options = kNoCompileOptions \<or> options = kConsumeCodeCache)
     (if IsExecutionTerminating w then Inr (None, w)
      else guard CheckFailed (is_module src)
        (rbind (CompileUnboundInternal obj str emptyName initializeScript src w) (\<lambda>(unbound, w). case unbound of
           None \<Rightarrow> Inr (None, w)
         | Some _ \<Rightarrow> some_local (NewLocal_handle (createModule wrap) w))))"

text \<open>A function of a source: \<open>strs\<close> is the memory of the strings, which the parser reads. The result is the
  function, the script if it was asked for, and the source, whose cached data the code rejects.\<close>

datatype function_result = ParsedFunction ptr ptr | FunctionError ptr

fun handle_values :: "ptr list \<Rightarrow> 'a exc_scheme \<Rightarrow> ptr list res" where
  "handle_values [] w = Inr []"
| "handle_values (h # hs) w = rbind (handle_value (Some h) w) (\<lambda>v. rbind (handle_values hs w) (\<lambda>vs. Inr (v # vs)))"

definition reject_cache :: "compile_options \<Rightarrow> source \<Rightarrow> source res" where
  "reject_cache options src = (if options = kConsumeCodeCache
     then guard NullDeref (cached_rejected src \<noteq> None) (Inr (src\<lparr>cached_rejected := Some True\<rparr>)) else Inr src)"

record function_outcome =
  fo_function :: "ptr option"
  fo_script :: "ptr option"
  fo_source :: source
  fo_strings :: "ptr \<Rightarrow> es_string"

definition CompileFunctionInContext :: "(ptr \<Rightarrow> bool) \<Rightarrow> (ptr \<Rightarrow> bool) \<Rightarrow> nat \<Rightarrow> ptr \<Rightarrow>
    (ptr \<Rightarrow> ptr list \<Rightarrow> es_string \<Rightarrow> function_result) \<Rightarrow> source \<Rightarrow> ptr list \<Rightarrow> compile_options \<Rightarrow> bool \<Rightarrow>
    (ptr \<Rightarrow> es_string) \<Rightarrow> 'a exc_scheme \<Rightarrow> (function_outcome \<times> 'a exc_scheme) res" where
  "CompileFunctionInContext obj str beyond emptyName initializeFunctionScript src arguments options script_or_module_out strs w =
     (if IsExecutionTerminating w
      then Inr (\<lparr>fo_function = None, fo_script = None, fo_source = src, fo_strings = strs\<rparr>, w)
      else rbind (reject_cache options src) (\<lambda>src.
       rbind (string_of str (source_string src) w) (\<lambda>esSource.
       rbind (case resource_name src of None \<Rightarrow> Inr emptyName | Some h \<Rightarrow> string_of str h w) (\<lambda>esSourceName.
       rbind (handleShebang beyond (strs esSource)) (\<lambda>s.
       let strs = strs(esSource := s) in
       rbind (handle_values arguments w) (\<lambda>arguments_list.
       case initializeFunctionScript esSourceName arguments_list (strs esSource) of
         FunctionError e \<Rightarrow> rbind (report_parse_error obj e w) (\<lambda>w.
           Inr (\<lparr>fo_function = None, fo_script = None, fo_source = src, fo_strings = strs\<rparr>, w))
       | ParsedFunction script f \<Rightarrow> rbind (if script_or_module_out then some_local (NewLocal_script script w) else Inr (None, w))
           (\<lambda>(out, w). rbind (NewLocal f w) (\<lambda>(h, w).
            Inr (\<lparr>fo_function = Some h, fo_script = out, fo_source = src, fo_strings = strs\<rparr>, w)))))))))"

section \<open>Runs\<close>

text \<open>\<open>abortCallback\<close> is the embedder's callback that the context may have.\<close>

definition Script_Run :: "(ptr \<Rightarrow> bool) \<Rightarrow> ptr \<Rightarrow> ('a exc_scheme \<Rightarrow> 'a exc_scheme res) option \<Rightarrow>
    (ptr \<Rightarrow> 'a exc_scheme \<Rightarrow> (eval_result \<times> 'a exc_scheme) res) \<Rightarrow> ptr \<Rightarrow> 'a exc_scheme \<Rightarrow> (ptr option \<times> 'a exc_scheme) res" where
  "Script_Run obj undef abortCallback execute this w = (if IsExecutionTerminating w then Inr (None, w)
     else rbind (GetCurrentContext w) (\<lambda>_. rbind (script_of this w) (\<lambda>esScript. case abortCallback of
       Some f \<Rightarrow> rbind (f w) (\<lambda>w. rbind (ScheduleThrow undef w) (\<lambda>w. Inr (None, w)))
     | None \<Rightarrow> rbind (execute esScript w) (\<lambda>(r, w). case r of
         Failure e st \<Rightarrow> rbind (handleException obj e st w) (\<lambda>w. Inr (None, w))
       | Success v \<Rightarrow> some_local (NewLocal v w)))))"

section \<open>Shebangs\<close>

text \<open>The text that a function is parsed from.\<close>

fun commented :: "nat list \<Rightarrow> nat list" where
  "commented (a # b # us) = (if a = 35 \<and> b = 33 then 47 # 47 # us else a # b # us)"
| "commented us = us"

lemma handleShebang_eq:
  assumes "beyond \<noteq> 35" "beyond \<noteq> 33"
  shows "handleShebang beyond s = Inr (s\<lparr>code_units := commented (code_units s)\<rparr>)"
  using assms by (cases "code_units s" rule: commented.cases) (auto simp: handleShebang_def charAt_def put_unit_def)

lemma length_commented: "length (commented us) = length us"
  by (cases us rule: commented.cases) simp_all

section \<open>Where exceptions go\<close>

lemma report_parse_error_runs:
  assumes "exc_inv w" "e \<noteq> 0"
  shows "if api_object obj w e then report_parse_error obj e w = Inl CheckFailed
    else \<exists>u. report_parse_error obj e w = Inr u \<and> keeps {} w u \<and> reported e w u"
  using set_and_report[OF assms, of obj "[]"] by (auto simp: report_parse_error_def SetPending_aborts)

text \<open>C39. A run of a script settles, whatever it left scheduled or pending: a result comes back as a handle of it and changes
  neither; an exception that leaves the outermost run is reported, to the handler on top if that has caught nothing, unless it
  carries data of the interface, which aborts; one that leaves a run inside of a callback is in the handler, or pending and scheduled
  for the caller. A run that the embedder stops does not execute the script and throws undefined.\<close>

theorem script_run_settles:
  assumes "exc_inv w" "handleMem w this = Some x" "get_script x = Inr s"
    and "execute s w = Inr (r, u)" "keeps K w u" "case r of Success v \<Rightarrow> v \<noteq> 0 | Failure e st \<Rightarrow> e \<noteq> 0"
    and "stop w = Inr y" "keeps L w y" "undef \<noteq> 0"
  shows "(case r of
       Success v \<Rightarrow> \<exists>p w'. Script_Run obj undef None execute this w = Inr (Some p, w') \<and> keeps K w w' \<and>
         handleMem w' p = Some (js_handle v) \<and> pending_exception_obj w' = pending_exception_obj u \<and>
         scheduled_exception w' = scheduled_exception u
     | Failure e st \<Rightarrow> if callDepth w = 0 \<and> api_object obj u e then Script_Run obj undef None execute this w = Inl CheckFailed
         else \<exists>w'. Script_Run obj undef None execute this w = Inr (None, w') \<and> keeps K w w' \<and> delivered e u w') \<and>
    (\<exists>w'. Script_Run obj undef (Some stop) execute this w = Inr (None, w') \<and> keeps L w w' \<and> thrown undef y w')"
proof
  have c: "GetCurrentContext w = Inr (last (contextScopes w))" "script_of this w = Inr s"
    using assms(1-3) by (auto simp: GetCurrentContext_def exc_inv_def script_of_def guard_def Suc_le_eq)
  have d: "callDepth u = callDepth w" using assms(5) by (simp add: keeps_def)
  show "case r of
       Success v \<Rightarrow> \<exists>p w'. Script_Run obj undef None execute this w = Inr (Some p, w') \<and> keeps K w w' \<and>
         handleMem w' p = Some (js_handle v) \<and> pending_exception_obj w' = pending_exception_obj u \<and>
         scheduled_exception w' = scheduled_exception u
     | Failure e st \<Rightarrow> if callDepth w = 0 \<and> api_object obj u e then Script_Run obj undef None execute this w = Inl CheckFailed
         else \<exists>w'. Script_Run obj undef None execute this w = Inr (None, w') \<and> keeps K w w' \<and> delivered e u w'"
  proof (cases r)
    case (Success v)
    obtain p w' where p: "NewLocal v u = Inr (p, w')" "memory_grows u w'" "handleMem w' p = Some (js_handle v)"
      using NewLocal_exc[OF keeps_inv[OF assms(5)], of v] assms(6) Success by auto
    then show ?thesis using Success c assms(4) keeps_trans[OF assms(5) memory_grows_keeps[OF keeps_inv[OF assms(5)] p(2)]]
        memory_grows_fields(3,4)[OF p(2)]
      by (auto simp: Script_Run_def IsExecutionTerminating_def some_local_def)
  next
    case (Failure e st)
    then have "e \<noteq> 0" using assms(6) by simp
    from handleException_leaves[OF keeps_inv[OF assms(5)] this, of obj st]
    have "if callDepth u = 0 \<and> api_object obj u e then handleException obj e st u = Inl CheckFailed
      else \<exists>w'. handleException obj e st u = Inr w' \<and> keeps {} u w' \<and> delivered e u w'" by (simp add: leaves_call_def)
    then show ?thesis using Failure c assms(4) d keeps_trans[OF assms(5) keeps_mono[of "{}" u _ K]]
      by (auto simp: Script_Run_def IsExecutionTerminating_def split: if_splits)
  qed
  obtain v where "ScheduleThrow undef y = Inr v" "thrown undef y v" "keeps {} y v"
    using ScheduleThrow_thrown[OF keeps_inv[OF assms(8)] assms(9)] by blast
  then show "\<exists>w'. Script_Run obj undef (Some stop) execute this w = Inr (None, w') \<and> keeps L w w' \<and> thrown undef y w'"
    using c assms(7) keeps_trans[OF assms(8) keeps_mono[of "{}" y v L]] by (auto simp: Script_Run_def IsExecutionTerminating_def)
qed

text \<open>A parse error is reported at once, to the handler if it has caught nothing, and is never scheduled:
  the script whose callback compiles sees no exception, where the same error of a run inside of a callback is
  thrown to it.\<close>

theorem parse_error_not_thrown:
  fixes w :: "'a exc_scheme"
  assumes "exc_inv w" "callDepth w > 0" "\<not> receives w" "scheduled_exception w = 0" "e \<noteq> 0" "\<not> api_object obj w e"
    and "string_of str (source_string src) w = Inr s" "resource_name src = None"
    and "initializeScript s emptyName (is_module src) = ParseError e"
    and "handleMem w this = Some x" "get_script x = Inr script" "execute script w = Inr (Failure e [], w)"
  shows "(\<exists>u. CompileUnboundInternal obj str emptyName initializeScript src w = Inr (None, u) \<and> keeps {} w u \<and>
      reported e w u \<and> ThrowErrorIfHasException obj state u = Inr (None, u)) \<and>
    (\<exists>u v. Script_Run obj undef None execute this w = Inr (None, u) \<and> keeps {} w u \<and> scheduled_exception u = e \<and>
      (isCatchableByJavascript state \<longrightarrow> ThrowErrorIfHasException obj state u = Inr (Some e, v)))"
proof
  obtain u where "report_parse_error obj e w = Inr u" "keeps {} w u" "reported e w u"
    using report_parse_error_runs[OF assms(1,5), of obj] assms(6) by auto
  then show "\<exists>u. CompileUnboundInternal obj str emptyName initializeScript src w = Inr (None, u) \<and> keeps {} w u \<and>
      reported e w u \<and> ThrowErrorIfHasException obj state u = Inr (None, u)"
    using assms(4,7-9) by (simp add: CompileUnboundInternal_def IsExecutionTerminating_def ThrowErrorIfHasException_def
        has_scheduled_exception_def reported_def)
next
  have c: "GetCurrentContext w = Inr (last (contextScopes w))" "script_of this w = Inr script"
    using assms(1,10,11) by (auto simp: GetCurrentContext_def exc_inv_def script_of_def guard_def Suc_le_eq)
  obtain u where u: "handleException obj e [] w = Inr u" "keeps {} w u" "scheduled_exception u = e"
    using handleException_leaves[OF assms(1,5), of obj "[]"] assms(2,3) by (auto simp: leaves_call_def delivered_def)
  have "\<exists>v. isCatchableByJavascript state \<longrightarrow> ThrowErrorIfHasException obj state u = Inr (Some e, v)"
    using keeps_inv[OF u(2)] u(3) assms(5) by (auto simp: ThrowErrorIfHasException_def has_scheduled_exception_def Let_def
      ClearPendingExceptionAndMessage_def clear_pending_message_obj_def clear_pending_exception_def clear_scheduled_exception_def
      hasExternalTryCatch_def SetTerminationOnExternalTryCatch_def modify_tc_def load_tc_def exc_inv_def)
  then show "\<exists>u v. Script_Run obj undef None execute this w = Inr (None, u) \<and> keeps {} w u \<and> scheduled_exception u = e \<and>
      (isCatchableByJavascript state \<longrightarrow> ThrowErrorIfHasException obj state u = Inr (Some e, v))"
    using c u assms(12) by (auto simp: Script_Run_def IsExecutionTerminating_def)
qed

text \<open>What compiling a function leaves in the strings and in the source.\<close>

definition shebang_written :: "compile_options \<Rightarrow> source \<Rightarrow> ptr \<Rightarrow> (ptr \<Rightarrow> es_string) \<Rightarrow> function_outcome \<Rightarrow> bool" where
  "shebang_written options src s strs r = (
     fo_strings r = strs(s := (strs s)\<lparr>code_units := commented (code_units (strs s))\<rparr>) \<and>
     fo_source r = (if options = kConsumeCodeCache then src\<lparr>cached_rejected := Some True\<rparr> else src))"

lemma script_handle_exc:
  assumes "exc_inv w" "script \<noteq> 0"
  shows "\<exists>p u. NewLocal_script script w = Inr (p, u) \<and> keeps {} w u \<and> script_of p u = Inr script \<and>
    pending_exception_obj u = pending_exception_obj w \<and> scheduled_exception u = scheduled_exception w"
proof -
  let ?h = "emptyHandle\<lparr>h_type := Script, h_val := script, h_valueType := NoValueType\<rparr>"
  have h: "isValid ?h" "h_location ?h = Local" "get_script ?h = Inr script" "createScript script = Inr ?h"
    using assms(2) by (simp_all add: isValid_def emptyHandle_def get_script_def createScript_def newValueWrap_def)
  have can: "can_handle w" using assms(1) by (simp add: can_handle_def exc_inv_def)
  have "keeps {} w (with_local ?h w)"
    using assms(1) by (auto simp: with_local_def keeps_def exc_inv_def fresh_mem_def map_le_def less_Suc_eq)
  then show ?thesis using NewLocal_handle_eq(1)[OF can h(1,2)] h(3,4)
    by (simp add: NewLocal_script_def script_of_def with_local_def)
qed

text \<open>C40. Compiling a function whose source starts with a shebang makes it a comment for the parser, and writes the
  comment into the string of the caller, whose text has changed afterwards, whether the parser accepts it or not; no other string
  changes, and strings keep their length and width. Cached data is always rejected. What is parsed comes back as a handle of the
  function, and of the script if it was asked for; a parse error is reported at once and not scheduled.\<close>

theorem shebang_overwrites_source:
  fixes w :: "'a exc_scheme" and obj :: "ptr \<Rightarrow> bool" and script_out :: bool
  assumes "exc_inv w" "beyond \<noteq> 35" "beyond \<noteq> 33" "string_of str (source_string src) w = Inr s"
    and "(case resource_name src of None \<Rightarrow> Inr emptyName | Some h \<Rightarrow> string_of str h w) = Inr name"
    and "handle_values arguments w = Inr args" "options = kConsumeCodeCache \<Longrightarrow> cached_rejected src \<noteq> None"
    and "case initializeFunctionScript name args ((strs s)\<lparr>code_units := commented (code_units (strs s))\<rparr>) of
        ParsedFunction script f \<Rightarrow> script \<noteq> 0 \<and> f \<noteq> 0 | FunctionError e \<Rightarrow> e \<noteq> 0"
  defines "compiled \<equiv> CompileFunctionInContext obj str beyond emptyName initializeFunctionScript src arguments options script_out strs w"
  shows "case initializeFunctionScript name args ((strs s)\<lparr>code_units := commented (code_units (strs s))\<rparr>) of
      ParsedFunction script f \<Rightarrow> \<exists>r u h. compiled = Inr (r, u) \<and> keeps {} w u \<and> shebang_written options src s strs r \<and>
        fo_function r = Some h \<and> handleMem u h = Some (js_handle f) \<and>
        (if script_out then \<exists>g. fo_script r = Some g \<and> script_of g u = Inr script else fo_script r = None) \<and>
        pending_exception_obj u = pending_exception_obj w \<and> scheduled_exception u = scheduled_exception w
    | FunctionError e \<Rightarrow> if api_object obj w e then compiled = Inl CheckFailed
        else \<exists>r u. compiled = Inr (r, u) \<and> keeps {} w u \<and> shebang_written options src s strs r \<and>
          fo_function r = None \<and> fo_script r = None \<and> reported e w u"
proof -
  let ?src = "if options = kConsumeCodeCache then src\<lparr>cached_rejected := Some True\<rparr> else src"
  let ?s = "(strs s)\<lparr>code_units := commented (code_units (strs s))\<rparr>"
  have r: "reject_cache options src = Inr ?src" "source_string ?src = source_string src" "resource_name ?src = resource_name src"
    using assms(7) by (auto simp: reject_cache_def)
  have n: "(case resource_name ?src of None \<Rightarrow> Inr emptyName | Some h \<Rightarrow> string_of str h w) = Inr name"
    using assms(5) r(3) by simp
  note c = CompileFunctionInContext_def[of obj str beyond emptyName initializeFunctionScript src arguments options script_out strs w]
  have e: "compiled = (case initializeFunctionScript name args ?s of
         FunctionError e \<Rightarrow> rbind (report_parse_error obj e w) (\<lambda>w.
           Inr (\<lparr>fo_function = None, fo_script = None, fo_source = ?src, fo_strings = strs(s := ?s)\<rparr>, w))
       | ParsedFunction script f \<Rightarrow> rbind (if script_out then some_local (NewLocal_script script w) else Inr (None, w))
           (\<lambda>(out, w). rbind (NewLocal f w) (\<lambda>(h, w).
            Inr (\<lparr>fo_function = Some h, fo_script = out, fo_source = ?src, fo_strings = strs(s := ?s)\<rparr>, w))))"
    unfolding compiled_def c
    by (simp add: IsExecutionTerminating_def r(1) r(2) n assms(4,6) handleShebang_eq[OF assms(2,3)] Let_def del: option.case)
  show ?thesis
  proof (cases "initializeFunctionScript name args ?s")
    case (FunctionError x)
    then have x: "x \<noteq> 0" using assms(8) by simp
    show ?thesis using report_parse_error_runs[OF assms(1) x, of obj] FunctionError e
      by (auto simp: shebang_written_def split: if_splits)
  next
    case (ParsedFunction script f)
    then have z: "script \<noteq> 0" "f \<noteq> 0" using assms(8) by simp_all
    obtain out u where u: "(if script_out then some_local (NewLocal_script script w) else Inr (None, w)) = Inr (out, u)" "keeps {} w u"
      "if script_out then \<exists>g. out = Some g \<and> script_of g u = Inr script else out = None"
      "pending_exception_obj u = pending_exception_obj w" "scheduled_exception u = scheduled_exception w"
      using script_handle_exc[OF assms(1) z(1)] keeps_refl[OF assms(1)] by (cases script_out) (auto simp: some_local_def)
    obtain p v where v: "NewLocal f u = Inr (p, v)" "memory_grows u v" "handleMem v p = Some (js_handle f)"
      using NewLocal_exc[OF keeps_inv[OF u(2)] z(2)] by blast
    have "script_of g v = Inr script" if "script_of g u = Inr script" for g
      using that memory_grows_mem[OF v(2), of g] by (auto simp: script_of_def split: option.splits)
    then show ?thesis using ParsedFunction e u v memory_grows_fields(3,4)[OF v(2)]
        keeps_trans[OF u(2) memory_grows_keeps[OF keeps_inv[OF u(2)] v(2)]]
      by (auto simp: shebang_written_def split: if_splits)
  qed
qed

text \<open>Compiling parses twice: once without a context, once for the context the script is to run in. What is
  compiled is the same script; a source that is a module, and no script, passes the first and aborts the process at
  the second, as do all sources that parse only as modules.\<close>

theorem compile_parses_twice:
  fixes w :: "'a exc_scheme"
  assumes "can_handle w" "s_currentIsolate w = iso_self w" "string_of str (source_string src) w = Inr s" "resource_name src = None"
    and "initializeScript s emptyName (is_module src) = Parsed script" "script \<noteq> 0" "codeOf script = s" "srcOf script = emptyName"
  shows "(initializeScript s emptyName False = Parsed script' \<and> script' \<noteq> 0 \<longrightarrow>
      (\<exists>h u. ScriptCompiler_Compile obj str emptyName initializeScript codeOf srcOf cx src w = Inr (Some h, u) \<and>
        script_of h u = Inr script' \<and> contextScopes u = contextScopes w)) \<and>
    (initializeScript s emptyName False = ParseError e \<longrightarrow>
      ScriptCompiler_Compile obj str emptyName initializeScript codeOf srcOf cx src w = Inl CheckFailed)"
proof -
  define h where "h p = emptyHandle\<lparr>h_type := Script, h_val := p, h_valueType := NoValueType\<rparr>" for p
  have h: "isValid (h p)" "h_location (h p) = Local" "get_script (h p) = Inr p" for p
    by (simp_all add: h_def isValid_def emptyHandle_def get_script_def)
  have cs: "createScript p = Inr (h p)" if "p \<noteq> 0" for p using that by (simp add: createScript_def newValueWrap_def h_def)
  let ?w = "with_local (h script) w"
  have n: "NewLocal_handle (Inr (h script)) w = Inr (nextHandle w, ?w)" "can_handle ?w"
    using NewLocal_handle_eq[OF assms(1) h(1,2)] by simp_all
  let ?v = "pushContext cx ?w"
  have v: "can_handle ?v" "script_of (nextHandle w) ?v = Inr script" "GetCurrentContext ?v = Inr cx" "context_Enter cx ?w = Inr ?v"
    using n(2) assms(2) h(3) by (simp_all add: can_handle_def pushContext_def script_of_def GetCurrentContext_def context_Enter_def
        isolate_Enter_def with_local_def)
  have c: "CompileUnboundInternal obj str emptyName initializeScript src w = Inr (Some (nextHandle w), ?w)"
    using assms(3-6) n(1) cs by (simp add: CompileUnboundInternal_def IsExecutionTerminating_def NewLocal_script_def some_local_def)
  have "\<exists>g u. ScriptCompiler_Compile obj str emptyName initializeScript codeOf srcOf cx src w = Inr (Some g, u) \<and>
      script_of g u = Inr script' \<and> contextScopes u = contextScopes w" if p: "initializeScript s emptyName False = Parsed script'" "script' \<noteq> 0"
  proof -
    have "NewLocal_handle (Inr (h script')) ?v = Inr (nextHandle ?v, with_local (h script') ?v)"
      using NewLocal_handle_eq[OF v(1) h(1,2)] by simp
    then show ?thesis using p c v assms(7,8) cs h(3)
      by (simp add: ScriptCompiler_Compile_def BindToCurrentContext_def NewLocal_script_def context_Exit_def popContext_def
          with_local_def pushContext_def script_of_def)
  qed
  then show ?thesis using c v assms(7,8) by (auto simp: ScriptCompiler_Compile_def BindToCurrentContext_def)
qed

section \<open>Witnesses\<close>

definition script_world :: world where
  "script_world = global_world\<lparr>iso_self := 1, nextHandle := 20, handleMem := [7 \<mapsto> js_handle 3, 8 \<mapsto> \<lparr>h_val = 50, h_type = Script,
     h_valueType = NoValueType, h_location = Local\<rparr>]\<rparr>"

lemma script_world_simps [simp]:
  "exc_inv script_world" "exc_inv (script_world\<lparr>callDepth := 1\<rparr>)" "can_handle script_world" "iso_self script_world = 1"
  "s_currentIsolate script_world = 1" "handleMem script_world 7 = Some (js_handle 3)"
  "handleMem script_world 8 = Some \<lparr>h_val = 50, h_type = Script, h_valueType = NoValueType, h_location = Local\<rparr>"
  "scheduled_exception script_world = 0" "pending_exception_obj script_world = 0" "callDepth script_world = 0"
  "try_catch_handler script_world = 0" "contextScopes script_world = [9]" "extraData script_world = [4 \<mapsto> OtherExtraData 1]"
proof -
  show "exc_inv script_world" "exc_inv (script_world\<lparr>callDepth := 1\<rparr>)"
    using global_world_simps(1) by (auto simp: script_world_def exc_inv_def fresh_mem_def)
  show "can_handle script_world" using global_world_simps(2) by (simp add: script_world_def can_handle_def)
qed (simp_all add: script_world_def)

definition text_source :: source where
  "text_source = \<lparr>source_string = 7, resource_name = None, is_module = False, cached_rejected = None\<rparr>"

lemma string_of_3: "string_of (\<lambda>_. True) (source_string text_source) (script_world\<lparr>callDepth := n\<rparr>) = Inr 3"
  by (simp add: string_of_def text_source_def handle_value_def)

theorem script_run_settles_witness:
  "(\<exists>w'. Script_Run (\<lambda>_. True) 41 None (\<lambda>_ w. Inr (Failure 60 [], w)) 8 script_world = Inr (None, w') \<and>
    pending_exception_obj w' = 0 \<and> scheduled_exception w' = 0) \<and>
   Script_Run (\<lambda>_. True) 41 None (\<lambda>_ w. Inr (Failure 4 [], w)) 8 script_world = Inl CheckFailed"
proof -
  have k: "keeps {} script_world script_world" by (rule keeps_refl) simp
  have "if api_object (\<lambda>_. True) script_world e then Script_Run (\<lambda>_. True) 41 None (\<lambda>_ w. Inr (Failure e [], w)) 8 script_world = Inl CheckFailed
    else \<exists>w'. Script_Run (\<lambda>_. True) 41 None (\<lambda>_ w. Inr (Failure e [], w)) 8 script_world = Inr (None, w') \<and> delivered e script_world w'"
    if "e \<noteq> 0" for e
    using script_run_settles[of script_world 8 _ 50 "\<lambda>_ w. Inr (Failure e [], w)" "Failure e []" script_world "{}" Inr script_world "{}" 41 "\<lambda>_. True"]
      k that by (auto simp: get_script_def split: if_splits)
  from this[of 60] this[of 4] show ?thesis by (auto simp: api_object_def delivered_def reported_def)
qed

theorem parse_error_not_thrown_witness:
  "\<exists>u. CompileUnboundInternal (\<lambda>_. True) (\<lambda>_. True) 45 (\<lambda>_ _ _. ParseError 60) text_source (script_world\<lparr>callDepth := 1\<rparr>) = Inr (None, u) \<and>
    scheduled_exception u = 0"
proof -
  let ?w = "script_world\<lparr>callDepth := 1\<rparr>"
  have "\<not> receives ?w" "exc_inv (script_world\<lparr>callDepth := Suc 0\<rparr>)"
    using script_world_simps(2) by (simp_all add: receives_def)
  then show ?thesis
    using parse_error_not_thrown[of ?w 60 "\<lambda>_. True" "\<lambda>_. True" text_source 3 "\<lambda>_ _ _. ParseError 60" 45 8
        "\<lparr>h_val = 50, h_type = Script, h_valueType = NoValueType, h_location = Local\<rparr>" 50 "\<lambda>_ w. Inr (Failure 60 [], w)"
        "[]" 41] string_of_3[of 1]
    by (auto simp: text_source_def get_script_def reported_def api_object_def)
qed

theorem shebang_overwrites_source_witness:
  "\<exists>r u. CompileFunctionInContext (\<lambda>_. True) (\<lambda>_. True) 0 45 (\<lambda>_ _ s. if code_units s = [47, 47, 120] then ParsedFunction 51 52 else FunctionError 60)
     text_source [7] kEagerCompile True (\<lambda>_. \<lparr>has8BitContent = True, code_units = [35, 33, 120]\<rparr>) script_world = Inr (r, u) \<and>
    code_units (fo_strings r 3) = [47, 47, 120] \<and> fo_script r \<noteq> None"
  using shebang_overwrites_source[where w = script_world and beyond = 0 and str = "\<lambda>_. True" and src = text_source and s = 3 and
      emptyName = 45 and name = 45 and arguments = "[7]" and args = "[3]" and script_out = True and options = kEagerCompile and
      obj = "\<lambda>_. True" and strs = "\<lambda>_. \<lparr>has8BitContent = True, code_units = [35, 33, 120]\<rparr>" and
      initializeFunctionScript = "\<lambda>_ _ s. if code_units s = [47, 47, 120] then ParsedFunction 51 52 else FunctionError 60"]
  by (auto simp: string_of_def handle_value_def text_source_def shebang_written_def)

theorem compile_parses_twice_witness:
  "ScriptCompiler_Compile (\<lambda>_. True) (\<lambda>_. True) 45 (\<lambda>_ _ m. if m then Parsed 50 else ParseError 60) (\<lambda>_. 3) (\<lambda>_. 45) 9
     (text_source\<lparr>is_module := True\<rparr>) script_world = Inl CheckFailed"
  using compile_parses_twice[where w = script_world and str = "\<lambda>_. True" and src = "text_source\<lparr>is_module := True\<rparr>" and s = 3 and
      emptyName = 45 and script = 50 and codeOf = "\<lambda>_. 3" and srcOf = "\<lambda>_. 45" and e = 60 and cx = 9 and obj = "\<lambda>_. True" and
      initializeScript = "\<lambda>_ _ m. if m then Parsed 50 else ParseError 60"]
  by (simp add: string_of_def handle_value_def text_source_def)

end
