(* ===== verification/Utf8.thy ===== *)
theory Utf8
  imports Prelude
begin

text \<open>
  Conversion of UTF-8 text to Latin-1: \<^verbatim>\<open>UTF8Sequence\<close> of
  \<^verbatim>\<open>src/src/api/utils/string-util.h\<close> and \<^verbatim>\<open>string-util.cc\<close>. Memory is the list of
  the bytes that may be read; a pointer into it is an index.
\<close>

unbundle bit_operations_syntax

type_synonym octet = "8 word"

definition isASCII :: "octet \<Rightarrow> bool" where
  "isASCII character = ((ucast character :: 16 word) AND NOT 0x7F = 0)"

definition getLengthNonASCII :: "octet \<Rightarrow> nat" where
  "getLengthNonASCII byte = (if byte AND 0xC0 \<noteq> 0xC0 then 0
     else if byte AND 0xE0 = 0xC0 then 2
     else if byte AND 0xF0 = 0xE0 then 3
     else if byte AND 0xF8 = 0xF0 then 4
     else 0)"

definition getLength :: "octet \<Rightarrow> nat" where
  "getLength byte = (if isASCII byte then 1 else getLengthNonASCII byte)"

definition s_offsetsFromUTF8 :: "32 word list" where
  "s_offsetsFromUTF8 = [0x00000000, 0x00003080, 0x000E2080, 0x03C82080, 0xFA082080, 0x82082080]"

text \<open>The cases of the switch fall through from \<open>n\<close> down to one.\<close>

fun read_cases :: "octet list \<Rightarrow> nat \<Rightarrow> nat \<Rightarrow> 32 word \<Rightarrow> (32 word \<times> nat) res" where
  "read_cases mem 0 pos character = Inr (character, pos)"
| "read_cases mem (Suc n) pos character = guard OutOfBounds (pos < length mem)
     (let character = character + ucast (mem ! pos) in
      read_cases mem n (pos + 1) (if n = 0 then character else push_bit 6 character))"

definition utf8_read :: "octet list \<Rightarrow> nat \<Rightarrow> nat \<Rightarrow> (32 word \<times> nat) res" where
  "utf8_read mem pos n = rbind (read_cases mem n pos 0) (\<lambda>(character, pos).
     guard OutOfBounds (0 < n \<and> n \<le> length s_offsetsFromUTF8)
       (Inr (character - s_offsetsFromUTF8 ! (n - 1), pos)))"

lemma read_cases_pos: "read_cases mem n pos c = Inr (d, p) \<Longrightarrow> p = pos + n"
proof (induction n arbitrary: pos c)
  case (Suc n)
  have "read_cases mem n (pos + 1) (if n = 0 then c + ucast (mem ! pos) else push_bit 6 (c + ucast (mem ! pos))) = Inr (d, p)"
    using Suc.prems by (simp add: guard_eq_Inr Let_def)
  from Suc.IH[OF this] show ?case by simp
qed simp

lemma utf8_read_pos: "utf8_read mem pos n = Inr (c, p) \<Longrightarrow> p = pos + n \<and> 0 < n"
  by (auto simp: utf8_read_def rbind_eq_Inr guard_eq_Inr dest: read_cases_pos)

function convertUTF8ToLatin1 :: "octet list \<Rightarrow> nat \<Rightarrow> nat \<Rightarrow> octet list \<Rightarrow> (bool \<times> octet list) res" where
  "convertUTF8ToLatin1 mem sequence endSequence oneByteString =
     (if sequence < endSequence then guard OutOfBounds (sequence < length mem)
        (case utf8_read mem sequence (getLength (mem ! sequence)) of
           Inl e \<Rightarrow> Inl e
         | Inr (character, p) \<Rightarrow> if character > 255 then Inr (False, oneByteString)
             else convertUTF8ToLatin1 mem p endSequence (oneByteString @ [ucast character]))
      else Inr (True, oneByteString))"
  by pat_completeness auto
termination
  by (relation "measure (\<lambda>(mem, s, e, _). e - s)") (auto dest!: utf8_read_pos)

section \<open>Characters\<close>

text \<open>The UTF-8 encoding of a character.\<close>

definition octet_of :: "nat \<Rightarrow> octet" where
  "octet_of n = word_of_nat n"

definition utf8_char :: "nat \<Rightarrow> octet list" where
  "utf8_char c = (if c < 0x80 then [octet_of c]
     else if c < 0x800 then [octet_of (0xC0 + c div 64), octet_of (0x80 + c mod 64)]
     else if c < 0x10000 then [octet_of (0xE0 + c div 4096), octet_of (0x80 + c div 64 mod 64), octet_of (0x80 + c mod 64)]
     else [octet_of (0xF0 + c div 262144), octet_of (0x80 + c div 4096 mod 64), octet_of (0x80 + c div 64 mod 64),
       octet_of (0x80 + c mod 64)])"

lemma getLength_table:
  "list_all (\<lambda>n. getLength (octet_of n) = (if n < 128 then 1 else if n < 192 then 0 else if n < 224 then 2 else if n < 240 then 3
     else if n < 248 then 4 else 0)) [0..<256]"
  by code_simp

lemma getLength_octet:
  "n < 256 \<Longrightarrow> getLength (octet_of n) = (if n < 128 then 1 else if n < 192 then 0 else if n < 224 then 2 else if n < 240 then 3
     else if n < 248 then 4 else 0)"
  using getLength_table by (simp add: list_all_iff)

lemma ucast_octet: "n < 256 \<Longrightarrow> ucast (octet_of n) = (word_of_nat n :: 32 word)"
  by (simp add: octet_of_def unsigned_of_nat take_bit_nat_eq_self)

lemma utf8_char_length: "c < 0x110000 \<Longrightarrow> getLength (hd (utf8_char c)) = length (utf8_char c)"
  by (auto simp: utf8_char_def getLength_octet)

lemma word_sub_nat: "n = c + k \<Longrightarrow> (word_of_nat n :: 32 word) - word_of_nat k = word_of_nat c"
  by simp

text \<open>Reading at a character gives the character.\<close>

definition folded :: "nat list \<Rightarrow> nat" where
  "folded ns = foldl (\<lambda>a n. a * 64 + n) 0 ns"

lemma read_cases_octets:
  assumes "ns \<noteq> []" "\<forall>n \<in> set ns. n < 256" "mem = pre @ map octet_of ns @ post"
  shows "read_cases mem (length ns) (length pre) (word_of_nat a * 64) =
    Inr (word_of_nat (foldl (\<lambda>a n. a * 64 + n) a ns), length pre + length ns)"
  using assms
proof (induction ns arbitrary: pre a)
  case (Cons n ns)
  have m: "mem ! length pre = octet_of n" "length pre < length mem" using Cons.prems(3) by (simp_all add: nth_append)
  have c: "word_of_nat a * 64 + ucast (octet_of n) = (word_of_nat (a * 64 + n) :: 32 word)" using Cons.prems(2) by (simp add: ucast_octet)
  show ?case
  proof (cases "ns = []")
    case True
    then show ?thesis using m c by simp
  next
    case False
    have "read_cases mem (length ns) (length (pre @ [octet_of n])) (word_of_nat (a * 64 + n) * 64) =
      Inr (word_of_nat (foldl (\<lambda>a n. a * 64 + n) (a * 64 + n) ns), length (pre @ [octet_of n]) + length ns)"
      by (rule Cons.IH) (use Cons.prems False in auto)
    moreover have "push_bit 6 w = w * 64" for w :: "32 word" by (simp add: push_bit_eq_mult)
    ultimately show ?thesis using m c False by (simp add: Let_def del: of_nat_add of_nat_mult)
  qed
qed simp

lemma digits:
  fixes c :: nat
  shows "c div 64 * 64 + c mod 64 = c"
    and "c div 4096 * 4096 + c div 64 mod 64 * 64 + c mod 64 = c"
    and "c div 262144 * 262144 + c div 4096 mod 64 * 4096 + c div 64 mod 64 * 64 + c mod 64 = c"
proof -
  show 1: "c div 64 * 64 + c mod 64 = c" by simp
  have "c div 64 div 64 * 64 + c div 64 mod 64 = c div 64" by (rule div_mult_mod_eq)
  moreover have "c div 64 div 64 = c div 4096" by (simp add: div_mult2_eq[symmetric])
  ultimately show 2: "c div 4096 * 4096 + c div 64 mod 64 * 64 + c mod 64 = c" using 1 by linarith
  have "c div 4096 div 64 * 64 + c div 4096 mod 64 = c div 4096" by (rule div_mult_mod_eq)
  moreover have "c div 4096 div 64 = c div 262144" by (simp add: div_mult2_eq[symmetric])
  ultimately show "c div 262144 * 262144 + c div 4096 mod 64 * 4096 + c div 64 mod 64 * 64 + c mod 64 = c" using 2 by linarith
qed

definition digits_of :: "nat \<Rightarrow> nat list" where
  "digits_of c = (if c < 0x80 then [c]
     else if c < 0x800 then [0xC0 + c div 64, 0x80 + c mod 64]
     else if c < 0x10000 then [0xE0 + c div 4096, 0x80 + c div 64 mod 64, 0x80 + c mod 64]
     else [0xF0 + c div 262144, 0x80 + c div 4096 mod 64, 0x80 + c div 64 mod 64, 0x80 + c mod 64])"

lemma utf8_char_digits: "utf8_char c = map octet_of (digits_of c)"
  by (simp add: utf8_char_def digits_of_def)

lemma digits_of_props:
  assumes "c < 0x110000"
  shows "digits_of c \<noteq> []" "\<forall>n \<in> set (digits_of c). n < 256"
    "(word_of_nat (foldl (\<lambda>a n. a * 64 + n) 0 (digits_of c)) :: 32 word) - s_offsetsFromUTF8 ! (length (digits_of c) - 1) = word_of_nat c"
    "length (digits_of c) \<le> 4"
proof -
  show "digits_of c \<noteq> []" "length (digits_of c) \<le> 4" by (simp_all add: digits_of_def)
  show "\<forall>n \<in> set (digits_of c). n < 256" using assms by (auto simp: digits_of_def)
  consider "c < 0x80" | "0x80 \<le> c" "c < 0x800" | "0x800 \<le> c" "c < 0x10000" | "0x10000 \<le> c" by linarith
  then show "(word_of_nat (foldl (\<lambda>a n. a * 64 + n) 0 (digits_of c)) :: 32 word) - s_offsetsFromUTF8 ! (length (digits_of c) - 1) = word_of_nat c"
  proof cases
    case 2
    have "(0xC0 + c div 64) * 64 + (0x80 + c mod 64) = c + 0x3080" using digits(1)[of c] by (simp add: algebra_simps)
    then show ?thesis using 2 by (simp add: digits_of_def s_offsetsFromUTF8_def del: of_nat_add of_nat_mult) simp
  next
    case 3
    have "((0xE0 + c div 4096) * 64 + (0x80 + c div 64 mod 64)) * 64 + (0x80 + c mod 64) = c + 0xE2080" using digits(2)[of c] by (simp add: algebra_simps)
    then show ?thesis using 3 by (simp add: digits_of_def s_offsetsFromUTF8_def del: of_nat_add of_nat_mult) simp
  next
    case 4
    have "(((0xF0 + c div 262144) * 64 + (0x80 + c div 4096 mod 64)) * 64 + (0x80 + c div 64 mod 64)) * 64 + (0x80 + c mod 64) = c + 0x3C82080"
      using digits(3)[of c] by (simp add: algebra_simps)
    then show ?thesis using 4 by (simp add: digits_of_def s_offsetsFromUTF8_def del: of_nat_add of_nat_mult) simp
  qed (simp add: digits_of_def s_offsetsFromUTF8_def)
qed

lemma utf8_read_char:
  assumes "c < 0x110000"
  shows "utf8_read (pre @ utf8_char c @ post) (length pre) (length (utf8_char c)) = Inr (word_of_nat c, length pre + length (utf8_char c))"
proof -
  note p = digits_of_props[OF assms]
  have "read_cases (pre @ utf8_char c @ post) (length (digits_of c)) (length pre) (word_of_nat 0 * 64) =
      Inr (word_of_nat (foldl (\<lambda>a n. a * 64 + n) 0 (digits_of c)), length pre + length (digits_of c))"
    by (rule read_cases_octets[OF p(1,2)]) (simp add: utf8_char_digits)
  moreover have "0 < length (digits_of c)" "length (digits_of c) \<le> length s_offsetsFromUTF8"
    using p(1,4) by (simp_all add: s_offsetsFromUTF8_def)
  ultimately show ?thesis using p(3) by (simp add: utf8_read_def utf8_char_digits)
qed

definition utf8_text :: "nat list \<Rightarrow> octet list" where
  "utf8_text cs = concat (map utf8_char cs)"

lemma octet_of_char: "c < 256 \<Longrightarrow> ucast (word_of_nat c :: 32 word) = octet_of c"
  by (simp add: octet_of_def unsigned_of_nat take_bit_nat_eq_self)

lemma char_gt: "c < 0x110000 \<Longrightarrow> (word_of_nat c :: 32 word) > 255 \<longleftrightarrow> c > 255"
  by (simp add: word_less_nat_alt unat_of_nat)

lemma convert_char:
  assumes "c < 0x110000" "e > length pre"
  shows "convertUTF8ToLatin1 (pre @ utf8_char c @ post) (length pre) e acc =
    (if c > 255 then Inr (False, acc)
     else convertUTF8ToLatin1 (pre @ utf8_char c @ post) (length pre + length (utf8_char c)) e (acc @ [octet_of c]))"
proof -
  obtain b bs where b: "utf8_char c = b # bs" by (cases "utf8_char c") (auto simp: utf8_char_def split: if_splits)
  have "(pre @ utf8_char c @ post) ! length pre = hd (utf8_char c)" by (simp add: b)
  then have r: "utf8_read (pre @ utf8_char c @ post) (length pre) (getLength ((pre @ utf8_char c @ post) ! length pre)) =
      Inr (word_of_nat c, length pre + length (utf8_char c))"
    using utf8_read_char[OF assms(1)] utf8_char_length[OF assms(1)] by simp
  show ?thesis
    by (subst convertUTF8ToLatin1.simps)
      (use r assms b char_gt[OF assms(1)] octet_of_char[of c] in \<open>auto simp del: convertUTF8ToLatin1.simps\<close>)
qed

lemma convert_text:
  assumes "\<forall>c \<in> set cs. c < 0x110000" "e = length pre + length (utf8_text cs) + k"
  shows "convertUTF8ToLatin1 (pre @ utf8_text cs @ rest) (length pre) e acc =
    (if \<forall>c \<in> set cs. c < 256 then convertUTF8ToLatin1 (pre @ utf8_text cs @ rest) (length (pre @ utf8_text cs)) e (acc @ map octet_of cs)
     else Inr (False, acc @ map octet_of (takeWhile (\<lambda>c. c < 256) cs)))"
  using assms
proof (induction cs arbitrary: pre acc)
  case Nil
  then show ?case by (simp add: utf8_text_def)
next
  case (Cons c cs)
  have c: "c < 0x110000" using Cons.prems by simp
  have "utf8_char c \<noteq> []" by (simp add: utf8_char_def)
  then have "e > length pre" using Cons.prems(2) by (simp add: utf8_text_def)
  note step = convert_char[OF c this, of "utf8_text cs @ rest" acc]
  have "pre @ utf8_text (c # cs) @ rest = pre @ utf8_char c @ utf8_text cs @ rest" by (simp add: utf8_text_def)
  then show ?case
    using step Cons.IH[of "pre @ utf8_char c" "acc @ [octet_of c]"] Cons.prems
    by (auto simp: utf8_text_def simp del: convertUTF8ToLatin1.simps)
qed

section \<open>Text with a bad byte at its end\<close>

text \<open>What the conversion makes of one byte \<open>b\<close> behind Latin-1 text, when only the terminator follows: a byte that
  starts no character makes it read before the table of offsets, a byte that starts a longer character makes it read
  on behind the terminator, and the terminator is taken for the second byte of a character of two.\<close>

lemma list_all_upt: "list_all P [a..<b] \<Longrightarrow> a \<le> n \<Longrightarrow> n < b \<Longrightarrow> P n"
  by (simp add: list_all_iff)

lemma lead_of_two:
  "list_all (\<lambda>b. push_bit 6 (ucast (octet_of b) :: 32 word) - 0x3080 =
       (if 0xC2 \<le> b \<and> b < 0xC6 then word_of_nat ((b - 0xC2) * 64) else push_bit 6 (ucast (octet_of b)) - 0x3080) \<and>
     ((push_bit 6 (ucast (octet_of b) :: 32 word) - 0x3080 > 255) = (\<not> (0xC2 \<le> b \<and> b < 0xC6)))) [0xC0..<0xE0]"
  by code_simp

lemma convert_bad_end:
  assumes "\<forall>c \<in> set cs. c < 256" "128 \<le> b" "b < 256"
  shows "convertUTF8ToLatin1 (utf8_text cs @ [octet_of b, 0]) 0 (Suc (length (utf8_text cs))) [] =
    (if 0xC2 \<le> b \<and> b < 0xC6 then Inr (True, map octet_of (cs @ [(b - 0xC2) * 64]))
     else if 0xC0 \<le> b \<and> b < 0xE0 then Inr (False, map octet_of cs) else Inl OutOfBounds)"
proof -
  let ?t = "utf8_text cs" let ?mem = "?t @ [octet_of b, 0]" let ?n = "length ?t"
  have "\<forall>c \<in> set cs. c < 0x110000" using assms(1) by auto
  then have start: "convertUTF8ToLatin1 ?mem 0 (Suc ?n) [] = convertUTF8ToLatin1 ?mem ?n (Suc ?n) (map octet_of cs)"
    using convert_text[of cs "Suc ?n" "[]" 1 "[octet_of b, 0]" "[]"] assms(1) by (simp del: convertUTF8ToLatin1.simps)
  have stop: "convertUTF8ToLatin1 ?mem (Suc (Suc ?n)) (Suc ?n) acc = Inr (True, acc)" for acc
    by (subst convertUTF8ToLatin1.simps) simp
  have at: "?mem ! ?n = octet_of b" "?mem ! Suc ?n = 0" by (simp_all add: nth_append)
  consider "b < 0xC0 \<or> 0xE0 \<le> b" | "0xC0 \<le> b" "b < 0xE0" by linarith
  then have "convertUTF8ToLatin1 ?mem ?n (Suc ?n) (map octet_of cs) =
    (if 0xC2 \<le> b \<and> b < 0xC6 then Inr (True, map octet_of (cs @ [(b - 0xC2) * 64]))
     else if 0xC0 \<le> b \<and> b < 0xE0 then Inr (False, map octet_of cs) else Inl OutOfBounds)"
  proof cases
    case 1
    then have "getLength (octet_of b) \<in> {0, 3, 4}" using assms(2,3) by (auto simp: getLength_octet)
    then have "utf8_read ?mem ?n (getLength (?mem ! ?n)) = Inl OutOfBounds"
      using at by (auto simp: utf8_read_def numeral_eq_Suc)
    then show ?thesis using 1 by (subst convertUTF8ToLatin1.simps) (auto simp del: convertUTF8ToLatin1.simps)
  next
    case 2
    let ?c = "push_bit 6 (ucast (octet_of b) :: 32 word) - 0x3080"
    have "getLength (octet_of b) = 2" using 2 by (simp add: getLength_octet)
    then have r: "utf8_read ?mem ?n (getLength (?mem ! ?n)) = Inr (?c, Suc (Suc ?n))"
      using at by (simp add: utf8_read_def numeral_2_eq_2 s_offsetsFromUTF8_def)
    have t: "0xC2 \<le> b \<Longrightarrow> b < 0xC6 \<Longrightarrow> ?c = word_of_nat ((b - 0xC2) * 64)" "(?c > 255) = (\<not> (0xC2 \<le> b \<and> b < 0xC6))"
      using list_all_upt[OF lead_of_two 2] by auto
    have "(b - 0xC2) * 64 < 256" if "b < 0xC6" using that by linarith
    then have o: "b < 0xC6 \<Longrightarrow> ucast (word_of_nat ((b - 0xC2) * 64) :: 32 word) = octet_of ((b - 0xC2) * 64)"
      by (rule octet_of_char)
    show ?thesis
    proof (cases "0xC2 \<le> b \<and> b < 0xC6")
      case True
      then show ?thesis using 2 r t o stop by (subst convertUTF8ToLatin1.simps) (simp del: convertUTF8ToLatin1.simps of_nat_mult)
    next
      case False
      then show ?thesis using 2 r t by (subst convertUTF8ToLatin1.simps) (simp del: convertUTF8ToLatin1.simps)
    qed
  qed
  then show ?thesis using start by simp
qed

section \<open>Properties\<close>

text \<open>Well-formed UTF-8 is converted as it should be: text of Latin-1 characters becomes those characters, text
  with a character beyond them is refused, and nothing outside of the text is read.\<close>

theorem utf8_text_to_latin1:
  assumes "\<forall>c \<in> set cs. c < 0x110000"
  shows "convertUTF8ToLatin1 (utf8_text cs) 0 (length (utf8_text cs)) [] =
    (if \<forall>c \<in> set cs. c < 256 then Inr (True, map octet_of cs)
     else Inr (False, map octet_of (takeWhile (\<lambda>c. c < 256) cs)))"
  using convert_text[OF assms, of _ "[]" 0 "[]" "[]"] by (auto simp: convertUTF8ToLatin1.simps[of _ "length _"])

theorem utf8_text_to_latin1_witness:
  "convertUTF8ToLatin1 (utf8_text [0x61, 0xE9]) 0 (length (utf8_text [0x61, 0xE9])) [] = Inr (True, [octet_of 0x61, octet_of 0xE9]) \<and>
   convertUTF8ToLatin1 (utf8_text [0x61, 0x20AC]) 0 (length (utf8_text [0x61, 0x20AC])) [] = Inr (False, [octet_of 0x61])"
  using utf8_text_to_latin1[of "[0x61, 0xE9]"] utf8_text_to_latin1[of "[0x61, 0x20AC]"]
  by (simp del: convertUTF8ToLatin1.simps)

end
