(* ===== verification/Strings.thy ===== *)
theory Strings
  imports Utf8 Scripts
begin

text \<open>
  Strings of the API: what is copied out of a string of the engine into a buffer of the caller, and what strings are
  made of the memory of the caller. \<^verbatim>\<open>src/src/api-data.cc\<close> (\<^verbatim>\<open>String::Write\<close> and its
  relatives), \<^verbatim>\<open>src/src/api-environment.cc\<close> (\<^verbatim>\<open>String::NewFrom...\<close>,
  \<^verbatim>\<open>Concat\<close>, \<^verbatim>\<open>Utf8Value\<close>, \<^verbatim>\<open>Value\<close>).

  The operations are stated on the string that the handle holds, and give the string that the code makes a
  handle of. A pointer to memory of the caller is the list of the cells that may be accessed behind it; an access out of
  it is the fault \<open>OutOfBounds\<close>. The conversions of the engine between its strings and UTF-8, Latin-1 and UTF-16 are
  arguments.
\<close>

unbundle bit_operations_syntax

section \<open>Integers and memory\<close>

definition kMaxStringLength :: int where
  "kMaxStringLength = 2 ^ 29 - 24"

definition NO_NULL_TERMINATION :: "32 word" where
  "NO_NULL_TERMINATION = 2"

definition int_of_size :: "nat \<Rightarrow> int" where
  "int_of_size n = sint (word_of_nat n :: 32 word)"

definition size_of_int :: "int \<Rightarrow> nat" where
  "size_of_int i = nat (i mod 2 ^ 64)"

definition memcpy :: "'c list \<Rightarrow> nat \<Rightarrow> 'c list \<Rightarrow> nat \<Rightarrow> 'c list res" where
  "memcpy dest d src n = guard OutOfBounds (n \<le> length src \<and> d + n \<le> length dest) (Inr (overwrite d (take n src) dest))"

definition put_cell :: "int \<Rightarrow> 'c \<Rightarrow> 'c list \<Rightarrow> 'c list res" where
  "put_cell i c buffer = guard OutOfBounds (0 \<le> i \<and> nat i < length buffer) (Inr (buffer[nat i := c]))"

text \<open>What a string keeps in memory: its bytes, little endian if it has two-byte units.\<close>

definition unit_of :: "nat \<Rightarrow> 16 word" where
  "unit_of n = word_of_nat n"

definition two_bytes :: "nat list \<Rightarrow> octet list" where
  "two_bytes us = concat (map (\<lambda>u. [octet_of (u mod 256), octet_of (u div 256)]) us)"

definition string_bytes :: "es_string \<Rightarrow> octet list" where
  "string_bytes s = (if has8BitContent s then map octet_of (code_units s) else two_bytes (code_units s))"

definition isAsciiString :: "es_string \<Rightarrow> bool" where
  "isAsciiString s = (has8BitContent s \<and> list_all (\<lambda>c. c \<le> 127) (code_units s))"

section \<open>UTF-8 out of a string\<close>

definition Utf8Length :: "(es_string \<Rightarrow> 32 word \<Rightarrow> octet list) \<Rightarrow> es_string \<Rightarrow> int" where
  "Utf8Length toStdUTF8String s = (if isAsciiString s then int_of_size (length (code_units s))
     else int_of_size (length (toStdUTF8String s 0)))"

definition readAUtf8Sequence :: "octet list \<Rightarrow> nat \<Rightarrow> nat \<Rightarrow> int res" where
  "readAUtf8Sequence mem start end = guard OutOfBounds (start < length mem)
     (let byte1 = mem ! start in
      if byte1 AND 0x80 = 0 then Inr 1
      else if \<not> start + 1 < end then Inr (- 1)
      else guard OutOfBounds (start + 1 < length mem)
     (let byte2 = mem ! (start + 1) in
      if byte1 AND 0xE0 = 0xC0 \<and> byte2 AND 0xC0 = 0x80 then Inr 2
      else if \<not> start + 2 < end then Inr (- 1)
      else guard OutOfBounds (start + 2 < length mem)
     (let byte3 = mem ! (start + 2) in
      if byte1 AND 0xF0 = 0xE0 \<and> byte2 AND 0xC0 = 0x80 \<and> byte3 AND 0xC0 = 0x80 then Inr 3
      else if \<not> start + 3 < end then Inr (- 1)
      else guard OutOfBounds (start + 3 < length mem)
     (let byte4 = mem ! (start + 3) in
      if byte1 AND 0xF8 = 0xF0 \<and> byte2 AND 0xC0 = 0x80 \<and> byte3 AND 0xC0 = 0x80 \<and> byte4 AND 0xC0 = 0x80 then Inr 4
      else Inr (- 1)))))"

lemma readAUtf8Sequence_range: "readAUtf8Sequence mem s e = Inr n \<Longrightarrow> n = - 1 \<or> 1 \<le> n \<and> n \<le> 4"
  by (auto simp: readAUtf8Sequence_def Let_def guard_eq_Inr split: if_splits)

text \<open>The two pointers and the three counters of the loop.\<close>

record utf8_copy =
  copy_s :: nat
  copy_d :: nat
  copy_i :: int
  copy_nchars :: int
  copy_nbytes :: int

function copy_loop :: "octet list \<Rightarrow> int \<Rightarrow> utf8_copy \<Rightarrow> octet list \<Rightarrow> (utf8_copy \<times> octet list) res" where
  "copy_loop source maxBytes c dest =
     (if copy_i c < maxBytes then
        case readAUtf8Sequence source (copy_s c) (nat maxBytes) of
          Inl e \<Rightarrow> Inl e
        | Inr n \<Rightarrow> if 0 < n then
            case memcpy dest (copy_d c) (drop (copy_s c) source) (nat n) of
              Inl e \<Rightarrow> Inl e
            | Inr dest \<Rightarrow> copy_loop source maxBytes
                \<lparr>copy_s = copy_s c + nat n, copy_d = copy_d c + nat n, copy_i = copy_i c + n,
                 copy_nchars = copy_nchars c + 1, copy_nbytes = copy_nbytes c + n\<rparr> dest
          else Inr (c, dest)
      else Inr (c, dest))"
  by pat_completeness auto
termination
  by (relation "measure (\<lambda>(source, maxBytes, c, dest). nat (maxBytes - copy_i c))") auto

declare copy_loop.simps [simp del]

definition copyUtf8Sequences :: "octet list \<Rightarrow> octet list \<Rightarrow> int \<Rightarrow> int \<Rightarrow> int \<Rightarrow> (int \<times> int \<times> octet list) res" where
  "copyUtf8Sequences dest source maxBytes nchars nbytes =
     rbind (copy_loop source maxBytes \<lparr>copy_s = 0, copy_d = 0, copy_i = 0, copy_nchars = nchars, copy_nbytes = nbytes\<rparr> dest)
       (\<lambda>(c, dest). Inr (copy_nchars c, copy_nbytes c, dest))"

text \<open>The result is the number of bytes, the number of characters and the buffer.\<close>

definition WriteUtf8 :: "(es_string \<Rightarrow> 32 word \<Rightarrow> octet list) \<Rightarrow> es_string \<Rightarrow> octet list \<Rightarrow> int \<Rightarrow> 32 word \<Rightarrow>
    (int \<times> int \<times> octet list) res" where
  "WriteUtf8 toStdUTF8String s buffer capacity options =
     (let bufferCapacity = (if 0 \<le> capacity then capacity else kMaxStringLength) in
      let byteLength = int_of_size (if isAsciiString s then length (code_units s) else length (toStdUTF8String s options)) in
      let maxBytes = min bufferCapacity byteLength in
      rbind (if isAsciiString s
             then rbind (memcpy buffer 0 (string_bytes s) (size_of_int maxBytes)) (\<lambda>buffer. Inr (maxBytes, maxBytes, buffer))
             else copyUtf8Sequences buffer (toStdUTF8String s options) maxBytes 0 0) (\<lambda>(nchars, nbytes, buffer).
      if options AND NO_NULL_TERMINATION = 0 \<and> nbytes = byteLength \<and> nbytes < bufferCapacity
      then rbind (put_cell nbytes 0 buffer) (\<lambda>buffer. Inr (nbytes + 1, nchars, buffer))
      else Inr (nbytes, nchars, buffer)))"

section \<open>Code units out of a string\<close>

text \<open>Both operations give the number of units that they copied and the buffer; a null buffer is \<open>None\<close>.
  First the loop of \<^verbatim>\<open>WriteOneByte\<close> for strings with two-byte units.\<close>

function one_byte_loop :: "octet list \<Rightarrow> nat \<Rightarrow> nat \<Rightarrow> nat \<Rightarrow> nat \<Rightarrow> octet list \<Rightarrow> (nat \<times> octet list) res" where
  "one_byte_loop src len bufferCapacity i j buffer =
     (if i < len then
        if j > bufferCapacity then Inr (j, buffer)
        else guard OutOfBounds (i < length src \<and> j < length buffer)
          (one_byte_loop src len bufferCapacity (i + 2) (j + 1) (buffer[j := src ! i]))
      else Inr (j, buffer))"
  by pat_completeness auto
termination
  by (relation "measure (\<lambda>(src, len, cap, i, j, buffer). len - i)") auto

declare one_byte_loop.simps [simp del]

definition terminate_units :: "int \<Rightarrow> int \<Rightarrow> 32 word \<Rightarrow> ('c :: zero) list \<Rightarrow> (int \<times> 'c list) res" where
  "terminate_units nchars bufferCapacity options buffer =
     (if options AND NO_NULL_TERMINATION = 0 \<and> nchars < bufferCapacity
      then rbind (put_cell nchars 0 buffer) (\<lambda>buffer. Inr (nchars, buffer)) else Inr (nchars, buffer))"

definition WriteOneByte :: "(octet list \<Rightarrow> es_string) \<Rightarrow> es_string \<Rightarrow> octet list option \<Rightarrow> int \<Rightarrow> int \<Rightarrow> 32 word \<Rightarrow>
    (int \<times> octet list option) res" where
  "WriteOneByte createFromUTF8 s ref start len options = (case ref of None \<Rightarrow> Inr (0, None) | Some buffer \<Rightarrow>
     if len = 0 then Inr (0, ref)
     else let bufferCapacity = (if 0 < len then len else kMaxStringLength) in
     if \<not> has8BitContent s then
       let toOneByteStr = createFromUTF8 (take (2 * length (code_units s)) (string_bytes s));
           size = length (code_units toOneByteStr) in
       guard UndefinedConversion (- (2 ^ 31) \<le> start * 2 \<and> start * 2 < 2 ^ 31)
       (if size_of_int (start * 2) > size then Inr (0, ref)
        else rbind (one_byte_loop (string_bytes toOneByteStr) size (size_of_int bufferCapacity) (size_of_int (start * 2)) 0 buffer)
          (\<lambda>(j, buffer). rbind (terminate_units (int_of_size j) bufferCapacity options buffer)
          (\<lambda>(nchars, buffer). Inr (nchars, Some buffer))))
     else if size_of_int start > length (code_units s) then Inr (0, ref)
     else let nchars = min (size_of_int bufferCapacity) (sub64 (length (code_units s)) (size_of_int start)) in
       rbind (memcpy buffer 0 (drop (size_of_int start) (string_bytes s)) nchars) (\<lambda>buffer.
       rbind (terminate_units (int_of_size nchars) bufferCapacity options buffer)
         (\<lambda>(nchars, buffer). Inr (nchars, Some buffer))))"

text \<open>The loop over \<open>j\<close> that widens the units, and the copy of two-byte units.\<close>

definition widen_units :: "es_string \<Rightarrow> int \<Rightarrow> int \<Rightarrow> 16 word list \<Rightarrow> 16 word list res" where
  "widen_units s start nchars buffer = rbind (foldM (\<lambda>j (i, buffer).
       guard OutOfBounds (j < length (code_units s))
         (rbind (put_cell i (unit_of (code_units s ! j)) buffer) (\<lambda>buffer. Inr (i + 1, buffer))))
     [nat start..<nat (start + nchars)] (0, buffer)) (\<lambda>(i, buffer). Inr buffer)"

definition Write :: "es_string \<Rightarrow> 16 word list option \<Rightarrow> int \<Rightarrow> int \<Rightarrow> 32 word \<Rightarrow> (int \<times> 16 word list option) res" where
  "Write s ref start len options = (case ref of None \<Rightarrow> Inr (0, None) | Some buffer \<Rightarrow>
     if len = 0 \<or> size_of_int start > length (code_units s) then Inr (0, ref)
     else let bufferCapacity = (if 0 \<le> len then len else kMaxStringLength);
              nchars = min bufferCapacity (int_of_size (length (code_units s)) - start) in
       rbind (if has8BitContent s then widen_units s start nchars buffer
              else memcpy buffer 0 (drop (nat start) (map unit_of (code_units s))) (size_of_int nchars)) (\<lambda>buffer.
       rbind (terminate_units nchars bufferCapacity options buffer) (\<lambda>(nchars, buffer). Inr (nchars, Some buffer))))"

section \<open>Strings out of values\<close>

text \<open>The result of \<^verbatim>\<open>toString\<close> is an argument, \<open>None\<close> if it threw. The members are
  \<^verbatim>\<open>str_\<close> and \<^verbatim>\<open>length_\<close>; \<^verbatim>\<open>new char[n]\<close> has the cells \<open>junk\<close>.\<close>

definition strncpy :: "octet list \<Rightarrow> octet list \<Rightarrow> nat \<Rightarrow> octet list res" where
  "strncpy dest src n = guard OutOfBounds (n \<le> length src \<or> 0 \<in> set src) (guard OutOfBounds (n \<le> length dest)
     (let copied = takeWhile (\<lambda>c. c \<noteq> 0) (take n src) in
      Inr (overwrite 0 (copied @ replicate (n - length copied) 0) dest)))"

definition Utf8Value :: "(es_string \<Rightarrow> 32 word \<Rightarrow> octet list) \<Rightarrow> (nat \<Rightarrow> octet list) \<Rightarrow> es_string option \<Rightarrow>
    (octet list option \<times> int) res" where
  "Utf8Value toStdUTF8String junk r = (case r of None \<Rightarrow> Inr (None, 0) | Some esString \<Rightarrow>
     let str = (if has8BitContent esString then [] else toStdUTF8String esString 0);
         n = int_of_size (if has8BitContent esString then length (code_units esString) else length str) in
     rbind (if has8BitContent esString then strncpy (junk (size_of_int (n + 1))) (string_bytes esString) (size_of_int n)
            else strncpy (junk (size_of_int (n + 1))) (str @ [0]) (size_of_int n)) (\<lambda>buffer.
     rbind (put_cell n 0 buffer) (\<lambda>buffer. Inr (Some buffer, n))))"

definition StringValue :: "(nat \<Rightarrow> 16 word list) \<Rightarrow> es_string option \<Rightarrow> (16 word list option \<times> int) res" where
  "StringValue junk r = (case r of None \<Rightarrow> Inr (None, 0) | Some str \<Rightarrow>
     let n = int_of_size (length (code_units str)) in
     rbind (Write str (Some (junk (size_of_int (n + 1)))) 0 (- 1) 0) (\<lambda>(_, buffer). Inr (buffer, n)))"

section \<open>New strings\<close>

text \<open>\<open>strLength\<close> counts up to the first null; the makers of the engine read \<open>len\<close> cells.\<close>

definition strLength :: "('c :: zero) list \<Rightarrow> int res" where
  "strLength data = guard OutOfBounds (list_ex (\<lambda>c. c = 0) data)
     (let n = length (takeWhile (\<lambda>c. c \<noteq> 0) data) in check (int n \<le> kMaxStringLength) (Inr (int_of_size n)))"

definition read_cells :: "'c list \<Rightarrow> int \<Rightarrow> 'c list res" where
  "read_cells data n = guard OutOfBounds (size_of_int n \<le> length data) (Inr (take (size_of_int n) data))"

definition NewFromUtf8 :: "(octet list \<Rightarrow> es_string) \<Rightarrow> es_string \<Rightarrow> octet list \<Rightarrow> int \<Rightarrow> es_string option res" where
  "NewFromUtf8 createFromUTF8 esEmpty data len =
     (if len = 0 then Inr (Some esEmpty)
      else if len > kMaxStringLength then Inr None
      else rbind (if len < 0 then strLength data else Inr len) (\<lambda>len.
        rbind (read_cells data len) (\<lambda>bytes. Inr (Some (createFromUTF8 bytes)))))"

definition NewFromOneByte :: "(octet list \<Rightarrow> es_string) \<Rightarrow> es_string \<Rightarrow> octet list \<Rightarrow> int \<Rightarrow> es_string option res" where
  "NewFromOneByte createFromLatin1 esEmpty data len =
     (if len = 0 then Inr (Some esEmpty)
      else if len > kMaxStringLength then Inr None
      else rbind (if len < 0 then strLength data else Inr len) (\<lambda>len.
        rbind (read_cells data len) (\<lambda>bytes. Inr (Some (createFromLatin1 bytes)))))"

definition NewFromTwoByte :: "(16 word list \<Rightarrow> es_string) \<Rightarrow> es_string \<Rightarrow> 16 word list \<Rightarrow> int \<Rightarrow> es_string option res" where
  "NewFromTwoByte createFromUTF16 esEmpty data len =
     (if len = 0 then Inr (Some esEmpty)
      else if len > kMaxStringLength then Inr None
      else rbind (if len < 0 then strLength data else Inr len) (\<lambda>len.
        rbind (read_cells data len) (\<lambda>units. Inr (Some (createFromUTF16 units)))))"

definition NewFromUtf8Literal :: "(octet list \<Rightarrow> es_string) \<Rightarrow> es_string \<Rightarrow> octet list \<Rightarrow> int \<Rightarrow> es_string res" where
  "NewFromUtf8Literal createFromUTF8 esEmpty literal len =
     rbind (NewFromUtf8 createFromUTF8 esEmpty literal len) (\<lambda>r. case r of None \<Rightarrow> Inl CheckFailed | Some s \<Rightarrow> Inr s)"

definition copyStringToTwoByteArray :: "16 word list \<Rightarrow> nat \<Rightarrow> es_string \<Rightarrow> 16 word list res" where
  "copyStringToTwoByteArray dest d src = (if has8BitContent src
     then foldM (\<lambda>i dest. put_cell (int (d + i)) (unit_of (code_units src ! i)) dest) [0..<length (code_units src)] dest
     else memcpy dest d (map unit_of (code_units src)) (length (code_units src)))"

text \<open>Operands are \<open>None\<close> for empty handles. The sums of the sizes of two strings in memory do not wrap.\<close>

definition Concat :: "(octet list \<Rightarrow> es_string) \<Rightarrow> (16 word list \<Rightarrow> es_string) \<Rightarrow> (nat \<Rightarrow> octet list) \<Rightarrow> (nat \<Rightarrow> 16 word list) \<Rightarrow>
    es_string option \<Rightarrow> es_string option \<Rightarrow> es_string option res" where
  "Concat createFromLatin1 createFromUTF16 junk8 junk16 left right = (case (left, right) of
     (Some l, Some r) \<Rightarrow>
       let nchars = length (code_units l) + length (code_units r) in
       if has8BitContent l \<and> has8BitContent r then
         rbind (memcpy (junk8 nchars) 0 (string_bytes l) (length (code_units l))) (\<lambda>buffer.
         rbind (memcpy buffer (length (code_units l)) (string_bytes r) (length (code_units r))) (\<lambda>buffer.
         Inr (Some (createFromLatin1 (take nchars buffer)))))
       else
         rbind (copyStringToTwoByteArray (junk16 nchars) 0 l) (\<lambda>buffer.
         rbind (copyStringToTwoByteArray buffer (length (code_units l)) r) (\<lambda>buffer.
         Inr (Some (createFromUTF16 (take nchars buffer)))))
   | _ \<Rightarrow> Inr None)"

section \<open>External strings\<close>

text \<open>The memory of a resource and whether \<^verbatim>\<open>Dispose\<close> was called; \<open>None\<close> is null. The wrapper of the
  handle keeps the resource.\<close>

record 'c external_resource =
  resource_data :: "'c list option"
  resource_length :: nat
  resource_disposed :: bool

datatype new_external = NotExternal | EmptyExternal | External es_string

definition NewExternalTwoByte :: "(16 word list \<Rightarrow> es_string) \<Rightarrow> 16 word external_resource option \<Rightarrow>
    (new_external \<times> 16 word external_resource) res" where
  "NewExternalTwoByte createExternalFromUTF16 ref = (case ref of None \<Rightarrow> Inl CheckFailed | Some resource \<Rightarrow>
     if resource_length resource > size_of_int kMaxStringLength then Inr (NotExternal, resource)
     else if resource_length resource = 0 then Inr (EmptyExternal, resource\<lparr>resource_disposed := True\<rparr>)
     else case resource_data resource of None \<Rightarrow> Inl CheckFailed
     | Some data \<Rightarrow> rbind (read_cells data (int (resource_length resource)))
         (\<lambda>units. Inr (External (createExternalFromUTF16 units), resource)))"

definition NewExternalOneByte :: "(octet list \<Rightarrow> es_string) \<Rightarrow> octet external_resource option \<Rightarrow>
    (new_external \<times> octet external_resource) res" where
  "NewExternalOneByte createExternalFromLatin1 ref = (case ref of None \<Rightarrow> Inl CheckFailed | Some resource \<Rightarrow>
     if resource_length resource > size_of_int kMaxStringLength then Inr (NotExternal, resource)
     else if resource_length resource = 0 then Inr (EmptyExternal, resource\<lparr>resource_disposed := True\<rparr>)
     else case resource_data resource of None \<Rightarrow> Inl CheckFailed
     | Some data \<Rightarrow> rbind (read_cells data (int (resource_length resource)))
         (\<lambda>bytes. Inr (External (createExternalFromLatin1 bytes), resource)))"

text \<open>What the handles of strings tell of their resources.\<close>

datatype string_encoding = ONE_BYTE_ENCODING | TWO_BYTE_ENCODING

definition String_IsExternal :: "'a HandleWrap_scheme \<Rightarrow> bool" where
  "String_IsExternal h = isExternalString h"

definition IsExternalOneByte :: "(ptr \<Rightarrow> es_string) \<Rightarrow> 'a HandleWrap_scheme \<Rightarrow> bool res" where
  "IsExternalOneByte strs h = (if \<not> isExternalString h then Inr False
     else rbind (get_value h) (\<lambda>v. Inr (has8BitContent (strs v))))"

definition GetExternalStringResourceSlow :: "ExternalStringWrap \<Rightarrow> ptr res" where
  "GetExternalStringResourceSlow h = rbind (asExternalString h) (\<lambda>h. Inr (h_resource h))"

definition GetExternalStringResourceBaseSlow :: "(ptr \<Rightarrow> es_string) \<Rightarrow> ExternalStringWrap \<Rightarrow> (ptr \<times> string_encoding) res" where
  "GetExternalStringResourceBaseSlow strs h = rbind (get_value h) (\<lambda>v.
     let encoding_out = (if has8BitContent (strs v) then ONE_BYTE_ENCODING else TWO_BYTE_ENCODING) in
     rbind (asExternalString h) (\<lambda>h. Inr (h_resource h, encoding_out)))"

definition GetExternalOneByteStringResource :: "ExternalStringWrap \<Rightarrow> ptr res" where
  "GetExternalOneByteStringResource h = rbind (asExternalString h) (\<lambda>lwSelf. Inr (h_resource lwSelf))"

lemma resource_of_plain_string_aborts:
  "\<not> String_IsExternal h \<Longrightarrow> GetExternalStringResourceSlow h = Inl CheckFailed \<and> GetExternalOneByteStringResource h = Inl CheckFailed"
  by (simp add: String_IsExternal_def GetExternalStringResourceSlow_def GetExternalOneByteStringResource_def asExternalString_def)

end
