(* ===== verification/StringProps.thy ===== *)
theory StringProps
  imports Strings
begin

text \<open>
  What is copied out of strings: whole characters for UTF-8, a slice of the code units otherwise, within the
  buffer of the caller but for one case; and what strings are made of. The copies of slices share the interface
  \<open>slice_writer\<close>, the makers of strings the interface \<open>string_maker\<close>.
\<close>

unbundle bit_operations_syntax

section \<open>Cells\<close>

lemma overwrite_overwrite:
  "a + length xs + length ys \<le> length b \<Longrightarrow> overwrite (a + length xs) ys (overwrite a xs b) = overwrite a (xs @ ys) b"
  by (rule nth_equalityI) (auto simp: nth_overwrite nth_append)

lemma take_overwrite: "take (length ys) (overwrite 0 ys b) = ys"
  by (simp add: overwrite_def)

lemma overwrite_single: "i < length b \<Longrightarrow> b[i := c] = overwrite i [c] b"
  by (rule nth_equalityI) (auto simp: nth_overwrite nth_list_update)

lemma int_of_size_eq [simp]: "n < 2 ^ 31 \<Longrightarrow> int_of_size n = int n"
  by (simp add: int_of_size_def signed_of_nat signed_take_bit_int_eq_self)

lemma size_of_int_eq [simp]: "0 \<le> i \<Longrightarrow> i < 2 ^ 64 \<Longrightarrow> size_of_int i = nat i"
  by (simp add: size_of_int_def)

lemma size_of_neg: "- (2 ^ 32) \<le> i \<Longrightarrow> i < 0 \<Longrightarrow> 2 ^ 32 \<le> size_of_int i"
proof -
  assume "- (2 ^ 32) \<le> i" "i < 0"
  then have "(i + 2 ^ 64) mod 2 ^ 64 = i + 2 ^ 64" by (intro mod_pos_pos_trivial) auto
  then have "i mod 2 ^ 64 = i + 2 ^ 64" by (simp only: mod_add_self2)
  with \<open>- (2 ^ 32) \<le> i\<close> show ?thesis by (simp add: size_of_int_def)
qed

section \<open>Whole characters\<close>

lemma lead_bits_table:
  "list_all (\<lambda>n. (octet_of n AND 0x80 = 0) = (n < 128) \<and> (octet_of n AND 0xE0 = 0xC0) = (192 \<le> n \<and> n < 224)
     \<and> (octet_of n AND 0xF0 = 0xE0) = (224 \<le> n \<and> n < 240) \<and> (octet_of n AND 0xF8 = 0xF0) = (240 \<le> n \<and> n < 248)
     \<and> (octet_of n AND 0xC0 = 0x80) = (128 \<le> n \<and> n < 192)) [0..<256]"
  by code_simp

lemma lead_bits:
  assumes "n < 256"
  shows "(octet_of n AND 0x80 = 0) = (n < 128)" "(octet_of n AND 0xE0 = 0xC0) = (192 \<le> n \<and> n < 224)"
    "(octet_of n AND 0xF0 = 0xE0) = (224 \<le> n \<and> n < 240)" "(octet_of n AND 0xF8 = 0xF0) = (240 \<le> n \<and> n < 248)"
    "(octet_of n AND 0xC0 = 0x80) = (128 \<le> n \<and> n < 192)"
  using lead_bits_table assms by (auto simp: list_all_iff)

lemma read_char:
  assumes "c < 0x110000" and mem: "mem = pre @ utf8_char c @ post" and "e \<le> length mem" "length pre < e"
  shows "readAUtf8Sequence mem (length pre) e =
    Inr (if length pre + length (utf8_char c) \<le> e then int (length (utf8_char c)) else - 1)"
proof -
  consider "c < 0x80" | "0x80 \<le> c" "c < 0x800" | "0x800 \<le> c" "c < 0x10000" | "0x10000 \<le> c" by linarith
  then show ?thesis
  proof cases
    case 1
    then show ?thesis using assms by (simp add: readAUtf8Sequence_def utf8_char_def nth_append lead_bits)
  next
    case 2
    then have "0xC0 + c div 64 < 224" by simp
    then show ?thesis using 2 assms by (simp add: readAUtf8Sequence_def utf8_char_def nth_append lead_bits Let_def)
  next
    case 3
    then have "0xE0 + c div 4096 < 240" by simp
    then show ?thesis using 3 assms by (simp add: readAUtf8Sequence_def utf8_char_def nth_append lead_bits Let_def)
  next
    case 4
    then have "0xF0 + c div 262144 < 248" using assms(1) by simp
    then show ?thesis using 4 assms by (simp add: readAUtf8Sequence_def utf8_char_def nth_append lead_bits Let_def)
  qed
qed

text \<open>How many of the characters fit into \<open>n\<close> bytes.\<close>

fun fitting :: "nat \<Rightarrow> nat list \<Rightarrow> nat" where
  "fitting n [] = 0"
| "fitting n (c # cs) = (if length (utf8_char c) \<le> n then Suc (fitting (n - length (utf8_char c)) cs) else 0)"

definition encode :: "nat list \<Rightarrow> octet list" where
  "encode cs = concat (map utf8_char cs)"

lemma encode_simps [simp]: "encode [] = []" "encode (c # cs) = utf8_char c @ encode cs" "encode (cs @ ds) = encode cs @ encode ds"
  by (simp_all add: encode_def)

lemma utf8_char_nonnull: "0 < length (utf8_char c)"
  by (simp add: utf8_char_def)

lemma utf8_char_nonempty [simp]: "utf8_char c \<noteq> []"
  using utf8_char_nonnull[of c] by simp

lemma fitting_le: "fitting n cs \<le> length cs"
  by (induction n cs rule: fitting.induct) auto

lemma fitting_fits: "length (encode (take (fitting n cs) cs)) \<le> n"
  by (induction n cs rule: fitting.induct) auto

lemma fitting_maximal: "fitting n cs < length cs \<Longrightarrow> n < length (encode (take (Suc (fitting n cs)) cs))"
  by (induction n cs rule: fitting.induct) auto

lemma fitting_stops: "fitting n cs = length cs \<or> n < length (encode (take (Suc (fitting n cs)) cs))"
  using fitting_le[of n cs] fitting_maximal[of n cs] by linarith

lemma fitting_all: "fitting n cs = length cs \<longleftrightarrow> length (encode cs) \<le> n"
  by (induction n cs rule: fitting.induct) (auto split: if_splits)

lemma fitting_min: "fitting (min n (length (encode cs))) cs = fitting n cs"
proof (induction n cs rule: fitting.induct)
  case (2 n c cs)
  then show ?case by (auto simp: min_def split: if_splits)
qed simp

lemma encode_complete: "length (encode (take k cs)) = length (encode cs) \<Longrightarrow> k \<le> length cs \<Longrightarrow> k = length cs"
proof (rule ccontr)
  assume l: "length (encode (take k cs)) = length (encode cs)" "k \<le> length cs" "k \<noteq> length cs"
  then have "drop k cs \<noteq> []" by simp
  then have "0 < length (encode (drop k cs))" using utf8_char_nonnull by (cases "drop k cs") (auto simp: add_gr_0)
  moreover have "encode cs = encode (take k cs) @ encode (drop k cs)" by (simp flip: encode_simps(3))
  ultimately show False using l(1) by simp
qed

lemma copy_step:
  assumes "copy_i c < m" "readAUtf8Sequence source (copy_s c) (nat m) = Inr (int l)" "0 < l"
    and "memcpy dest (copy_d c) (drop (copy_s c) source) l = Inr dest'"
  shows "copy_loop source m c dest = copy_loop source m \<lparr>copy_s = copy_s c + l, copy_d = copy_d c + l, copy_i = copy_i c + int l,
    copy_nchars = copy_nchars c + 1, copy_nbytes = copy_nbytes c + int l\<rparr> dest'"
  using assms by (subst copy_loop.simps) simp

lemma copy_loop_chars:
  assumes "\<forall>c \<in> set cs. c < 0x110000" "source = pre @ encode cs" "length pre \<le> m" "m \<le> length source" "m \<le> length dest"
  shows "copy_loop source (int m) \<lparr>copy_s = length pre, copy_d = length pre, copy_i = int (length pre), copy_nchars = n,
      copy_nbytes = int (length pre)\<rparr> dest =
    (let k = fitting (m - length pre) cs; end = length pre + length (encode (take k cs)) in
     Inr (\<lparr>copy_s = end, copy_d = end, copy_i = int end, copy_nchars = n + int k, copy_nbytes = int end\<rparr>,
       overwrite (length pre) (encode (take k cs)) dest))"
  using assms
proof (induction cs arbitrary: pre n dest)
  case Nil
  then show ?case by (subst copy_loop.simps) (simp add: Let_def)
next
  case (Cons c cs)
  show ?case
  proof (cases "length pre < m")
    case False
    then have "m - length pre < length (utf8_char c)" using utf8_char_nonnull[of c] by simp
    then show ?thesis using False by (subst copy_loop.simps) (simp add: Let_def)
  next
    case inside: True
    have r: "readAUtf8Sequence source (length pre) m =
        Inr (if length pre + length (utf8_char c) \<le> m then int (length (utf8_char c)) else - 1)"
      using Cons.prems inside by (intro read_char[where post = "encode cs"]) auto
    show ?thesis
    proof (cases "length pre + length (utf8_char c) \<le> m")
      case False
      then have "\<not> length (utf8_char c) \<le> m - length pre" using inside by linarith
      then show ?thesis using False inside r by (subst copy_loop.simps) (simp add: Let_def)
    next
      case fits: True
      let ?p = "pre @ utf8_char c" and ?d = "overwrite (length pre) (utf8_char c) dest"
      let ?k = "fitting (m - length ?p) cs"
      let ?e = "length ?p + length (encode (take ?k cs))"
      have IH: "copy_loop source (int m) \<lparr>copy_s = length ?p, copy_d = length ?p, copy_i = int (length ?p), copy_nchars = n + 1,
          copy_nbytes = int (length ?p)\<rparr> ?d =
        Inr (\<lparr>copy_s = ?e, copy_d = ?e, copy_i = int ?e, copy_nchars = n + 1 + int ?k, copy_nbytes = int ?e\<rparr>,
          overwrite (length ?p) (encode (take ?k cs)) ?d)"
        by (rule Cons.IH[unfolded Let_def]) (use Cons.prems fits in auto)
      have cp: "memcpy dest (length pre) (drop (length pre) source) (length (utf8_char c)) = Inr ?d"
        using Cons.prems fits by (simp add: memcpy_def)
      have "length (encode (take ?k cs)) \<le> m - length ?p" by (rule fitting_fits)
      then have w: "overwrite (length ?p) (encode (take ?k cs)) ?d = overwrite (length pre) (utf8_char c @ encode (take ?k cs)) dest"
        using overwrite_overwrite[of "length pre" "utf8_char c"] Cons.prems(5) fits by simp
      have k: "fitting (m - length pre) (c # cs) = Suc ?k" using fits by auto
      have step: "copy_loop source (int m) \<lparr>copy_s = length pre, copy_d = length pre, copy_i = int (length pre), copy_nchars = n,
          copy_nbytes = int (length pre)\<rparr> dest = copy_loop source (int m) \<lparr>copy_s = length ?p, copy_d = length ?p,
          copy_i = int (length ?p), copy_nchars = n + 1, copy_nbytes = int (length ?p)\<rparr> ?d"
        by (rule trans[OF copy_step[where l = "length (utf8_char c)" and dest' = ?d]])
          (simp_all add: inside r fits cp utf8_char_nonempty)
      show ?thesis unfolding step IH w k Let_def by (simp add: add.assoc)
    qed
  qed
qed

lemma encode_ascii: "\<forall>c \<in> set cs. c \<le> 127 \<Longrightarrow> encode cs = map octet_of cs"
proof (induction cs)
  case (Cons c cs)
  then have "utf8_char c = [octet_of c]" by (simp add: utf8_char_def)
  then show ?case using Cons by simp
qed simp

lemma fitting_ascii: "\<forall>c \<in> set cs. c \<le> 127 \<Longrightarrow> fitting n cs = min n (length cs)"
proof (induction cs arbitrary: n)
  case (Cons c cs)
  then have "length (utf8_char c) = 1" by (simp add: utf8_char_def)
  moreover have "fitting (n - 1) cs = min (n - 1) (length cs)" using Cons by simp
  ultimately show ?case by (simp only: fitting.simps) auto
qed simp

text \<open>The characters of a string: its units if they are ASCII, else what the engine encodes.\<close>

definition characters :: "nat list \<Rightarrow> es_string \<Rightarrow> nat list" where
  "characters cs s = (if isAsciiString s then code_units s else cs)"

lemma copy_characters:
  assumes "\<forall>c \<in> set cs. c < 0x110000" "m \<le> length (encode cs)" "m \<le> length buffer"
  shows "copyUtf8Sequences buffer (encode cs) (int m) 0 0 = Inr (int (fitting m cs),
    int (length (encode (take (fitting m cs) cs))), overwrite 0 (encode (take (fitting m cs) cs)) buffer)"
  using copy_loop_chars[where pre = "[]" and cs = cs and source = "encode cs" and m = m and dest = buffer and n = 0] assms
  by (simp add: copyUtf8Sequences_def Let_def)

lemma write_bytes:
  assumes "\<forall>c \<in> set cs. c < 0x110000" and engine: "toStd s options = encode cs"
    and "length (encode (characters cs s)) < 2 ^ 31" and "n \<le> length buffer" and "chars = characters cs s"
    and m: "m = min n (length (encode chars))"
  shows "(if isAsciiString s
       then rbind (memcpy buffer 0 (string_bytes s) (size_of_int (int m))) (\<lambda>buffer. Inr (int m, int m, buffer))
       else copyUtf8Sequences buffer (toStd s options) (int m) 0 0) =
    Inr (int (fitting n chars), int (length (encode (take (fitting n chars) chars))),
      overwrite 0 (encode (take (fitting n chars) chars)) buffer)"
proof (cases "isAsciiString s")
  case True
  then have a: "\<forall>c \<in> set chars. c \<le> 127" "chars = code_units s" "has8BitContent s"
    using assms(5) by (auto simp: isAsciiString_def characters_def list_all_iff)
  then have t: "encode (take n chars) = map octet_of (take n chars)" by (intro encode_ascii) (auto dest: in_set_takeD)
  have "m = min n (length chars)" using m a by (simp add: encode_ascii)
  moreover have "take m chars = take n chars" using calculation by (simp add: min_def)
  moreover have "m < 2 ^ 31" using assms(3,5) m by (simp add: min_def)
  moreover have "min n (length (code_units s)) \<le> length buffer" using assms(4) by linarith
  ultimately show ?thesis using True a t assms(4)
    by (simp add: memcpy_def string_bytes_def fitting_ascii take_map min.commute min.coboundedI2)
next
  case False
  then have "chars = cs" using assms(5) by (simp add: characters_def)
  then show ?thesis using False engine copy_characters[of cs m buffer] assms(1,4) m fitting_min[of n cs] by simp
qed

definition terminator :: "bool \<Rightarrow> 32 word \<Rightarrow> ('c :: zero) list" where
  "terminator room options = (if options AND NO_NULL_TERMINATION = 0 \<and> room then [0] else [])"

lemma WriteUtf8_fitting:
  assumes "\<forall>c \<in> set cs. c < 0x110000" and engine: "toStd s options = encode cs"
    and chars: "chars = characters cs s" and "length (encode chars) < 2 ^ 31"
    and n: "capacity = int n" "n \<le> length buffer"
    and k: "k = fitting n chars"
  shows "let written = encode (take k chars) @ terminator (length (encode chars) < n) options in
    WriteUtf8 toStd s buffer capacity options = Inr (int (length written), int k, overwrite 0 written buffer)"
proof -
  let ?b = "encode (take k chars)" and ?full = "length (encode chars)"
  have full: "(if isAsciiString s then length (code_units s) else length (toStd s options)) = ?full"
    using engine chars by (auto simp: characters_def isAsciiString_def list_all_iff encode_ascii)
  have b: "length ?b \<le> n" using k fitting_fits by blast
  have complete: "length ?b = ?full \<and> length ?b < n \<longleftrightarrow> ?full < n"
    using fitting_all[of n chars] k by auto
  have w: "(if isAsciiString s
       then rbind (memcpy buffer 0 (string_bytes s) (size_of_int (int (min n ?full)))) (\<lambda>buffer. Inr (int (min n ?full), int (min n ?full), buffer))
       else copyUtf8Sequences buffer (toStd s options) (int (min n ?full)) 0 0) = Inr (int k, int (length ?b), overwrite 0 ?b buffer)"
    unfolding k by (rule write_bytes) (use assms in auto)
  have steps: "(if 0 \<le> capacity then capacity else kMaxStringLength) = int n"
    "int_of_size (if isAsciiString s then length (code_units s) else length (toStd s options)) = int ?full"
    "min (int n) (int ?full) = int (min n ?full)"
    using n(1) full assms(4) by simp_all
  have "WriteUtf8 toStd s buffer capacity options =
    (if options AND NO_NULL_TERMINATION = 0 \<and> int (length ?b) = int ?full \<and> int (length ?b) < int n
     then rbind (put_cell (int (length ?b)) 0 (overwrite 0 ?b buffer)) (\<lambda>buffer. Inr (int (length ?b) + 1, int k, buffer))
     else Inr (int (length ?b), int k, overwrite 0 ?b buffer))"
    by (simp only: WriteUtf8_def Let_def steps w rbind_Inr prod.case)
  moreover have "put_cell (int (length ?b)) 0 (overwrite 0 ?b buffer) = Inr (overwrite 0 (?b @ [0]) buffer)" if "length ?b < n"
    using that n(2) overwrite_overwrite[of 0 ?b "[0]" buffer] by (simp add: put_cell_def overwrite_single)
  ultimately show ?thesis using complete by (auto simp: terminator_def Let_def)
qed

text \<open>C27. \<^verbatim>\<open>WriteUtf8\<close> writes the longest run of whole characters that fits into the capacity, counts them,
  puts a null behind them exactly if all of them and the null fit and the options ask for it, returns the number of bytes
  with the null, and touches nothing else. The engine is assumed to encode the string as UTF-8.\<close>

theorem write_utf8_whole_characters:
  assumes "\<forall>c \<in> set cs. c < 0x110000" "toStd s options = encode cs" "chars = characters cs s"
    and "length (encode chars) < 2 ^ 31" "n \<le> length buffer"
  shows "\<exists>k written. k \<le> length chars \<and> length (encode (take k chars)) \<le> n
    \<and> (k = length chars \<or> n < length (encode (take (Suc k) chars)))
    \<and> written = encode (take k chars) @ terminator (length (encode chars) < n) options
    \<and> WriteUtf8 toStd s buffer (int n) options = Inr (int (length written), int k, overwrite 0 written buffer)"
  using WriteUtf8_fitting[where toStd = toStd and options = options, OF assms(1-4) refl assms(5) refl] fitting_le[of n chars] fitting_fits[of n chars] fitting_stops[of n chars]
  by (intro exI[of _ "fitting n chars"] exI[of _ "encode (take (fitting n chars) chars) @ terminator (length (encode chars) < n) options"])
    (auto simp: Let_def)

theorem write_utf8_whole_characters_witness:
  "WriteUtf8 (\<lambda>_ _. encode [65, 0x20AC, 66]) \<lparr>has8BitContent = False, code_units = [65, 0x20AC, 66]\<rparr> [9, 9, 9, 9, 9] (int 3) 0
     = Inr (1, 1, [65, 9, 9, 9, 9])"
proof -
  let ?cs = "[65, 0x20AC, 66] :: nat list"
  have "\<exists>k written. k \<le> length ?cs \<and> length (encode (take k ?cs)) \<le> 3 \<and> (k = length ?cs \<or> 3 < length (encode (take (Suc k) ?cs)))
    \<and> written = encode (take k ?cs) @ terminator (length (encode ?cs) < 3) 0
    \<and> WriteUtf8 (\<lambda>_ _. encode ?cs) \<lparr>has8BitContent = False, code_units = ?cs\<rparr> [9, 9, 9, 9, 9] (int 3) 0
      = Inr (int (length written), int k, overwrite 0 written [9, 9, 9, 9, 9])"
    by (rule write_utf8_whole_characters[where cs = ?cs]) (simp_all add: characters_def isAsciiString_def utf8_char_def)
  then obtain k where k: "k \<le> 3" "length (encode (take k ?cs)) \<le> 3" "k = 3 \<or> 3 < length (encode (take (Suc k) ?cs))"
    and w: "WriteUtf8 (\<lambda>_ _. encode ?cs) \<lparr>has8BitContent = False, code_units = ?cs\<rparr> [9, 9, 9, 9, 9] (int 3) 0
      = Inr (int (length (encode (take k ?cs))), int k, overwrite 0 (encode (take k ?cs)) [9, 9, 9, 9, 9])"
    by (auto simp: terminator_def utf8_char_def)
  have "k = 0 \<or> k = 1 \<or> k = 2 \<or> k = 3" using k(1) by linarith
  then have "k = 1" using k(2,3) by (auto simp: utf8_char_def numeral_2_eq_2 numeral_3_eq_3)
  then show ?thesis unfolding w by (simp add: utf8_char_def octet_of_def overwrite_def)
qed

section \<open>Slices\<close>

text \<open>What both copies of code units promise: the slice that starts at \<open>s\<close> and is not longer than the capacity, and a
  null behind it where there is room; provided that this fits into the buffer.\<close>

definition capacity_of :: "int \<Rightarrow> nat" where
  "capacity_of len = nat (if len < 0 then kMaxStringLength else len)"

definition cut_of :: "'c list \<Rightarrow> nat \<Rightarrow> int \<Rightarrow> 'c list" where
  "cut_of units s len = take (capacity_of len) (drop s units)"

definition slice_of :: "('c :: zero) list \<Rightarrow> nat \<Rightarrow> int \<Rightarrow> 32 word \<Rightarrow> 'c list" where
  "slice_of units s len options = cut_of units s len @ terminator (length (cut_of units s len) < capacity_of len) options"

locale slice_writer =
  fixes copy :: "('c :: zero) list option \<Rightarrow> int \<Rightarrow> int \<Rightarrow> 32 word \<Rightarrow> (int \<times> 'c list option) res"
    and units :: "'c list"
  assumes copy_null: "copy None p len options = Inr (0, None)"
    and copy_nothing: "copy ref p 0 options = Inr (0, ref)"
    and copy_outside: "length units < 2 ^ 31 \<Longrightarrow> - (2 ^ 31) \<le> p \<Longrightarrow> p < 2 ^ 31 \<Longrightarrow>
      p < 0 \<or> int (length units) < p \<Longrightarrow> copy ref p len options = Inr (0, ref)"
    and copy_slice: "length units < 2 ^ 31 \<Longrightarrow> s \<le> length units \<Longrightarrow> len \<noteq> 0 \<Longrightarrow> len < 2 ^ 31 \<Longrightarrow>
      length (slice_of units s len options) \<le> length buffer \<Longrightarrow>
      copy (Some buffer) (int s) len options =
        Inr (int (length (cut_of units s len)), Some (overwrite 0 (slice_of units s len options) buffer))"
begin

lemma slice_fits: "0 \<le> len \<Longrightarrow> length (slice_of units s len options) \<le> nat len"
  by (auto simp: slice_of_def terminator_def cut_of_def capacity_of_def)

lemma copy_all:
  assumes "int (length units) < kMaxStringLength" "length buffer = length units + 1"
  shows "copy (Some buffer) 0 (- 1) 0 = Inr (int (length units), Some (units @ [0]))"
proof -
  have cut: "cut_of units 0 (- 1) = units" using assms(1) by (simp add: cut_of_def capacity_of_def kMaxStringLength_def)
  then have sl: "slice_of units 0 (- 1) 0 = units @ [0]"
    using assms(1) by (simp add: slice_of_def terminator_def capacity_of_def kMaxStringLength_def)
  show ?thesis using copy_slice[of 0 "- 1" 0 buffer] assms cut sl by (simp add: kMaxStringLength_def overwrite_full)
qed

text \<open>A caller that copies piece by piece gets the pieces of one copy.\<close>

lemma copy_pieces:
  assumes "length units < 2 ^ 31" "s + m \<le> length units" "0 < m" "0 < n" "m + n < 2 ^ 31"
    and "options AND NO_NULL_TERMINATION \<noteq> 0" "length buffer1 = m" "length buffer2 = n"
  shows "\<exists>a b k. copy (Some buffer1) (int s) (int m) options = Inr (int m, Some a)
    \<and> copy (Some buffer2) (int (s + m)) (int n) options = Inr (int k, Some b) \<and> a @ take k b = take (m + n) (drop s units)"
proof -
  let ?p = "take m (drop s units)" and ?q = "take n (drop (s + m) units)"
  have c: "cut_of units s (int m) = ?p" "cut_of units (s + m) (int n) = ?q" by (simp_all add: cut_of_def capacity_of_def)
  then have sl: "slice_of units s (int m) options = ?p" "slice_of units (s + m) (int n) options = ?q"
    using assms(6) by (simp_all add: slice_of_def terminator_def)
  have l: "length ?p = m" using assms(2) by simp
  have 1: "copy (Some buffer1) (int s) (int m) options = Inr (int m, Some ?p)"
    using copy_slice[of s "int m" options buffer1] assms c sl l by (simp add: overwrite_full)
  have 2: "copy (Some buffer2) (int (s + m)) (int n) options = Inr (int (length ?q), Some (overwrite 0 ?q buffer2))"
    using copy_slice[of "s + m" "int n" options buffer2] assms(1,2,4,5,8) unfolding c sl by simp
  have "take (length ?q) (overwrite 0 ?q buffer2) = ?q" by (rule take_overwrite)
  moreover have "?p @ ?q = take (m + n) (drop s units)" by (simp add: take_add add.commute)
  ultimately show ?thesis using 1 2 by metis
qed

end

lemma sub_size: "s \<le> n \<Longrightarrow> n < 2 ^ 31 \<Longrightarrow> sub64 n s = n - s"
  by (intro sub64_exact) (simp_all add: size_max_def)

lemma terminated:
  assumes "length (piece @ terminator (length piece < n) options) \<le> length buffer"
  shows "terminate_units (int (length piece)) (int n) options (overwrite 0 piece buffer) =
    Inr (int (length piece), overwrite 0 (piece @ terminator (length piece < n) options) buffer)"
proof -
  have "put_cell (int (length piece)) 0 (overwrite 0 piece buffer) = Inr (overwrite 0 (piece @ [0]) buffer)"
    if "length piece < length buffer"
    using that overwrite_overwrite[of 0 piece "[0]" buffer] by (simp add: put_cell_def overwrite_single)
  then show ?thesis using assms by (auto simp: terminate_units_def terminator_def)
qed

lemma widen_units_slice:
  assumes "s + n \<le> length (code_units str)" "n \<le> length buffer"
  shows "widen_units str (int s) (int n) buffer = Inr (overwrite 0 (take n (drop s (map unit_of (code_units str)))) buffer)"
proof -
  let ?u = "map unit_of (code_units str)"
  let ?I = "\<lambda>j (i, b). i = int (j - s) \<and> b = overwrite 0 (take (j - s) (drop s ?u)) buffer"
  let ?f = "\<lambda>j (i, buffer). guard OutOfBounds (j < length (code_units str))
         (rbind (put_cell i (unit_of (code_units str ! j)) buffer) (\<lambda>buffer. Inr (i + 1, buffer)))"
  have "\<exists>r. foldM ?f [s..<s + n] (0, buffer) = Inr r \<and> ?I (s + n) r"
  proof (rule foldM_upt_invariant)
    fix j t
    assume j: "s \<le> j" "j < s + n" "?I j t"
    then obtain i b where t: "t = (i, b)" "i = int (j - s)" "b = overwrite 0 (take (j - s) (drop s ?u)) buffer" by (cases t) auto
    have tk: "take (Suc j - s) (drop s ?u) = take (j - s) (drop s ?u) @ [unit_of (code_units str ! j)]"
      using j assms(1) by (simp add: Suc_diff_le take_Suc_conv_app_nth)
    have "length (take (j - s) (drop s ?u)) = j - s" using j assms(1) by simp
    then have "b[j - s := unit_of (code_units str ! j)] = overwrite 0 (take (Suc j - s) (drop s ?u)) buffer"
      using t(3) tk j assms overwrite_snoc[of 0 "take (j - s) (drop s ?u)" buffer "unit_of (code_units str ! j)"] by simp
    moreover have "nat (int j - int s) = j - s" by simp
    ultimately show "\<exists>u. ?f j t = Inr u \<and> ?I (Suc j) u" using t j assms by (auto simp: put_cell_def guard_def)
  qed auto
  then show ?thesis by (auto simp: widen_units_def nat_add_distrib)
qed

lemma write_cut:
  assumes "length us < 2 ^ 31" "s \<le> length us" "len \<noteq> 0" "len < 2 ^ 31"
  shows "min (capacity_of len) (length us - s) = length (cut_of us s len)" "capacity_of len < 2 ^ 31" "0 < capacity_of len"
  using assms by (auto simp: cut_of_def capacity_of_def kMaxStringLength_def min_def)

lemma size_of_min: "0 < len \<Longrightarrow> len < 2 ^ 31 \<Longrightarrow> size_of_int len = nat len"
  by simp

lemma cut_take: "cut_of us s len = take (length (cut_of us s len)) (drop s us)"
  by (cases "capacity_of len \<le> length us - s") (simp_all add: cut_of_def)

text \<open>Both copies take the slice as a memory copy or a loop, then terminate it.\<close>

lemma slice_length: "length (slice_of us s len options) \<le> length buffer \<Longrightarrow> length (cut_of us s len) \<le> length buffer"
  by (simp add: slice_of_def)

lemma terminated_slice:
  assumes "length us < 2 ^ 31" "s \<le> length us" "len \<noteq> 0" "len < 2 ^ 31" "length (slice_of us s len options) \<le> length buffer"
  shows "terminate_units (int (length (cut_of us s len))) (int (capacity_of len)) options (overwrite 0 (cut_of us s len) buffer) =
    Inr (int (length (cut_of us s len)), overwrite 0 (slice_of us s len options) buffer)"
  using terminated[of "cut_of us s len" "capacity_of len" options buffer] assms(5) by (simp add: slice_of_def)

lemma Write_slice:
  fixes str :: es_string
  defines "us \<equiv> map unit_of (code_units str)"
  assumes "length us < 2 ^ 31" "s \<le> length us" "len \<noteq> 0" "len < 2 ^ 31" "length (slice_of us s len options) \<le> length buffer"
  shows "Write str (Some buffer) (int s) len options =
    Inr (int (length (cut_of us s len)), Some (overwrite 0 (slice_of us s len options) buffer))"
proof -
  let ?c = "cut_of us s len"
  have l: "length us = length (code_units str)" by (simp add: us_def)
  have cap: "(if 0 \<le> len then len else kMaxStringLength) = int (capacity_of len)" using assms(4) by (simp add: capacity_of_def kMaxStringLength_def)
  have n: "min (int (capacity_of len)) (int_of_size (length (code_units str)) - int s) = int (length ?c)"
    using write_cut[OF assms(2-5)] assms(2,3) l by simp
  have c: "?c = take (length ?c) (drop s us)" by (rule cut_take)
  have cl: "s + length ?c \<le> length us" "length ?c \<le> length us - s" "length ?c \<le> length buffer" using assms(3) slice_length[OF assms(6)] by (auto simp: cut_of_def)
  have body: "(if has8BitContent str then widen_units str (int s) (int (length ?c)) buffer
      else memcpy buffer 0 (drop (nat (int s)) us) (size_of_int (int (length ?c)))) = Inr (overwrite 0 ?c buffer)"
    using widen_units_slice[of s "length ?c" str buffer] cl c l assms(2)
    by (cases "has8BitContent str") (simp_all add: memcpy_def us_def)
  have inside: "(len = 0 \<or> size_of_int (int s) > length (code_units str)) = False" using assms(2,3,4) l by simp
  show ?thesis
    by (simp only: Write_def us_def[symmetric] Let_def option.case inside if_False cap n body terminated_slice[OF assms(2-6)]
      rbind_Inr prod.case)
qed

lemma WriteOneByte_slice:
  fixes us :: "nat list"
  defines "os \<equiv> map octet_of us"
  assumes "length os < 2 ^ 31" "s \<le> length os" "len \<noteq> 0" "len < 2 ^ 31" "length (slice_of os s len options) \<le> length buffer"
  shows "WriteOneByte cf \<lparr>has8BitContent = True, code_units = us\<rparr> (Some buffer) (int s) len options =
    Inr (int (length (cut_of os s len)), Some (overwrite 0 (slice_of os s len options) buffer))"
proof -
  let ?c = "cut_of os s len"
  have l: "length os = length us" by (simp add: os_def)
  have cap: "(if 0 < len then len else kMaxStringLength) = int (capacity_of len)"
    using assms(4) by (simp add: capacity_of_def kMaxStringLength_def)
  have n: "min (size_of_int (int (capacity_of len))) (sub64 (length us) (size_of_int (int s))) = length ?c"
    using write_cut[OF assms(2-5)] assms(2,3) l by (simp add: sub_size)
  have cl: "length ?c \<le> length os - s" "length ?c \<le> length buffer" "length ?c < 2 ^ 31"
    using assms(2,3) slice_length[OF assms(6)] by (auto simp: cut_of_def)
  have "?c = take (length ?c) (drop s os)" by (rule cut_take)
  then have "memcpy buffer 0 (drop (size_of_int (int s)) os) (length ?c) = Inr (overwrite 0 ?c buffer)"
    using cl assms(2,3) by (auto simp: memcpy_def)
  then show ?thesis
    using terminated_slice[OF assms(2-6)] cap n cl(3) assms(2-4) l
    by (simp add: WriteOneByte_def string_bytes_def os_def[symmetric] Let_def)
qed

lemma outside_size: "length us < 2 ^ 31 \<Longrightarrow> - (2 ^ 31) \<le> p \<Longrightarrow> p < 2 ^ 31 \<Longrightarrow> p < 0 \<or> int (length us) < p \<Longrightarrow>
    length us < size_of_int p"
  using size_of_neg[of p] by (cases "p < 0") auto

lemma Write_outside:
  "len = 0 \<or> length (code_units str) < size_of_int p \<Longrightarrow> Write str ref p len options = Inr (0, ref)"
  by (cases ref) (auto simp: Write_def)

lemma WriteOneByte_outside:
  "len = 0 \<or> has8BitContent str \<and> length (code_units str) < size_of_int p \<Longrightarrow> WriteOneByte cf str ref p len options = Inr (0, ref)"
  by (cases ref) (auto simp: WriteOneByte_def)

interpretation wide: slice_writer "Write str" "map unit_of (code_units str)" for str
proof
  fix p and ref :: "16 word list option" and len options
  show "Write str None p len options = Inr (0, None)" by (simp add: Write_def)
  show "Write str ref p 0 options = Inr (0, ref)" by (simp add: Write_outside)
  assume "length (map unit_of (code_units str)) < 2 ^ 31" "- (2 ^ 31) \<le> p" "p < 2 ^ 31"
    "p < 0 \<or> int (length (map unit_of (code_units str))) < p"
  from outside_size[OF this] show "Write str ref p len options = Inr (0, ref)" by (simp add: Write_outside)
qed (rule Write_slice)

interpretation narrow: slice_writer "WriteOneByte cf \<lparr>has8BitContent = True, code_units = us\<rparr>" "map octet_of us" for cf us
proof
  fix p and ref :: "octet list option" and len options
  let ?s = "\<lparr>has8BitContent = True, code_units = us\<rparr>"
  show "WriteOneByte cf ?s None p len options = Inr (0, None)" by (simp add: WriteOneByte_def)
  show "WriteOneByte cf ?s ref p 0 options = Inr (0, ref)" by (simp add: WriteOneByte_outside)
  assume "length (map octet_of us) < 2 ^ 31" "- (2 ^ 31) \<le> p" "p < 2 ^ 31" "p < 0 \<or> int (length (map octet_of us)) < p"
  from outside_size[OF this] show "WriteOneByte cf ?s ref p len options = Inr (0, ref)" by (simp add: WriteOneByte_outside)
qed (rule WriteOneByte_slice)

section \<open>One byte too many\<close>

definition spread :: "nat list \<Rightarrow> nat list" where
  "spread us = concat (map (\<lambda>u. [u, 0]) us)"

lemma length_spread [simp]: "length (spread us) = 2 * length us"
  by (induction us) (simp_all add: spread_def)

lemma nth_spread: "i < length us \<Longrightarrow> spread us ! (2 * i) = us ! i"
proof (induction us arbitrary: i)
  case (Cons u us)
  then show ?case by (cases i) (simp_all add: spread_def)
qed simp

lemma two_bytes_ascii: "\<forall>u \<in> set us. u \<le> 127 \<Longrightarrow> two_bytes us = map octet_of (spread us)"
  by (induction us) (simp_all add: two_bytes_def spread_def)

lemma one_byte_loop_copies:
  assumes "s \<le> length us" "m = min (cap + 1) (length us - s)" "j \<le> m" "m \<le> length buffer"
  shows "one_byte_loop (map octet_of (spread us)) (2 * length us) cap (2 * (s + j)) j buffer =
    Inr (m, overwrite j (take (m - j) (drop (s + j) (map octet_of us))) buffer)"
  using assms
proof (induction "m - j" arbitrary: j buffer)
  case 0
  then have "j = m" using 0(1,4) by linarith
  then have "\<not> 2 * (s + j) < 2 * length us \<or> j > cap" using 0 by auto
  then show ?case using \<open>j = m\<close> by (subst one_byte_loop.simps) auto
next
  case (Suc d)
  then have j: "j < m" "s + j < length us" "j \<le> cap" "j < length buffer" by auto
  let ?c = "octet_of (us ! (s + j))"
  have nth: "map octet_of (spread us) ! (2 * (s + j)) = ?c" using j nth_spread[of "s + j" us] by simp
  have IH: "one_byte_loop (map octet_of (spread us)) (2 * length us) cap (2 * (s + Suc j)) (Suc j) (buffer[j := ?c]) =
    Inr (m, overwrite (Suc j) (take (m - Suc j) (drop (s + Suc j) (map octet_of us))) (buffer[j := ?c]))"
    by (rule Suc.hyps(1)[OF _ Suc.prems(1,2)]) (use Suc.hyps(2) Suc.prems(4) j in simp_all)
  let ?r = "take (m - Suc j) (drop (s + Suc j) (map octet_of us))"
  have "drop (s + j) (map octet_of us) = ?c # drop (s + Suc j) (map octet_of us)"
    using Cons_nth_drop_Suc[of "s + j" "map octet_of us"] j by (simp del: drop_map)
  moreover have "m - j = Suc (m - Suc j)" using j by simp
  ultimately have cut: "take (m - j) (drop (s + j) (map octet_of us)) = [?c] @ ?r" by (simp only: take_Suc_Cons append.simps)
  have "overwrite (Suc j) ?r (buffer[j := ?c]) = overwrite j ([?c] @ ?r) buffer"
    using j Suc.prems overwrite_overwrite[of j "[?c]" ?r buffer] by (simp add: overwrite_single)
  then show ?case using j nth IH cut Suc.prems
    by (subst one_byte_loop.simps) simp
qed

lemma one_byte_loop_overruns:
  assumes "s \<le> length us" "m = min (cap + 1) (length us - s)" "length buffer < m" "j \<le> length buffer"
  shows "one_byte_loop (map octet_of (spread us)) (2 * length us) cap (2 * (s + j)) j buffer = Inl OutOfBounds"
  using assms
proof (induction "length buffer - j" arbitrary: j buffer)
  case 0
  then show ?case by (subst one_byte_loop.simps) auto
next
  case (Suc d)
  let ?b = "buffer[j := octet_of (spread us ! (2 * (s + j)))]"
  have "one_byte_loop (map octet_of (spread us)) (2 * length us) cap (2 * (s + Suc j)) (Suc j) ?b = Inl OutOfBounds"
    by (rule Suc.hyps(1)) (use Suc.hyps(2) Suc.prems in auto)
  then show ?case using Suc.hyps(2) Suc.prems by (subst one_byte_loop.simps) (auto simp: guard_def)
qed

text \<open>C29. Text of the ASCII range that is stored in two-byte units: \<^verbatim>\<open>WriteOneByte\<close> copies it like
  one-byte text as long as it fits, but if it is longer than the length that was asked for, one character more is written
  and counted, which is outside of a buffer of that length.\<close>

theorem one_byte_copy_of_wide_text_overruns:
  assumes "\<forall>u \<in> set us. u \<le> 127" and engine: "cf (two_bytes us) = \<lparr>has8BitContent = True, code_units = spread us\<rparr>"
    and "length us < 2 ^ 30" "s \<le> length us" "0 < n" "n < 2 ^ 30" "n \<le> length buffer" and os: "os = map octet_of us"
  shows "WriteOneByte cf \<lparr>has8BitContent = False, code_units = us\<rparr> (Some buffer) (int s) (int n) options =
    (if n < length us - s
     then if length buffer = n then Inl OutOfBounds else Inr (int n + 1, Some (overwrite 0 (take (n + 1) (drop s os)) buffer))
     else Inr (int (length us - s), Some (overwrite 0 (slice_of os s (int n) options) buffer)))"
proof -
  let ?m = "min (n + 1) (length us - s)"
  let ?src = "map octet_of (spread us)"
  have cf: "cf (take (2 * length us) (two_bytes us)) = \<lparr>has8BitContent = True, code_units = spread us\<rparr>"
    using engine two_bytes_ascii[OF assms(1)] by simp
  have unfold: "WriteOneByte cf \<lparr>has8BitContent = False, code_units = us\<rparr> (Some buffer) (int s) (int n) options =
      rbind (one_byte_loop ?src (2 * length us) n (2 * (s + 0)) 0 buffer)
        (\<lambda>(j, buffer). rbind (terminate_units (int_of_size j) (int n) options buffer) (\<lambda>(nchars, buffer). Inr (nchars, Some buffer)))"
    using assms(3-6) cf by (simp add: WriteOneByte_def string_bytes_def Let_def nat_mult_distrib mult.commute[of 2])
  show ?thesis
  proof (cases "?m \<le> length buffer")
    case False
    then have "one_byte_loop ?src (2 * length us) n (2 * (s + 0)) 0 buffer = Inl OutOfBounds"
      using assms(4) by (intro one_byte_loop_overruns[where m = ?m]) auto
    moreover have "n < length us - s" "length buffer = n" using False assms(7) by auto
    ultimately show ?thesis unfolding unfold by simp
  next
    case True
    then have l: "one_byte_loop ?src (2 * length us) n (2 * (s + 0)) 0 buffer = Inr (?m, overwrite 0 (take ?m (drop s os)) buffer)"
      using one_byte_loop_copies[of s us ?m n 0 buffer] assms(4) os by simp
    have m: "int_of_size ?m = int ?m" using assms(6) by (simp add: min_def)
    show ?thesis
    proof (cases "n < length us - s")
      case over: True
      then have "?m = n + 1" by simp
      then show ?thesis unfolding unfold l using over True m by (simp add: terminate_units_def)
    next
      case False
      then have c: "cut_of os s (int n) = drop s os" "capacity_of (int n) = n" "?m = length us - s" "take ?m (drop s os) = drop s os"
        using os by (simp_all add: cut_of_def capacity_of_def)
      have "length (slice_of os s (int n) options) \<le> length buffer"
        using assms(7) c(1,2) False os by (auto simp: slice_of_def terminator_def)
      then show ?thesis unfolding unfold l c(3,4)
        using terminated_slice[of os s "int n" options buffer] c m False assms(3-6) os by simp
    qed
  qed
qed

theorem one_byte_copy_of_wide_text_overruns_witness:
  "WriteOneByte (\<lambda>_. \<lparr>has8BitContent = True, code_units = [65, 0, 66, 0, 67, 0]\<rparr>)
     \<lparr>has8BitContent = False, code_units = [65, 66, 67]\<rparr> (Some [1, 2]) (int 0) (int 2) 0 = Inl OutOfBounds"
  by (subst one_byte_copy_of_wide_text_overruns[OF _ _ _ _ _ _ _ refl]) (simp_all add: spread_def)

section \<open>Values as text\<close>

lemma strncpy_exact:
  assumes "length dest = n + 1" "length u = n"
  shows "rbind (strncpy dest (u @ rest) (length u)) (\<lambda>b. put_cell (int (length u)) 0 b) =
    (let t = takeWhile (\<lambda>c. c \<noteq> 0) u in Inr (t @ replicate (n + 1 - length t) 0))"
proof -
  let ?t = "takeWhile (\<lambda>c. c \<noteq> 0) u"
  let ?w = "?t @ replicate (n - length ?t) (0 :: octet)"
  have t: "length ?t \<le> n" using assms(2) length_takeWhile_le[of _ u] by auto
  then have w: "length ?w = n" by simp
  have "put_cell (int n) 0 (overwrite 0 ?w dest) = Inr (overwrite 0 (?w @ [0]) dest)"
    using assms(1) w overwrite_overwrite[of 0 ?w "[0]" dest] by (simp add: put_cell_def overwrite_single)
  also have "overwrite 0 (?w @ [0]) dest = ?w @ [0]" using assms(1) w by (intro overwrite_full) simp
  also have "?w @ [0] = ?t @ replicate (n + 1 - length ?t) 0" using t
    by (simp add: Suc_diff_le flip: replicate_append_same)
  finally show ?thesis using assms by (simp add: strncpy_def Let_def)
qed

text \<open>The bytes that \<^verbatim>\<open>Utf8Value\<close> copies.\<close>

definition value_bytes :: "(es_string \<Rightarrow> 32 word \<Rightarrow> octet list) \<Rightarrow> es_string \<Rightarrow> octet list" where
  "value_bytes toStd s = (if has8BitContent s then string_bytes s else toStd s 0)"

lemma Utf8Value_bytes:
  assumes "n = length (value_bytes toStd s)" "n + 1 < 2 ^ 31" and "\<And>k. length (junk k) = k"
  shows "Utf8Value toStd junk (Some s) = (let t = takeWhile (\<lambda>c. c \<noteq> 0) (value_bytes toStd s) in
    Inr (Some (t @ replicate (n + 1 - length t) 0), int n))"
proof -
  let ?u = "value_bytes toStd s"
  have size: "int_of_size (if has8BitContent s then length (code_units s) else length (toStd s 0)) = int n"
    "size_of_int (int n + 1) = n + 1" "size_of_int (int n) = n"
    using assms(1,2) by (cases "has8BitContent s", simp_all add: value_bytes_def string_bytes_def nat_add_distrib)
  let ?r = "let t = takeWhile (\<lambda>c. c \<noteq> 0) ?u in t @ replicate (n + 1 - length t) 0"
  have copied: "rbind (strncpy (junk (n + 1)) (?u @ rest) n) (\<lambda>b. rbind (put_cell (int n) 0 b) (\<lambda>b. Inr (Some b, int n))) =
    Inr (Some ?r, int n)" for rest
  proof -
    have "rbind (strncpy (junk (n + 1)) (?u @ rest) n) (\<lambda>b. put_cell (int n) 0 b) = Inr ?r"
      using strncpy_exact[OF assms(3)[of "n + 1"] assms(1)[symmetric], of rest] by (simp only: Let_def assms(1)[symmetric])
    then show ?thesis by (simp only: rbind_assoc[symmetric] rbind_Inr)
  qed
  show ?thesis
  proof (cases "has8BitContent s")
    case True
    then have u: "?u @ [] = string_bytes s" by (simp add: value_bytes_def)
    show ?thesis using copied[of "[]", unfolded u] size
      by (simp only: Utf8Value_def Let_def option.case True if_True)
  next
    case False
    then have u: "?u @ [0] = toStd s 0 @ [0]" by (simp add: value_bytes_def)
    show ?thesis using copied[of "[0]", unfolded u] size
      by (simp only: Utf8Value_def Let_def option.case False if_False)
  qed
qed

lemma takeWhile_all: "0 \<notin> set u \<Longrightarrow> takeWhile (\<lambda>c. c \<noteq> 0) u = u"
  by (auto simp: takeWhile_eq_all_conv)

lemma encode_long: "list_all (\<lambda>c. c \<le> 127) us \<or> length us < length (encode us)"
proof (induction us)
  case (Cons u us)
  have "1 \<le> length (utf8_char u)" "u \<le> 127 \<or> 2 \<le> length (utf8_char u)" by (auto simp: utf8_char_def)
  moreover have "length us \<le> length (encode us)"
    using Cons by (auto simp: encode_ascii list_all_iff)
  ultimately show ?case using Cons by auto
qed simp

text \<open>\<^verbatim>\<open>String::Utf8Value\<close> of a string with one-byte units holds its Latin-1 bytes, which are its
  UTF-8 encoding only if the string is ASCII.\<close>

theorem utf8_value_is_latin1:
  assumes "has8BitContent s" "0 \<notin> set (string_bytes s)" "length (code_units s) + 1 < 2 ^ 31" "\<And>k. length (junk k) = k"
  shows "\<exists>text. Utf8Value toStd junk (Some s) = Inr (Some (text @ [0]), int (length text)) \<and> text = map octet_of (code_units s)
    \<and> (text = encode (code_units s)) = isAsciiString s"
proof (intro exI conjI)
  have b: "value_bytes toStd s = map octet_of (code_units s)" "0 \<notin> set (map octet_of (code_units s))"
    using assms(1,2) by (simp_all add: value_bytes_def string_bytes_def)
  show "Utf8Value toStd junk (Some s) =
      Inr (Some (map octet_of (code_units s) @ [0]), int (length (map octet_of (code_units s))))"
    using Utf8Value_bytes[of "length (code_units s)" toStd s junk] assms(3,4) b takeWhile_all[OF b(2)] by (simp add: Let_def)
  show "(map octet_of (code_units s) = encode (code_units s)) = isAsciiString s"
  proof
    assume e: "map octet_of (code_units s) = encode (code_units s)"
    have "length (encode (code_units s)) = length (code_units s)" by (simp flip: e)
    then show "isAsciiString s" using encode_long[of "code_units s"] assms(1) by (simp add: isAsciiString_def)
  qed (simp add: isAsciiString_def list_all_iff encode_ascii)
qed simp

theorem utf8_value_is_latin1_witness:
  "\<exists>text. Utf8Value (\<lambda>_ _. []) (\<lambda>k. replicate k 7) (Some \<lparr>has8BitContent = True, code_units = [65, 233]\<rparr>) =
      Inr (Some (text @ [0]), int (length text)) \<and> text = map octet_of [65, 233] \<and> (text = encode [65, 233]) = False"
  using utf8_value_is_latin1[of "\<lparr>has8BitContent = True, code_units = [65, 233]\<rparr>" "\<lambda>k. replicate k 7" "\<lambda>_ _. []"]
  by (simp add: string_bytes_def octet_of_def isAsciiString_def)

text \<open>The text of a value with a null ends there, its length does not.\<close>

theorem utf8_value_is_cut_at_null:
  assumes "value_bytes toStd s = before @ 0 # after" "0 \<notin> set before" "length (value_bytes toStd s) + 1 < 2 ^ 31"
    and "\<And>k. length (junk k) = k"
  shows "Utf8Value toStd junk (Some s) =
    Inr (Some (before @ replicate (length after + 2) 0), int (length (before @ 0 # after)))"
proof -
  have "takeWhile (\<lambda>c. c \<noteq> 0) (before @ 0 # after) = before" using assms(2) by (simp add: takeWhile_tail takeWhile_all)
  then show ?thesis using Utf8Value_bytes[OF refl assms(3,4)] assms(1) by (simp add: Let_def)
qed

lemma string_value_all:
  assumes "int (length (code_units s)) < kMaxStringLength" "\<And>k. length (junk k) = k"
  shows "StringValue junk (Some s) = Inr (Some (map unit_of (code_units s) @ [0]), int (length (code_units s)))"
proof -
  have "length (code_units s) < 2 ^ 31" using assms(1) by (simp add: kMaxStringLength_def)
  moreover have "size_of_int (int (length (code_units s)) + 1) = length (code_units s) + 1"
    using calculation by (simp add: nat_add_distrib)
  moreover have "Write s (Some (junk (length (code_units s) + 1))) 0 (- 1) 0 =
      Inr (int (length (code_units s)), Some (map unit_of (code_units s) @ [0]))"
    using wide.copy_all[of s "junk (length (code_units s) + 1)"] assms by simp
  ultimately show ?thesis by (simp add: StringValue_def Let_def)
qed

section \<open>New strings\<close>

definition string_ok :: "es_string \<Rightarrow> bool" where
  "string_ok s = list_all (\<lambda>u. u < (if has8BitContent s then 256 else 65536)) (code_units s)"

lemma copy_wide:
  assumes "d + length (code_units src) \<le> length dest"
  shows "copyStringToTwoByteArray dest d src = Inr (overwrite d (map unit_of (code_units src)) dest)"
proof (cases "has8BitContent src")
  case True
  let ?us = "map unit_of (code_units src)"
  have "\<exists>r. foldM (\<lambda>i dest. put_cell (int (d + i)) (unit_of (code_units src ! i)) dest) [0..<length (code_units src)] dest = Inr r
    \<and> r = overwrite d (take (length (code_units src)) ?us) dest"
  proof (rule foldM_upt_invariant)
    fix i t
    assume i: "i < length (code_units src)" "t = overwrite d (take i ?us) dest"
    then have tk: "take (Suc i) ?us = take i ?us @ [unit_of (code_units src ! i)]" by (simp add: take_Suc_conv_app_nth)
    have "t[d + i := unit_of (code_units src ! i)] = overwrite d (take (Suc i) ?us) dest"
      using i tk assms overwrite_snoc[of d "take i ?us" dest "unit_of (code_units src ! i)"] by simp
    moreover have "nat (int d + int i) = d + i" by simp
    ultimately show "\<exists>u. put_cell (int (d + i)) (unit_of (code_units src ! i)) t = Inr u \<and> u = overwrite d (take (Suc i) ?us) dest"
      using i assms by (simp add: put_cell_def)
  qed simp_all
  then show ?thesis using True by (simp add: copyStringToTwoByteArray_def)
next
  case False
  then show ?thesis using assms by (simp add: copyStringToTwoByteArray_def memcpy_def)
qed

lemma overwrite_two: "length b = length xs + length ys \<Longrightarrow> overwrite (length xs) ys (overwrite 0 xs b) = xs @ ys"
  using overwrite_overwrite[of 0 xs ys b] by (simp add: overwrite_full)

text \<open>The concatenation of two strings, of any widths, has the units of both. The engine is assumed to make a
  string of the units that it is given.\<close>

theorem concat_appends:
  assumes latin1: "\<And>us. list_all (\<lambda>u. u < 256) us \<Longrightarrow> code_units (createFromLatin1 (map octet_of us)) = us"
    and utf16: "\<And>us. list_all (\<lambda>u. u < 65536) us \<Longrightarrow> code_units (createFromUTF16 (map unit_of us)) = us"
    and "string_ok l" "string_ok r" "\<And>k. length (junk8 k) = k" "\<And>k. length (junk16 k) = k"
  shows "\<exists>s. Concat createFromLatin1 createFromUTF16 junk8 junk16 (Some l) (Some r) = Inr (Some s)
    \<and> code_units s = code_units l @ code_units r"
proof (cases "has8BitContent l \<and> has8BitContent r")
  case True
  then have "list_all (\<lambda>u. u < 256) (code_units l @ code_units r)" using assms(3,4) by (simp add: string_ok_def)
  from latin1[OF this] show ?thesis
    using True assms(5) overwrite_two[of "junk8 (length (code_units l) + length (code_units r))" "map octet_of (code_units l)"
        "map octet_of (code_units r)"]
    by (simp add: Concat_def memcpy_def string_bytes_def Let_def)
next
  case False
  have "list_all (\<lambda>u. u < 65536) (code_units l @ code_units r)"
    using assms(3,4) by (auto simp: string_ok_def list_all_iff split: if_splits)
  note u = utf16[OF this]
  let ?j = "junk16 (length (code_units l) + length (code_units r))"
  have "copyStringToTwoByteArray ?j 0 l = Inr (overwrite 0 (map unit_of (code_units l)) ?j)" by (rule copy_wide) (simp add: assms(6))
  moreover have "copyStringToTwoByteArray (overwrite 0 (map unit_of (code_units l)) ?j) (length (code_units l)) r =
    Inr (map unit_of (code_units l) @ map unit_of (code_units r))"
    using copy_wide[of "length (code_units l)" r] overwrite_two[of ?j "map unit_of (code_units l)" "map unit_of (code_units r)"]
    by (simp add: assms(6))
  ultimately show ?thesis using False u by (auto simp: Concat_def Let_def)
qed

lemma octet_nat: "u < 256 \<Longrightarrow> unat (octet_of u) = u"
  by (simp add: octet_of_def unat_of_nat)

lemma unit_nat: "u < 65536 \<Longrightarrow> unat (unit_of u) = u"
  by (simp add: unit_of_def unat_of_nat)

theorem concat_appends_witness:
  "\<exists>s. Concat (\<lambda>bs. \<lparr>has8BitContent = True, code_units = map unat bs\<rparr>) (\<lambda>us. \<lparr>has8BitContent = False, code_units = map unat us\<rparr>)
      (\<lambda>k. replicate k 0) (\<lambda>k. replicate k 0) (Some \<lparr>has8BitContent = True, code_units = [65]\<rparr>)
      (Some \<lparr>has8BitContent = False, code_units = [300, 66]\<rparr>) = Inr (Some s) \<and> code_units s = [65, 300, 66]"
  using concat_appends[of "\<lambda>bs. \<lparr>has8BitContent = True, code_units = map unat bs\<rparr>"
      "\<lambda>us. \<lparr>has8BitContent = False, code_units = map unat us\<rparr>" "\<lparr>has8BitContent = True, code_units = [65]\<rparr>"
      "\<lparr>has8BitContent = False, code_units = [300, 66]\<rparr>" "\<lambda>k. replicate k 0" "\<lambda>k. replicate k 0"]
  by (simp add: list_all_iff octet_nat unit_nat map_idI string_ok_def)

text \<open>What the three makers of strings promise.\<close>

locale string_maker =
  fixes new_from :: "(('c :: zero) list \<Rightarrow> es_string) \<Rightarrow> es_string \<Rightarrow> 'c list \<Rightarrow> int \<Rightarrow> es_string option res"
  assumes new_none: "new_from mk e data 0 = Inr (Some e)"
    and new_long: "kMaxStringLength < n \<Longrightarrow> new_from mk e data n = Inr None"
    and new_counted: "0 < n \<Longrightarrow> n \<le> kMaxStringLength \<Longrightarrow>
      new_from mk e data n = rbind (read_cells data n) (\<lambda>cs. Inr (Some (mk cs)))"
    and new_terminated: "n < 0 \<Longrightarrow>
      new_from mk e data n = rbind (rbind (strLength data) (read_cells data)) (\<lambda>cs. Inr (Some (mk cs)))"
begin

lemma new_of_prefix: "0 < n \<Longrightarrow> int n \<le> kMaxStringLength \<Longrightarrow> new_from mk e data (int n) =
    (if n \<le> length data then Inr (Some (mk (take n data))) else Inl OutOfBounds)"
  by (simp add: new_counted read_cells_def kMaxStringLength_def guard_def)

lemma new_of_text:
  assumes "0 \<notin> set cs" "n < 0"
  shows "new_from mk e (cs @ 0 # rest) n = (if int (length cs) \<le> kMaxStringLength then Inr (Some (mk cs)) else Inl CheckFailed)"
proof -
  have "takeWhile (\<lambda>c. c \<noteq> 0) (cs @ 0 # rest) = cs"
    using assms(1) by (simp add: takeWhile_tail takeWhile_eq_all_conv) (metis takeWhile_eq_all_conv)
  then have "strLength (cs @ 0 # rest) = (if int (length cs) \<le> kMaxStringLength then Inr (int (length cs)) else Inl CheckFailed)"
    by (simp add: strLength_def guard_def kMaxStringLength_def)
  then show ?thesis using assms(2) by (simp add: new_terminated read_cells_def kMaxStringLength_def)
qed

lemma new_unterminated: "0 \<notin> set data \<Longrightarrow> n < 0 \<Longrightarrow> new_from mk e data n = Inl OutOfBounds"
  by (simp add: new_terminated strLength_def list_ex_iff)

end

interpretation utf8: string_maker NewFromUtf8
  by unfold_locales (simp_all add: NewFromUtf8_def kMaxStringLength_def rbind_assoc)

interpretation latin1: string_maker NewFromOneByte
  by unfold_locales (simp_all add: NewFromOneByte_def kMaxStringLength_def rbind_assoc)

interpretation utf16: string_maker NewFromTwoByte
  by unfold_locales (simp_all add: NewFromTwoByte_def kMaxStringLength_def rbind_assoc)

section \<open>Copies and back\<close>

text \<open>C28. \<^verbatim>\<open>Write\<close> and \<^verbatim>\<open>WriteOneByte\<close> on a string with one-byte units: for every start
  and every positive length they copy the slice that begins there and fits, with a null if there is room, return its length and
  stay inside of a buffer of that length; a start outside of the string writes nothing.\<close>

theorem writes_copy_the_slice:
  assumes "length us < 2 ^ 31" "p < 2 ^ 31" "- (2 ^ 31) \<le> p" "0 < n" "n < 2 ^ 31"
    and wide: "length wide_buffer = n" and narrow: "length buffer = n" and str: "str = \<lparr>has8BitContent = True, code_units = us\<rparr>"
  shows "if 0 \<le> p \<and> p \<le> int (length us)
    then Write str (Some wide_buffer) p (int n) options = Inr (min (int n) (int (length us) - p),
          Some (overwrite 0 (slice_of (map unit_of us) (nat p) (int n) options) wide_buffer))
       \<and> WriteOneByte cf str (Some buffer) p (int n) options = Inr (min (int n) (int (length us) - p),
          Some (overwrite 0 (slice_of (map octet_of us) (nat p) (int n) options) buffer))
    else Write str (Some wide_buffer) p (int n) options = Inr (0, Some wide_buffer)
       \<and> WriteOneByte cf str (Some buffer) p (int n) options = Inr (0, Some buffer)"
proof (cases "0 \<le> p \<and> p \<le> int (length us)")
  case True
  have m: "int (length (cut_of (map f us) (nat p) (int n))) = min (int n) (int (length us) - p)" for f :: "nat \<Rightarrow> 'x"
    using True by (auto simp: cut_of_def capacity_of_def min_def)
  show ?thesis
    using True assms m[of unit_of] m[of octet_of] wide.slice_fits[of "int n" str "nat p" options]
      narrow.slice_fits[of "int n" us "nat p" options] wide.copy_slice[of str "nat p" "int n" options wide_buffer]
      narrow.copy_slice[of us "nat p" "int n" options buffer cf] by simp
next
  case False
  then show ?thesis
    using assms wide.copy_outside[of str p "Some wide_buffer" "int n" options] narrow.copy_outside[of us p cf "Some buffer" "int n" options]
    by auto
qed

theorem writes_copy_the_slice_witness:
  "Write \<lparr>has8BitContent = True, code_units = [72, 105, 33]\<rparr> (Some [9, 9, 9, 9]) 1 (int 4) 0 = Inr (2, Some [105, 33, 0, 9])"
  using writes_copy_the_slice[of "[72, 105, 33]" 1 4 "[9, 9, 9, 9]" "[9, 9, 9, 9]" _ 0]
  by (simp add: slice_of_def cut_of_def capacity_of_def terminator_def overwrite_def unit_of_def)

theorem utf8_value_is_cut_at_null_witness:
  "Utf8Value (\<lambda>_ _. []) (\<lambda>k. replicate k 7) (Some \<lparr>has8BitContent = True, code_units = [65, 0, 66]\<rparr>) = Inr (Some [65, 0, 0, 0], 3)"
proof -
  let ?s = "\<lparr>has8BitContent = True, code_units = [65, 0, 66]\<rparr>"
  have v: "value_bytes (\<lambda>_ _. []) ?s = [65] @ 0 # [66]" by (simp add: value_bytes_def string_bytes_def octet_of_def)
  have r: "replicate (length [66 :: octet] + 2) 0 = [0, 0, 0 :: octet]" by (simp add: numeral_2_eq_2)
  have "Utf8Value (\<lambda>_ _. []) (\<lambda>k. replicate k 7) (Some ?s) =
      Inr (Some ([65] @ replicate (length [66 :: octet] + 2) 0), int (length ([65] @ 0 # [66 :: octet])))"
    by (rule utf8_value_is_cut_at_null[OF v]) (simp_all add: v)
  then show ?thesis by (simp only: r) simp
qed

lemma octet_zero: "n < 256 \<Longrightarrow> octet_of n = 0 \<longleftrightarrow> n = 0"
proof
  assume "n < 256" "octet_of n = 0"
  then show "n = 0" using octet_nat[of n] by simp
qed (simp add: octet_of_def)

lemma encode_nonzero: "0 \<notin> set cs \<Longrightarrow> \<forall>c \<in> set cs. c < 0x110000 \<Longrightarrow> 0 \<notin> set (encode cs)"
proof (induction cs)
  case (Cons c cs)
  have "0xC0 + c div 64 < 256" if "c < 0x800" using that by simp
  moreover have "0xE0 + c div 4096 < 256" if "c < 0x10000" using that by simp
  moreover have "c < 0x110000" using Cons.prems(2) by simp
  then have "0xF0 + c div 262144 < 256" by simp
  ultimately have "0 \<notin> set (utf8_char c)"
    using Cons.prems by (auto simp: utf8_char_def octet_zero dest!: sym[of 0])
  then show ?case using Cons by simp
qed simp

lemma Utf8Length_encode:
  assumes "toStd s 0 = encode cs" "chars = characters cs s" "length (encode chars) < 2 ^ 31"
  shows "Utf8Length toStd s = int (length (encode chars))"
proof (cases "isAsciiString s")
  case True
  then have "length (encode chars) = length (code_units s)"
    using assms(2) by (simp add: characters_def isAsciiString_def list_all_iff encode_ascii)
  then show ?thesis using True assms(3) by (simp add: Utf8Length_def)
qed (use assms in \<open>simp add: Utf8Length_def characters_def\<close>)

text \<open>C30. A buffer of \<^verbatim>\<open>Utf8Length\<close> bytes and one more takes the whole of a string without nulls, and
  \<^verbatim>\<open>NewFromUtf8\<close> makes the same string of it. The engine is assumed to decode what it encodes.\<close>

theorem utf8_round_trip:
  assumes "\<forall>c \<in> set cs. c < 0x110000" "0 \<notin> set chars" and chars: "chars = characters cs s"
    and out: "toStd s 0 = encode cs" and decode: "decoder (encode chars) = s"
    and "int (length (encode chars)) < kMaxStringLength" "int (length buffer) = Utf8Length toStd s + 1"
  shows "\<exists>b. WriteUtf8 toStd s buffer (Utf8Length toStd s + 1) 0 = Inr (Utf8Length toStd s + 1, int (length chars), b)
    \<and> NewFromUtf8 decoder e b (- 1) = Inr (Some s)"
proof -
  let ?n = "length (encode chars)"
  have l: "?n < 2 ^ 31" using assms(6) by (simp add: kMaxStringLength_def)
  note u = Utf8Length_encode[where toStd = toStd, OF out chars l]
  have b: "length buffer = ?n + 1" using assms(7) u by simp
  have f: "fitting (?n + 1) chars = length chars" by (simp add: fitting_all)
  have "\<forall>c \<in> set chars. c < 0x110000" using assms(1) chars by (auto simp: characters_def isAsciiString_def list_all_iff)
  then have "0 \<notin> set (encode chars)" by (rule encode_nonzero[OF assms(2)])
  then have "NewFromUtf8 decoder e (encode chars @ 0 # []) (- 1) = Inr (Some s)"
    using utf8.new_of_text[of "encode chars" "- 1" decoder e "[]"] assms(6) decode by simp
  moreover have "WriteUtf8 toStd s buffer (int (?n + 1)) 0 = Inr (int (?n + 1), int (length chars), encode chars @ [0])"
    using WriteUtf8_fitting[where toStd = toStd and options = 0, OF assms(1) out chars l refl _ refl, of "?n + 1" buffer, unfolded f] b
    by (simp add: terminator_def overwrite_full add.commute)
  ultimately show ?thesis using u by (intro exI[of _ "encode chars @ [0]"]) (simp add: add.commute)
qed

theorem utf8_round_trip_witness:
  "\<exists>b. WriteUtf8 (\<lambda>_ _. encode [65, 0x20AC]) \<lparr>has8BitContent = False, code_units = [65, 0x20AC]\<rparr> [9, 9, 9, 9, 9] 5 0 = Inr (5, 2, b)
    \<and> NewFromUtf8 (\<lambda>_. \<lparr>has8BitContent = False, code_units = [65, 0x20AC]\<rparr>) \<lparr>has8BitContent = True, code_units = []\<rparr> b (- 1) =
      Inr (Some \<lparr>has8BitContent = False, code_units = [65, 0x20AC]\<rparr>)"
proof -
  let ?s = "\<lparr>has8BitContent = False, code_units = [65, 0x20AC]\<rparr>"
  have c: "[65, 0x20AC] = characters [65, 0x20AC] ?s" by (simp add: characters_def isAsciiString_def)
  have l: "length (encode [65, 0x20AC]) = 4" by (simp add: utf8_char_def)
  then have u: "Utf8Length (\<lambda>_ _. encode [65, 0x20AC]) ?s = 4" by (simp add: Utf8Length_def isAsciiString_def del: encode_simps)
  show ?thesis
    using utf8_round_trip[where s = ?s and toStd = "\<lambda>_ _. encode [65, 0x20AC]" and decoder = "\<lambda>_. ?s"
        and buffer = "[9, 9, 9, 9, 9]" and e = "\<lparr>has8BitContent = True, code_units = []\<rparr>", OF _ _ c refl refl] l u
    by (simp add: kMaxStringLength_def del: encode_simps)
qed

end
