(* ===== verification/Objects.thy ===== *)
theory Objects
  imports Templates
begin

text \<open>
  Properties of objects: the operations of \<^verbatim>\<open>v8::Object\<close> in \<^verbatim>\<open>src/src/api-data.cc\<close>, the
  helpers that they run inside of the engine, \<^verbatim>\<open>ObjectRefHelper\<close> in \<^verbatim>\<open>src/src/api/es-helper.cc\<close>, and
  the conversions of attributes in \<^verbatim>\<open>src/src/api/es-v8-helper.cc\<close>.

  The objects of the engine and what it does with them are an argument, the record \<open>engine\<close>. Any of its
  operations may run scripts: it takes the state and gives it back with a value or an exception. Values are pointers;
  two values that the engine takes for the same key are the same pointer. Operations take the values of their handles.
\<close>

unbundle bit_operations_syntax

section \<open>The engine\<close>

datatype 'v outcome = Returns 'v | Throws ptr "StackTraceData list"

type_synonym ('w, 'v) eval = "'w \<Rightarrow> ('v outcome \<times> 'w) res"

definition ereturn :: "'v \<Rightarrow> ('w, 'v) eval" where
  "ereturn v w = Inr (Returns v, w)"

definition elift :: "'v res \<Rightarrow> ('w, 'v) eval" where
  "elift m w = rbind m (\<lambda>v. Inr (Returns v, w))"

definition ebind :: "('w, 'u) eval \<Rightarrow> ('u \<Rightarrow> ('w, 'v) eval) \<Rightarrow> ('w, 'v) eval" where
  "ebind m f w = rbind (m w) (\<lambda>(r, w). case r of Returns v \<Rightarrow> f v w | Throws e st \<Rightarrow> Inr (Throws e st, w))"

text \<open>\<^verbatim>\<open>Evaluator::execute\<close> stops an exception; what it gives says whether it was successful.\<close>

definition successful :: "('w, 'v) eval \<Rightarrow> ('w, bool) eval" where
  "successful m w = rbind (m w) (\<lambda>(r, w). Inr (Returns (case r of Returns _ \<Rightarrow> True | Throws _ _ \<Rightarrow> False), w))"

text \<open>A property that is enumerated: its name, and whether it is writable, enumerable and configurable.\<close>

type_synonym own_property = "ptr \<times> bool \<times> bool \<times> bool"

record 'w engine =
  e_undefined :: ptr
  e_isObject :: "ptr \<Rightarrow> bool"
  e_isNull :: "ptr \<Rightarrow> bool"
  e_isSymbol :: "ptr \<Rightarrow> bool"
  e_boolean :: "ptr \<Rightarrow> bool option"
  e_index :: "ptr \<Rightarrow> nat option"
  e_ascii :: "string \<Rightarrow> ptr"
  e_number :: "nat \<Rightarrow> ptr"
  e_get :: "ptr \<Rightarrow> ptr \<Rightarrow> ('w, ptr) eval"
  e_getOwnProperty :: "ptr \<Rightarrow> ptr \<Rightarrow> ('w, ptr) eval"
  e_getIndexedProperty :: "ptr \<Rightarrow> ptr \<Rightarrow> ('w, ptr) eval"
  e_getOwnPropertyDescriptor :: "ptr \<Rightarrow> ptr \<Rightarrow> ('w, ptr) eval"
  e_set :: "ptr \<Rightarrow> ptr \<Rightarrow> ptr \<Rightarrow> ('w, bool) eval"
  e_has :: "ptr \<Rightarrow> ptr \<Rightarrow> ('w, bool) eval"
  e_hasOwnProperty :: "ptr \<Rightarrow> ptr \<Rightarrow> ('w, bool) eval"
  e_deleteProperty :: "ptr \<Rightarrow> ptr \<Rightarrow> ('w, bool) eval"
  e_defineDataProperty :: "ptr \<Rightarrow> ptr \<Rightarrow> ptr \<Rightarrow> 32 word \<Rightarrow> ('w, bool) eval"
  e_defineAccessorProperty :: "ptr \<Rightarrow> ptr \<Rightarrow> ptr \<Rightarrow> ptr option \<Rightarrow> 32 word \<Rightarrow> ('w, bool) eval"
  e_getPrototype :: "ptr \<Rightarrow> ('w, ptr) eval"
  e_getPrototypeObject :: "ptr \<Rightarrow> ('w, ptr option) eval"
  e_setObjectPrototype :: "ptr \<Rightarrow> ptr \<Rightarrow> ('w, bool) eval"
  e_setIntegrityLevel :: "ptr \<Rightarrow> bool \<Rightarrow> ('w, bool) eval"
  e_newObject :: "('w, ptr) eval"
  e_newArray :: "ptr list \<Rightarrow> ('w, ptr) eval"
  e_ownProperties :: "ptr \<Rightarrow> ('w, own_property list) eval"
  e_toString :: "ptr \<Rightarrow> ('w, ptr) eval"

definition asObject :: "'w engine \<Rightarrow> ptr \<Rightarrow> ptr res" where
  "asObject eng v = guard TypeConfusion (e_isObject eng v) (Inr v)"

definition asBoolean :: "'w engine \<Rightarrow> ptr \<Rightarrow> bool res" where
  "asBoolean eng v = (case e_boolean eng v of None \<Rightarrow> Inl TypeConfusion | Some b \<Rightarrow> Inr b)"

section \<open>Attributes\<close>

text \<open>The flags of the engine are in a header that is not here; those of the interface are 1, 2 and 4.\<close>

record present_bits =
  WritablePresent :: "32 word"
  EnumerablePresent :: "32 word"
  ConfigurablePresent :: "32 word"
  NonWritablePresent :: "32 word"
  NonEnumerablePresent :: "32 word"
  NonConfigurablePresent :: "32 word"

definition Attr_ReadOnly :: "32 word" where "Attr_ReadOnly = 1"
definition Attr_DontEnum :: "32 word" where "Attr_DontEnum = 2"
definition Attr_DontDelete :: "32 word" where "Attr_DontDelete = 4"

definition toPresentAttribute :: "present_bits \<Rightarrow> 32 word \<Rightarrow> 32 word" where
  "toPresentAttribute bits attributes =
     (let present = 0;
          present = (if attributes AND Attr_ReadOnly \<noteq> 0 then present OR NonWritablePresent bits else present OR WritablePresent bits);
          present = (if attributes AND Attr_DontEnum \<noteq> 0 then present OR NonEnumerablePresent bits else present OR EnumerablePresent bits);
          present = (if attributes AND Attr_DontDelete \<noteq> 0 then present OR NonConfigurablePresent bits
            else present OR ConfigurablePresent bits)
      in present)"

definition toPropertyAttribute :: "present_bits \<Rightarrow> 32 word \<Rightarrow> 32 word" where
  "toPropertyAttribute bits attributes =
     (let property = 0;
          property = (if attributes AND NonWritablePresent bits \<noteq> 0 then property OR NonWritablePresent bits else property);
          property = (if attributes AND NonEnumerablePresent bits \<noteq> 0 then property OR NonEnumerablePresent bits else property);
          property = (if attributes AND NonConfigurablePresent bits \<noteq> 0 then property OR NonConfigurablePresent bits else property)
      in property)"

definition getOwnPropertyAttributes :: "'w engine \<Rightarrow> present_bits \<Rightarrow> ptr \<Rightarrow> ptr \<Rightarrow> ('w, 32 word option) eval" where
  "getOwnPropertyAttributes eng bits object key = ebind (e_getOwnPropertyDescriptor eng object key) (\<lambda>descriptor.
     if descriptor = e_undefined eng then ereturn None
     else let flag = (\<lambda>name. ebind (elift (asObject eng descriptor)) (\<lambda>d. ebind (e_get eng d (e_ascii eng name)) (\<lambda>v. elift (asBoolean eng v)))) in
       ebind (flag ''writable'') (\<lambda>isWritable. ebind (flag ''enumerable'') (\<lambda>isEnumerable. ebind (flag ''configurable'') (\<lambda>isConfigurable.
       let attribute = 0;
           attribute = attribute OR (if isWritable then WritablePresent bits else NonWritablePresent bits);
           attribute = attribute OR (if isEnumerable then EnumerablePresent bits else NonEnumerablePresent bits);
           attribute = attribute OR (if isConfigurable then ConfigurablePresent bits else NonConfigurablePresent bits)
       in ereturn (Some attribute)))))"

text \<open>The loop along the prototypes ends where the engine has no further object. It has fuel, as the engine may lead it
  in a circle.\<close>

fun attributes_loop :: "'w engine \<Rightarrow> present_bits \<Rightarrow> bool \<Rightarrow> ptr \<Rightarrow> nat \<Rightarrow> ptr \<Rightarrow> ('w, 32 word option) eval" where
  "attributes_loop eng bits skip key 0 currentObject = elift (Inl NoFuel)"
| "attributes_loop eng bits skip key (Suc fuel) currentObject =
     ebind (getOwnPropertyAttributes eng bits currentObject key) (\<lambda>attribute.
       if skip \<or> attribute \<noteq> None then ereturn attribute
       else ebind (e_getPrototypeObject eng currentObject) (\<lambda>p. case p of None \<Rightarrow> ereturn attribute
         | Some currentObject \<Rightarrow> attributes_loop eng bits skip key fuel currentObject))"

definition getPropertyAttributes :: "'w engine \<Rightarrow> present_bits \<Rightarrow> nat \<Rightarrow> ptr \<Rightarrow> ptr \<Rightarrow> bool \<Rightarrow> ('w, 32 word option) eval" where
  "getPropertyAttributes eng bits fuel object key skipTraversingPrototypeChain =
     attributes_loop eng bits skipTraversingPrototypeChain key fuel object"

section \<open>Properties\<close>

definition getOwnIndexedProperty :: "'w engine \<Rightarrow> ptr \<Rightarrow> nat \<Rightarrow> ('w, ptr) eval" where
  "getOwnIndexedProperty eng object index = ebind (e_getOwnProperty eng object (e_number eng index)) (\<lambda>ownIndexProperty.
     ebind (e_getIndexedProperty eng object (e_number eng index)) (\<lambda>propertyValue.
     let none = (\<lambda>v. v = e_undefined eng \<or> e_isNull eng v) in
     if none ownIndexProperty \<or> none propertyValue then ereturn (e_undefined eng) else ereturn propertyValue))"

definition getPrototype :: "'w engine \<Rightarrow> ptr \<Rightarrow> 'w \<Rightarrow> (ptr \<times> 'w) res" where
  "getPrototype eng object w = rbind (e_getPrototype eng object w) (\<lambda>(r, w). case r of
     Throws _ _ \<Rightarrow> Inl CheckFailed | Returns v \<Rightarrow> rbind (asObject eng v) (\<lambda>v. Inr (v, w)))"

definition setPrototype :: "'w engine \<Rightarrow> ptr \<Rightarrow> ptr \<Rightarrow> ('w, bool) eval" where
  "setPrototype eng object prototype w = rbind (e_setObjectPrototype eng object prototype w) (\<lambda>(r, w). case r of
     Throws _ _ \<Rightarrow> Inl CheckFailed | Returns b \<Rightarrow> Inr (Returns b, w))"

text \<open>Private values are properties of a hidden object, which is a property of the object.\<close>

definition getPrivate :: "'w engine \<Rightarrow> ptr \<Rightarrow> ptr \<Rightarrow> ptr \<Rightarrow> ('w, ptr) eval" where
  "getPrivate eng privateValueSymbol object key = ebind (e_getOwnProperty eng object privateValueSymbol) (\<lambda>hiddenValuesRef.
     if hiddenValuesRef = e_undefined eng then ereturn (e_undefined eng)
     else ebind (elift (asObject eng hiddenValuesRef)) (\<lambda>h. e_get eng h key))"

definition setPrivate :: "'w engine \<Rightarrow> present_bits \<Rightarrow> ptr \<Rightarrow> ptr \<Rightarrow> ptr \<Rightarrow> ptr \<Rightarrow> ('w, bool) eval" where
  "setPrivate eng bits privateValueSymbol object key value =
     ebind (elift (guard CheckFailed (e_isSymbol eng key) (Inr ()))) (\<lambda>_.
     ebind (e_get eng object privateValueSymbol) (\<lambda>hiddenValuesRef.
     ebind (if hiddenValuesRef = e_undefined eng
       then ebind (e_newObject eng) (\<lambda>hiddenValuesObject.
         ebind (successful (e_defineDataProperty eng object privateValueSymbol hiddenValuesObject
           (WritablePresent bits OR NonEnumerablePresent bits OR NonConfigurablePresent bits))) (\<lambda>_.
         ereturn hiddenValuesObject))
       else elift (asObject eng hiddenValuesRef)) (\<lambda>hiddenValuesObject.
     ebind (e_set eng hiddenValuesObject key value) (\<lambda>_. ereturn True))))"

definition deletePrivateProperty :: "'w engine \<Rightarrow> ptr \<Rightarrow> ptr \<Rightarrow> ptr \<Rightarrow> ('w, bool) eval" where
  "deletePrivateProperty eng privateValueSymbol object key = ebind (e_get eng object privateValueSymbol) (\<lambda>privateValuesObj.
     if privateValuesObj = e_undefined eng then ereturn False
     else ebind (elift (asObject eng privateValuesObj)) (\<lambda>h. e_deleteProperty eng h key))"

section \<open>Names of properties\<close>

definition ONLY_WRITABLE :: "32 word" where "ONLY_WRITABLE = 1"
definition ONLY_ENUMERABLE :: "32 word" where "ONLY_ENUMERABLE = 2"
definition ONLY_CONFIGURABLE :: "32 word" where "ONLY_CONFIGURABLE = 4"
definition SKIP_STRINGS :: "32 word" where "SKIP_STRINGS = 8"
definition SKIP_SYMBOLS :: "32 word" where "SKIP_SYMBOLS = 16"

datatype key_collection_mode = kOwnOnly | kIncludePrototypes
datatype index_filter = kIncludeIndices | kSkipIndices
datatype key_conversion_mode = kConvertToString | kKeepNumbers | kNoNumbers

text \<open>The set of the names seen and the three vectors of one object.\<close>

record name_vectors =
  nv_set :: "ptr list"
  nv_indexes :: "ptr list"
  nv_strings :: "ptr list"
  nv_symbols :: "ptr list"

definition pushUniqueValue :: "ptr list \<Rightarrow> ptr list \<Rightarrow> ptr \<Rightarrow> ptr list \<times> ptr list" where
  "pushUniqueValue seen vector value = (if value \<notin> set seen then (seen @ [value], vector @ [value]) else (seen, vector))"

definition collect_property :: "'w engine \<Rightarrow> 32 word \<Rightarrow> index_filter \<Rightarrow> own_property \<Rightarrow> name_vectors \<Rightarrow> name_vectors" where
  "collect_property eng pf ixf p v = (case p of (propertyName, isWritable, isEnumerable, isConfigurable) \<Rightarrow>
     if e_isSymbol eng propertyName then
       if pf AND SKIP_SYMBOLS = 0 then
         (let (s, x) = pushUniqueValue (nv_set v) (nv_symbols v) propertyName in v\<lparr>nv_set := s, nv_symbols := x\<rparr>)
       else v
     else if pf AND (ONLY_WRITABLE OR ONLY_ENUMERABLE OR ONLY_CONFIGURABLE) \<noteq> 0 \<and>
         (pf AND ONLY_WRITABLE \<noteq> 0 \<and> \<not> isWritable \<or> pf AND ONLY_ENUMERABLE \<noteq> 0 \<and> \<not> isEnumerable \<or>
          pf AND ONLY_CONFIGURABLE \<noteq> 0 \<and> \<not> isConfigurable) then v
     else case e_index eng propertyName of
       None \<Rightarrow> if pf AND SKIP_STRINGS = 0 then
           (let (s, x) = pushUniqueValue (nv_set v) (nv_strings v) propertyName in v\<lparr>nv_set := s, nv_strings := x\<rparr>)
         else v
     | Some _ \<Rightarrow> if ixf \<noteq> kSkipIndices then
           (let (s, x) = pushUniqueValue (nv_set v) (nv_indexes v) propertyName in v\<lparr>nv_set := s, nv_indexes := x\<rparr>)
         else v)"

fun to_strings :: "'w engine \<Rightarrow> ptr list \<Rightarrow> ('w, ptr list) eval" where
  "to_strings eng [] = ereturn []"
| "to_strings eng (i # is) = ebind (e_toString eng i) (\<lambda>s. ebind (to_strings eng is) (\<lambda>ss. ereturn (s # ss)))"

text \<open>What one object adds to the vector of names. The names of the indexes of one object are sorted by the index.\<close>

definition push_names :: "'w engine \<Rightarrow> 32 word \<Rightarrow> index_filter \<Rightarrow> key_conversion_mode \<Rightarrow> name_vectors \<Rightarrow> ptr list \<Rightarrow>
    ('w, ptr list) eval" where
  "push_names eng pf ixf conversion v names =
     (let indexes = sort_key (\<lambda>i. the (e_index eng i)) (nv_indexes v) in
      ebind (if ixf \<noteq> kSkipIndices then (if conversion = kConvertToString then to_strings eng indexes else ereturn indexes)
        else ereturn []) (\<lambda>indexes.
      ereturn (names @ indexes @ (if pf AND SKIP_STRINGS = 0 then nv_strings v else []) @
        (if pf AND SKIP_SYMBOLS = 0 then nv_symbols v else []))))"

fun names_loop :: "'w engine \<Rightarrow> key_collection_mode \<Rightarrow> 32 word \<Rightarrow> index_filter \<Rightarrow> key_conversion_mode \<Rightarrow> nat \<Rightarrow> ptr list \<Rightarrow>
    ptr list \<Rightarrow> ptr \<Rightarrow> ('w, ptr list) eval" where
  "names_loop eng mode pf ixf conversion 0 seen names esSelf = elift (Inl NoFuel)"
| "names_loop eng mode pf ixf conversion (Suc fuel) seen names esSelf = ebind (e_ownProperties eng esSelf) (\<lambda>ps.
     let v = fold (collect_property eng pf ixf) ps \<lparr>nv_set = seen, nv_indexes = [], nv_strings = [], nv_symbols = []\<rparr> in
     ebind (push_names eng pf ixf conversion v names) (\<lambda>names.
     if mode = kOwnOnly then ereturn names
     else ebind (e_getPrototypeObject eng esSelf) (\<lambda>prototype. case prototype of None \<Rightarrow> ereturn names
       | Some esSelf \<Rightarrow> names_loop eng mode pf ixf conversion fuel (nv_set v) names esSelf)))"

section \<open>The operations of objects\<close>

text \<open>\<^verbatim>\<open>API_ENTER\<close> and \<^verbatim>\<open>API_HANDLE_EXCEPTION\<close>: \<open>bail\<close> is what the operation answers
  when it cannot run and when it throws.\<close>

definition entered :: "'r \<Rightarrow> ('a exc_scheme \<Rightarrow> ('r \<times> 'a exc_scheme) res) \<Rightarrow> 'a exc_scheme \<Rightarrow> ('r \<times> 'a exc_scheme) res" where
  "entered bail m w = (if IsExecutionTerminating w then Inr (bail, w) else m w)"

definition finish :: "(ptr \<Rightarrow> bool) \<Rightarrow> ('a exc_scheme, 'v) eval \<Rightarrow> 'r \<Rightarrow> ('v \<Rightarrow> 'a exc_scheme \<Rightarrow> ('r \<times> 'a exc_scheme) res) \<Rightarrow>
    'a exc_scheme \<Rightarrow> ('r \<times> 'a exc_scheme) res" where
  "finish obj run bail k w = rbind (run w) (\<lambda>(r, w). case r of
     Throws e st \<Rightarrow> rbind (handleException obj e st w) (\<lambda>w. Inr (bail, w)) | Returns v \<Rightarrow> k v w)"

definition in_current_context :: "('a exc_scheme \<Rightarrow> 'r res) \<Rightarrow> 'a exc_scheme \<Rightarrow> 'r res" where
  "in_current_context m w = rbind (GetCurrentContext w) (\<lambda>_. m w)"

definition just :: "'v \<Rightarrow> 'w \<Rightarrow> ('v option \<times> 'w) res" where
  "just v w = Inr (Some v, w)"

definition local_of :: "ptr \<Rightarrow> 'a scopes_scheme \<Rightarrow> (ptr option \<times> 'a scopes_scheme) res" where
  "local_of v w = some_local (NewLocal v w)"

definition on_self :: "'w engine \<Rightarrow> ptr \<Rightarrow> (ptr \<Rightarrow> ('w, 'v) eval) \<Rightarrow> ('w, 'v) eval" where
  "on_self eng this f = ebind (elift (asObject eng this)) f"

definition Object_Set :: "(ptr \<Rightarrow> bool) \<Rightarrow> 'a exc_scheme engine \<Rightarrow> ptr \<Rightarrow> ptr \<Rightarrow> ptr \<Rightarrow> 'a exc_scheme \<Rightarrow>
    (bool option \<times> 'a exc_scheme) res" where
  "Object_Set obj eng this key value = entered None
     (finish obj (on_self eng this (\<lambda>self. e_set eng self key value)) None (\<lambda>_. just True))"

definition Object_Get :: "(ptr \<Rightarrow> bool) \<Rightarrow> 'a exc_scheme engine \<Rightarrow> ptr \<Rightarrow> ptr \<Rightarrow> 'a exc_scheme \<Rightarrow> (ptr option \<times> 'a exc_scheme) res" where
  "Object_Get obj eng this key = entered None (finish obj (on_self eng this (\<lambda>self. e_get eng self key)) None local_of)"

definition Object_Has :: "(ptr \<Rightarrow> bool) \<Rightarrow> 'a exc_scheme engine \<Rightarrow> ptr \<Rightarrow> ptr \<Rightarrow> 'a exc_scheme \<Rightarrow> (bool option \<times> 'a exc_scheme) res" where
  "Object_Has obj eng this key = entered None (finish obj (on_self eng this (\<lambda>self. e_has eng self key)) None just)"

definition Object_Delete :: "(ptr \<Rightarrow> bool) \<Rightarrow> 'a exc_scheme engine \<Rightarrow> ptr \<Rightarrow> ptr \<Rightarrow> 'a exc_scheme \<Rightarrow> (bool option \<times> 'a exc_scheme) res" where
  "Object_Delete obj eng this key = entered None (finish obj (on_self eng this (\<lambda>self. e_deleteProperty eng self key)) None just)"

definition Object_HasOwnProperty :: "(ptr \<Rightarrow> bool) \<Rightarrow> 'a exc_scheme engine \<Rightarrow> ptr \<Rightarrow> ptr \<Rightarrow> 'a exc_scheme \<Rightarrow>
    (bool option \<times> 'a exc_scheme) res" where
  "Object_HasOwnProperty obj eng this key = entered None
     (finish obj (on_self eng this (\<lambda>self. e_hasOwnProperty eng self key)) None just)"

text \<open>By index, the first three make a handle of the number.\<close>

definition with_index :: "'a exc_scheme engine \<Rightarrow> nat \<Rightarrow> (ptr \<Rightarrow> 'a exc_scheme \<Rightarrow> ('r \<times> 'a exc_scheme) res) \<Rightarrow> 'a exc_scheme \<Rightarrow>
    ('r \<times> 'a exc_scheme) res" where
  "with_index eng index f w = rbind (NewLocal (e_number eng index) w) (\<lambda>(h, w). rbind (handle_value (Some h) w) (\<lambda>key. f key w))"

definition Object_SetIndex :: "(ptr \<Rightarrow> bool) \<Rightarrow> 'a exc_scheme engine \<Rightarrow> ptr \<Rightarrow> nat \<Rightarrow> ptr \<Rightarrow> 'a exc_scheme \<Rightarrow>
    (bool option \<times> 'a exc_scheme) res" where
  "Object_SetIndex obj eng this index value = entered None (with_index eng index (\<lambda>key. Object_Set obj eng this key value))"

definition Object_GetIndex :: "(ptr \<Rightarrow> bool) \<Rightarrow> 'a exc_scheme engine \<Rightarrow> ptr \<Rightarrow> nat \<Rightarrow> 'a exc_scheme \<Rightarrow> (ptr option \<times> 'a exc_scheme) res" where
  "Object_GetIndex obj eng this index = entered None (with_index eng index (Object_Get obj eng this))"

definition Object_HasIndex :: "(ptr \<Rightarrow> bool) \<Rightarrow> 'a exc_scheme engine \<Rightarrow> ptr \<Rightarrow> nat \<Rightarrow> 'a exc_scheme \<Rightarrow> (bool option \<times> 'a exc_scheme) res" where
  "Object_HasIndex obj eng this index = entered None (with_index eng index (Object_Has obj eng this))"

definition Object_HasOwnIndex :: "(ptr \<Rightarrow> bool) \<Rightarrow> 'a exc_scheme engine \<Rightarrow> ptr \<Rightarrow> nat \<Rightarrow> 'a exc_scheme \<Rightarrow>
    (bool option \<times> 'a exc_scheme) res" where
  "Object_HasOwnIndex obj eng this index = entered None
     (finish obj (on_self eng this (\<lambda>self. e_hasOwnProperty eng self (e_number eng index))) None just)"

definition Object_HasRealNamedProperty :: "(ptr \<Rightarrow> bool) \<Rightarrow> 'a exc_scheme engine \<Rightarrow> ptr \<Rightarrow> ptr \<Rightarrow> 'a exc_scheme \<Rightarrow>
    (bool option \<times> 'a exc_scheme) res" where
  "Object_HasRealNamedProperty obj eng this key = entered None
     (finish obj (on_self eng this (\<lambda>self. e_getOwnProperty eng self key)) None (\<lambda>v. just (v \<noteq> e_undefined eng)))"

definition Object_HasRealIndexedProperty :: "(ptr \<Rightarrow> bool) \<Rightarrow> 'a exc_scheme engine \<Rightarrow> ptr \<Rightarrow> nat \<Rightarrow> 'a exc_scheme \<Rightarrow>
    (bool option \<times> 'a exc_scheme) res" where
  "Object_HasRealIndexedProperty obj eng this index = entered None
     (finish obj (on_self eng this (\<lambda>self. getOwnIndexedProperty eng self index)) None (\<lambda>v. just (v \<noteq> e_undefined eng)))"

definition Object_GetRealNamedProperty :: "(ptr \<Rightarrow> bool) \<Rightarrow> 'a exc_scheme engine \<Rightarrow> ptr \<Rightarrow> ptr \<Rightarrow> 'a exc_scheme \<Rightarrow>
    (ptr option \<times> 'a exc_scheme) res" where
  "Object_GetRealNamedProperty obj eng this key = entered None
     (finish obj (on_self eng this (\<lambda>self. e_getOwnProperty eng self key)) None
       (\<lambda>v w. if v = e_undefined eng then Inr (None, w) else local_of v w))"

text \<open>Attributes: the first operation passes the flags of the engine on, the second converts them.\<close>

definition Object_GetPropertyAttributes :: "(ptr \<Rightarrow> bool) \<Rightarrow> 'a exc_scheme engine \<Rightarrow> present_bits \<Rightarrow> nat \<Rightarrow> ptr \<Rightarrow> ptr \<Rightarrow>
    'a exc_scheme \<Rightarrow> (32 word option \<times> 'a exc_scheme) res" where
  "Object_GetPropertyAttributes obj eng bits fuel this key = entered None (in_current_context
     (finish obj (on_self eng this (\<lambda>self. getPropertyAttributes eng bits fuel self key False)) None
       (\<lambda>r. case r of None \<Rightarrow> just 0 | Some attribute \<Rightarrow> just attribute)))"

definition Object_GetRealNamedPropertyAttributes :: "(ptr \<Rightarrow> bool) \<Rightarrow> 'a exc_scheme engine \<Rightarrow> present_bits \<Rightarrow> nat \<Rightarrow> ptr \<Rightarrow> ptr \<Rightarrow>
    'a exc_scheme \<Rightarrow> (32 word option \<times> 'a exc_scheme) res" where
  "Object_GetRealNamedPropertyAttributes obj eng bits fuel this key = entered None
     (finish obj (on_self eng this (\<lambda>self. getPropertyAttributes eng bits fuel self key True)) None
       (\<lambda>r. case r of None \<Rightarrow> just 0 | Some attribute \<Rightarrow> just (toPropertyAttribute bits attribute)))"

definition Object_GetPrototype :: "'a exc_scheme engine \<Rightarrow> ptr \<Rightarrow> 'a exc_scheme \<Rightarrow> (ptr \<times> 'a exc_scheme) res" where
  "Object_GetPrototype eng this = in_current_context (\<lambda>w.
     rbind (asObject eng this) (\<lambda>self. rbind (getPrototype eng self w) (\<lambda>(v, w). NewLocal v w)))"

definition Object_SetPrototype :: "(ptr \<Rightarrow> bool) \<Rightarrow> 'a exc_scheme engine \<Rightarrow> ptr \<Rightarrow> ptr \<Rightarrow> 'a exc_scheme \<Rightarrow>
    (bool option \<times> 'a exc_scheme) res" where
  "Object_SetPrototype obj eng this value = entered None
     (finish obj (on_self eng this (\<lambda>self. setPrototype eng self value)) None (\<lambda>_. just True))"

text \<open>An exception of the engine is dropped.\<close>

definition Object_SetIntegrityLevel :: "'a exc_scheme engine \<Rightarrow> ptr \<Rightarrow> bool \<Rightarrow> 'a exc_scheme \<Rightarrow> (bool option \<times> 'a exc_scheme) res" where
  "Object_SetIntegrityLevel eng this isSealed = entered None (in_current_context
     (\<lambda>w. rbind (on_self eng this (\<lambda>self. e_setIntegrityLevel eng self isSealed) w) (\<lambda>(r, w). case r of
        Throws _ _ \<Rightarrow> just True w | Returns b \<Rightarrow> just b w)))"

section \<open>Private values\<close>

definition Object_SetPrivate :: "(ptr \<Rightarrow> bool) \<Rightarrow> 'a exc_scheme engine \<Rightarrow> present_bits \<Rightarrow> ptr \<Rightarrow> ptr \<Rightarrow> ptr \<Rightarrow> ptr \<Rightarrow> 'a exc_scheme \<Rightarrow>
    (bool option \<times> 'a exc_scheme) res" where
  "Object_SetPrivate obj eng bits symb this key value = entered None
     (finish obj (on_self eng this (\<lambda>self. setPrivate eng bits symb self key value)) None (\<lambda>_. just True))"

definition Object_GetPrivate :: "(ptr \<Rightarrow> bool) \<Rightarrow> 'a exc_scheme engine \<Rightarrow> ptr \<Rightarrow> ptr \<Rightarrow> ptr \<Rightarrow> 'a exc_scheme \<Rightarrow>
    (ptr option \<times> 'a exc_scheme) res" where
  "Object_GetPrivate obj eng symb this key = entered None
     (finish obj (on_self eng this (\<lambda>self. getPrivate eng symb self key)) None local_of)"

definition Object_HasPrivate :: "(ptr \<Rightarrow> bool) \<Rightarrow> 'a exc_scheme engine \<Rightarrow> ptr \<Rightarrow> ptr \<Rightarrow> ptr \<Rightarrow> 'a exc_scheme \<Rightarrow>
    (bool option \<times> 'a exc_scheme) res" where
  "Object_HasPrivate obj eng symb this key = entered None
     (finish obj (on_self eng this (\<lambda>self. getPrivate eng symb self key)) None (\<lambda>v. just (v \<noteq> e_undefined eng)))"

definition Object_DeletePrivate :: "(ptr \<Rightarrow> bool) \<Rightarrow> 'a exc_scheme engine \<Rightarrow> ptr \<Rightarrow> ptr \<Rightarrow> ptr \<Rightarrow> 'a exc_scheme \<Rightarrow>
    (bool option \<times> 'a exc_scheme) res" where
  "Object_DeletePrivate obj eng symb this key = entered None
     (finish obj (on_self eng this (\<lambda>self. deletePrivateProperty eng symb self key)) None just)"

section \<open>Names\<close>

definition Object_GetPropertyNames :: "(ptr \<Rightarrow> bool) \<Rightarrow> 'a exc_scheme engine \<Rightarrow> nat \<Rightarrow> ptr \<Rightarrow> key_collection_mode \<Rightarrow> 32 word \<Rightarrow>
    index_filter \<Rightarrow> key_conversion_mode \<Rightarrow> 'a exc_scheme \<Rightarrow> (ptr option \<times> 'a exc_scheme) res" where
  "Object_GetPropertyNames obj eng fuel this mode pf ixf conversion = entered None (in_current_context
     (finish obj (on_self eng this (\<lambda>self. ebind (names_loop eng mode pf ixf conversion fuel [] [] self) (e_newArray eng)))
       None local_of))"

definition Object_GetOwnPropertyNames :: "(ptr \<Rightarrow> bool) \<Rightarrow> 'a exc_scheme engine \<Rightarrow> nat \<Rightarrow> ptr \<Rightarrow> 32 word \<Rightarrow> key_conversion_mode \<Rightarrow>
    'a exc_scheme \<Rightarrow> (ptr option \<times> 'a exc_scheme) res" where
  "Object_GetOwnPropertyNames obj eng fuel this pf conversion =
     Object_GetPropertyNames obj eng fuel this kOwnOnly pf kIncludeIndices conversion"

section \<open>Definitions of properties\<close>

definition Object_DefineOwnProperty :: "(ptr \<Rightarrow> bool) \<Rightarrow> 'a exc_scheme engine \<Rightarrow> present_bits \<Rightarrow> ptr \<Rightarrow> ptr \<Rightarrow> ptr \<Rightarrow> 32 word \<Rightarrow>
    'a exc_scheme \<Rightarrow> (bool option \<times> 'a exc_scheme) res" where
  "Object_DefineOwnProperty obj eng bits this key value attributes = entered None
     (finish obj (on_self eng this (\<lambda>self. e_defineDataProperty eng self key value (toPresentAttribute bits attributes))) None just)"

text \<open>The descriptor of the engine, which a \<^verbatim>\<open>PropertyDescriptor\<close> may not have.\<close>

record es_descriptor =
  d_value :: "ptr option"
  d_get :: "ptr option"
  d_set :: "ptr option"
  d_hasWritable :: bool
  d_isWritable :: bool
  d_hasEnumerable :: bool
  d_isEnumerable :: bool
  d_hasConfigurable :: bool
  d_isConfigurable :: bool

definition of_descriptor :: "'b \<Rightarrow> (es_descriptor \<Rightarrow> 'b) \<Rightarrow> es_descriptor option \<Rightarrow> 'b" where
  "of_descriptor none f d = (case d of None \<Rightarrow> none | Some x \<Rightarrow> f x)"

definition pd_has_value :: "es_descriptor option \<Rightarrow> bool" where "pd_has_value = of_descriptor False (\<lambda>d. d_value d \<noteq> None)"
definition pd_has_get :: "es_descriptor option \<Rightarrow> bool" where "pd_has_get = of_descriptor False (\<lambda>d. d_get d \<noteq> None)"
definition pd_has_set :: "es_descriptor option \<Rightarrow> bool" where "pd_has_set = of_descriptor False (\<lambda>d. d_set d \<noteq> None)"
definition pd_writable :: "es_descriptor option \<Rightarrow> bool" where "pd_writable = of_descriptor False d_isWritable"
definition pd_has_writable :: "es_descriptor option \<Rightarrow> bool" where "pd_has_writable = of_descriptor False d_hasWritable"
definition pd_enumerable :: "es_descriptor option \<Rightarrow> bool" where "pd_enumerable = of_descriptor False d_isEnumerable"
definition pd_has_enumerable :: "es_descriptor option \<Rightarrow> bool" where "pd_has_enumerable = of_descriptor False d_hasEnumerable"
definition pd_configurable :: "es_descriptor option \<Rightarrow> bool" where "pd_configurable = of_descriptor False d_isConfigurable"
definition pd_has_configurable :: "es_descriptor option \<Rightarrow> bool" where "pd_has_configurable = of_descriptor False d_hasConfigurable"

definition pd_set_enumerable :: "bool \<Rightarrow> es_descriptor option \<Rightarrow> es_descriptor option" where
  "pd_set_enumerable b = map_option (\<lambda>d. d\<lparr>d_hasEnumerable := True, d_isEnumerable := b\<rparr>)"

definition pd_set_configurable :: "bool \<Rightarrow> es_descriptor option \<Rightarrow> es_descriptor option" where
  "pd_set_configurable b = map_option (\<lambda>d. d\<lparr>d_hasConfigurable := True, d_isConfigurable := b\<rparr>)"

text \<open>A member that is not there is the engine's null pointer, of which no handle can be made.\<close>

definition pd_local :: "(es_descriptor \<Rightarrow> ptr option) \<Rightarrow> es_descriptor option \<Rightarrow> 'a scopes_scheme \<Rightarrow> (ptr option \<times> 'a scopes_scheme) res" where
  "pd_local f d w = (case d of None \<Rightarrow> Inr (None, w) | Some x \<Rightarrow> local_of (case f x of None \<Rightarrow> 0 | Some v \<Rightarrow> v) w)"

definition pd_value :: "es_descriptor option \<Rightarrow> 'a scopes_scheme \<Rightarrow> (ptr option \<times> 'a scopes_scheme) res" where
  "pd_value = pd_local d_value"
definition pd_get :: "es_descriptor option \<Rightarrow> 'a scopes_scheme \<Rightarrow> (ptr option \<times> 'a scopes_scheme) res" where
  "pd_get = pd_local d_get"
definition pd_set :: "es_descriptor option \<Rightarrow> 'a scopes_scheme \<Rightarrow> (ptr option \<times> 'a scopes_scheme) res" where
  "pd_set = pd_local d_set"

definition define_attribute :: "present_bits \<Rightarrow> es_descriptor option \<Rightarrow> 32 word" where
  "define_attribute bits d =
     (let attribute = 0;
          attribute = (if pd_has_writable d then
            (if pd_writable d then attribute OR WritablePresent bits else attribute OR NonWritablePresent bits) else attribute);
          attribute = (if pd_has_enumerable d then
            (if pd_enumerable d then attribute OR EnumerablePresent bits else attribute OR NonEnumerablePresent bits) else attribute);
          attribute = (if pd_has_configurable d then
            (if pd_enumerable d then attribute OR ConfigurablePresent bits else attribute OR NonConfigurablePresent bits) else attribute)
      in attribute)"

definition value_of_local :: "(ptr option \<times> 'a exc_scheme) res \<Rightarrow> (ptr \<times> 'a exc_scheme) res" where
  "value_of_local m = rbind m (\<lambda>(h, w). rbind (handle_value h w) (\<lambda>v. Inr (v, w)))"

definition Object_DefineProperty :: "(ptr \<Rightarrow> bool) \<Rightarrow> 'a exc_scheme engine \<Rightarrow> present_bits \<Rightarrow> ptr \<Rightarrow> ptr \<Rightarrow> es_descriptor option \<Rightarrow>
    'a exc_scheme \<Rightarrow> (bool option \<times> 'a exc_scheme) res" where
  "Object_DefineProperty obj eng bits this key d = entered None (in_current_context (\<lambda>w.
     rbind (asObject eng this) (\<lambda>esObject. let attribute = define_attribute bits d in
     if pd_has_value d then rbind (value_of_local (pd_value d w)) (\<lambda>(v, w).
       finish obj (e_defineDataProperty eng esObject key v attribute) None just w)
     else if pd_has_get d then
       rbind (if pd_has_set d then rbind (value_of_local (pd_set d w)) (\<lambda>(v, w). Inr (Some v, w)) else Inr (None, w)) (\<lambda>(setter, w).
       rbind (value_of_local (pd_get d w)) (\<lambda>(getter, w).
       finish obj (e_defineAccessorProperty eng esObject key getter setter attribute) None just w))
     else finish obj (e_defineDataProperty eng esObject key (e_undefined eng) attribute) None just w)))"

end
