(* ===== verification/ObjectProps.thy ===== *)
theory ObjectProps
  imports Objects Scripts
begin

text \<open>
  What the operations of objects do: which names they collect, where private values are kept, which attributes they
  tell and define, and where the exceptions of the engine go.
\<close>

unbundle bit_operations_syntax

lemmas eval_simps = ereturn_def elift_def ebind_def

lemma ebind_Returns:
  "ebind m f w = Inr (Returns v, u) \<longleftrightarrow> (\<exists>x t. m w = Inr (Returns x, t) \<and> f x t = Inr (Returns v, u))"
proof (cases "m w")
  case (Inr p)
  then show ?thesis by (cases p; cases "fst p") (auto simp: ebind_def)
qed (simp add: ebind_def)

lemma in_context: "exc_inv w \<Longrightarrow> in_current_context m w = m w"
  by (auto simp: in_current_context_def GetCurrentContext_def exc_inv_def guard_def Suc_le_eq)

lemma ebind_self: "ebind (elift (Inr x)) f = f x"
  by (rule ext) (simp add: ebind_def elift_def)

section \<open>Names\<close>

text \<open>The properties whose names are wanted. The attributes of symbols are not looked at.\<close>

fun wanted :: "'w engine \<Rightarrow> 32 word \<Rightarrow> index_filter \<Rightarrow> own_property \<Rightarrow> bool" where
  "wanted eng pf ixf (n, w, e, c) = (if e_isSymbol eng n then pf AND SKIP_SYMBOLS = 0
     else (pf AND ONLY_WRITABLE = 0 \<or> w) \<and> (pf AND ONLY_ENUMERABLE = 0 \<or> e) \<and> (pf AND ONLY_CONFIGURABLE = 0 \<or> c) \<and>
       (if e_index eng n = None then pf AND SKIP_STRINGS = 0 else ixf = kIncludeIndices))"

definition vectors_ok :: "'w engine \<Rightarrow> 32 word \<Rightarrow> index_filter \<Rightarrow> ptr list \<Rightarrow> name_vectors \<Rightarrow> bool" where
  "vectors_ok eng pf ixf seen v = (distinct (nv_indexes v @ nv_strings v @ nv_symbols v) \<and>
     set (nv_set v) = set seen \<union> set (nv_indexes v @ nv_strings v @ nv_symbols v) \<and>
     set seen \<inter> set (nv_indexes v @ nv_strings v @ nv_symbols v) = {} \<and>
     (\<forall>n \<in> set (nv_indexes v). \<not> e_isSymbol eng n \<and> e_index eng n \<noteq> None) \<and>
     (\<forall>n \<in> set (nv_strings v). \<not> e_isSymbol eng n \<and> e_index eng n = None) \<and> (\<forall>n \<in> set (nv_symbols v). e_isSymbol eng n) \<and>
     (ixf = kSkipIndices \<longrightarrow> nv_indexes v = []) \<and> (pf AND SKIP_STRINGS \<noteq> 0 \<longrightarrow> nv_strings v = []) \<and>
     (pf AND SKIP_SYMBOLS \<noteq> 0 \<longrightarrow> nv_symbols v = []))"

lemma attribute_masks:
  "pf AND (ONLY_WRITABLE OR ONLY_ENUMERABLE OR ONLY_CONFIGURABLE) = 0 \<longleftrightarrow>
   pf AND ONLY_WRITABLE = 0 \<and> pf AND ONLY_ENUMERABLE = 0 \<and> pf AND ONLY_CONFIGURABLE = 0"
  by (simp add: bit.conj_disj_distrib or_eq_0_iff)

lemma collect_wanted:
  assumes "\<not> wanted eng pf ixf p"
  shows "collect_property eng pf ixf p v = v"
  using assms by (cases p; cases ixf) (auto simp: collect_property_def attribute_masks split: option.splits if_splits)

lemma collect_new:
  assumes "wanted eng pf ixf p" "n = fst p"
  shows "collect_property eng pf ixf p v = (if n \<in> set (nv_set v) then v
    else if e_isSymbol eng n then v\<lparr>nv_set := nv_set v @ [n], nv_symbols := nv_symbols v @ [n]\<rparr>
    else if e_index eng n = None then v\<lparr>nv_set := nv_set v @ [n], nv_strings := nv_strings v @ [n]\<rparr>
    else v\<lparr>nv_set := nv_set v @ [n], nv_indexes := nv_indexes v @ [n]\<rparr>)"
  using assms by (cases p) (auto simp: collect_property_def attribute_masks pushUniqueValue_def Let_def split: option.splits if_splits)

lemma collect_keeps:
  assumes "vectors_ok eng pf ixf seen v"
  shows "vectors_ok eng pf ixf seen (collect_property eng pf ixf p v)"
    and "set (nv_set (collect_property eng pf ixf p v)) = set (nv_set v) \<union> (if wanted eng pf ixf p then {fst p} else {})"
proof -
  obtain n a b c where p: "p = (n, a, b, c)" by (cases p) auto
  show "vectors_ok eng pf ixf seen (collect_property eng pf ixf p v)"
  proof (cases "wanted eng pf ixf p")
    case True
    then have "e_isSymbol eng n \<and> pf AND SKIP_SYMBOLS = 0 \<or>
        \<not> e_isSymbol eng n \<and> (if e_index eng n = None then pf AND SKIP_STRINGS = 0 else ixf = kIncludeIndices)"
      by (simp add: p split: if_splits)
    then have cases: "n \<in> set (nv_set v) \<or> n \<notin> set (nv_set v) \<and> e_isSymbol eng n \<and> pf AND SKIP_SYMBOLS = 0 \<or>
      n \<notin> set (nv_set v) \<and> \<not> e_isSymbol eng n \<and> e_index eng n = None \<and> pf AND SKIP_STRINGS = 0 \<or>
      n \<notin> set (nv_set v) \<and> \<not> e_isSymbol eng n \<and> e_index eng n \<noteq> None \<and> ixf = kIncludeIndices"
      by (auto split: if_splits)
    have c: "collect_property eng pf ixf p v = (if n \<in> set (nv_set v) then v
      else if e_isSymbol eng n then v\<lparr>nv_set := nv_set v @ [n], nv_symbols := nv_symbols v @ [n]\<rparr>
      else if e_index eng n = None then v\<lparr>nv_set := nv_set v @ [n], nv_strings := nv_strings v @ [n]\<rparr>
      else v\<lparr>nv_set := nv_set v @ [n], nv_indexes := nv_indexes v @ [n]\<rparr>)"
      by (rule collect_new[OF True]) (simp add: p)
    from cases consider (seen) "n \<in> set (nv_set v)" | (symb) "n \<notin> set (nv_set v)" "e_isSymbol eng n" "pf AND SKIP_SYMBOLS = 0"
      | (str) "n \<notin> set (nv_set v)" "\<not> e_isSymbol eng n" "e_index eng n = None" "pf AND SKIP_STRINGS = 0"
      | (idx) "n \<notin> set (nv_set v)" "\<not> e_isSymbol eng n" "e_index eng n \<noteq> None" "ixf = kIncludeIndices"
      by (elim disjE conjE) auto
    then show ?thesis
    proof cases
      case seen
      then show ?thesis using assms c by simp
    next
      case symb
      then have e: "collect_property eng pf ixf p v = v\<lparr>nv_set := nv_set v @ [n], nv_symbols := nv_symbols v @ [n]\<rparr>" using c by simp
      show ?thesis unfolding e using assms symb by (simp add: vectors_ok_def, blast?)
    next
      case str
      then have e: "collect_property eng pf ixf p v = v\<lparr>nv_set := nv_set v @ [n], nv_strings := nv_strings v @ [n]\<rparr>" using c by simp
      show ?thesis unfolding e using assms str by (simp add: vectors_ok_def, blast?)
    next
      case idx
      then have e: "collect_property eng pf ixf p v = v\<lparr>nv_set := nv_set v @ [n], nv_indexes := nv_indexes v @ [n]\<rparr>" using c by simp
      show ?thesis unfolding e using assms idx by (simp add: vectors_ok_def, blast?)
    qed
  qed (use assms in \<open>simp add: collect_wanted\<close>)
  show "set (nv_set (collect_property eng pf ixf p v)) = set (nv_set v) \<union> (if wanted eng pf ixf p then {fst p} else {})"
    using collect_wanted[of eng pf ixf p v] collect_new[of eng pf ixf p "fst p" v] by auto
qed

lemma collect_all:
  "vectors_ok eng pf ixf seen v \<Longrightarrow> vectors_ok eng pf ixf seen (fold (collect_property eng pf ixf) ps v) \<and>
   set (nv_set (fold (collect_property eng pf ixf) ps v)) = set (nv_set v) \<union> fst ` {p \<in> set ps. wanted eng pf ixf p}"
proof (induction ps arbitrary: v)
  case (Cons p ps)
  then show ?case using collect_keeps[OF Cons.prems, of p] Cons.IH[of "collect_property eng pf ixf p v"] by auto
qed simp

text \<open>The order of the names of one object: indexes by their number, strings, symbols.\<close>

definition ordered_names :: "'w engine \<Rightarrow> ptr list \<Rightarrow> bool" where
  "ordered_names eng ns = (\<exists>is ss ys. ns = is @ ss @ ys \<and> sorted (map (\<lambda>n. the (e_index eng n)) is) \<and>
     (\<forall>n \<in> set is. \<not> e_isSymbol eng n \<and> e_index eng n \<noteq> None) \<and> (\<forall>n \<in> set ss. \<not> e_isSymbol eng n \<and> e_index eng n = None) \<and>
     (\<forall>n \<in> set ys. e_isSymbol eng n))"

fun linked :: "(ptr \<Rightarrow> ptr option) \<Rightarrow> ptr list \<Rightarrow> bool" where
  "linked proto [] = False"
| "linked proto [p] = (proto p = None)"
| "linked proto (p # q # ps) = (proto p = Some q \<and> linked proto (q # ps))"

definition names_of :: "'w engine \<Rightarrow> (ptr \<Rightarrow> own_property list) \<Rightarrow> 32 word \<Rightarrow> index_filter \<Rightarrow> ptr list \<Rightarrow> ptr set" where
  "names_of eng props pf ixf ps = {n. \<exists>p \<in> set ps. \<exists>q \<in> set (props p). wanted eng pf ixf q \<and> n = fst q}"

lemma names_of_Cons: "names_of eng props pf ixf (p # ps) = fst ` {q \<in> set (props p). wanted eng pf ixf q} \<union> names_of eng props pf ixf ps"
  by (auto simp: names_of_def)

text \<open>A name as it is told: with \<open>kConvertToString\<close>, an index is made a string.\<close>

definition told :: "'w engine \<Rightarrow> key_conversion_mode \<Rightarrow> (ptr \<Rightarrow> ptr) \<Rightarrow> ptr \<Rightarrow> ptr" where
  "told eng conversion str n = (if conversion = kConvertToString \<and> \<not> e_isSymbol eng n \<and> e_index eng n \<noteq> None then str n else n)"

text \<open>A step of the engine that answers \<open>v\<close> and may change the state, from sound states to sound states.\<close>

definition yields :: "('w \<Rightarrow> bool) \<Rightarrow> ('w \<Rightarrow> 'w \<Rightarrow> bool) \<Rightarrow> ('w, 'v) eval \<Rightarrow> 'v \<Rightarrow> bool" where
  "yields sound step m v = (\<forall>w. sound w \<longrightarrow> (\<exists>u. m w = Inr (Returns v, u) \<and> step w u))"

locale step_order =
  fixes sound :: "'w \<Rightarrow> bool" and step :: "'w \<Rightarrow> 'w \<Rightarrow> bool"
  assumes step_refl: "sound w \<Longrightarrow> step w w" and step_trans: "step u v \<Longrightarrow> step v w \<Longrightarrow> step u w"
    and step_sound: "step w u \<Longrightarrow> sound u"
begin

lemma yields_return: "yields sound step (ereturn v) v"
  by (simp add: yields_def ereturn_def step_refl)

lemma yields_bind: "yields sound step m x \<Longrightarrow> yields sound step (f x) v \<Longrightarrow> yields sound step (ebind m f) v"
  using step_sound step_trans by (fastforce simp: yields_def ebind_def)

lemma to_strings_map: "(\<And>x. yields sound step (e_toString eng x) (str x)) \<Longrightarrow> yields sound step (to_strings eng is) (map str is)"
proof (induction "is")
  case (Cons i js)
  have "yields sound step (ebind (e_toString eng i) (\<lambda>s. ebind (to_strings eng js) (\<lambda>ss. ereturn (s # ss)))) (str i # map str js)"
    by (rule yields_bind[OF Cons.prems], rule yields_bind[OF Cons.IH[OF Cons.prems]], rule yields_return)
  then show ?case by simp
qed (simp add: yields_return)

end

interpretation kept: step_order "exc_inv :: 'a exc_scheme \<Rightarrow> bool" "keeps {}"
  by unfold_locales (auto intro: keeps_refl keeps_trans keeps_inv)

lemma map_told:
  "\<forall>n \<in> set is. \<not> e_isSymbol eng n \<and> e_index eng n \<noteq> None \<Longrightarrow>
   map (told eng conversion str) is = (if conversion = kConvertToString then map str is else is)"
  "\<forall>n \<in> set is. \<not> e_isSymbol eng n \<and> e_index eng n = None \<Longrightarrow> map (told eng conversion str) is = is"
  "\<forall>n \<in> set is. e_isSymbol eng n \<Longrightarrow> map (told eng conversion str) is = is"
  by (induction "is") (simp_all add: told_def)

context step_order
begin

lemma push_names_block:
  assumes "vectors_ok eng pf ixf seen v" and str: "\<And>x. yields sound step (e_toString eng x) (str x)"
  shows "\<exists>b. yields sound step (push_names eng pf ixf conversion v names) (names @ map (told eng conversion str) b) \<and> distinct b \<and>
    ordered_names eng b \<and> set b = set (nv_set v) - set seen"
proof -
  let ?i = "sort_key (\<lambda>i. the (e_index eng i)) (nv_indexes v)"
  let ?b = "?i @ nv_strings v @ nv_symbols v"
  let ?j = "if conversion = kConvertToString then map str ?i else ?i"
  have told: "map (told eng conversion str) ?b = ?j @ nv_strings v @ nv_symbols v"
    using assms(1) by (simp add: vectors_ok_def map_told)
  have "yields sound step (if ixf \<noteq> kSkipIndices then (if conversion = kConvertToString then to_strings eng ?i else ereturn ?i)
      else ereturn []) ?j"
    using assms(1) to_strings_map[of eng str, OF str] by (cases ixf) (auto simp: vectors_ok_def yields_return)
  moreover have "?j @ (if pf AND SKIP_STRINGS = 0 then nv_strings v else []) @ (if pf AND SKIP_SYMBOLS = 0 then nv_symbols v else []) =
      map (told eng conversion str) ?b" using assms(1) told by (auto simp: vectors_ok_def)
  ultimately have "yields sound step (push_names eng pf ixf conversion v names) (names @ map (told eng conversion str) ?b)"
    unfolding push_names_def Let_def by (metis (no_types, lifting) yields_bind yields_return)
  moreover have "distinct ?b" "set ?b = set (nv_set v) - set seen" using assms(1) by (auto simp: vectors_ok_def)
  moreover have "ordered_names eng ?b" unfolding ordered_names_def
    by (rule exI[of _ ?i], rule exI[of _ "nv_strings v"], rule exI[of _ "nv_symbols v"])
      (use assms(1) in \<open>auto simp: vectors_ok_def\<close>)
  ultimately show ?thesis by blast
qed

lemma names_loop_collects:
  assumes "linked proto ps" "length ps \<le> fuel" and str: "\<And>x. yields sound step (e_toString eng x) (str x)"
    and own: "\<And>x. yields sound step (e_ownProperties eng x) (props x)"
    and up: "\<And>x. yields sound step (e_getPrototypeObject eng x) (proto x)"
  shows "\<exists>bs. yields sound step (names_loop eng mode pf ixf conversion fuel seen names (hd ps))
      (names @ map (told eng conversion str) (concat bs)) \<and>
    distinct (concat bs) \<and> set seen \<inter> set (concat bs) = {} \<and> (\<forall>b \<in> set bs. ordered_names eng b) \<and>
    set seen \<union> set (concat bs) = set seen \<union> names_of eng props pf ixf (if mode = kOwnOnly then [hd ps] else ps)"
  using assms(1,2)
proof (induction ps arbitrary: fuel seen names)
  case (Cons p ps)
  then obtain f where fuel: "fuel = Suc f" by (cases fuel) auto
  let ?v0 = "\<lparr>nv_set = seen, nv_indexes = [], nv_strings = [], nv_symbols = []\<rparr>"
  have "vectors_ok eng pf ixf seen ?v0" by (simp add: vectors_ok_def)
  from collect_all[OF this, of "props p"] obtain v where v_eq: "fold (collect_property eng pf ixf) (props p) ?v0 = v"
    and v: "vectors_ok eng pf ixf seen v" "set (nv_set v) = set seen \<union> fst ` {q \<in> set (props p). wanted eng pf ixf q}"
    by auto
  let ?t = "map (told eng conversion str)"
  obtain b where b: "yields sound step (push_names eng pf ixf conversion v names) (names @ ?t b)" "distinct b"
    "ordered_names eng b" "set b = set (nv_set v) - set seen" using push_names_block[OF v(1) str] by blast
  have d: "set seen \<inter> set b = {}" "set seen \<union> set b = set (nv_set v)" using b(4) v(2) by auto
  have run: "yields sound step (names_loop eng mode pf ixf conversion fuel seen names p) r"
    if "yields sound step (if mode = kOwnOnly then ereturn (names @ ?t b)
      else ebind (e_getPrototypeObject eng p) (\<lambda>prototype. case prototype of None \<Rightarrow> ereturn (names @ ?t b)
        | Some q \<Rightarrow> names_loop eng mode pf ixf conversion f (nv_set v) (names @ ?t b) q)) r" for r
    unfolding fuel names_loop.simps Let_def
    by (rule yields_bind[OF own]) (unfold v_eq, rule yields_bind[OF b(1)], rule that)
  show ?case
  proof (cases "mode = kOwnOnly \<or> ps = []")
    case True
    have "yields sound step (names_loop eng mode pf ixf conversion fuel seen names p) (names @ ?t b)"
    proof (rule run, cases "mode = kOwnOnly")
      case False
      then have "proto p = None" using True Cons.prems(1) by simp
      then show "yields sound step (if mode = kOwnOnly then ereturn (names @ ?t b)
        else ebind (e_getPrototypeObject eng p) (\<lambda>prototype. case prototype of None \<Rightarrow> ereturn (names @ ?t b)
        | Some q \<Rightarrow> names_loop eng mode pf ixf conversion f (nv_set v) (names @ ?t b) q)) (names @ ?t b)"
        using False by simp (rule yields_bind[OF up], simp add: yields_return)
    qed (simp add: yields_return)
    moreover have "set seen \<union> set b = set seen \<union> names_of eng props pf ixf (if mode = kOwnOnly then [p] else p # ps)"
      using True d(2) v(2) by (auto simp: names_of_Cons, auto simp: names_of_def)
    ultimately show ?thesis using b(2,3) d(1) by (intro exI[of _ "[b]"]) simp
  next
    case False
    then obtain q qs where ps: "ps = q # qs" by (cases ps) auto
    then have l: "linked proto ps" "proto p = Some q" using Cons.prems(1) by auto
    have "length ps \<le> f" using Cons.prems(2) fuel by simp
    from Cons.IH[OF l(1) this, of "nv_set v" "names @ ?t b"] obtain bs where
      bs: "yields sound step (names_loop eng mode pf ixf conversion f (nv_set v) (names @ ?t b) (hd ps))
        ((names @ ?t b) @ ?t (concat bs))"
      "distinct (concat bs)" "set (nv_set v) \<inter> set (concat bs) = {}" "\<forall>b \<in> set bs. ordered_names eng b"
      "set (nv_set v) \<union> set (concat bs) = set (nv_set v) \<union> names_of eng props pf ixf (if mode = kOwnOnly then [hd ps] else ps)"
      by blast
    have "yields sound step (names_loop eng mode pf ixf conversion fuel seen names p) (names @ ?t (concat (b # bs)))"
    proof (rule run)
      have c: "yields sound step (case proto p of None \<Rightarrow> ereturn (names @ ?t b)
        | Some q \<Rightarrow> names_loop eng mode pf ixf conversion f (nv_set v) (names @ ?t b) q) (names @ ?t (concat (b # bs)))"
        using bs(1) l(2) ps by simp
      show "yields sound step (if mode = kOwnOnly then ereturn (names @ ?t b)
        else ebind (e_getPrototypeObject eng p) (\<lambda>prototype. case prototype of None \<Rightarrow> ereturn (names @ ?t b)
        | Some q \<Rightarrow> names_loop eng mode pf ixf conversion f (nv_set v) (names @ ?t b) q)) (names @ ?t (concat (b # bs)))"
        using False by simp (rule yields_bind[OF up], use c in simp)
    qed
    moreover have "distinct (concat (b # bs))" "set seen \<inter> set (concat (b # bs)) = {}"
      using b(2) bs(2,3) d by auto
    moreover have "set seen \<union> set (concat (b # bs)) = set seen \<union> names_of eng props pf ixf (p # ps)"
    proof -
      have "set seen \<union> set (concat (b # bs)) = set (nv_set v) \<union> names_of eng props pf ixf ps"
        using d(2) bs(5) False by auto
      then show ?thesis unfolding names_of_Cons v(2) by blast
    qed
    ultimately show ?thesis using bs(4) b(3) False by (intro exI[of _ "b # bs"]) simp
  qed
qed simp

end


section \<open>Exceptions\<close>

text \<open>The operations on one object, what the engine is asked for, and what the operation tells of the answer. \<open>Value\<close> is
  a value of the engine in \<open>attempt\<close>, and the handle of it in \<open>perform\<close>.\<close>

datatype object_op = OpSet ptr ptr | OpGet ptr | OpHas ptr | OpDelete ptr | OpHasOwn ptr | OpHasReal ptr | OpHasRealIndex nat
  | OpGetReal ptr | OpAttributes ptr | OpRealAttributes ptr | OpDefineOwn ptr ptr "32 word" | OpSetPrivate ptr ptr | OpGetPrivate ptr
  | OpHasPrivate ptr | OpDeletePrivate ptr | OpNames key_collection_mode "32 word" index_filter key_conversion_mode

datatype told_answer = Nothing | Flag bool | Bits "32 word" | Value ptr

definition as_answer :: "('r \<Rightarrow> told_answer) \<Rightarrow> ('w \<Rightarrow> ('r option \<times> 'w) res) \<Rightarrow> 'w \<Rightarrow> (told_answer \<times> 'w) res" where
  "as_answer c m w = rbind (m w) (\<lambda>(r, w). Inr (case r of None \<Rightarrow> Nothing | Some v \<Rightarrow> c v, w))"

fun perform :: "(ptr \<Rightarrow> bool) \<Rightarrow> 'a exc_scheme engine \<Rightarrow> present_bits \<Rightarrow> nat \<Rightarrow> ptr \<Rightarrow> ptr \<Rightarrow> object_op \<Rightarrow> 'a exc_scheme \<Rightarrow>
    (told_answer \<times> 'a exc_scheme) res" where
  "perform obj eng bits fuel s this (OpSet k v) = as_answer Flag (Object_Set obj eng this k v)"
| "perform obj eng bits fuel s this (OpGet k) = as_answer Value (Object_Get obj eng this k)"
| "perform obj eng bits fuel s this (OpHas k) = as_answer Flag (Object_Has obj eng this k)"
| "perform obj eng bits fuel s this (OpDelete k) = as_answer Flag (Object_Delete obj eng this k)"
| "perform obj eng bits fuel s this (OpHasOwn k) = as_answer Flag (Object_HasOwnProperty obj eng this k)"
| "perform obj eng bits fuel s this (OpHasReal k) = as_answer Flag (Object_HasRealNamedProperty obj eng this k)"
| "perform obj eng bits fuel s this (OpHasRealIndex i) = as_answer Flag (Object_HasRealIndexedProperty obj eng this i)"
| "perform obj eng bits fuel s this (OpGetReal k) = as_answer Value (Object_GetRealNamedProperty obj eng this k)"
| "perform obj eng bits fuel s this (OpAttributes k) = as_answer Bits (Object_GetPropertyAttributes obj eng bits fuel this k)"
| "perform obj eng bits fuel s this (OpRealAttributes k) = as_answer Bits (Object_GetRealNamedPropertyAttributes obj eng bits fuel this k)"
| "perform obj eng bits fuel s this (OpDefineOwn k v a) = as_answer Flag (Object_DefineOwnProperty obj eng bits this k v a)"
| "perform obj eng bits fuel s this (OpSetPrivate k v) = as_answer Flag (Object_SetPrivate obj eng bits s this k v)"
| "perform obj eng bits fuel s this (OpGetPrivate k) = as_answer Value (Object_GetPrivate obj eng s this k)"
| "perform obj eng bits fuel s this (OpHasPrivate k) = as_answer Flag (Object_HasPrivate obj eng s this k)"
| "perform obj eng bits fuel s this (OpDeletePrivate k) = as_answer Flag (Object_DeletePrivate obj eng s this k)"
| "perform obj eng bits fuel s this (OpNames m pf ixf c) = as_answer Value (Object_GetPropertyNames obj eng fuel this m pf ixf c)"

definition asked :: "('w, 'v) eval \<Rightarrow> ('v \<Rightarrow> told_answer) \<Rightarrow> ('w, told_answer) eval" where
  "asked m f = ebind m (\<lambda>v. ereturn (f v))"

fun attempt :: "'w engine \<Rightarrow> present_bits \<Rightarrow> nat \<Rightarrow> ptr \<Rightarrow> ptr \<Rightarrow> object_op \<Rightarrow> ('w, told_answer) eval" where
  "attempt eng bits fuel s this (OpSet k v) = asked (e_set eng this k v) (\<lambda>_. Flag True)"
| "attempt eng bits fuel s this (OpGet k) = asked (e_get eng this k) Value"
| "attempt eng bits fuel s this (OpHas k) = asked (e_has eng this k) Flag"
| "attempt eng bits fuel s this (OpDelete k) = asked (e_deleteProperty eng this k) Flag"
| "attempt eng bits fuel s this (OpHasOwn k) = asked (e_hasOwnProperty eng this k) Flag"
| "attempt eng bits fuel s this (OpHasReal k) = asked (e_getOwnProperty eng this k) (\<lambda>v. Flag (v \<noteq> e_undefined eng))"
| "attempt eng bits fuel s this (OpHasRealIndex i) = asked (getOwnIndexedProperty eng this i) (\<lambda>v. Flag (v \<noteq> e_undefined eng))"
| "attempt eng bits fuel s this (OpGetReal k) = asked (e_getOwnProperty eng this k) (\<lambda>v. if v = e_undefined eng then Nothing else Value v)"
| "attempt eng bits fuel s this (OpAttributes k) = asked (attributes_loop eng bits False k fuel this)
     (\<lambda>a. Bits (case a of None \<Rightarrow> 0 | Some a \<Rightarrow> a))"
| "attempt eng bits fuel s this (OpRealAttributes k) = asked (attributes_loop eng bits True k fuel this)
     (\<lambda>a. Bits (case a of None \<Rightarrow> 0 | Some a \<Rightarrow> toPropertyAttribute bits a))"
| "attempt eng bits fuel s this (OpDefineOwn k v a) = asked (e_defineDataProperty eng this k v (toPresentAttribute bits a)) Flag"
| "attempt eng bits fuel s this (OpSetPrivate k v) = asked (setPrivate eng bits s this k v) (\<lambda>_. Flag True)"
| "attempt eng bits fuel s this (OpGetPrivate k) = asked (getPrivate eng s this k) Value"
| "attempt eng bits fuel s this (OpHasPrivate k) = asked (getPrivate eng s this k) (\<lambda>v. Flag (v \<noteq> e_undefined eng))"
| "attempt eng bits fuel s this (OpDeletePrivate k) = asked (deletePrivateProperty eng s this k) Flag"
| "attempt eng bits fuel s this (OpNames m pf ixf c) = asked (ebind (names_loop eng m pf ixf c fuel [] [] this) (e_newArray eng)) Value"

definition deliver :: "told_answer \<Rightarrow> 'a exc_scheme \<Rightarrow> (told_answer \<times> 'a exc_scheme) res" where
  "deliver t w = (case t of Value v \<Rightarrow> rbind (NewLocal v w) (\<lambda>(h, w). Inr (Value h, w)) | _ \<Rightarrow> Inr (t, w))"

lemma answer_of_shape:
  assumes "e_isObject eng this" "\<And>v u. as_answer c (K v) u = deliver (d v) u"
  shows "as_answer c (entered None (finish obj (on_self eng this F) None K)) w =
    rbind (asked (F this) d w) (\<lambda>(r, u). case r of Throws e st \<Rightarrow> rbind (handleException obj e st u) (\<lambda>u. Inr (Nothing, u))
      | Returns t \<Rightarrow> deliver t u)"
proof -
  have "on_self eng this F w = F this w" using assms(1) by (simp add: on_self_def eval_simps asObject_def)
  then have "as_answer c (entered None (finish obj (on_self eng this F) None K)) w =
    rbind (F this w) (\<lambda>(r, u). case r of Throws e st \<Rightarrow> rbind (handleException obj e st u) (\<lambda>u. Inr (Nothing, u))
      | Returns v \<Rightarrow> as_answer c (K v) u)"
    by (cases "F this w") (auto simp: as_answer_def entered_def IsExecutionTerminating_def finish_def rbind_assoc split: outcome.splits)
  then show ?thesis by (cases "F this w") (auto simp: asked_def eval_simps assms(2) split: outcome.splits)
qed

lemma answers_delivered:
  "as_answer Flag (just b) u = deliver (Flag b) u" "as_answer Bits (just a) u = deliver (Bits a) u"
  "as_answer Value (local_of v) u = deliver (Value v) u"
  "as_answer Value (\<lambda>w. Inr (None, w)) u = deliver Nothing u"
  by (cases "NewLocal v u"; auto simp: as_answer_def just_def deliver_def local_of_def some_local_def)+

lemmas object_ops = Object_Set_def Object_Get_def Object_Has_def Object_Delete_def Object_HasOwnProperty_def
  Object_HasRealNamedProperty_def Object_HasRealIndexedProperty_def Object_GetRealNamedProperty_def Object_GetPropertyAttributes_def
  Object_GetRealNamedPropertyAttributes_def Object_DefineOwnProperty_def Object_SetPrivate_def Object_GetPrivate_def
  Object_HasPrivate_def Object_DeletePrivate_def Object_GetPropertyNames_def

lemma answer_in_context:
  "exc_inv w \<Longrightarrow> as_answer c (entered None (in_current_context m)) w = as_answer c (entered None m) w"
  by (simp add: as_answer_def entered_def in_context)

lemma perform_attempts:
  assumes "e_isObject eng this" "exc_inv w"
  shows "perform obj eng bits fuel s this op w = rbind (attempt eng bits fuel s this op w)
    (\<lambda>(r, u). case r of Throws e st \<Rightarrow> rbind (handleException obj e st u) (\<lambda>u. Inr (Nothing, u)) | Returns t \<Rightarrow> deliver t u)"
  by (cases op; simp only: perform.simps attempt.simps object_ops getPropertyAttributes_def answer_in_context[OF assms(2)];
    rule answer_of_shape[OF assms(1)];
    auto simp: answers_delivered split: option.splits)

text \<open>C32. Where an operation on an object may run scripts, an exception ends it without an answer and is settled, whatever was
  scheduled or pending: out of all calls it is reported, to the handler on top if that has caught nothing, unless it carries data of
  the interface, which aborts; inside of a call it is in that handler, or pending and scheduled for the caller. Without one the
  operation changes no exception and tells what the engine answered, a value as a handle of it; \<open>Set\<close> and
  \<open>SetPrivate\<close> tell that they were successful whatever the engine answered.\<close>

theorem object_exceptions_settle:
  assumes "exc_inv w" "e_isObject eng this" "attempt eng bits fuel s this op w = Inr (r, u)" "keeps K w u"
    and "case r of Throws e st \<Rightarrow> e \<noteq> 0 | Returns t \<Rightarrow> t \<noteq> Value 0"
  shows "case r of
     Throws e st \<Rightarrow> if callDepth w = 0 \<and> api_object obj u e then perform obj eng bits fuel s this op w = Inl CheckFailed
       else \<exists>w'. perform obj eng bits fuel s this op w = Inr (Nothing, w') \<and> keeps K w w' \<and> delivered e u w'
   | Returns a \<Rightarrow> \<exists>t w'. perform obj eng bits fuel s this op w = Inr (t, w') \<and> keeps K w w' \<and>
       pending_exception_obj w' = pending_exception_obj u \<and> scheduled_exception w' = scheduled_exception u \<and>
       (case a of Value v \<Rightarrow> (\<exists>h. t = Value h \<and> handleMem w' h = Some (js_handle v)) | _ \<Rightarrow> t = a)"
proof (cases r)
  case (Throws e st)
  then have "e \<noteq> 0" using assms(5) by simp
  from handleException_leaves[OF keeps_inv[OF assms(4)] this, of obj st]
  have "if callDepth u = 0 \<and> api_object obj u e then handleException obj e st u = Inl CheckFailed
    else \<exists>w'. handleException obj e st u = Inr w' \<and> keeps {} u w' \<and> delivered e u w'" by (simp add: leaves_call_def)
  moreover have "callDepth u = callDepth w" using assms(4) by (simp add: keeps_def)
  ultimately show ?thesis using Throws assms(3) keeps_trans[OF assms(4) keeps_mono[of "{}" u _ K]]
    by (auto simp: perform_attempts[OF assms(2,1)] split: if_splits)
next
  case (Returns a)
  show ?thesis
  proof (cases a)
    case (Value v)
    then obtain h w' where h: "NewLocal v u = Inr (h, w')" "memory_grows u w'" "handleMem w' h = Some (js_handle v)"
      using NewLocal_exc[OF keeps_inv[OF assms(4)], of v] assms(5) Returns by auto
    then show ?thesis using Returns Value assms(3) keeps_trans[OF assms(4) memory_grows_keeps[OF keeps_inv[OF assms(4)] h(2)]]
        memory_grows_fields[OF h(2)]
      by (auto simp: perform_attempts[OF assms(2,1)] deliver_def)
  qed (use Returns assms in \<open>auto simp: perform_attempts[OF assms(2,1)] deliver_def\<close>)
qed

section \<open>Attributes\<close>

definition bits_ok :: "present_bits \<Rightarrow> bool" where
  "bits_ok b = (let l = [WritablePresent b, EnumerablePresent b, ConfigurablePresent b, NonWritablePresent b, NonEnumerablePresent b,
     NonConfigurablePresent b] in \<forall>i < 6. l ! i \<noteq> 0 \<and> (\<forall>j < 6. i \<noteq> j \<longrightarrow> l ! i AND l ! j = 0))"

lemma bits_apart:
  assumes "bits_ok b"
  shows "WritablePresent b \<noteq> 0" "EnumerablePresent b \<noteq> 0" "ConfigurablePresent b \<noteq> 0" "NonWritablePresent b \<noteq> 0"
    "NonEnumerablePresent b \<noteq> 0" "NonConfigurablePresent b \<noteq> 0"
    "WritablePresent b AND NonWritablePresent b = 0" "WritablePresent b AND NonEnumerablePresent b = 0"
    "WritablePresent b AND NonConfigurablePresent b = 0" "EnumerablePresent b AND NonWritablePresent b = 0"
    "EnumerablePresent b AND NonEnumerablePresent b = 0" "EnumerablePresent b AND NonConfigurablePresent b = 0"
    "ConfigurablePresent b AND NonWritablePresent b = 0" "ConfigurablePresent b AND NonEnumerablePresent b = 0"
    "ConfigurablePresent b AND NonConfigurablePresent b = 0" "NonWritablePresent b AND NonEnumerablePresent b = 0"
    "NonWritablePresent b AND NonConfigurablePresent b = 0" "NonEnumerablePresent b AND NonConfigurablePresent b = 0"
    "NonEnumerablePresent b AND NonWritablePresent b = 0" "NonConfigurablePresent b AND NonWritablePresent b = 0"
    "NonConfigurablePresent b AND NonEnumerablePresent b = 0" "WritablePresent b AND ConfigurablePresent b = 0"
    "EnumerablePresent b AND ConfigurablePresent b = 0" "NonWritablePresent b AND ConfigurablePresent b = 0"
    "NonEnumerablePresent b AND ConfigurablePresent b = 0"
  using assms by (simp_all add: bits_ok_def Let_def eval_nat_numeral All_less_Suc2 all_conj_distrib)

lemma attribute_round_trip:
  assumes "bits_ok bits"
  shows "toPropertyAttribute bits (toPresentAttribute bits a) =
    (if a AND Attr_ReadOnly \<noteq> 0 then NonWritablePresent bits else 0) OR
    ((if a AND Attr_DontEnum \<noteq> 0 then NonEnumerablePresent bits else 0) OR (if a AND Attr_DontDelete \<noteq> 0 then NonConfigurablePresent bits else 0))"
  using bits_apart[OF assms]
  by (cases "a AND Attr_ReadOnly = 0"; cases "a AND Attr_DontEnum = 0"; cases "a AND Attr_DontDelete = 0")
    (simp_all add: toPresentAttribute_def toPropertyAttribute_def Let_def bit.conj_disj_distrib bit.conj_disj_distrib2 ac_simps)

lemma own_attributes_value:
  assumes "getOwnPropertyAttributes eng bits x key w = Inr (Returns (Some a), u)"
  shows "\<exists>i j k. a = ((0 OR (if i then WritablePresent bits else NonWritablePresent bits)) OR
    (if j then EnumerablePresent bits else NonEnumerablePresent bits)) OR
    (if k then ConfigurablePresent bits else NonConfigurablePresent bits)"
proof -
  obtain d t where d: "(if d = e_undefined eng then ereturn None
     else let flag = (\<lambda>name. ebind (elift (asObject eng d)) (\<lambda>d. ebind (e_get eng d (e_ascii eng name)) (\<lambda>v. elift (asBoolean eng v)))) in
       ebind (flag ''writable'') (\<lambda>isWritable. ebind (flag ''enumerable'') (\<lambda>isEnumerable. ebind (flag ''configurable'') (\<lambda>isConfigurable.
       let attribute = 0;
           attribute = attribute OR (if isWritable then WritablePresent bits else NonWritablePresent bits);
           attribute = attribute OR (if isEnumerable then EnumerablePresent bits else NonEnumerablePresent bits);
           attribute = attribute OR (if isConfigurable then ConfigurablePresent bits else NonConfigurablePresent bits)
       in ereturn (Some attribute))))) t = Inr (Returns (Some a), u)"
    using assms unfolding getOwnPropertyAttributes_def ebind_Returns[of "e_getOwnPropertyDescriptor eng x key"] by blast
  show ?thesis
  proof (cases "d = e_undefined eng")
    case True
    then show ?thesis using d by (simp add: ereturn_def)
  next
    case False
    then show ?thesis using d unfolding Let_def if_not_P[OF False] ebind_Returns ereturn_def by blast
  qed
qed

lemma or_nonzero: "(x :: 32 word) \<noteq> 0 \<Longrightarrow> x OR y \<noteq> 0" "(y :: 32 word) \<noteq> 0 \<Longrightarrow> x OR y \<noteq> 0"
  by (simp_all add: or_eq_0_iff)

text \<open>The attributes that the interface defines and reads again are the same only if the engine numbers its flags as the interface
  does: the conversion back gives the flags of the engine. An own property never has the attributes 0, \<open>None\<close>.\<close>

theorem attributes_are_not_converted:
  assumes "bits_ok bits"
  shows "((\<forall>a < 8. toPropertyAttribute bits (toPresentAttribute bits a) = a) =
      (NonWritablePresent bits = Attr_ReadOnly \<and> NonEnumerablePresent bits = Attr_DontEnum \<and> NonConfigurablePresent bits = Attr_DontDelete)) \<and>
    (\<forall>a u. getOwnPropertyAttributes eng bits x key w = Inr (Returns (Some a), u) \<longrightarrow> a \<noteq> 0)"
proof
  let ?t = "\<lambda>a. toPropertyAttribute bits (toPresentAttribute bits a)"
  have t: "?t 1 = NonWritablePresent bits" "?t 2 = NonEnumerablePresent bits" "?t 4 = NonConfigurablePresent bits"
    by (simp_all add: attribute_round_trip[OF assms] Attr_ReadOnly_def Attr_DontEnum_def Attr_DontDelete_def)
  show "(\<forall>a < 8. ?t a = a) = (NonWritablePresent bits = Attr_ReadOnly \<and> NonEnumerablePresent bits = Attr_DontEnum \<and>
    NonConfigurablePresent bits = Attr_DontDelete)"
  proof
    assume "\<forall>a < 8. ?t a = a"
    then have "?t 1 = 1" "?t 2 = 2" "?t 4 = 4" by (simp_all add: word_less_def)
    then show "NonWritablePresent bits = Attr_ReadOnly \<and> NonEnumerablePresent bits = Attr_DontEnum \<and> NonConfigurablePresent bits = Attr_DontDelete"
      using t by (simp add: Attr_ReadOnly_def Attr_DontEnum_def Attr_DontDelete_def)
  next
    assume b: "NonWritablePresent bits = Attr_ReadOnly \<and> NonEnumerablePresent bits = Attr_DontEnum \<and> NonConfigurablePresent bits = Attr_DontDelete"
    show "\<forall>a < 8. ?t a = a"
    proof (intro allI impI)
      fix a :: "32 word"
      assume "a < 8"
      then have "unat a < 8" by (simp add: word_less_nat_alt)
      then have "unat a = 0 \<or> unat a = 1 \<or> unat a = 2 \<or> unat a = 3 \<or> unat a = 4 \<or> unat a = 5 \<or> unat a = 6 \<or> unat a = 7" by linarith
      then have "a = 0 \<or> a = 1 \<or> a = 2 \<or> a = 3 \<or> a = 4 \<or> a = 5 \<or> a = 6 \<or> a = 7" by (simp add: word_unat_eq_iff)
      then show "?t a = a" using b by (auto simp: attribute_round_trip[OF assms] Attr_ReadOnly_def Attr_DontEnum_def Attr_DontDelete_def)
    qed
  qed
  show "\<forall>a u. getOwnPropertyAttributes eng bits x key w = Inr (Returns (Some a), u) \<longrightarrow> a \<noteq> 0"
    using bits_apart(1-6)[OF assms] own_attributes_value[of eng bits x key w] by (fastforce simp: or_eq_0_iff split: if_splits)
qed

text \<open>The attributes that a descriptor asks for.\<close>

definition flag_of :: "bool \<Rightarrow> bool \<Rightarrow> 32 word \<Rightarrow> 32 word \<Rightarrow> 32 word" where
  "flag_of present set_flag yes no = (if present then if set_flag then yes else no else 0)"

definition intended_attribute :: "present_bits \<Rightarrow> es_descriptor option \<Rightarrow> 32 word" where
  "intended_attribute bits d = flag_of (pd_has_writable d) (pd_writable d) (WritablePresent bits) (NonWritablePresent bits) OR
     (flag_of (pd_has_enumerable d) (pd_enumerable d) (EnumerablePresent bits) (NonEnumerablePresent bits) OR
      flag_of (pd_has_configurable d) (pd_configurable d) (ConfigurablePresent bits) (NonConfigurablePresent bits))"

lemma define_attribute_eq:
  "define_attribute bits d = flag_of (pd_has_writable d) (pd_writable d) (WritablePresent bits) (NonWritablePresent bits) OR
     (flag_of (pd_has_enumerable d) (pd_enumerable d) (EnumerablePresent bits) (NonEnumerablePresent bits) OR
      flag_of (pd_has_configurable d) (pd_enumerable d) (ConfigurablePresent bits) (NonConfigurablePresent bits))"
  by (simp add: define_attribute_def flag_of_def Let_def ac_simps)

text \<open>C34. \<open>DefineProperty\<close> asks the engine for the attributes of the descriptor, but whether the property is configurable is
  taken from \<open>enumerable\<close>: the attributes are those of the descriptor exactly when the two flags agree or
  configurable was not set.\<close>

theorem configurable_follows_enumerable:
  assumes "bits_ok bits" "exc_inv w" "e_isObject eng this" "d_value d = Some v" "v \<noteq> 0"
  shows "(\<exists>u. memory_grows w u \<and> Object_DefineProperty obj eng bits this key (Some d) w =
      finish obj (e_defineDataProperty eng this key v (define_attribute bits (Some d))) None just u) \<and>
    (define_attribute bits (Some d) = intended_attribute bits (Some d)) =
      (d_hasConfigurable d \<longrightarrow> d_isConfigurable d = d_isEnumerable d)"
proof
  obtain h u where u: "NewLocal v w = Inr (h, u)" "memory_grows w u" "handleMem u h = Some (js_handle v)"
    using NewLocal_exc[OF assms(2,5)] by blast
  have "Object_DefineProperty obj eng bits this key (Some d) w =
      finish obj (e_defineDataProperty eng this key v (define_attribute bits (Some d))) None just u"
    using u assms(3,4) by (simp add: Object_DefineProperty_def in_context[OF assms(2)] entered_def IsExecutionTerminating_def asObject_def pd_has_value_def
      of_descriptor_def pd_value_def pd_local_def local_of_def some_local_def value_of_local_def handle_value_def)
  then show "\<exists>u. memory_grows w u \<and> Object_DefineProperty obj eng bits this key (Some d) w =
      finish obj (e_defineDataProperty eng this key v (define_attribute bits (Some d))) None just u" using u(2) by blast
  let ?x = "flag_of (d_hasWritable d) (d_isWritable d) (WritablePresent bits) (NonWritablePresent bits)"
  let ?y = "flag_of (d_hasEnumerable d) (d_isEnumerable d) (EnumerablePresent bits) (NonEnumerablePresent bits)"
  have xy: "(?x OR (?y OR z)) AND ConfigurablePresent bits = z AND ConfigurablePresent bits" for z
    using bits_apart[OF assms(1)] by (auto simp: flag_of_def bit.conj_disj_distrib2)
  have "?x OR (?y OR ConfigurablePresent bits) \<noteq> ?x OR (?y OR NonConfigurablePresent bits)"
  proof
    assume "?x OR (?y OR ConfigurablePresent bits) = ?x OR (?y OR NonConfigurablePresent bits)"
    then have "ConfigurablePresent bits AND ConfigurablePresent bits = NonConfigurablePresent bits AND ConfigurablePresent bits"
      using xy by metis
    then show False using bits_apart[OF assms(1)] by (simp add: and.commute)
  qed
  then show "(define_attribute bits (Some d) = intended_attribute bits (Some d)) =
      (d_hasConfigurable d \<longrightarrow> d_isConfigurable d = d_isEnumerable d)"
    by (auto simp: define_attribute_eq intended_attribute_def pd_has_writable_def pd_writable_def pd_has_enumerable_def
      pd_enumerable_def pd_has_configurable_def pd_configurable_def of_descriptor_def flag_of_def[of "d_hasConfigurable d"])
qed

section \<open>Private values\<close>

text \<open>What is looked up along the prototypes, and what is not found there.\<close>

inductive found_along :: "(ptr \<Rightarrow> ptr \<Rightarrow> ptr option) \<Rightarrow> (ptr \<Rightarrow> ptr option) \<Rightarrow> ptr \<Rightarrow> ptr \<Rightarrow> ptr \<Rightarrow> bool" for own parent k where
  here: "own x k = Some v \<Longrightarrow> found_along own parent k x v"
| above: "own x k = None \<Longrightarrow> parent x = Some y \<Longrightarrow> found_along own parent k y v \<Longrightarrow> found_along own parent k x v"

inductive absent :: "(ptr \<Rightarrow> ptr \<Rightarrow> ptr option) \<Rightarrow> (ptr \<Rightarrow> ptr option) \<Rightarrow> ptr \<Rightarrow> ptr \<Rightarrow> bool" for own parent k where
  top: "own x k = None \<Longrightarrow> parent x = None \<Longrightarrow> absent own parent k x"
| up: "own x k = None \<Longrightarrow> parent x = Some y \<Longrightarrow> absent own parent k y \<Longrightarrow> absent own parent k x"

lemma found_in_prototype: "own x k = None \<Longrightarrow> parent x = Some y \<Longrightarrow> own y k = Some v \<Longrightarrow> found_along own parent k x v"
  using found_along.above found_along.here by metis

definition put :: "ptr \<Rightarrow> ptr \<Rightarrow> ptr option \<Rightarrow> (ptr \<Rightarrow> ptr \<Rightarrow> ptr option) \<Rightarrow> ptr \<Rightarrow> ptr \<Rightarrow> ptr option" where
  "put x k v own = own(x := (own x)(k := v))"

lemma put_at: "put x k v own x k = v"
  by (simp add: put_def)

lemma put_other: "x \<noteq> y \<or> k \<noteq> j \<Longrightarrow> put x k v own y j = own y j"
  by (auto simp: put_def)

text \<open>What the language says of objects whose properties are data properties that can be written: reading goes up the
  prototypes, writing and deleting changes the object itself. \<open>own\<close> and \<open>parent\<close> read the objects off the state.\<close>

definition ordinary :: "'w engine \<Rightarrow> ('w \<Rightarrow> ptr \<Rightarrow> ptr \<Rightarrow> ptr option) \<Rightarrow> ('w \<Rightarrow> ptr \<Rightarrow> ptr option) \<Rightarrow> bool" where
  "ordinary eng own parent =
     ((\<forall>w x k v. found_along (own w) (parent w) k x v \<longrightarrow> e_get eng x k w = Inr (Returns v, w)) \<and>
      (\<forall>w x k. absent (own w) (parent w) k x \<longrightarrow> e_get eng x k w = Inr (Returns (e_undefined eng), w)) \<and>
      (\<forall>w x k. e_getOwnProperty eng x k w = Inr (Returns (case own w x k of None \<Rightarrow> e_undefined eng | Some v \<Rightarrow> v), w)) \<and>
      (\<forall>w x k v. \<exists>w'. e_set eng x k v w = Inr (Returns True, w') \<and> own w' = put x k (Some v) (own w) \<and> parent w' = parent w) \<and>
      (\<forall>w x k. \<exists>w'. e_deleteProperty eng x k w = Inr (Returns True, w') \<and> own w' = put x k None (own w) \<and> parent w' = parent w) \<and>
      (\<forall>w x k v a. \<exists>w'. e_defineDataProperty eng x k v a w = Inr (Returns True, w') \<and> own w' = put x k (Some v) (own w) \<and>
        parent w' = parent w) \<and>
      (\<forall>w. \<exists>x w'. e_newObject eng w = Inr (Returns x, w') \<and> own w' = own w \<and> parent w' = parent w \<and> e_isObject eng x \<and>
        x \<noteq> e_undefined eng))"

lemma ordinaryD:
  assumes "ordinary eng own parent"
  shows "found_along (own w) (parent w) k x v \<Longrightarrow> e_get eng x k w = Inr (Returns v, w)"
    and "absent (own w) (parent w) k x \<Longrightarrow> e_get eng x k w = Inr (Returns (e_undefined eng), w)"
    and "e_getOwnProperty eng x k w = Inr (Returns (case own w x k of None \<Rightarrow> e_undefined eng | Some v \<Rightarrow> v), w)"
    and "\<exists>w'. e_set eng x k v w = Inr (Returns True, w') \<and> own w' = put x k (Some v) (own w) \<and> parent w' = parent w"
    and "\<exists>w'. e_deleteProperty eng x k w = Inr (Returns True, w') \<and> own w' = put x k None (own w) \<and> parent w' = parent w"
    and "\<exists>w'. e_defineDataProperty eng x k v a w = Inr (Returns True, w') \<and> own w' = put x k (Some v) (own w) \<and> parent w' = parent w"
    and "\<exists>x w'. e_newObject eng w = Inr (Returns x, w') \<and> own w' = own w \<and> parent w' = parent w \<and> e_isObject eng x \<and>
      x \<noteq> e_undefined eng"
  using assms by (simp_all add: ordinary_def)

lemma getPrivate_own:
  assumes "ordinary eng own parent" "own w x s = Some h" "h \<noteq> e_undefined eng" "e_isObject eng h" "own w h key = Some v"
  shows "getPrivate eng s x key w = Inr (Returns v, w)"
  using ordinaryD(3)[OF assms(1), of x s w] ordinaryD(1)[OF assms(1) found_along.here, of w h key v] assms(2-5)
  by (simp add: getPrivate_def eval_simps asObject_def)

lemma getPrivate_none:
  "ordinary eng own parent \<Longrightarrow> own w x s = None \<Longrightarrow> getPrivate eng s x key w = Inr (Returns (e_undefined eng), w)"
  using ordinaryD(3)[of eng own parent x s w] by (simp add: getPrivate_def eval_simps)

text \<open>A private value is set in the hidden object that is found first, a new one if there is none.\<close>

lemma setPrivate_found:
  assumes "ordinary eng own parent" "e_isSymbol eng key" "found_along (own w) (parent w) s x h" "h \<noteq> e_undefined eng" "e_isObject eng h"
  shows "\<exists>w'. setPrivate eng bits s x key v w = Inr (Returns True, w') \<and> own w' = put h key (Some v) (own w) \<and> parent w' = parent w"
proof -
  obtain w' where "e_set eng h key v w = Inr (Returns True, w')" "own w' = put h key (Some v) (own w)" "parent w' = parent w"
    using ordinaryD(4)[OF assms(1)] by blast
  then show ?thesis using ordinaryD(1)[OF assms(1,3)] assms(2,4,5) by (simp add: setPrivate_def eval_simps asObject_def)
qed

lemma setPrivate_absent:
  assumes "ordinary eng own parent" "e_isSymbol eng key" "absent (own w) (parent w) s x"
  shows "\<exists>h w'. setPrivate eng bits s x key v w = Inr (Returns True, w') \<and> h \<noteq> e_undefined eng \<and> e_isObject eng h \<and>
    own w' = put h key (Some v) (put x s (Some h) (own w)) \<and> parent w' = parent w"
proof -
  obtain h w1 where 1: "e_newObject eng w = Inr (Returns h, w1)" "own w1 = own w" "parent w1 = parent w" "e_isObject eng h"
    "h \<noteq> e_undefined eng" using ordinaryD(7)[OF assms(1)] by blast
  let ?a = "WritablePresent bits OR NonEnumerablePresent bits OR NonConfigurablePresent bits"
  obtain w2 where 2: "e_defineDataProperty eng x s h ?a w1 = Inr (Returns True, w2)" "own w2 = put x s (Some h) (own w1)"
    "parent w2 = parent w1" using ordinaryD(6)[OF assms(1)] by blast
  obtain w3 where 3: "e_set eng h key v w2 = Inr (Returns True, w3)" "own w3 = put h key (Some v) (own w2)" "parent w3 = parent w2"
    using ordinaryD(4)[OF assms(1)] by blast
  have "setPrivate eng bits s x key v w = Inr (Returns True, w3)"
    using ordinaryD(2)[OF assms(1,3)] assms(2) 1(1) 2(1) 3(1) by (simp add: setPrivate_def eval_simps successful_def)
  then show ?thesis using 1 2 3 by auto
qed

text \<open>C33. On ordinary objects of which no prototype has private values, or that have private values of their own, a private value
  that was set is read again, and after it was deleted the hidden object has no such value.\<close>

theorem private_values_kept:
  assumes "ordinary eng own parent" "e_isSymbol eng key" "key \<noteq> s"
    and "own w x s = Some h \<and> h \<noteq> e_undefined eng \<and> e_isObject eng h \<or> absent (own w) (parent w) s x"
  shows "\<exists>w'. setPrivate eng bits s x key v w = Inr (Returns True, w') \<and> getPrivate eng s x key w' = Inr (Returns v, w') \<and>
    (\<exists>w''. deletePrivateProperty eng s x key w' = Inr (Returns True, w'') \<and>
      (own w'' x s \<noteq> None \<and> own w'' (the (own w'' x s)) key = None))"
proof -
  have put: "put h key (Some v) f x s = f x s" "put h key (Some v) f h key = Some v" for h f
    using assms(3) by (simp_all add: put_def)
  have "\<exists>h w'. setPrivate eng bits s x key v w = Inr (Returns True, w') \<and> h \<noteq> e_undefined eng \<and> e_isObject eng h \<and>
    own w' x s = Some h \<and> own w' h key = Some v"
    using assms(4)
  proof
    assume h: "own w x s = Some h \<and> h \<noteq> e_undefined eng \<and> e_isObject eng h"
    then have "found_along (own w) (parent w) s x h" by (intro found_along.here) simp
    from setPrivate_found[OF assms(1,2) this, of bits v] h obtain w' where
      "setPrivate eng bits s x key v w = Inr (Returns True, w')" "own w' = put h key (Some v) (own w)" by blast
    then show ?thesis using h put by (intro exI[of _ h] exI[of _ w']) simp
  next
    assume "absent (own w) (parent w) s x"
    from setPrivate_absent[OF assms(1,2) this, of bits v] obtain h w' where
      "setPrivate eng bits s x key v w = Inr (Returns True, w')" "h \<noteq> e_undefined eng" "e_isObject eng h"
      "own w' = put h key (Some v) (put x s (Some h) (own w))" by blast
    moreover have "put x s (Some h) (own w) x s = Some h" by (simp add: put_def)
    ultimately show ?thesis using put by (intro exI[of _ h] exI[of _ w']) simp
  qed
  then obtain h w' where set: "setPrivate eng bits s x key v w = Inr (Returns True, w')" "h \<noteq> e_undefined eng" "e_isObject eng h"
    and o: "own w' x s = Some h" "own w' h key = Some v" by blast
  have get: "getPrivate eng s x key w' = Inr (Returns v, w')" by (rule getPrivate_own[OF assms(1) o(1) set(2,3) o(2)])
  obtain w'' where d: "e_deleteProperty eng h key w' = Inr (Returns True, w'')" "own w'' = put h key None (own w')"
    using ordinaryD(5)[OF assms(1)] by blast
  have "deletePrivateProperty eng s x key w' = Inr (Returns True, w'')"
    using ordinaryD(1)[OF assms(1) found_along.here[of "own w'", OF o(1)]] d(1) set(2,3)
    by (simp add: deletePrivateProperty_def eval_simps asObject_def)
  moreover have "own w'' h key = None" "own w'' x s = Some h"
    by (simp_all add: d(2) put_at put_other assms(3) o(1))
  ultimately show ?thesis using set(1) get by (intro exI[of _ w'] conjI exI[of _ w'']) simp_all
qed

text \<open>If a prototype has private values and the object has none, a private value that is set goes to the prototype: the object
  does not have it, the prototype does, and deleting it of the object deletes that of the prototype.\<close>

theorem private_values_of_prototype:
  assumes "ordinary eng own parent" "e_isSymbol eng key" "own w x s = None" "parent w x = Some y" "own w y s = Some h"
    and "h \<noteq> e_undefined eng" "e_isObject eng h" "h \<noteq> x" "h \<noteq> y"
  shows "\<exists>w'. setPrivate eng bits s x key v w = Inr (Returns True, w') \<and>
    getPrivate eng s x key w' = Inr (Returns (e_undefined eng), w') \<and> getPrivate eng s y key w' = Inr (Returns v, w') \<and>
    (\<exists>w''. deletePrivateProperty eng s x key w' = Inr (Returns True, w'') \<and> own w'' h key = None)"
proof -
  have f: "found_along (own w) (parent w) s x h" using assms(3-5) by (rule found_in_prototype)
  obtain w' where w': "setPrivate eng bits s x key v w = Inr (Returns True, w')" "own w' = put h key (Some v) (own w)" "parent w' = parent w"
    using setPrivate_found[OF assms(1,2) f assms(6,7)] by blast
  have o: "own w' x s = None" "own w' y s = Some h" "own w' h key = Some v" by (simp_all add: w'(2) put_at put_other assms(3,5,8,9))
  obtain w'' where d: "e_deleteProperty eng h key w' = Inr (Returns True, w'')" "own w'' = put h key None (own w')"
    using ordinaryD(5)[OF assms(1)] by blast
  have "parent w' x = Some y" using w'(3) assms(4) by simp
  then have "found_along (own w') (parent w') s x h"
    using o(1,2) by (intro found_in_prototype)
  from ordinaryD(1)[OF assms(1) this] have "deletePrivateProperty eng s x key w' = Inr (Returns True, w'')"
    using d(1) assms(6,7) by (simp add: deletePrivateProperty_def eval_simps asObject_def)
  moreover have "own w'' h key = None" using d(2) by (simp add: put_def)
  ultimately show ?thesis
    using w'(1) getPrivate_none[OF assms(1) o(1)] getPrivate_own[OF assms(1) o(2) assms(6,7) o(3)]
    by (intro exI[of _ w'] conjI exI[of _ w'']) simp_all
qed

text \<open>The operations on prototypes abort where their result or the engine is not what they expect, and the attributes
  of an accessor, whose descriptor has no \<^verbatim>\<open>writable\<close>, are read as a boolean that is not there.\<close>

lemma set_prototype_exception_aborts:
  "e_isObject eng this \<Longrightarrow> e_setObjectPrototype eng this v w = Inr (Throws e st, u) \<Longrightarrow> Object_SetPrototype obj eng this v w = Inl CheckFailed"
  by (simp add: Object_SetPrototype_def entered_def IsExecutionTerminating_def finish_def on_self_def eval_simps asObject_def
      setPrototype_def)

lemma null_prototype_confused:
  "exc_inv w \<Longrightarrow> e_isObject eng this \<Longrightarrow> e_getPrototype eng this w = Inr (Returns n, u) \<Longrightarrow> \<not> e_isObject eng n \<Longrightarrow>
   Object_GetPrototype eng this w = Inl TypeConfusion"
  by (simp add: Object_GetPrototype_def in_context getPrototype_def asObject_def)

lemma attributes_of_accessor_confused:
  assumes "e_getOwnPropertyDescriptor eng x key w = Inr (Returns d, u)" "d \<noteq> e_undefined eng" "e_isObject eng d"
    and "e_get eng d (e_ascii eng ''writable'') u = Inr (Returns (e_undefined eng), v)" "e_boolean eng (e_undefined eng) = None"
  shows "getOwnPropertyAttributes eng bits x key w = Inl TypeConfusion"
  using assms by (simp add: getOwnPropertyAttributes_def eval_simps asObject_def asBoolean_def)

section \<open>Instances\<close>

text \<open>An engine that answers at once; the witnesses replace some of its operations.\<close>

definition still_engine :: "'w engine" where
  "still_engine = \<lparr>e_undefined = 1, e_isObject = (\<lambda>_. True), e_isNull = (\<lambda>_. False), e_isSymbol = (\<lambda>v. v \<in> {5, 6}),
     e_boolean = (\<lambda>_. Some True), e_index = (\<lambda>v. if v < 10 then Some v else None), e_ascii = (\<lambda>_. 2), e_number = (\<lambda>n. n),
     e_get = (\<lambda>_ _. ereturn 1), e_getOwnProperty = (\<lambda>_ _. ereturn 1), e_getIndexedProperty = (\<lambda>_ _. ereturn 1),
     e_getOwnPropertyDescriptor = (\<lambda>_ _. ereturn 1), e_set = (\<lambda>_ _ _. ereturn True), e_has = (\<lambda>_ _. ereturn False),
     e_hasOwnProperty = (\<lambda>_ _. ereturn False), e_deleteProperty = (\<lambda>_ _. ereturn True),
     e_defineDataProperty = (\<lambda>_ _ _ _. ereturn True), e_defineAccessorProperty = (\<lambda>_ _ _ _ _. ereturn True),
     e_getPrototype = (\<lambda>_. ereturn 2), e_getPrototypeObject = (\<lambda>x. ereturn (if x = 20 then Some 21 else None)),
     e_setObjectPrototype = (\<lambda>_ _. ereturn True), e_setIntegrityLevel = (\<lambda>_ _. ereturn True), e_newObject = ereturn 30,
     e_newArray = (\<lambda>ns. ereturn (Suc (sum_list ns))),
     e_ownProperties = (\<lambda>x. ereturn (if x = 20 then [(15, True, True, True), (7, True, True, True), (2, True, False, True)]
       else [(7, True, True, True), (5, True, False, True), (3, True, True, True)])),
     e_toString = (\<lambda>v. ereturn (v + 100))\<rparr>"

definition six_bits :: present_bits where
  "six_bits = \<lparr>WritablePresent = 2, EnumerablePresent = 4, ConfigurablePresent = 8, NonWritablePresent = 16, NonEnumerablePresent = 32,
     NonConfigurablePresent = 64\<rparr>"

lemma below_6: "(\<forall>i < (6 :: nat). P i) \<longleftrightarrow> P 0 \<and> P 1 \<and> P 2 \<and> P 3 \<and> P 4 \<and> P 5"
  by (simp add: eval_nat_numeral All_less_Suc2)

lemma six_bits_ok: "bits_ok six_bits"
  by (simp add: bits_ok_def six_bits_def Let_def below_6)

lemma still_engine_simps [simp]:
  "e_undefined still_engine = 1" "e_isObject still_engine v" "e_isSymbol still_engine v = (v \<in> {5, 6})"
  "e_index still_engine v = (if v < 10 then Some v else None)" "e_get still_engine x k w = Inr (Returns 1, w)"
  "e_getPrototypeObject still_engine x w = Inr (Returns (if x = 20 then Some 21 else None), w)"
  "e_newArray still_engine ns w = Inr (Returns (Suc (sum_list ns)), w)" "e_newObject still_engine w = Inr (Returns 30, w)"
  "e_toString still_engine v w = Inr (Returns (v + 100), w)"
  "e_ownProperties still_engine x w = Inr (Returns (if x = 20 then [(15, True, True, True), (7, True, True, True), (2, True, False, True)]
     else [(7, True, True, True), (5, True, False, True), (3, True, True, True)]), w)"
  by (simp_all add: still_engine_def ereturn_def)

text \<open>An engine whose state is the properties of the objects; the prototype of 20 is 21.\<close>

type_synonym plain_heap = "ptr \<Rightarrow> ptr \<Rightarrow> ptr option"

definition plain_parent :: "plain_heap \<Rightarrow> ptr \<Rightarrow> ptr option" where
  "plain_parent w x = (if x = 20 then Some 21 else None)"

definition plain_get :: "ptr \<Rightarrow> ptr \<Rightarrow> plain_heap \<Rightarrow> ptr option" where
  "plain_get x k w = (case w x k of Some v \<Rightarrow> Some v | None \<Rightarrow> (case plain_parent w x of None \<Rightarrow> None | Some y \<Rightarrow> w y k))"

definition plain_engine :: "plain_heap engine" where
  "plain_engine = still_engine\<lparr>e_get := \<lambda>x k w. Inr (Returns (case plain_get x k w of None \<Rightarrow> 1 | Some v \<Rightarrow> v), w),
     e_getOwnProperty := \<lambda>x k w. Inr (Returns (case w x k of None \<Rightarrow> 1 | Some v \<Rightarrow> v), w),
     e_set := \<lambda>x k v w. Inr (Returns True, put x k (Some v) w), e_deleteProperty := \<lambda>x k w. Inr (Returns True, put x k None w),
     e_defineDataProperty := \<lambda>x k v a w. Inr (Returns True, put x k (Some v) w)\<rparr>"

lemma plain_engine_simps [simp]:
  "e_undefined plain_engine = 1" "e_isObject plain_engine v" "e_isSymbol plain_engine v = (v \<in> {5, 6})"
  "e_get plain_engine x k w = Inr (Returns (case plain_get x k w of None \<Rightarrow> 1 | Some v \<Rightarrow> v), w)"
  "e_getOwnProperty plain_engine x k w = Inr (Returns (case w x k of None \<Rightarrow> 1 | Some v \<Rightarrow> v), w)"
  "e_set plain_engine x k v w = Inr (Returns True, put x k (Some v) w)"
  "e_deleteProperty plain_engine x k w = Inr (Returns True, put x k None w)"
  "e_defineDataProperty plain_engine x k v a w = Inr (Returns True, put x k (Some v) w)"
  "e_newObject plain_engine w = Inr (Returns 30, w)"
  by (simp_all add: plain_engine_def)

lemma plain_found: "found_along w (plain_parent w) k x v \<Longrightarrow> plain_get x k w = Some v"
  by (induction rule: found_along.induct) (auto simp: plain_get_def plain_parent_def split: option.splits if_splits)

lemma plain_absent: "absent w (plain_parent w) k x \<Longrightarrow> plain_get x k w = None"
  by (induction rule: absent.induct) (auto simp: plain_get_def plain_parent_def split: option.splits if_splits)

lemma plain_ordinary: "ordinary plain_engine (\<lambda>w. w) plain_parent"
proof -
  have "plain_parent w = plain_parent w'" for w w' by (simp add: plain_parent_def fun_eq_iff)
  then show ?thesis
    by (auto simp: ordinary_def plain_found plain_absent split: option.splits)
qed


theorem object_exceptions_settle_witness:
  "(\<exists>w'. perform (\<lambda>_. True) (still_engine\<lparr>e_get := \<lambda>_ _ w. Inr (Throws 60 [], w)\<rparr>) six_bits 1 5 20 (OpGet 7) global_world =
     Inr (Nothing, w') \<and> pending_exception_obj w' = 0 \<and> scheduled_exception w' = 0) \<and>
   perform (\<lambda>_. True) (still_engine\<lparr>e_get := \<lambda>_ _ w. Inr (Throws 4 [], w)\<rparr>) six_bits 1 5 20 (OpGet 7) global_world = Inl CheckFailed"
proof -
  have "if api_object (\<lambda>_. True) global_world e
      then perform (\<lambda>_. True) (still_engine\<lparr>e_get := \<lambda>_ _ w. Inr (Throws e [], w)\<rparr>) six_bits 1 5 20 (OpGet 7) global_world = Inl CheckFailed
      else \<exists>w'. perform (\<lambda>_. True) (still_engine\<lparr>e_get := \<lambda>_ _ w. Inr (Throws e [], w)\<rparr>) six_bits 1 5 20 (OpGet 7) global_world =
        Inr (Nothing, w') \<and> delivered e global_world w'" if "e \<noteq> 0" for e
    using object_exceptions_settle[of global_world "still_engine\<lparr>e_get := \<lambda>_ _ w. Inr (Throws e [], w)\<rparr>" 20 six_bits 1 5 "OpGet 7"
      "Throws e []" global_world "{}" "\<lambda>_. True"] that
    by (auto simp: asked_def eval_simps keeps_refl split: if_splits)
  from this[of 60] this[of 4] show ?thesis by (auto simp: api_object_def delivered_def reported_def)
qed

definition configurable_descriptor :: es_descriptor where
  "configurable_descriptor = \<lparr>d_value = Some 8, d_get = None, d_set = None, d_hasWritable = False, d_isWritable = False,
     d_hasEnumerable = True, d_isEnumerable = False, d_hasConfigurable = True, d_isConfigurable = True\<rparr>"

theorem configurable_follows_enumerable_witness:
  "define_attribute six_bits (Some configurable_descriptor) \<noteq> intended_attribute six_bits (Some configurable_descriptor)"
  using configurable_follows_enumerable[of six_bits global_world still_engine 20 configurable_descriptor 8 "\<lambda>_. True" 7] six_bits_ok
  by (simp add: configurable_descriptor_def)

theorem private_values_kept_witness:
  "\<exists>w'. setPrivate plain_engine six_bits 5 20 6 77 (\<lambda>_ _. None) = Inr (Returns True, w') \<and>
     getPrivate plain_engine 5 20 6 w' = Inr (Returns 77, w')"
proof -
  have "absent (\<lambda>_ _. None) (plain_parent (\<lambda>_ _. None)) 5 20"
    by (rule absent.up[of _ _ _ _ 21]; (rule absent.top)?) (simp_all add: plain_parent_def)
  then show ?thesis
    using private_values_kept[OF plain_ordinary, of 6 5 "\<lambda>_ _. None" 20 0 six_bits 77] by auto
qed

theorem private_values_of_prototype_witness:
  "\<exists>w'. setPrivate plain_engine six_bits 5 20 6 77 (\<lambda>x k. if x = 21 \<and> k = 5 then Some 30 else None) = Inr (Returns True, w') \<and>
     getPrivate plain_engine 5 21 6 w' = Inr (Returns 77, w')"
  using private_values_of_prototype[OF plain_ordinary, of 6 "\<lambda>x k. if x = 21 \<and> k = 5 then Some 30 else None" 20 5 21 30 six_bits 77]
  by (auto simp: plain_parent_def)

end
