(* ===== verification/GcStrategy.thy ===== *)
theory GcStrategy
  imports Prelude
begin

text \<open>
  The delayed garbage collection of \<^verbatim>\<open>src/src/lwnode/lwnode-gc-strategy.cc\<close>: the main loop calls
  \<^verbatim>\<open>handle\<close> once per iteration, timer threads sleep, wake the main loop and publish that a collection is
  due. The threads share two atomic variables, so every access to one of them is a step of its own, and the
  steps of the threads interleave in any order. Time is abstracted: whether the period of the timer has passed
  when it is asked is a choice of the step.
\<close>

section \<open>State\<close>

datatype DelayedGCState = TIMER_START | TASK_SCHEDULED | TIMER_END

text \<open>Where a timer thread is: before it announces itself, at the head of its loop, asleep, about to wake the
  main loop, about to publish the task, and about to test the loop condition.\<close>

datatype timer_pc = Created | Looping | Sleeping | Decided | Woken | Refused

datatype main_pc = MIdle | MFlagged | MCollected

record DelayedGC =
  dstate :: DelayedGCState
  isLastCallChecked :: bool
  timers :: "timer_pc list"
  mainpc :: main_pc
  wakeup :: bool
  collections :: nat

definition newDelayedGC :: DelayedGC where
  "newDelayedGC = \<lparr>dstate = TIMER_END, isLastCallChecked = True, timers = [], mainpc = MIdle, wakeup = False, collections = 0\<rparr>"

section \<open>Steps\<close>

text \<open>\<open>elapsed\<close> is the answer of condition (b).\<close>

definition canScheduleGC :: "bool \<Rightarrow> DelayedGC \<Rightarrow> bool" where
  "canScheduleGC elapsed s = (if isLastCallChecked s then True else elapsed)"

definition remove_nth :: "nat \<Rightarrow> 'b list \<Rightarrow> 'b list" where
  "remove_nth i xs = take i xs @ drop (Suc i) xs"

definition timer_goto :: "nat \<Rightarrow> timer_pc \<Rightarrow> DelayedGC \<Rightarrow> DelayedGC" where
  "timer_goto i pc s = s\<lparr>timers := (timers s)[i := pc]\<rparr>"

definition timer_exit :: "nat \<Rightarrow> DelayedGC \<Rightarrow> DelayedGC" where
  "timer_exit i s = s\<lparr>timers := remove_nth i (timers s)\<rparr>"

fun timer_step :: "nat \<Rightarrow> bool \<Rightarrow> timer_pc \<Rightarrow> DelayedGC \<Rightarrow> DelayedGC" where
  "timer_step i elapsed Created s = timer_goto i Looping (s\<lparr>dstate := TIMER_START\<rparr>)"
| "timer_step i elapsed Looping s = timer_goto i Sleeping (s\<lparr>isLastCallChecked := True\<rparr>)"
| "timer_step i elapsed Sleeping s = timer_goto i (if canScheduleGC elapsed s then Decided else Refused) s"
| "timer_step i elapsed Decided s = timer_goto i Woken (s\<lparr>wakeup := True\<rparr>)"
| "timer_step i elapsed Woken s = timer_exit i (s\<lparr>dstate := TASK_SCHEDULED\<rparr>)"
| "timer_step i elapsed Refused s = (if \<not> isLastCallChecked s then timer_goto i Looping s else timer_exit i s)"

text \<open>An iteration of the main loop answers the wake-ups so far and calls \<^verbatim>\<open>handle\<close>.\<close>

fun handle_step :: "main_pc \<Rightarrow> DelayedGC \<Rightarrow> DelayedGC" where
  "handle_step MIdle s = s\<lparr>mainpc := MFlagged, wakeup := False, isLastCallChecked := False\<rparr>"
| "handle_step MFlagged s = (case dstate s of
       TIMER_END \<Rightarrow> s\<lparr>mainpc := MIdle, timers := timers s @ [Created]\<rparr>
     | TASK_SCHEDULED \<Rightarrow> s\<lparr>mainpc := MCollected, collections := collections s + 1\<rparr>
     | TIMER_START \<Rightarrow> s\<lparr>mainpc := MIdle\<rparr>)"
| "handle_step MCollected s = s\<lparr>mainpc := MIdle, dstate := TIMER_END\<rparr>"

inductive gc_step :: "DelayedGC \<Rightarrow> DelayedGC \<Rightarrow> bool" where
  main_moves: "gc_step s (handle_step (mainpc s) s)"
| timer_moves: "i < length (timers s) \<Longrightarrow> gc_step s (timer_step i elapsed (timers s ! i) s)"

abbreviation gc_steps :: "DelayedGC \<Rightarrow> DelayedGC \<Rightarrow> bool" where
  "gc_steps \<equiv> gc_step\<^sup>*\<^sup>*"

section \<open>A timer is always left\<close>

fun live :: "bool \<Rightarrow> timer_pc \<Rightarrow> bool" where
  "live checked Refused = (\<not> checked)"
| "live checked _ = True"

definition gc_inv :: "DelayedGC \<Rightarrow> bool" where
  "gc_inv s = (dstate s = TIMER_START \<longrightarrow> (\<exists>t \<in> set (timers s). live (isLastCallChecked s) t))"

lemma live_unchecked: "live c t \<Longrightarrow> live False t"
  by (cases t) auto

lemma set_remove_nth: "i < length xs \<Longrightarrow> set xs \<subseteq> insert (xs ! i) (set (remove_nth i xs))"
  by (metis append_take_drop_id Cons_nth_drop_Suc remove_nth_def set_append list.simps(15) Un_insert_right subset_refl)

lemma gc_inv_step:
  assumes "gc_inv s" "gc_step s u"
  shows "gc_inv u"
  using assms(2)
proof cases
  case main_moves
  then show ?thesis using assms(1)
    by (cases "mainpc s") (auto simp: gc_inv_def intro: live_unchecked split: DelayedGCState.split)
next
  case (timer_moves i elapsed)
  have here: "live c pc \<Longrightarrow> \<exists>t \<in> set ((timers s)[i := pc]). live c t" for c pc
    using timer_moves(2) set_update_memI by metis
  show ?thesis
  proof (cases "timers s ! i")
    case Refused
    show ?thesis
    proof (cases "isLastCallChecked s")
      case True
      have "\<exists>t \<in> set (remove_nth i (timers s)). live True t" if "dstate s = TIMER_START"
        using assms(1) that True Refused set_remove_nth[OF timer_moves(2)] by (fastforce simp: gc_inv_def)
      then show ?thesis using timer_moves(1) Refused True by (auto simp: gc_inv_def timer_exit_def)
    next
      case False
      then show ?thesis using timer_moves(1) Refused here[of False Looping] by (auto simp: gc_inv_def timer_goto_def)
    qed
  qed (use timer_moves(1) here in \<open>auto simp: gc_inv_def timer_goto_def timer_exit_def canScheduleGC_def\<close>)
qed

lemma gc_inv_steps: "gc_steps s u \<Longrightarrow> gc_inv s \<Longrightarrow> gc_inv u"
  by (induction rule: rtranclp_induct) (auto intro: gc_inv_step)

lemma gc_inv_new: "gc_inv newDelayedGC"
  by (simp add: gc_inv_def newDelayedGC_def)

section \<open>A collection can always be reached\<close>

definition schedules :: "DelayedGC \<Rightarrow> bool" where
  "schedules s = (\<exists>u. gc_steps s u \<and> dstate u = TASK_SCHEDULED \<and> collections u = collections s \<and> mainpc u = mainpc s)"

lemma schedules_step:
  assumes "i < length (timers s)" "timer_step i elapsed (timers s ! i) s = v" "schedules v"
    and "collections v = collections s" "mainpc v = mainpc s"
  shows "schedules s"
  using assms timer_moves[OF assms(1), of elapsed] by (auto simp: schedules_def intro: converse_rtranclp_into_rtranclp)

text \<open>A live timer runs to its end: after its sleep the period has passed.\<close>

lemma woken_schedules: "i < length (timers s) \<Longrightarrow> timers s ! i = Woken \<Longrightarrow> schedules s"
  unfolding schedules_def using timer_moves[of i s True]
  by (intro exI[of _ "timer_step i True Woken s"]) (auto simp: timer_exit_def)

lemma decided_schedules: "i < length (timers s) \<Longrightarrow> timers s ! i = Decided \<Longrightarrow> schedules s"
  by (rule schedules_step[of i s True "timer_step i True Decided s"]) (auto simp: timer_goto_def intro!: woken_schedules[of i])

lemma sleeping_schedules: "i < length (timers s) \<Longrightarrow> timers s ! i = Sleeping \<Longrightarrow> schedules s"
  by (rule schedules_step[of i s True "timer_step i True Sleeping s"])
    (auto simp: timer_goto_def canScheduleGC_def intro!: decided_schedules[of i])

lemma looping_schedules: "i < length (timers s) \<Longrightarrow> timers s ! i = Looping \<Longrightarrow> schedules s"
  by (rule schedules_step[of i s True "timer_step i True Looping s"]) (auto simp: timer_goto_def intro!: sleeping_schedules[of i])

lemma created_schedules: "i < length (timers s) \<Longrightarrow> timers s ! i = Created \<Longrightarrow> schedules s"
  by (rule schedules_step[of i s True "timer_step i True Created s"]) (auto simp: timer_goto_def intro!: looping_schedules[of i])

lemma live_schedules:
  assumes "i < length (timers s)" "live (isLastCallChecked s) (timers s ! i)"
  shows "schedules s"
proof (cases "timers s ! i")
  case Refused
  then show ?thesis using assms
    by (intro schedules_step[of i s True "timer_step i True Refused s"]) (auto simp: timer_goto_def intro!: looping_schedules[of i])
qed (use assms(1) created_schedules looping_schedules sleeping_schedules decided_schedules woken_schedules in auto)

lemma scheduled_collects:
  assumes "dstate s = TASK_SCHEDULED" "mainpc s \<noteq> MCollected"
  shows "\<exists>u. gc_steps s u \<and> collections u = Suc (collections s)"
proof -
  have flagged: "\<exists>u. gc_steps s u \<and> collections u = Suc (collections s)"
    if "dstate s = TASK_SCHEDULED" "mainpc s = MFlagged" for s
    using main_moves[of s] that by (intro exI[of _ "handle_step MFlagged s"]) auto
  show ?thesis
  proof (cases "mainpc s")
    case MIdle
    have "gc_step s (handle_step MIdle s)" using main_moves[of s] MIdle by simp
    then show ?thesis using flagged[of "handle_step MIdle s"] assms(1) by (auto intro: converse_rtranclp_into_rtranclp)
  qed (use flagged assms in auto)
qed

lemma schedules_collects:
  assumes "schedules s" "mainpc s \<noteq> MCollected"
  shows "\<exists>u. gc_steps s u \<and> collections u = Suc (collections s)"
proof -
  obtain v where v: "gc_steps s v" "dstate v = TASK_SCHEDULED" "collections v = collections s" "mainpc v = mainpc s"
    using assms(1) by (auto simp: schedules_def)
  then show ?thesis using scheduled_collects[of v] assms(2) by (auto intro: rtranclp_trans)
qed

lemma timer_end_collects:
  assumes "dstate s = TIMER_END" "mainpc s \<noteq> MCollected"
  shows "\<exists>u. gc_steps s u \<and> collections u = Suc (collections s)"
proof -
  have flagged: "\<exists>u. gc_steps s u \<and> collections u = Suc (collections s)"
    if "dstate s = TIMER_END" "mainpc s = MFlagged" for s
  proof -
    let ?v = "handle_step MFlagged s"
    have "gc_step s ?v" using main_moves[of s] that by simp
    moreover have "schedules ?v" using that(1) by (intro created_schedules[of "length (timers s)"]) auto
    ultimately show ?thesis using schedules_collects[of ?v] that(1) by (auto intro: converse_rtranclp_into_rtranclp)
  qed
  show ?thesis
  proof (cases "mainpc s")
    case MIdle
    have "gc_step s (handle_step MIdle s)" using main_moves[of s] MIdle by simp
    then show ?thesis using flagged[of "handle_step MIdle s"] assms(1) by (auto intro: converse_rtranclp_into_rtranclp)
  qed (use flagged assms in auto)
qed

section \<open>Properties\<close>

text \<open>C23. The collector is never stuck: in every state that the main loop and the timers can reach, a timer that
  announced itself is still alive or will be replaced, and some continuation reaches another collection.\<close>

theorem collection_stays_reachable:
  assumes "gc_steps newDelayedGC s"
  shows "(dstate s = TIMER_START \<longrightarrow> timers s \<noteq> []) \<and> (\<exists>u. gc_steps s u \<and> collections u = Suc (collections s))"
proof
  have inv: "gc_inv s" using gc_inv_steps[OF assms gc_inv_new] .
  then show "dstate s = TIMER_START \<longrightarrow> timers s \<noteq> []" by (auto simp: gc_inv_def)
  show "\<exists>u. gc_steps s u \<and> collections u = Suc (collections s)"
  proof (cases "mainpc s = MCollected")
    case True
    have "gc_step s (handle_step MCollected s)" using main_moves[of s] True by simp
    then show ?thesis using timer_end_collects[of "handle_step MCollected s"] by (auto intro: converse_rtranclp_into_rtranclp)
  next
    case False
    show ?thesis
    proof (cases "dstate s")
      case TIMER_START
      then obtain i where "i < length (timers s)" "live (isLastCallChecked s) (timers s ! i)"
        using inv by (auto simp: gc_inv_def in_set_conv_nth)
      then show ?thesis using live_schedules schedules_collects False by blast
    qed (use scheduled_collects timer_end_collects False in auto)
  qed
qed

theorem collection_stays_reachable_witness:
  "\<exists>u. gc_steps (handle_step MIdle newDelayedGC) u \<and> collections u = 1"
proof -
  have "gc_steps newDelayedGC (handle_step MIdle newDelayedGC)"
    using main_moves[of newDelayedGC] by (auto simp: newDelayedGC_def)
  from collection_stays_reachable[OF this] show ?thesis by (simp add: newDelayedGC_def)
qed

lemma take_steps: "gc_steps s u \<Longrightarrow> gc_step u v \<Longrightarrow> gc_steps s v"
  by (rule rtranclp.rtrancl_into_rtrancl)

lemma main_steps: "gc_steps s u \<Longrightarrow> v = handle_step (mainpc u) u \<Longrightarrow> gc_steps s v"
  using take_steps main_moves by blast

lemma timer_steps: "gc_steps s u \<Longrightarrow> i < length (timers u) \<Longrightarrow> v = timer_step i e (timers u ! i) u \<Longrightarrow> gc_steps s v"
  using take_steps timer_moves by blast

text \<open>Two races of the timer: two iterations of the main loop before the first timer announces itself start two
  timers; and a timer wakes the main loop before it publishes the task, so the woken iteration may find nothing to
  do, and the task then waits without a wake-up and without a timer.\<close>

theorem timer_races:
  "(\<exists>u. gc_steps newDelayedGC u \<and> timers u = [Created, Created]) \<and>
   (\<exists>u. gc_steps newDelayedGC u \<and> dstate u = TASK_SCHEDULED \<and> timers u = [] \<and> \<not> wakeup u \<and> mainpc u = MIdle \<and> collections u = 0)"
proof
  let ?s = newDelayedGC
  have 0: "gc_steps ?s ?s" by simp
  note d = newDelayedGC_def timer_goto_def timer_exit_def canScheduleGC_def remove_nth_def
  have 1: "gc_steps ?s (?s\<lparr>mainpc := MFlagged, wakeup := False, isLastCallChecked := False\<rparr>)"
    by (rule main_steps[OF 0]) (simp add: d)
  let ?a = "?s\<lparr>isLastCallChecked := False, timers := [Created]\<rparr>"
  have a: "gc_steps ?s ?a" by (rule main_steps[OF 1]) (simp add: d)
  have 2: "gc_steps ?s (?a\<lparr>mainpc := MFlagged\<rparr>)" by (rule main_steps[OF a]) (simp add: d)
  have "gc_steps ?s (?a\<lparr>timers := [Created, Created]\<rparr>)" by (rule main_steps[OF 2]) (simp add: d)
  then show "\<exists>u. gc_steps ?s u \<and> timers u = [Created, Created]" by (intro exI[of _ "?a\<lparr>timers := [Created, Created]\<rparr>"]) simp
  have t1: "gc_steps ?s (?a\<lparr>dstate := TIMER_START, timers := [Looping]\<rparr>)" by (rule timer_steps[OF a, of 0]) (simp_all add: d)
  let ?b = "?s\<lparr>dstate := TIMER_START, timers := [Sleeping]\<rparr>"
  have t2: "gc_steps ?s ?b" by (rule timer_steps[OF t1, of 0]) (simp_all add: d)
  have t3: "gc_steps ?s (?b\<lparr>timers := [Decided]\<rparr>)" by (rule timer_steps[OF t2, of 0]) (simp_all add: d)
  have t4: "gc_steps ?s (?b\<lparr>timers := [Woken], wakeup := True\<rparr>)" by (rule timer_steps[OF t3, of 0]) (simp_all add: d)
  have m1: "gc_steps ?s (?b\<lparr>timers := [Woken], mainpc := MFlagged, isLastCallChecked := False\<rparr>)"
    by (rule main_steps[OF t4]) (simp add: d)
  have m2: "gc_steps ?s (?b\<lparr>timers := [Woken], isLastCallChecked := False\<rparr>)" by (rule main_steps[OF m1]) (simp add: d)
  let ?u = "?s\<lparr>dstate := TASK_SCHEDULED, isLastCallChecked := False\<rparr>"
  have "gc_steps ?s ?u" by (rule timer_steps[OF m2, of 0]) (simp_all add: d)
  then show "\<exists>u. gc_steps ?s u \<and> dstate u = TASK_SCHEDULED \<and> timers u = [] \<and> \<not> wakeup u \<and> mainpc u = MIdle \<and> collections u = 0"
    by (intro exI[of _ ?u]) (simp add: d)
qed

end
