(* ===== verification/Loader.thy ===== *)
theory Loader
  imports Utf8
begin

text \<open>
  The loader of reloadable sources: \<^verbatim>\<open>src/src/lwnode/lwnode-loader.cc\<close> and
  \<^verbatim>\<open>src/include/lwnode/lwnode-loader.h\<close>. A file is read, its text converted to a
  one-byte or a two-byte string buffer, and the buffer handed over to the engine, which may give it back and ask for
  it again. The memory from \<^verbatim>\<open>malloc\<close> is a map from pointers to blocks; what a new block
  holds, and which allocations are refused, is left open by the world. A file is its size as
  \<^verbatim>\<open>ftell\<close> reports it and the bytes that \<^verbatim>\<open>fread\<close> can deliver.
\<close>

section \<open>Text of the standard library\<close>

text \<open>\<^verbatim>\<open>std::codecvt_utf8_utf16\<close>: only well-formed UTF-8 is decoded.\<close>

definition continuation :: "octet \<Rightarrow> bool" where
  "continuation b = (b AND 0xC0 = 0x80)"

definition payload :: "octet \<Rightarrow> nat" where
  "payload b = unat (b AND 0x3F)"

fun decode_char :: "octet list \<Rightarrow> (nat \<times> octet list) option" where
  "decode_char (a # bs) =
     (if a < 0x80 then Some (unat a, bs)
      else if 0xC2 \<le> a \<and> a < 0xE0 then (case bs of b # rest \<Rightarrow>
        if continuation b then Some (unat (a AND 0x1F) * 64 + payload b, rest) else None | _ \<Rightarrow> None)
      else if 0xE0 \<le> a \<and> a < 0xF0 then (case bs of b # c # rest \<Rightarrow>
        let u = (unat (a AND 0x0F) * 64 + payload b) * 64 + payload c in
        if continuation b \<and> continuation c \<and> 0x800 \<le> u \<and> \<not> (0xD800 \<le> u \<and> u < 0xE000) then Some (u, rest) else None
        | _ \<Rightarrow> None)
      else if 0xF0 \<le> a \<and> a < 0xF5 then (case bs of b # c # d # rest \<Rightarrow>
        let u = ((unat (a AND 0x07) * 64 + payload b) * 64 + payload c) * 64 + payload d in
        if continuation b \<and> continuation c \<and> continuation d \<and> 0x10000 \<le> u \<and> u < 0x110000 then Some (u, rest) else None
        | _ \<Rightarrow> None)
      else None)"
| "decode_char [] = None"

lemma decode_char_shorter: "decode_char bs = Some (c, rest) \<Longrightarrow> length rest < length bs"
  by (cases bs) (auto simp: Let_def split: if_splits list.splits)

function utf8_decode :: "octet list \<Rightarrow> nat list option" where
  "utf8_decode bs = (if bs = [] then Some []
     else case decode_char bs of None \<Rightarrow> None
       | Some (c, rest) \<Rightarrow> map_option ((#) c) (utf8_decode rest))"
  by pat_completeness auto
termination
  by (relation "measure List.length") (auto dest: decode_char_shorter)

definition utf16_units :: "nat \<Rightarrow> 16 word list" where
  "utf16_units c = (if c < 0x10000 then [word_of_nat c]
     else [word_of_nat (0xD800 + (c - 0x10000) div 0x400), word_of_nat (0xDC00 + (c - 0x10000) mod 0x400)])"

definition le_bytes :: "16 word \<Rightarrow> octet list" where
  "le_bytes u = [ucast u, ucast (drop_bit 8 u)]"

definition utf16le :: "nat list \<Rightarrow> octet list" where
  "utf16le cs = concat (map le_bytes (concat (map utf16_units cs)))"

text \<open>\<^verbatim>\<open>from_bytes\<close> of a C string stops at its terminator and throws when the text is ill-formed;
  the second component is \<^verbatim>\<open>converted()\<close>.\<close>

definition from_bytes :: "octet list \<Rightarrow> (octet list \<times> nat) res" where
  "from_bytes mem = guard OutOfBounds (0 \<in> set mem)
     (let s = takeWhile (\<lambda>b. b \<noteq> 0) mem in
      case utf8_decode s of None \<Rightarrow> Inl UncaughtException
        | Some cs \<Rightarrow> Inr (utf16le cs, length s))"

section \<open>Memory and files\<close>

record lworld =
  bufs :: "nat \<Rightarrow> octet list option"
  nextBuf :: nat
  junk :: octet
  refused :: "nat \<Rightarrow> bool"
  files :: "string \<Rightarrow> (int \<times> octet list) option"
  reloaded :: nat

definition allocateStringBuffer :: "nat \<Rightarrow> lworld \<Rightarrow> nat \<times> lworld" where
  "allocateStringBuffer sz w = (if refused w (nextBuf w) then (0, w\<lparr>nextBuf := Suc (nextBuf w)\<rparr>)
     else (nextBuf w, w\<lparr>nextBuf := Suc (nextBuf w), bufs := (bufs w)(nextBuf w \<mapsto> replicate sz (junk w))\<rparr>))"

definition freeStringBuffer :: "nat \<Rightarrow> lworld \<Rightarrow> lworld res" where
  "freeStringBuffer p w = (if p = 0 then Inr w
     else guard UseAfterFree (bufs w p \<noteq> None) (Inr (w\<lparr>bufs := (bufs w)(p := None)\<rparr>)))"

definition block_at :: "lworld \<Rightarrow> nat \<Rightarrow> octet list res" where
  "block_at w p = guard NullDeref (p \<noteq> 0) (case bufs w p of None \<Rightarrow> Inl UseAfterFree | Some bs \<Rightarrow> Inr bs)"

definition poke :: "nat \<Rightarrow> nat \<Rightarrow> octet list \<Rightarrow> lworld \<Rightarrow> lworld res" where
  "poke p off bs w = rbind (block_at w p) (\<lambda>old. guard OutOfBounds (off + length bs \<le> length old)
     (Inr (w\<lparr>bufs := (bufs w)(p \<mapsto> overwrite off bs old)\<rparr>)))"

section \<open>Conversion\<close>

datatype Encoding = kUnknown | kAscii | kLatin1 | kUtf16

record FileData =
  buffer :: nat
  fsize :: nat
  encoding :: Encoding
  filePath :: string

definition noFileData :: FileData where
  "noFileData = \<lparr>buffer = 0, fsize = 0, encoding = kUnknown, filePath = ''''\<rparr>"

definition convertUTF8ToUTF16le :: "nat \<Rightarrow> nat \<Rightarrow> lworld \<Rightarrow> ((nat \<times> nat) option \<times> lworld) res" where
  "convertUTF8ToUTF16le utf8Buffer utf8BufferSize w = rbind (block_at w utf8Buffer) (\<lambda>mem.
     rbind (from_bytes mem) (\<lambda>(utf16, converted).
       if converted < utf8BufferSize then Inr (None, w)
       else let utf16Size = length utf16; (p, w) = allocateStringBuffer (utf16Size + 1) w in
         if p = 0 then Inr (None, w)
         else rbind (poke p 0 utf16 w) (\<lambda>w. rbind (poke p utf16Size [0] w) (\<lambda>w. Inr (Some (p, utf16Size), w)))))"

definition tryConvertUTF8ToLatin1 :: "octet list \<Rightarrow> nat \<Rightarrow> Encoding \<Rightarrow> (octet list \<times> Encoding) res" where
  "tryConvertUTF8ToLatin1 mem bufferSize encodingHint =
     rbind (if encodingHint = kUnknown \<or> encodingHint = kLatin1 then convertUTF8ToLatin1 mem 0 bufferSize []
            else Inr (encodingHint \<noteq> kUtf16, []))
       (\<lambda>(isOneByteString, latin1String). Inr (latin1String,
          if isOneByteString then if length latin1String = bufferSize then kAscii else kLatin1 else kUtf16))"

definition createFileDataForReloadableString :: "string \<Rightarrow> nat \<Rightarrow> nat \<Rightarrow> Encoding \<Rightarrow> lworld \<Rightarrow> (FileData \<times> lworld) res" where
  "createFileDataForReloadableString filename bufferHolder bufferSize encodingHint w =
     rbind (if encodingHint = kAscii then Inr ([], kAscii)
            else if encodingHint = kUtf16 then Inr ([], kUtf16)
            else rbind (block_at w bufferHolder) (\<lambda>mem. tryConvertUTF8ToLatin1 mem bufferSize encodingHint))
       (\<lambda>(latin1String, enc).
         if enc = kUtf16 then
           rbind (convertUTF8ToUTF16le bufferHolder bufferSize w) (\<lambda>(converted, w).
             rbind (freeStringBuffer bufferHolder w) (\<lambda>w. case converted of
                 None \<Rightarrow> Inr (noFileData, w)
               | Some (p, n) \<Rightarrow> Inr (\<lparr>buffer = p, fsize = n, encoding = enc, filePath = filename\<rparr>, w)))
         else if enc = kLatin1 then
           let n = length latin1String; (p, w) = allocateStringBuffer (n + 1) w in
           rbind (freeStringBuffer bufferHolder w) (\<lambda>w. check (p \<noteq> 0)
             (rbind (poke p n [0] w) (\<lambda>w. rbind (poke p 0 latin1String w) (\<lambda>w.
               Inr (\<lparr>buffer = p, fsize = n, encoding = enc, filePath = filename\<rparr>, w)))))
         else Inr (\<lparr>buffer = bufferHolder, fsize = bufferSize, encoding = enc, filePath = filename\<rparr>, w))"

definition c_str :: "string \<Rightarrow> string" where
  "c_str s = takeWhile (\<lambda>c. c \<noteq> CHR 0x00) s"

definition SourceReader_read :: "string \<Rightarrow> Encoding \<Rightarrow> lworld \<Rightarrow> (FileData \<times> lworld) res" where
  "SourceReader_read filename encodingHint w = (case files w (c_str filename) of
       None \<Rightarrow> Inr (noFileData, w)
     | Some (pos, bytes) \<Rightarrow> check (0 \<le> pos)
         (let bufferSize = nat pos; (p, w) = allocateStringBuffer (bufferSize + 1) w in
          rbind (poke p bufferSize [0] w) (\<lambda>w. let readBytes = min (length bytes) bufferSize in
            rbind (poke p 0 (take readBytes bytes) w) (\<lambda>w.
              if readBytes = 0 then rbind (freeStringBuffer p w) (\<lambda>w. Inr (noFileData, w))
              else check (readBytes = bufferSize) (createFileDataForReloadableString filename p bufferSize encodingHint w)))))"

section \<open>Reloadable strings\<close>

record ReloadableSourceData =
  preloadedData :: nat
  dataPath :: string
  preloadedDataLength :: nat
  dataEncoding :: Encoding

definition ReloadableSourceData_create :: "FileData \<Rightarrow> ReloadableSourceData" where
  "ReloadableSourceData_create fd = \<lparr>preloadedData = buffer fd, dataPath = filePath fd,
     preloadedDataLength = fsize fd, dataEncoding = encoding fd\<rparr>"

definition isOneByteString :: "ReloadableSourceData \<Rightarrow> bool" where
  "isOneByteString d = (dataEncoding d = kAscii \<or> dataEncoding d = kLatin1)"

definition stringLength :: "ReloadableSourceData \<Rightarrow> nat" where
  "stringLength d = (if isOneByteString d then preloadedDataLength d else preloadedDataLength d div 2)"

text \<open>A reader of sources, \<^verbatim>\<open>SourceReaderInterface::read\<close>.\<close>

type_synonym reader = "string \<Rightarrow> Encoding \<Rightarrow> lworld \<Rightarrow> (FileData \<times> lworld) res"

definition load_callback :: "reader \<Rightarrow> ReloadableSourceData \<Rightarrow> lworld \<Rightarrow> (nat \<times> ReloadableSourceData \<times> lworld) res" where
  "load_callback sourceReader d w = (if preloadedData d \<noteq> 0 then Inr (preloadedData d, d\<lparr>preloadedData := 0\<rparr>, w)
     else let w = w\<lparr>reloaded := Suc (reloaded w)\<rparr> in
       rbind (sourceReader (c_str (dataPath d)) (dataEncoding d) w) (\<lambda>(fd, w). check (buffer fd \<noteq> 0) (Inr (buffer fd, d, w))))"

definition unload_callback :: "nat \<Rightarrow> ReloadableSourceData \<Rightarrow> lworld \<Rightarrow> (ReloadableSourceData \<times> lworld) res" where
  "unload_callback p d w =
     rbind (if preloadedData d \<noteq> 0 then rbind (freeStringBuffer (preloadedData d) w) (\<lambda>w. Inr (d\<lparr>preloadedData := 0\<rparr>, w))
            else Inr (d, w))
       (\<lambda>(d, w). rbind (freeStringBuffer p w) (\<lambda>w. Inr (d, w)))"

definition kMaxLength :: nat where
  "kMaxLength = 2 ^ 29 - 24"

text \<open>What the engine is given: the empty string, no string, or a reloadable string with its width and length.\<close>

datatype reloadable = EmptyString | NoString | Reloadable bool nat

definition NewReloadableString :: "ReloadableSourceData \<Rightarrow> reloadable" where
  "NewReloadableString d = (if stringLength d = 0 then EmptyString
     else if stringLength d > kMaxLength then NoString
     else Reloadable (isOneByteString d) (stringLength d))"

text \<open>The script asks for the source of a file: \<^verbatim>\<open>undefined\<close> when it cannot be read.\<close>

definition CreateReloadableSourceFromFile :: "string \<Rightarrow> lworld \<Rightarrow> ((reloadable \<times> ReloadableSourceData) option \<times> lworld) res" where
  "CreateReloadableSourceFromFile fileName w = rbind (SourceReader_read fileName kUnknown w) (\<lambda>(fd, w).
     if buffer fd = 0 then Inr (None, w)
     else let d = ReloadableSourceData_create fd; s = NewReloadableString d in
       check (s \<noteq> NoString) (Inr (Some (s, d), w)))"

text \<open>The engine loads a string that is not loaded and unloads one that is.\<close>

datatype source_op = Load | Unload

record source =
  sdata :: ReloadableSourceData
  loaded :: "nat option"
  sworld :: lworld

definition source_exec :: "reader \<Rightarrow> source_op \<Rightarrow> source \<Rightarrow> source res" where
  "source_exec sourceReader op s = (case (op, loaded s) of
       (Load, None) \<Rightarrow> rbind (load_callback sourceReader (sdata s) (sworld s)) (\<lambda>(p, d, w). Inr \<lparr>sdata = d, loaded = Some p, sworld = w\<rparr>)
     | (Unload, Some p) \<Rightarrow> rbind (unload_callback p (sdata s) (sworld s)) (\<lambda>(d, w). Inr \<lparr>sdata = d, loaded = None, sworld = w\<rparr>)
     | _ \<Rightarrow> Inr s)"

section \<open>Decoding what was encoded\<close>

lemma octet_bytes:
  "n < 256 \<Longrightarrow> unat (octet_of n) = n"
  by (simp add: octet_of_def unat_of_nat)

lemma octet_less: "n < 256 \<Longrightarrow> m < 256 \<Longrightarrow> octet_of n < octet_of m \<longleftrightarrow> n < m"
  by (simp add: word_less_nat_alt octet_bytes)

lemma octet_table:
  "list_all (\<lambda>n. continuation (octet_of (0x80 + n)) \<and> payload (octet_of (0x80 + n)) = n \<and>
     (n < 0x20 \<longrightarrow> unat (octet_of (0xC0 + n) AND 0x1F) = n) \<and>
     (n < 0x10 \<longrightarrow> unat (octet_of (0xE0 + n) AND 0x0F) = n) \<and>
     (n < 0x08 \<longrightarrow> unat (octet_of (0xF0 + n) AND 0x07) = n)) [0..<64]"
  by code_simp

lemma octet_digits [simp]:
  assumes "n < 64"
  shows "continuation (octet_of (0x80 + n))" "payload (octet_of (0x80 + n)) = n"
    "n < 0x20 \<Longrightarrow> unat (octet_of (0xC0 + n) AND 0x1F) = n"
    "n < 0x10 \<Longrightarrow> unat (octet_of (0xE0 + n) AND 0x0F) = n"
    "n < 0x08 \<Longrightarrow> unat (octet_of (0xF0 + n) AND 0x07) = n"
  using octet_table assms by (auto simp: list_all_iff)

definition scalar :: "nat \<Rightarrow> bool" where
  "scalar c = (c < 0x110000 \<and> \<not> (0xD800 \<le> c \<and> c < 0xE000))"

lemma decode_utf8_char:
  assumes "scalar c"
  shows "decode_char (utf8_char c @ rest) = Some (c, rest)"
proof -
  have lits: "octet_of 0x80 = 0x80" "octet_of 0xC2 = 0xC2" "octet_of 0xE0 = 0xE0" "octet_of 0xF0 = 0xF0" "octet_of 0xF5 = 0xF5"
    by (simp_all add: octet_of_def)
  note less = octet_less[of _ "0x80", unfolded lits, simplified] octet_less[of _ "0xE0", unfolded lits, simplified]
    octet_less[of _ "0xF0", unfolded lits, simplified] octet_less[of _ "0xF5", unfolded lits, simplified]
    octet_less[of _ "0xC2", unfolded lits, simplified]
  have c: "c < 0x110000" "\<not> (0xD800 \<le> c \<and> c < 0xE000)" using assms by (auto simp: scalar_def)
  consider "c < 0x80" | "0x80 \<le> c" "c < 0x800" | "0x800 \<le> c" "c < 0x10000" | "0x10000 \<le> c" by linarith
  then show ?thesis
  proof cases
    case 1
    then show ?thesis by (simp add: utf8_char_def less octet_bytes)
  next
    case 2
    then have d: "c div 64 < 32" "2 \<le> c div 64" by linarith+
    then show ?thesis using 2 by (simp add: utf8_char_def less linorder_not_less[symmetric])
  next
    case 3
    then have d: "c div 4096 < 16" by linarith
    have "((c div 4096) * 64 + c div 64 mod 64) * 64 + c mod 64 = c" using digits(2)[of c] by (simp add: algebra_simps)
    then show ?thesis using 3 d c by (simp add: utf8_char_def less linorder_not_less[symmetric])
  next
    case 4
    then have d: "c div 262144 < 5" using c by linarith
    have "(((c div 262144) * 64 + c div 4096 mod 64) * 64 + c div 64 mod 64) * 64 + c mod 64 = c"
      using digits(3)[of c] by (simp add: algebra_simps)
    then show ?thesis using 4 d c by (simp add: utf8_char_def less linorder_not_less[symmetric])
  qed
qed

lemma decode_utf8_text: "\<forall>c \<in> set cs. scalar c \<Longrightarrow> utf8_decode (utf8_text cs) = Some cs"
proof (induction cs)
  case Nil
  then show ?case by (simp add: utf8_text_def)
next
  case (Cons c cs)
  have "utf8_char c \<noteq> []" by (simp add: utf8_char_def)
  moreover have "utf8_text (c # cs) = utf8_char c @ utf8_text cs" by (simp add: utf8_text_def)
  ultimately show ?case using Cons decode_utf8_char[of c "utf8_text cs"] by (simp del: utf8_decode.simps add: utf8_decode.simps[of "_ @ _"])
qed

section \<open>Reading text\<close>

definition text_encoding :: "nat list \<Rightarrow> Encoding" where
  "text_encoding cs = (if \<forall>c \<in> set cs. c < 128 then kAscii else if \<forall>c \<in> set cs. c < 256 then kLatin1 else kUtf16)"

definition text_buffer :: "nat list \<Rightarrow> octet list" where
  "text_buffer cs = (if \<forall>c \<in> set cs. c < 256 then map octet_of cs else utf16le cs)"

lemma utf8_text_Cons: "utf8_text (c # cs) = utf8_char c @ utf8_text cs"
  by (simp add: utf8_text_def)

lemma utf8_text_ascii: "\<forall>c \<in> set cs. c < 128 \<Longrightarrow> utf8_text cs = map octet_of cs"
  by (induction cs) (simp_all add: utf8_text_Cons utf8_char_def, simp add: utf8_text_def)

lemma utf8_char_size: "Suc 0 \<le> length (utf8_char c)" "length (utf8_char c) = Suc 0 \<longleftrightarrow> c < 128"
  by (simp_all add: utf8_char_def)

lemma utf8_text_size: "length cs \<le> length (utf8_text cs) \<and> (length (utf8_text cs) = length cs \<longleftrightarrow> (\<forall>c \<in> set cs. c < 128))"
proof (induction cs)
  case (Cons c cs)
  then show ?case using utf8_char_size[of c] by (auto simp: utf8_text_Cons)
qed (simp add: utf8_text_def)

lemma utf8_text_empty: "utf8_text cs = [] \<longleftrightarrow> cs = []"
  by (cases cs) (simp add: utf8_text_def, simp add: utf8_text_Cons utf8_char_def)

lemma scalar_bound: "\<forall>c \<in> set cs. scalar c \<Longrightarrow> \<forall>c \<in> set cs. c < 0x110000"
  by (simp add: scalar_def)

lemma octet_nonzero: "0 < n \<Longrightarrow> n < 256 \<Longrightarrow> octet_of n \<noteq> 0"
  using octet_bytes[of n] by (intro notI) simp

lemma utf8_char_nonzero:
  assumes "c < 0x110000" "c \<noteq> 0"
  shows "0 \<notin> set (utf8_char c)"
proof -
  have "\<forall>n \<in> set (digits_of c). 0 < n" using assms(2) by (auto simp: digits_of_def)
  then show ?thesis using digits_of_props(2)[OF assms(1)] octet_nonzero by (fastforce simp: utf8_char_digits)
qed

lemma utf8_text_nonzero: "\<forall>c \<in> set cs. scalar c \<Longrightarrow> 0 \<notin> set cs \<Longrightarrow> \<forall>b \<in> set (utf8_text cs). b \<noteq> 0"
proof (induction cs)
  case (Cons c cs)
  then show ?case using utf8_char_nonzero[of c] by (auto simp: utf8_text_Cons scalar_def)
qed (simp add: utf8_text_def)

lemma from_bytes_text:
  assumes "\<forall>c \<in> set cs. scalar c" "0 \<notin> set cs"
  shows "from_bytes (utf8_text cs @ [0]) = Inr (utf16le cs, length (utf8_text cs))"
proof -
  have "takeWhile (\<lambda>b. b \<noteq> 0) (utf8_text cs @ [0]) = utf8_text cs" using utf8_text_nonzero[OF assms] by simp
  then show ?thesis using decode_utf8_text[OF assms(1)] by (simp add: from_bytes_def del: utf8_decode.simps)
qed

text \<open>A world where no allocation is refused.\<close>

definition roomy :: "lworld \<Rightarrow> bool" where
  "roomy w = (0 < nextBuf w \<and> (\<forall>p \<ge> nextBuf w. bufs w p = None) \<and> (\<forall>n. \<not> refused w n))"

definition with_block :: "octet list \<Rightarrow> lworld \<Rightarrow> lworld" where
  "with_block bs w = w\<lparr>nextBuf := Suc (nextBuf w), bufs := (bufs w)(nextBuf w \<mapsto> bs)\<rparr>"

lemma with_block_fields [simp]:
  "bufs (with_block bs w) = (bufs w)(nextBuf w \<mapsto> bs)" "files (with_block bs w) = files w"
  "nextBuf (with_block bs w) = Suc (nextBuf w)" "refused (with_block bs w) = refused w"
  by (simp_all add: with_block_def)

lemma roomy_with_block: "roomy w \<Longrightarrow> roomy (with_block bs w)"
  by (simp add: roomy_def)

lemma roomy_next: "roomy w \<Longrightarrow> nextBuf w \<noteq> 0" "roomy w \<Longrightarrow> bufs w (nextBuf w) = None" "roomy w \<Longrightarrow> \<not> refused w n"
  by (simp_all add: roomy_def)

lemma allocate_roomy: "roomy w \<Longrightarrow> allocateStringBuffer n w = (nextBuf w, with_block (replicate n (junk w)) w)"
  by (simp add: allocateStringBuffer_def roomy_next with_block_def)

lemma poke_block:
  "nextBuf w \<noteq> 0 \<Longrightarrow> off + length bs \<le> length old \<Longrightarrow> poke (nextBuf w) off bs (with_block old w) = Inr (with_block (overwrite off bs old) w)"
  by (simp add: poke_def block_at_def with_block_def)

lemma free_block:
  "p \<noteq> 0 \<Longrightarrow> bufs w p = Some bs \<Longrightarrow> freeStringBuffer p w = Inr (w\<lparr>bufs := (bufs w)(p := None)\<rparr>)"
  by (simp add: freeStringBuffer_def)

lemma filled: "length bs = n \<Longrightarrow> overwrite 0 bs (overwrite n [0] (replicate (Suc n) j)) = bs @ [0]"
  "length bs = n \<Longrightarrow> overwrite n [0] (overwrite 0 bs (replicate (Suc n) j)) = bs @ [0]"
  by (simp_all add: overwrite_def)

lemma convertUTF8ToUTF16le_text:
  assumes "roomy w" "b \<noteq> 0" "bufs w b = Some (utf8_text cs @ [0])" "\<forall>c \<in> set cs. scalar c" "0 \<notin> set cs"
  shows "convertUTF8ToUTF16le b (length (utf8_text cs)) w = Inr (Some (nextBuf w, length (utf16le cs)), with_block (utf16le cs @ [0]) w)"
  using assms(2,3) roomy_next[OF assms(1)]
  by (simp add: convertUTF8ToUTF16le_def block_at_def from_bytes_text[OF assms(4,5)] allocate_roomy[OF assms(1)] poke_block filled
    del: replicate_Suc)

lemma tryConvert_text:
  assumes "\<forall>c \<in> set cs. scalar c" "hint = kUnknown \<or> hint = kLatin1"
  shows "\<exists>latin1. tryConvertUTF8ToLatin1 (utf8_text cs @ [0]) (length (utf8_text cs)) hint = Inr (latin1, text_encoding cs) \<and>
    (text_encoding cs = kLatin1 \<longrightarrow> latin1 = map octet_of cs)"
proof -
  let ?n = "length (utf8_text cs)"
  have convert_end: "convertUTF8ToLatin1 mem e e acc = Inr (True, acc)" for mem e acc
    by (subst convertUTF8ToLatin1.simps) simp
  have "convertUTF8ToLatin1 (utf8_text cs @ [0]) 0 ?n [] =
    (if \<forall>c \<in> set cs. c < 256 then Inr (True, map octet_of cs) else Inr (False, map octet_of (takeWhile (\<lambda>c. c < 256) cs)))"
    using convert_text[OF scalar_bound[OF assms(1)], of ?n "[]" 0 "[0]" "[]"]
    by (auto simp: convert_end simp del: convertUTF8ToLatin1.simps)
  then have "tryConvertUTF8ToLatin1 (utf8_text cs @ [0]) ?n hint = (if \<forall>c \<in> set cs. c < 256
      then Inr (map octet_of cs, if length cs = ?n then kAscii else kLatin1)
      else Inr (map octet_of (takeWhile (\<lambda>c. c < 256) cs), kUtf16))"
    using assms(2) by (simp add: tryConvertUTF8ToLatin1_def del: convertUTF8ToLatin1.simps)
  moreover have "length cs = ?n \<longleftrightarrow> (\<forall>c \<in> set cs. c < 128)" using utf8_text_size[of cs] by metis
  moreover have "(\<forall>c \<in> set cs. c < 128) \<Longrightarrow> (\<forall>c \<in> set cs. c < 256)" by fastforce
  ultimately show ?thesis unfolding text_encoding_def
    by (cases "\<forall>c \<in> set cs. c < 256"; cases "\<forall>c \<in> set cs. c < 128") (simp_all only: if_True if_False refl, simp_all)
qed

text \<open>The world after a new block has replaced the block \<open>b\<close>.\<close>

definition replaced :: "nat \<Rightarrow> octet list \<Rightarrow> lworld \<Rightarrow> lworld" where
  "replaced b bs w = w\<lparr>nextBuf := Suc (nextBuf w), bufs := (bufs w)(b := None, nextBuf w \<mapsto> bs)\<rparr>"

lemma free_replaced:
  assumes "b \<noteq> 0" "bufs w b = Some old" "nextBuf w \<noteq> b"
  shows "freeStringBuffer b (with_block bs w) = Inr (replaced b bs w)"
  using assms by (simp add: freeStringBuffer_def with_block_def replaced_def fun_upd_twist)

lemma poke_replaced:
  "nextBuf w \<noteq> 0 \<Longrightarrow> off + length bs \<le> length old \<Longrightarrow> poke (nextBuf w) off bs (replaced b old w) = Inr (replaced b (overwrite off bs old) w)"
  by (simp add: poke_def block_at_def replaced_def)

lemma replaced_world:
  assumes "roomy w" "bufs w = m(b \<mapsto> old)" "m b = None"
  shows "bufs (replaced b bs w) = m(nextBuf w \<mapsto> bs)" "roomy (replaced b bs w)" "files (replaced b bs w) = files w"
    "nextBuf w \<noteq> b" "m (nextBuf w) = None"
proof -
  show nb: "nextBuf w \<noteq> b" using roomy_next(2)[OF assms(1)] assms(2) by auto
  show "m (nextBuf w) = None" using roomy_next(2)[OF assms(1)] assms(2) nb by simp
  have m: "(bufs w)(b := None) = m" using assms(2,3) by auto
  then show 1: "bufs (replaced b bs w) = m(nextBuf w \<mapsto> bs)" by (simp add: replaced_def)
  show "files (replaced b bs w) = files w" by (simp add: replaced_def)
  have "m p = None" if "nextBuf w \<le> p" for p
    using assms(1) m that unfolding roomy_def by (metis fun_upd_apply)
  then show "roomy (replaced b bs w)" using assms(1) 1 by (simp add: roomy_def replaced_def)
qed

text \<open>The buffer that is read replaces the raw bytes, and nothing else is left in memory.\<close>

lemma createFileData_text:
  assumes "roomy w" "b \<noteq> 0" "bufs w = m(b \<mapsto> utf8_text cs @ [0])" "m b = None" "\<forall>c \<in> set cs. scalar c"
    and "hint = kUnknown \<or> hint = text_encoding cs" "text_encoding cs = kUtf16 \<Longrightarrow> 0 \<notin> set cs"
  shows "\<exists>p v. createFileDataForReloadableString name b (length (utf8_text cs)) hint w =
      Inr (\<lparr>buffer = p, fsize = length (text_buffer cs), encoding = text_encoding cs, filePath = name\<rparr>, v) \<and>
    p \<noteq> 0 \<and> m p = None \<and> bufs v = m(p \<mapsto> text_buffer cs @ [0]) \<and> roomy v \<and> files v = files w"
proof -
  let ?e = "text_encoding cs"
  have b: "bufs w b = Some (utf8_text cs @ [0])" using assms(3) by simp
  note r = replaced_world[OF assms(1,3,4)]
  note n = roomy_next[OF assms(1)]
  note free = free_replaced[OF assms(2) b r(4)]
  have "\<exists>latin1. (if hint = kAscii then Inr ([], kAscii) else if hint = kUtf16 then Inr ([], kUtf16)
      else rbind (block_at w b) (\<lambda>mem. tryConvertUTF8ToLatin1 mem (length (utf8_text cs)) hint)) = Inr (latin1, ?e) \<and>
    (?e = kLatin1 \<longrightarrow> latin1 = map octet_of cs)"
    using assms(2,6) tryConvert_text[OF assms(5), of hint] b by (cases hint) (auto simp: block_at_def text_encoding_def split: if_splits)
  then obtain latin1 where l: "(if hint = kAscii then Inr ([], kAscii) else if hint = kUtf16 then Inr ([], kUtf16)
      else rbind (block_at w b) (\<lambda>mem. tryConvertUTF8ToLatin1 mem (length (utf8_text cs)) hint)) = Inr (latin1, ?e)"
    "?e = kLatin1 \<longrightarrow> latin1 = map octet_of cs" by blast
  show ?thesis
  proof (cases ?e)
    case kUtf16
    then have "text_buffer cs = utf16le cs" by (auto simp: text_encoding_def text_buffer_def split: if_splits)
    then have "createFileDataForReloadableString name b (length (utf8_text cs)) hint w =
      Inr (\<lparr>buffer = nextBuf w, fsize = length (text_buffer cs), encoding = ?e, filePath = name\<rparr>, replaced b (text_buffer cs @ [0]) w)"
      by (simp add: createFileDataForReloadableString_def l(1) kUtf16 free
        convertUTF8ToUTF16le_text[OF assms(1,2) b assms(5) assms(7)[OF kUtf16]])
    then show ?thesis using r n by auto
  next
    case kLatin1
    then have "text_buffer cs = map octet_of cs" by (auto simp: text_encoding_def text_buffer_def split: if_splits)
    then have "createFileDataForReloadableString name b (length (utf8_text cs)) hint w =
      Inr (\<lparr>buffer = nextBuf w, fsize = length (text_buffer cs), encoding = ?e, filePath = name\<rparr>, replaced b (text_buffer cs @ [0]) w)"
      using l(2) kLatin1 by (simp add: createFileDataForReloadableString_def l(1) allocate_roomy[OF assms(1)] n n(1)[THEN neq0_conv[THEN iffD1]] free poke_replaced filled
        del: replicate_Suc)
    then show ?thesis using r n by auto
  next
    case kAscii
    then have "text_buffer cs = utf8_text cs" by (auto simp: text_encoding_def text_buffer_def utf8_text_ascii split: if_splits)
    then show ?thesis using kAscii assms by (simp add: createFileDataForReloadableString_def l(1))
  next
    case kUnknown
    then show ?thesis by (auto simp: text_encoding_def split: if_splits)
  qed
qed

lemma read_bytes:
  assumes "roomy w" "bytes \<noteq> []" "files w (c_str name) = Some (int (length bytes), bytes)"
  shows "SourceReader_read name hint w =
    createFileDataForReloadableString name (nextBuf w) (length bytes) hint (with_block (bytes @ [0]) w)"
  using assms roomy_next[OF assms(1)]
  by (simp add: SourceReader_read_def allocate_roomy[OF assms(1)] poke_block filled del: replicate_Suc)

lemma read_text:
  assumes "roomy w" "\<forall>c \<in> set cs. scalar c" "cs \<noteq> []"
    and "hint = kUnknown \<or> hint = text_encoding cs" "text_encoding cs = kUtf16 \<Longrightarrow> 0 \<notin> set cs"
    and "files w (c_str name) = Some (int (length (utf8_text cs)), utf8_text cs)"
  shows "\<exists>p v. SourceReader_read name hint w =
      Inr (\<lparr>buffer = p, fsize = length (text_buffer cs), encoding = text_encoding cs, filePath = name\<rparr>, v) \<and>
    p \<noteq> 0 \<and> bufs w p = None \<and> bufs v = (bufs w)(p \<mapsto> text_buffer cs @ [0]) \<and> roomy v \<and> files v = files w"
proof -
  note n = roomy_next[OF assms(1)]
  have "utf8_text cs \<noteq> []" using assms(3) by (simp add: utf8_text_empty)
  from read_bytes[OF assms(1) this assms(6), of hint] show ?thesis
    using createFileData_text[OF roomy_with_block[OF assms(1), of "utf8_text cs @ [0]"], of "nextBuf w" "bufs w" cs hint name] n assms(2,4,5)
    by simp
qed

section \<open>Ownership of the buffer\<close>

definition owns :: "(nat \<Rightarrow> octet list option) \<Rightarrow> octet list \<Rightarrow> nat \<Rightarrow> lworld \<Rightarrow> bool" where
  "owns m bs p w = (p \<noteq> 0 \<and> m p = None \<and> bufs w = m(p \<mapsto> bs))"

definition readable :: "string \<Rightarrow> nat list \<Rightarrow> lworld \<Rightarrow> bool" where
  "readable name cs w = (roomy w \<and> cs \<noteq> [] \<and> (\<forall>c \<in> set cs. scalar c) \<and> (text_encoding cs = kUtf16 \<longrightarrow> 0 \<notin> set cs) \<and>
     files w (c_str name) = Some (int (length (utf8_text cs)), utf8_text cs))"

lemma read_readable:
  assumes "readable name cs w" "hint = kUnknown \<or> hint = text_encoding cs"
  shows "\<exists>p v. SourceReader_read name hint w =
      Inr (\<lparr>buffer = p, fsize = length (text_buffer cs), encoding = text_encoding cs, filePath = name\<rparr>, v) \<and>
    owns (bufs w) (text_buffer cs @ [0]) p v \<and> readable name cs v"
  using read_text[of w cs hint name] assms by (auto simp: readable_def owns_def)

definition src_inv :: "(string \<Rightarrow> 'c \<Rightarrow> lworld \<Rightarrow> bool) \<Rightarrow> ('c \<Rightarrow> Encoding) \<Rightarrow> ('c \<Rightarrow> octet list) \<Rightarrow> string \<Rightarrow> 'c \<Rightarrow>
    (nat \<Rightarrow> octet list option) \<Rightarrow> source \<Rightarrow> bool" where
  "src_inv ok enc block name cs m s = (ok name cs (sworld s) \<and> dataPath (sdata s) = name \<and> dataEncoding (sdata s) = enc cs \<and>
     (case loaded s of Some p \<Rightarrow> preloadedData (sdata s) = 0 \<and> owns m (block cs) p (sworld s)
      | None \<Rightarrow> if preloadedData (sdata s) = 0 then bufs (sworld s) = m
          else owns m (block cs) (preloadedData (sdata s)) (sworld s)))"

lemma c_str_idem [simp]: "c_str (c_str s) = c_str s"
  by (simp add: c_str_def)

lemma owned_upd: "owns m bs p w \<Longrightarrow> (bufs w)(p := None) = m"
  by (auto simp: owns_def)

text \<open>The interface to a reader: as long as a source can be read, reading it with the encoding it was found to have
  gives a new block with the same bytes and leaves the source readable; so does returning that block.\<close>

locale source_reader =
  fixes read :: reader
    and ok :: "string \<Rightarrow> 'c \<Rightarrow> lworld \<Rightarrow> bool"
    and enc :: "'c \<Rightarrow> Encoding"
    and block :: "'c \<Rightarrow> octet list"
  assumes read_again: "ok name cs w \<Longrightarrow> \<exists>fd v. read name (enc cs) w = Inr (fd, v) \<and> owns (bufs w) (block cs) (buffer fd) v \<and> ok name cs v"
    and ok_path: "ok (c_str name) cs w = ok name cs w"
    and ok_counter: "ok name cs (w\<lparr>reloaded := n\<rparr>) = ok name cs w"
    and ok_returned: "ok name cs w \<Longrightarrow> owns m (block cs) p w \<Longrightarrow> ok name cs (w\<lparr>bufs := m\<rparr>)"
begin

lemma inv_load:
  assumes "src_inv ok enc block name cs m s" "loaded s = None"
  shows "\<exists>p d w. load_callback read (sdata s) (sworld s) = Inr (p, d, w) \<and>
    src_inv ok enc block name cs m \<lparr>sdata = d, loaded = Some p, sworld = w\<rparr>"
proof (cases "preloadedData (sdata s) = 0")
  case False
  then show ?thesis using assms by (auto simp: src_inv_def load_callback_def)
next
  case True
  let ?w = "sworld s\<lparr>reloaded := Suc (reloaded (sworld s))\<rparr>"
  have "ok (c_str name) cs ?w" using assms(1) by (simp add: src_inv_def ok_path ok_counter)
  from read_again[OF this] obtain fd v where
    r: "read (c_str name) (enc cs) ?w = Inr (fd, v)" "owns (bufs (sworld s)) (block cs) (buffer fd) v" "ok name cs v"
    by (auto simp: ok_path)
  have d: "dataPath (sdata s) = name" "dataEncoding (sdata s) = enc cs" "bufs (sworld s) = m"
    using assms True by (simp_all add: src_inv_def)
  have p: "buffer fd \<noteq> 0" using r(2) by (simp add: owns_def)
  show ?thesis
    by (intro exI[of _ "buffer fd"] exI[of _ "sdata s"] exI[of _ v]) (use r d p True in \<open>simp add: load_callback_def src_inv_def Let_def\<close>)
qed

lemma inv_unload:
  assumes "src_inv ok enc block name cs m s" "loaded s = Some p"
  shows "\<exists>d w. unload_callback p (sdata s) (sworld s) = Inr (d, w) \<and> preloadedData d = 0 \<and>
    src_inv ok enc block name cs m \<lparr>sdata = d, loaded = None, sworld = w\<rparr>"
proof -
  have i: "ok name cs (sworld s)" "preloadedData (sdata s) = 0" "owns m (block cs) p (sworld s)"
    "dataPath (sdata s) = name" "dataEncoding (sdata s) = enc cs"
    using assms by (simp_all add: src_inv_def)
  have "unload_callback p (sdata s) (sworld s) = Inr (sdata s, sworld s\<lparr>bufs := m\<rparr>)"
    using i(2,3) owned_upd[OF i(3)] by (simp add: unload_callback_def freeStringBuffer_def owns_def)
  then show ?thesis using i ok_returned[OF i(1,3)] by (simp add: src_inv_def)
qed

lemma inv_exec:
  assumes "src_inv ok enc block name cs m s"
  shows "\<exists>u. source_exec read op s = Inr u \<and> src_inv ok enc block name cs m u \<and>
    (preloadedData (sdata s) = 0 \<or> op = Load \<longrightarrow> preloadedData (sdata u) = 0)"
proof (cases "loaded s")
  case None
  then show ?thesis
  proof (cases op)
    case Load
    obtain p d w where l: "load_callback read (sdata s) (sworld s) = Inr (p, d, w)"
      "src_inv ok enc block name cs m \<lparr>sdata = d, loaded = Some p, sworld = w\<rparr>"
      using inv_load[OF assms None] by blast
    then have "preloadedData d = 0" by (simp add: src_inv_def)
    then show ?thesis using l None Load by (simp add: source_exec_def)
  qed (use assms None in \<open>simp add: source_exec_def\<close>)
next
  case (Some p)
  then have "preloadedData (sdata s) = 0" using assms by (simp add: src_inv_def)
  then show ?thesis using inv_unload[OF assms Some] assms Some by (cases op) (auto simp: source_exec_def)
qed

lemma inv_run:
  "src_inv ok enc block name cs m s \<Longrightarrow> \<exists>u. foldM (source_exec read) ops s = Inr u \<and> src_inv ok enc block name cs m u \<and>
    (preloadedData (sdata s) = 0 \<or> Load \<in> set ops \<longrightarrow> preloadedData (sdata u) = 0)"
proof (induction ops arbitrary: s)
  case (Cons op ops)
  obtain t where t: "source_exec read op s = Inr t" "src_inv ok enc block name cs m t"
    "preloadedData (sdata s) = 0 \<or> op = Load \<longrightarrow> preloadedData (sdata t) = 0"
    using inv_exec[OF Cons.prems, of op] by blast
  then show ?case using Cons.IH[OF t(2)] by auto
qed simp

end

text \<open>The reader of files provides it.\<close>

lemma readable_returned:
  assumes "readable name cs w" "owns m bs p w"
  shows "readable name cs (w\<lparr>bufs := m\<rparr>)"
proof -
  have "m q = None" if "nextBuf w \<le> q" for q
    using assms that unfolding readable_def roomy_def owns_def by (metis fun_upd_apply)
  then show ?thesis using assms(1) by (simp add: readable_def roomy_def)
qed

interpretation file_reader: source_reader SourceReader_read readable text_encoding "\<lambda>cs. text_buffer cs @ [0]"
proof
  show "\<exists>fd v. SourceReader_read name (text_encoding cs) w = Inr (fd, v) \<and> owns (bufs w) (text_buffer cs @ [0]) (buffer fd) v \<and> readable name cs v"
    if "readable name cs w" for name cs w
    using read_readable[OF that, of "text_encoding cs"] by auto
qed (erule readable_returned, assumption | simp add: readable_def roomy_def)+

section \<open>Text that is refused\<close>

lemma read_empty:
  assumes "roomy w" "files w (c_str name) = Some (0, [])"
  shows "\<exists>v. SourceReader_read name hint w = Inr (noFileData, v) \<and> bufs v = bufs w"
proof -
  note n = roomy_next[OF assms(1)]
  have "(bufs w)(nextBuf w := None) = bufs w" using n(2) by auto
  then show ?thesis using n by (simp add: SourceReader_read_def assms(2) allocate_roomy[OF assms(1)] poke_block
    freeStringBuffer_def overwrite_def)
qed

lemma utf8_text_until_null:
  "\<forall>c \<in> set cs. scalar c \<Longrightarrow> takeWhile (\<lambda>b. b \<noteq> 0) (utf8_text cs @ [0]) = utf8_text (takeWhile (\<lambda>c. c \<noteq> 0) cs)"
proof (induction cs)
  case (Cons c cs)
  then show ?case using utf8_char_nonzero[of c]
    by (cases "c = 0") (auto simp: utf8_text_Cons scalar_def utf8_char_def octet_of_def takeWhile_append2 utf8_text_def split: if_splits)
qed (simp add: utf8_text_def)

lemma text_encoding_wide: "text_encoding cs = kUtf16 \<longleftrightarrow> \<not> (\<forall>c \<in> set cs. c < 256)" "text_encoding cs \<noteq> kUnknown"
proof -
  have "\<forall>c \<in> set cs. c < 128 \<Longrightarrow> \<forall>c \<in> set cs. c < 256" by fastforce
  then show "text_encoding cs = kUtf16 \<longleftrightarrow> \<not> (\<forall>c \<in> set cs. c < 256)" unfolding text_encoding_def by (metis Encoding.distinct)
qed (simp add: text_encoding_def)

lemma read_null:
  assumes "roomy w" "\<forall>c \<in> set cs. scalar c" "text_encoding cs = kUtf16" "0 \<in> set cs"
    and "files w (c_str name) = Some (int (length (utf8_text cs)), utf8_text cs)"
  shows "\<exists>v. SourceReader_read name kUnknown w = Inr (noFileData, v) \<and> bufs v = bufs w"
proof -
  note n = roomy_next[OF assms(1)]
  let ?pre = "takeWhile (\<lambda>c. c \<noteq> 0) cs" let ?w = "with_block (utf8_text cs @ [0]) w" let ?b = "nextBuf w"
  have pre: "\<forall>c \<in> set ?pre. scalar c" using assms(2) by (auto dest: set_takeWhileD)
  have "cs = ?pre @ dropWhile (\<lambda>c. c \<noteq> 0) cs" "dropWhile (\<lambda>c. c \<noteq> 0) cs \<noteq> []" using assms(4) by (auto simp: dropWhile_eq_Nil_conv)
  then have "length (utf8_text ?pre) < length (utf8_text cs)"
    using utf8_text_empty[of "dropWhile (\<lambda>c. c \<noteq> 0) cs"] by (metis utf8_text_def concat_append map_append length_append less_add_same_cancel1 length_greater_0_conv)
  then have conv: "convertUTF8ToUTF16le ?b (length (utf8_text cs)) ?w = Inr (None, ?w)"
    using n decode_utf8_text[OF pre] by (simp add: convertUTF8ToUTF16le_def block_at_def from_bytes_def utf8_text_until_null[OF assms(2)]
      del: utf8_decode.simps)
  obtain latin1 where t: "tryConvertUTF8ToLatin1 (utf8_text cs @ [0]) (length (utf8_text cs)) kUnknown = Inr (latin1, kUtf16)"
    using tryConvert_text[OF assms(2), of kUnknown] assms(3) by auto
  have "(bufs w)(?b := None) = bufs w" using n(2) by auto
  moreover have "cs \<noteq> []" using assms(4) by auto
  ultimately show ?thesis using n conv t read_bytes[OF assms(1) _ assms(5), of kUnknown]
    by (simp add: utf8_text_empty createFileDataForReloadableString_def block_at_def freeStringBuffer_def)
qed

lemma utf16le_Cons: "utf16le (c # cs) = concat (map le_bytes (utf16_units c)) @ utf16le cs"
  by (simp add: utf16le_def)

lemma utf16le_even: "even (length (utf16le cs)) \<and> (cs \<noteq> [] \<longrightarrow> 2 \<le> length (utf16le cs))"
  by (induction cs) (auto simp: utf16le_Cons utf16_units_def le_bytes_def, simp add: utf16le_def)

section \<open>Properties\<close>

text \<open>A world with one file, and nothing allocated.\<close>

definition file_world :: "string \<Rightarrow> nat list \<Rightarrow> lworld" where
  "file_world name cs = \<lparr>bufs = Map.empty, nextBuf = 1, junk = 0, refused = (\<lambda>_. False),
     files = [name \<mapsto> (int (length (utf8_text cs)), utf8_text cs)], reloaded = 0\<rparr>"

lemma roomy_file_world: "roomy (file_world name cs)"
  by (simp add: roomy_def file_world_def)

lemma bufs_file_world [simp]: "bufs (file_world name cs) = Map.empty"
  by (simp add: file_world_def)

lemma unloaded_last:
  assumes "foldM (source_exec r) (ops @ [Unload]) s = Inr u"
  shows "loaded u = None"
proof -
  obtain t where "source_exec r Unload t = Inr u" using assms by (auto simp: foldM_snoc rbind_eq_Inr)
  then show ?thesis by (cases "loaded t") (auto simp: source_exec_def rbind_eq_Inr)
qed

text \<open>C21. A file of well-formed text is read: as one byte for each character when they are ASCII or Latin-1, as UTF-16
  otherwise, terminated, and in the only block that is left allocated. Text that needs UTF-16 and contains a null
  character is refused without a leak, and so are a missing and an empty file.\<close>

theorem file_text_is_read:
  assumes "roomy w" "\<forall>c \<in> set cs. scalar c"
  shows "(files w (c_str name) = None \<longrightarrow> SourceReader_read name kUnknown w = Inr (noFileData, w)) \<and>
    (files w (c_str name) = Some (int (length (utf8_text cs)), utf8_text cs) \<longrightarrow>
      (\<exists>fd v. SourceReader_read name kUnknown w = Inr (fd, v) \<and>
        (if cs = [] \<or> text_encoding cs = kUtf16 \<and> 0 \<in> set cs then fd = noFileData \<and> bufs v = bufs w
         else encoding fd = text_encoding cs \<and> fsize fd = length (text_buffer cs) \<and> buffer fd \<noteq> 0 \<and>
           bufs v = (bufs w)(buffer fd \<mapsto> text_buffer cs @ [0]))))"
proof -
  have "\<exists>fd v. SourceReader_read name kUnknown w = Inr (fd, v) \<and>
        (if cs = [] \<or> text_encoding cs = kUtf16 \<and> 0 \<in> set cs then fd = noFileData \<and> bufs v = bufs w
         else encoding fd = text_encoding cs \<and> fsize fd = length (text_buffer cs) \<and> buffer fd \<noteq> 0 \<and>
           bufs v = (bufs w)(buffer fd \<mapsto> text_buffer cs @ [0]))"
    if f: "files w (c_str name) = Some (int (length (utf8_text cs)), utf8_text cs)"
  proof (cases "cs = []")
    case True
    then show ?thesis using read_empty[OF assms(1), of name] f by (auto simp: utf8_text_def)
  next
    case False
    show ?thesis
    proof (cases "text_encoding cs = kUtf16 \<and> 0 \<in> set cs")
      case True
      then show ?thesis using read_null[OF assms _ _ f] by auto
    next
      case False
      then show ?thesis using read_text[OF assms \<open>cs \<noteq> []\<close> _ _ f, of kUnknown] \<open>cs \<noteq> []\<close> by auto
    qed
  qed
  then show ?thesis by (simp add: SourceReader_read_def)
qed

theorem file_text_is_read_witness:
  "\<exists>fd v. SourceReader_read ''a.js'' kUnknown (file_world ''a.js'' [0xE9]) = Inr (fd, v) \<and> encoding fd = kLatin1 \<and> fsize fd = 1 \<and>
     buffer fd \<noteq> 0 \<and> bufs v = [buffer fd \<mapsto> [octet_of 0xE9, 0]]"
proof -
  have "text_encoding [0xE9] = kLatin1" "text_buffer [0xE9] = [octet_of 0xE9]" "scalar 0xE9" "c_str ''a.js'' = ''a.js''"
    by (simp_all add: text_encoding_def text_buffer_def scalar_def c_str_def)
  then show ?thesis using file_text_is_read[OF roomy_file_world[of "''a.js''" "[0xE9]"], of "[0xE9]" "''a.js''"]
    by (simp add: file_world_def)
qed

text \<open>C20. A script source made from a file survives any sequence of loads and unloads by the engine: each load gives a
  buffer with the same text, of the width and length the engine was told, nothing is freed twice, and when the source
  is unloaded all its memory is returned.\<close>

theorem reloads_are_faithful:
  assumes "readable name cs w" "length (text_buffer cs) \<le> kMaxLength"
  shows "\<exists>d v. CreateReloadableSourceFromFile name w =
      Inr (Some (Reloadable (\<forall>c \<in> set cs. c < 256) (if \<forall>c \<in> set cs. c < 256 then length cs else length (utf16le cs) div 2), d), v) \<and>
    (\<forall>ops. \<exists>s. foldM (source_exec SourceReader_read) ops \<lparr>sdata = d, loaded = None, sworld = v\<rparr> = Inr s \<and>
      (\<forall>p. loaded s = Some p \<longrightarrow> bufs w p = None \<and> bufs (sworld s) = (bufs w)(p \<mapsto> text_buffer cs @ [0])) \<and>
      (loaded s = None \<and> Load \<in> set ops \<longrightarrow> bufs (sworld s) = bufs w))"
proof -
  obtain p v where r: "SourceReader_read name kUnknown w =
      Inr (\<lparr>buffer = p, fsize = length (text_buffer cs), encoding = text_encoding cs, filePath = name\<rparr>, v)"
    "owns (bufs w) (text_buffer cs @ [0]) p v" "readable name cs v" using read_readable[OF assms(1)] by blast
  define d where "d = \<lparr>preloadedData = p, dataPath = name, preloadedDataLength = length (text_buffer cs), dataEncoding = text_encoding cs\<rparr>"
  have one: "isOneByteString d = (\<forall>c \<in> set cs. c < 256)"
    using text_encoding_wide[of cs] by (cases "text_encoding cs") (auto simp: isOneByteString_def d_def)
  have "n \<le> k \<Longrightarrow> n div 2 \<le> k" for n k :: nat by linarith
  moreover have "cs \<noteq> []" using assms(1) by (simp add: readable_def)
  ultimately have len: "0 < stringLength d" "stringLength d \<le> kMaxLength"
    "stringLength d = (if \<forall>c \<in> set cs. c < 256 then length cs else length (utf16le cs) div 2)"
    using assms(2) utf16le_even[of cs]
    by (cases "\<forall>c \<in> set cs. c < 256", simp_all only: stringLength_def one text_buffer_def if_True if_False refl) (auto simp: d_def text_buffer_def)
  have c: "CreateReloadableSourceFromFile name w = Inr (Some (Reloadable (\<forall>c \<in> set cs. c < 256) (stringLength d), d), v)"
    using r(1,2) len one
    by (simp add: CreateReloadableSourceFromFile_def owns_def ReloadableSourceData_create_def d_def[symmetric] NewReloadableString_def Let_def)
  have inv: "src_inv readable text_encoding (\<lambda>cs. text_buffer cs @ [0]) name cs (bufs w) \<lparr>sdata = d, loaded = None, sworld = v\<rparr>" using r(2,3) by (simp add: src_inv_def d_def owns_def)
  have "\<exists>s. foldM (source_exec SourceReader_read) ops \<lparr>sdata = d, loaded = None, sworld = v\<rparr> = Inr s \<and>
      (\<forall>p. loaded s = Some p \<longrightarrow> bufs w p = None \<and> bufs (sworld s) = (bufs w)(p \<mapsto> text_buffer cs @ [0])) \<and>
      (loaded s = None \<and> Load \<in> set ops \<longrightarrow> bufs (sworld s) = bufs w)" for ops
    using file_reader.inv_run[OF inv, of ops] by (auto simp: src_inv_def owns_def)
  then show ?thesis using c len(3) by auto
qed

theorem reloads_are_faithful_witness:
  "\<exists>d v s. CreateReloadableSourceFromFile ''a.js'' (file_world ''a.js'' [0x20AC]) = Inr (Some (Reloadable False 1, d), v) \<and>
     foldM (source_exec SourceReader_read) [Load, Unload, Load, Unload] \<lparr>sdata = d, loaded = None, sworld = v\<rparr> = Inr s \<and>
     loaded s = None \<and> bufs (sworld s) = Map.empty"
proof -
  have r: "readable ''a.js'' [0x20AC] (file_world ''a.js'' [0x20AC])"
    using roomy_file_world[of "''a.js''" "[0x20AC]"]
    by (simp add: readable_def text_encoding_def scalar_def c_str_def) (simp add: file_world_def)
  have "length (text_buffer [0x20AC]) \<le> kMaxLength" "length (utf16le [0x20AC]) div 2 = 1"
    by (simp_all add: text_buffer_def kMaxLength_def utf16le_def utf16_units_def le_bytes_def)
  then obtain d v where
    c: "CreateReloadableSourceFromFile ''a.js'' (file_world ''a.js'' [0x20AC]) = Inr (Some (Reloadable False 1, d), v)"
    and e: "\<forall>ops. \<exists>s. foldM (source_exec SourceReader_read) ops \<lparr>sdata = d, loaded = None, sworld = v\<rparr> = Inr s \<and>
      (\<forall>p. loaded s = Some p \<longrightarrow> bufs (file_world ''a.js'' [0x20AC]) p = None \<and>
        bufs (sworld s) = (bufs (file_world ''a.js'' [0x20AC]))(p \<mapsto> text_buffer [0x20AC] @ [0])) \<and>
      (loaded s = None \<and> Load \<in> set ops \<longrightarrow> bufs (sworld s) = bufs (file_world ''a.js'' [0x20AC]))"
    using reloads_are_faithful[OF r] by auto
  from e[rule_format, of "[Load, Unload, Load, Unload]"] show ?thesis using c unloaded_last[of _ "[Load, Unload, Load]"] by auto
qed

lemma decode_utf8_prefix:
  "\<forall>c \<in> set cs. scalar c \<Longrightarrow> utf8_decode (utf8_text cs @ r) = map_option ((@) cs) (utf8_decode r)"
proof (induction cs)
  case Nil
  have "(@) [] = (\<lambda>x. x :: nat list)" by auto
  then show ?case by (simp add: utf8_text_def option.map_ident del: utf8_decode.simps)
next
  case (Cons c cs)
  have "utf8_char c \<noteq> []" by (simp add: utf8_char_def)
  then show ?case using Cons decode_utf8_char[of c "utf8_text cs @ r"]
    by (simp add: utf8_text_Cons option.map_comp comp_def del: utf8_decode.simps add: utf8_decode.simps[of "_ @ _"])
qed

lemma decode_lone_lead: "0xC0 \<le> b \<Longrightarrow> b < 0xE0 \<Longrightarrow> utf8_decode [octet_of b] = None"
proof -
  assume b: "0xC0 \<le> b" "b < 0xE0"
  have "list_all (\<lambda>b. decode_char [octet_of b] = None) [0xC0..<0xE0]" by code_simp
  from list_all_upt[OF this b] have "decode_char [octet_of b] = None" .
  then show ?thesis by (subst utf8_decode.simps) simp
qed

lemma bad_end_tryConvert:
  assumes "\<forall>c \<in> set cs. c < 256" "128 \<le> b" "b < 256"
  shows "tryConvertUTF8ToLatin1 (utf8_text cs @ [octet_of b, 0]) (Suc (length (utf8_text cs))) kUnknown =
    (if 0xC2 \<le> b \<and> b < 0xC6 then Inr (map octet_of (cs @ [(b - 0xC2) * 64]), if \<forall>c \<in> set cs. c < 128 then kAscii else kLatin1)
     else if 0xC0 \<le> b \<and> b < 0xE0 then Inr (map octet_of cs, kUtf16) else Inl OutOfBounds)"
proof -
  have "(length cs = length (utf8_text cs)) = (\<forall>c \<in> set cs. c < 128)" using utf8_text_size[of cs] by metis
  then have "(Suc (length cs) = Suc (length (utf8_text cs))) = (\<forall>c \<in> set cs. c < 128)" by simp
  then show ?thesis unfolding tryConvertUTF8ToLatin1_def convert_bad_end[OF assms]
    by (simp only: rbind_Inr rbind_Inl if_distrib simp_thms if_True prod.case length_map length_append list.size) simp
qed

text \<open>A file of Latin-1 text that ends in a byte that is no character of its own: four lead bytes are accepted and
  read together with the terminator, as a Latin-1 character that the file does not contain or, behind ASCII, as they
  are in text that is marked as ASCII; the other lead bytes of two end the process by an exception; all others make the
  conversion read outside of the buffer or of its table.\<close>

theorem bad_end_of_file:
  assumes "roomy w" "\<forall>c \<in> set cs. 0 < c \<and> c < 256" "128 \<le> b" "b < 256"
    and "files w (c_str name) = Some (int (Suc (length (utf8_text cs))), utf8_text cs @ [octet_of b])"
  shows "if 0xC2 \<le> b \<and> b < 0xC6 then \<exists>fd v. SourceReader_read name kUnknown w = Inr (fd, v) \<and>
        encoding fd = (if \<forall>c \<in> set cs. c < 128 then kAscii else kLatin1) \<and>
        bufs v (buffer fd) = Some (map octet_of (cs @ [if \<forall>c \<in> set cs. c < 128 then b else (b - 0xC2) * 64]) @ [0])
     else SourceReader_read name kUnknown w = Inl (if 0xC0 \<le> b \<and> b < 0xE0 then UncaughtException else OutOfBounds)"
proof -
  let ?t = "utf8_text cs @ [octet_of b]" let ?b = "nextBuf w"
  define u where "u = with_block (utf8_text cs @ [octet_of b, 0]) w"
  note n = roomy_next[OF assms(1)]
  have small: "\<forall>c \<in> set cs. c < 256" using assms(2) by auto
  have r: "SourceReader_read name kUnknown w = createFileDataForReloadableString name ?b (length ?t) kUnknown u"
    using read_bytes[of w ?t name kUnknown] assms(1,5) by (simp add: u_def)
  have at: "block_at u ?b = Inr (utf8_text cs @ [octet_of b, 0])" using n by (simp add: block_at_def u_def)
  have bu: "bufs u ?b = Some (utf8_text cs @ [octet_of b, 0])" by (simp add: u_def)
  note t = bad_end_tryConvert[OF small assms(3,4)]
  consider "0xC2 \<le> b" "b < 0xC6" "\<forall>c \<in> set cs. c < 128" | "0xC2 \<le> b" "b < 0xC6" "\<not> (\<forall>c \<in> set cs. c < 128)"
    | "\<not> (0xC2 \<le> b \<and> b < 0xC6)" "0xC0 \<le> b \<and> b < 0xE0" | "\<not> (0xC0 \<le> b \<and> b < 0xE0)" by blast
  then show ?thesis
  proof cases
    case 1
    then show ?thesis using r at t bu utf8_text_ascii[OF 1(3)] by (simp add: createFileDataForReloadableString_def)
  next
    case 2
    have rw: "roomy u" unfolding u_def by (rule roomy_with_block[OF assms(1)])
    let ?l = "map octet_of (cs @ [(b - 0xC2) * 64])"
    note m = roomy_next[OF rw]
    have free: "freeStringBuffer ?b (with_block bs u) = Inr (replaced ?b bs u)" for bs
      using n by (intro free_replaced[of ?b u "utf8_text cs @ [octet_of b, 0]"]) (simp_all add: u_def)
    have "tryConvertUTF8ToLatin1 (utf8_text cs @ [octet_of b, 0]) (length ?t) kUnknown = Inr (?l, kLatin1)"
      using t 2 by (simp only: if_True if_False simp_thms length_append list.size) simp
    then have "SourceReader_read name kUnknown w =
        Inr (\<lparr>buffer = nextBuf u, fsize = length ?l, encoding = kLatin1, filePath = name\<rparr>, replaced ?b (?l @ [0]) u)"
      using m by (simp add: r at createFileDataForReloadableString_def allocate_roomy[OF rw] free poke_replaced filled
        del: replicate_Suc)
    then show ?thesis using 2 by (auto simp: replaced_def)
  next
    case 3
    have sc: "\<forall>c \<in> set cs. scalar c" "0 \<notin> set cs" using assms(2) by (auto simp: scalar_def)
    have "octet_of b \<noteq> 0" using assms(3,4) by (intro octet_nonzero) auto
    then have "takeWhile (\<lambda>b. b \<noteq> 0) (utf8_text cs @ [octet_of b, 0]) = ?t" using utf8_text_nonzero[OF sc] by (simp add: takeWhile_append2)
    moreover have "utf8_decode ?t = None"
      using decode_lone_lead[of b] 3 by (simp add: decode_utf8_prefix[OF sc(1)] del: utf8_decode.simps)
    ultimately have "convertUTF8ToUTF16le ?b (length ?t) u = Inl UncaughtException"
      using at by (simp add: convertUTF8ToUTF16le_def from_bytes_def del: utf8_decode.simps)
    then show ?thesis using r at t 3 by (simp add: createFileDataForReloadableString_def)
  next
    case 4
    then show ?thesis using r at t by (auto simp: createFileDataForReloadableString_def)
  qed
qed

theorem bad_end_of_file_witness:
  "SourceReader_read ''a.js'' kUnknown ((file_world ''a.js'' [])\<lparr>files := [''a.js'' \<mapsto> (2, [0x61, 0xD0])]\<rparr>) = Inl UncaughtException"
proof -
  have "utf8_text [0x61] = [0x61]" "octet_of 0xD0 = 0xD0" by (simp_all add: utf8_text_def utf8_char_def octet_of_def)
  moreover have "roomy ((file_world ''a.js'' [])\<lparr>files := [''a.js'' \<mapsto> (2, [0x61, 0xD0])]\<rparr>)" by (simp add: roomy_def file_world_def)
  ultimately show ?thesis
    using bad_end_of_file[of "(file_world ''a.js'' [])\<lparr>files := [''a.js'' \<mapsto> (2, [0x61, 0xD0])]\<rparr>" "[0x61]" "0xD0" "''a.js''"]
    by (simp add: c_str_def)
qed

end
