(* ===== verification/Threads.thy ===== *)
theory Threads
  imports Prelude
begin

text \<open>
  Threads that share an isolate: \<^verbatim>\<open>ThreadManager\<close>, \<^verbatim>\<open>v8::Locker\<close> and
  \<^verbatim>\<open>v8::Unlocker\<close> of \<^verbatim>\<open>src/src/execution/v8threads.cc\<close>. Lockers and unlockers are
  automatic objects, so each thread has a stack of them. Every access to the mutex or to the atomic
  \<^verbatim>\<open>mutex_owner_\<close> is a step of its own, and the steps of the threads interleave in any order.
  Threads are numbered from one; the owner is zero when there is none.
\<close>

section \<open>State\<close>

text \<open>\<open>Locker has_lock\<close> and \<open>Unlocker\<close> are the objects; the constructor of an unlocker leaves its
  \<^verbatim>\<open>isolate_\<close> uninitialised, which the destructor reads.\<close>

datatype frame = Locker bool | Unlocker

text \<open>Where a thread is: in client code; before \<^verbatim>\<open>mutex_.lock()\<close>; behind it; behind the store of the owner;
  and, on the way to the frames \<open>k\<close>, before the owner is reset and before \<^verbatim>\<open>mutex_.unlock()\<close>.\<close>

datatype thread_pc = Running | Locking | Locked | Owned | Resetting "frame list" | Unlocking "frame list"

record thread =
  frames :: "frame list"
  pc :: thread_pc

record manager =
  mutex :: "nat option"
  mutex_owner :: nat
  threads :: "nat \<Rightarrow> thread"

definition newManager :: manager where
  "newManager = \<lparr>mutex = None, mutex_owner = 0, threads = (\<lambda>_. \<lparr>frames = [], pc = Running\<rparr>)\<rparr>"

definition goto :: "nat \<Rightarrow> frame list \<Rightarrow> thread_pc \<Rightarrow> manager \<Rightarrow> manager" where
  "goto t fs p s = s\<lparr>threads := (threads s)(t := \<lparr>frames = fs, pc = p\<rparr>)\<rparr>"

section \<open>Steps\<close>

definition IsLockedByCurrentThread :: "nat \<Rightarrow> manager \<Rightarrow> bool" where
  "IsLockedByCurrentThread t s = (mutex_owner s = t)"

text \<open>What a running thread may do next; otherwise it goes on.\<close>

datatype action = NewLocker | NewUnlocker | Leave | Go

definition Locker_Initialize :: "nat \<Rightarrow> frame list \<Rightarrow> manager \<Rightarrow> manager res" where
  "Locker_Initialize t fs s = (if \<not> IsLockedByCurrentThread t s then Inr (goto t fs Locking s)
     else check (IsLockedByCurrentThread t s) (Inr (goto t (Locker False # fs) Running s)))"

definition Unlocker_Initialize :: "nat \<Rightarrow> frame list \<Rightarrow> manager \<Rightarrow> manager res" where
  "Unlocker_Initialize t fs s = check (IsLockedByCurrentThread t s) (Inr (goto t fs (Resetting (Unlocker # fs)) s))"

fun Locker_dtor :: "nat \<Rightarrow> bool \<Rightarrow> frame list \<Rightarrow> manager \<Rightarrow> manager res" where
  "Locker_dtor t has_lock fs s = check (IsLockedByCurrentThread t s)
     (if has_lock then Inr (goto t (Locker has_lock # fs) (Resetting fs) s) else Inr (goto t fs Running s))"

definition Unlocker_dtor :: "manager res" where
  "Unlocker_dtor = Inl UninitRead"

fun run_step :: "nat \<Rightarrow> action \<Rightarrow> frame list \<Rightarrow> manager \<Rightarrow> manager res option" where
  "run_step t NewLocker fs s = Some (Locker_Initialize t fs s)"
| "run_step t NewUnlocker fs s = Some (Unlocker_Initialize t fs s)"
| "run_step t Leave (Locker has_lock # fs) s = Some (Locker_dtor t has_lock fs s)"
| "run_step t Leave (Unlocker # fs) s = Some Unlocker_dtor"
| "run_step t _ _ s = None"

text \<open>\<^verbatim>\<open>ThreadManager::Lock\<close> and \<^verbatim>\<open>Unlock\<close>. Unlocking a mutex that another thread holds is
  undefined.\<close>

fun go_step :: "nat \<Rightarrow> thread_pc \<Rightarrow> frame list \<Rightarrow> manager \<Rightarrow> manager res option" where
  "go_step t Locking fs s = (if mutex s = None then Some (Inr (goto t fs Locked (s\<lparr>mutex := Some t\<rparr>))) else None)"
| "go_step t Locked fs s = Some (Inr (goto t fs Owned (s\<lparr>mutex_owner := t\<rparr>)))"
| "go_step t Owned fs s = Some (check (IsLockedByCurrentThread t s) (Inr (goto t (Locker True # fs) Running s)))"
| "go_step t (Resetting k) fs s = Some (Inr (goto t fs (Unlocking k) (s\<lparr>mutex_owner := 0\<rparr>)))"
| "go_step t (Unlocking k) fs s = Some (guard AssertFailed (mutex s = Some t) (Inr (goto t k Running (s\<lparr>mutex := None\<rparr>))))"
| "go_step t Running fs s = None"

definition thread_step :: "nat \<Rightarrow> action \<Rightarrow> manager \<Rightarrow> manager res option" where
  "thread_step t a s = (let th = threads s t in
     if pc th = Running then run_step t a (frames th) s
     else if a = Go then go_step t (pc th) (frames th) s else None)"

inductive reachable_manager :: "manager \<Rightarrow> bool" where
  initial: "reachable_manager newManager"
| moves: "reachable_manager s \<Longrightarrow> 0 < t \<Longrightarrow> thread_step t a s = Some (Inr u) \<Longrightarrow> reachable_manager u"

section \<open>The invariant\<close>

text \<open>Whether a thread with these frames holds the lock, and which stacks of frames there are.\<close>

fun holds :: "frame list \<Rightarrow> bool" where
  "holds [] = False"
| "holds (Locker h # fs) = True"
| "holds (Unlocker # fs) = False"

fun frames_ok :: "frame list \<Rightarrow> bool" where
  "frames_ok [] = True"
| "frames_ok (Locker h # fs) = (frames_ok fs \<and> h = (\<not> holds fs))"
| "frames_ok (Unlocker # fs) = (frames_ok fs \<and> holds fs)"

fun has_mutex :: "thread_pc \<Rightarrow> frame list \<Rightarrow> bool" where
  "has_mutex Running fs = holds fs"
| "has_mutex Locking fs = False"
| "has_mutex _ fs = True"

fun is_owner :: "thread_pc \<Rightarrow> frame list \<Rightarrow> bool" where
  "is_owner Running fs = holds fs"
| "is_owner Owned fs = True"
| "is_owner (Resetting k) fs = True"
| "is_owner _ fs = False"

fun pc_ok :: "thread_pc \<Rightarrow> frame list \<Rightarrow> bool" where
  "pc_ok Running fs = True"
| "pc_ok (Resetting k) fs = (frames_ok k \<and> \<not> holds k)"
| "pc_ok (Unlocking k) fs = (frames_ok k \<and> \<not> holds k)"
| "pc_ok _ fs = (\<not> holds fs)"

definition thread_ok :: "nat \<Rightarrow> manager \<Rightarrow> bool" where
  "thread_ok t s = (let th = threads s t in frames_ok (frames th) \<and> pc_ok (pc th) (frames th) \<and>
     (mutex s = Some t) = has_mutex (pc th) (frames th) \<and> (mutex_owner s = t) = is_owner (pc th) (frames th))"

definition manager_ok :: "manager \<Rightarrow> bool" where
  "manager_ok s = ((\<forall>t > 0. thread_ok t s) \<and> mutex s \<noteq> Some 0)"

lemma threads_goto [simp]:
  "threads (goto t fs p s) = (threads s)(t := \<lparr>frames = fs, pc = p\<rparr>)" "mutex (goto t fs p s) = mutex s"
  "mutex_owner (goto t fs p s) = mutex_owner s"
  by (simp_all add: goto_def)

lemma thread_ok_goto:
  "thread_ok u (goto t fs p s) = (if u = t then frames_ok fs \<and> pc_ok p fs \<and> (mutex s = Some t) = has_mutex p fs \<and>
     (mutex_owner s = t) = is_owner p fs else thread_ok u s)"
  by (simp add: thread_ok_def)

lemma thread_ok_update:
  "thread_ok u (s\<lparr>mutex := m\<rparr>) = (let th = threads s u in frames_ok (frames th) \<and> pc_ok (pc th) (frames th) \<and>
     (m = Some u) = has_mutex (pc th) (frames th) \<and> (mutex_owner s = u) = is_owner (pc th) (frames th))"
  "thread_ok u (s\<lparr>mutex_owner := r\<rparr>) = (let th = threads s u in frames_ok (frames th) \<and> pc_ok (pc th) (frames th) \<and>
     (mutex s = Some u) = has_mutex (pc th) (frames th) \<and> (r = u) = is_owner (pc th) (frames th))"
  by (simp_all add: thread_ok_def)

text \<open>A step of \<open>t\<close> keeps the invariant when it fits \<open>t\<close> and the other threads see the same mutex and owner.\<close>

lemma manager_ok_goto:
  assumes "manager_ok s" "frames_ok fs" "pc_ok p fs" "(mutex v = Some t) = has_mutex p fs" "(mutex_owner v = t) = is_owner p fs"
    and "threads v = threads s" "mutex v \<noteq> Some 0"
    and "\<And>u. 0 < u \<Longrightarrow> u \<noteq> t \<Longrightarrow> (mutex v = Some u) = (mutex s = Some u) \<and> (mutex_owner v = u) = (mutex_owner s = u)"
  shows "manager_ok (goto t fs p v)"
  unfolding manager_ok_def
proof (intro conjI allI impI)
  fix u :: nat
  assume "0 < u"
  then have "thread_ok u s" using assms(1) by (simp add: manager_ok_def)
  then show "thread_ok u (goto t fs p v)" using assms(2-6) assms(8)[OF \<open>0 < u\<close>]
    by (cases "u = t") (simp_all add: thread_ok_goto, simp add: thread_ok_def Let_def)
qed (use assms(7) in simp)

lemma thread_okI: "manager_ok s \<Longrightarrow> 0 < t \<Longrightarrow> thread_ok t s"
  by (simp add: manager_ok_def)

lemma mutex_nonzero: "manager_ok s \<Longrightarrow> mutex s \<noteq> Some 0"
  by (simp add: manager_ok_def)

lemma owner_has_mutex: "is_owner p fs \<Longrightarrow> has_mutex p fs"
  by (cases p) auto

lemma owner_alone:
  assumes "manager_ok s" "mutex s = Some t" "0 < u" "u \<noteq> t"
  shows "mutex_owner s \<noteq> u"
proof -
  have "thread_ok u s" using assms(1,3) by (simp add: manager_ok_def)
  then show ?thesis using assms(2,4) owner_has_mutex by (auto simp: thread_ok_def Let_def)
qed

definition misuse :: "action \<Rightarrow> frame list \<Rightarrow> fault \<Rightarrow> bool" where
  "misuse a fs f = (a = Leave \<and> (\<exists>k. fs = Unlocker # k) \<and> f = UninitRead \<or> a = NewUnlocker \<and> \<not> holds fs \<and> f = CheckFailed)"

lemma run_step_ok:
  assumes "manager_ok s" "0 < t" "threads s t = \<lparr>frames = fs, pc = Running\<rparr>" "run_step t a fs s = Some r"
  shows "case r of Inr u \<Rightarrow> manager_ok u | Inl f \<Rightarrow> misuse a fs f"
proof -
  have ok: "frames_ok fs" "(mutex s = Some t) = holds fs" "(mutex_owner s = t) = holds fs" "mutex s \<noteq> Some 0"
    using thread_okI[OF assms(1,2)] mutex_nonzero[OF assms(1)] assms(3) by (simp_all add: thread_ok_def)
  have locked: "IsLockedByCurrentThread t s = holds fs" using ok(3) by (simp add: IsLockedByCurrentThread_def)
  have go: "manager_ok (goto t k p s)" if "frames_ok k" "pc_ok p k" "has_mutex p k = holds fs" "is_owner p k = holds fs" for k p
    using that ok(2-4) by (intro manager_ok_goto[OF assms(1)]) auto
  show ?thesis
  proof (cases a)
    case NewLocker
    then show ?thesis using assms(4) ok(1) by (cases "holds fs") (auto simp: Locker_Initialize_def locked intro!: go)
  next
    case NewUnlocker
    then show ?thesis using assms(4) ok(1) by (cases "holds fs") (auto simp: Unlocker_Initialize_def locked misuse_def intro!: go)
  next
    case Leave
    show ?thesis
    proof (cases fs)
      case (Cons f k)
      then show ?thesis using assms(4) ok(1) Leave
        by (cases f) (auto simp: locked[unfolded Cons] Unlocker_dtor_def misuse_def Cons intro!: go)
    qed (use assms(4) Leave in simp)
  qed (use assms(4) in simp)
qed

lemma go_step_ok:
  assumes "manager_ok s" "0 < t" "threads s t = \<lparr>frames = fs, pc = p\<rparr>" "go_step t p fs s = Some r"
  shows "\<exists>u. r = Inr u \<and> manager_ok u"
proof -
  have ok: "frames_ok fs" "pc_ok p fs" "(mutex s = Some t) = has_mutex p fs" "(mutex_owner s = t) = is_owner p fs" "mutex s \<noteq> Some 0"
    using thread_okI[OF assms(1,2)] mutex_nonzero[OF assms(1)] assms(3) by (simp_all add: thread_ok_def)
  note go = manager_ok_goto[OF assms(1)]
  note alone = owner_alone[OF assms(1)]
  show ?thesis
  proof (cases p)
    case Locking
    then have "mutex s = None" "r = Inr (goto t fs Locked (s\<lparr>mutex := Some t\<rparr>))" using assms(4) by (auto split: if_splits)
    moreover have "manager_ok (goto t fs Locked (s\<lparr>mutex := Some t\<rparr>))"
      by (rule go) (use ok Locking assms(2) \<open>mutex s = None\<close> in auto)
    ultimately show ?thesis by blast
  next
    case Locked
    have m: "mutex s = Some t" using ok(3) Locked by simp
    have "manager_ok (goto t fs Owned (s\<lparr>mutex_owner := t\<rparr>))"
      by (rule go) (use ok Locked m alone[OF m] in auto)
    then show ?thesis using assms(4) Locked by auto
  next
    case Owned
    have "manager_ok (goto t (Locker True # fs) Running s)" by (rule go) (use ok Owned in auto)
    then show ?thesis using assms(4) Owned ok(4) by (auto simp: IsLockedByCurrentThread_def)
  next
    case (Resetting k)
    have m: "mutex s = Some t" using ok(3) Resetting by simp
    have "manager_ok (goto t fs (Unlocking k) (s\<lparr>mutex_owner := 0\<rparr>))"
      by (rule go) (use ok Resetting m assms(2) alone[OF m] in auto)
    then show ?thesis using assms(4) Resetting by auto
  next
    case (Unlocking k)
    have m: "mutex s = Some t" using ok(3) Unlocking by simp
    have "manager_ok (goto t k Running (s\<lparr>mutex := None\<rparr>))"
      by (rule go) (use ok Unlocking m in auto)
    then show ?thesis using assms(4) Unlocking m by auto
  qed (use assms(4) in simp)
qed

lemma thread_step_ok:
  assumes "manager_ok s" "0 < t" "thread_step t a s = Some r"
  shows "case r of Inr u \<Rightarrow> manager_ok u | Inl f \<Rightarrow> misuse a (frames (threads s t)) f"
proof -
  obtain fs p where th: "threads s t = \<lparr>frames = fs, pc = p\<rparr>" by (cases "threads s t") auto
  show ?thesis
  proof (cases "p = Running")
    case True
    then show ?thesis using run_step_ok[OF assms(1,2), of fs a r] th assms(3) by (simp add: thread_step_def split: sum.splits)
  next
    case False
    then have "go_step t p fs s = Some r" using th assms(3) by (simp add: thread_step_def Let_def split: if_splits)
    from go_step_ok[OF assms(1,2) th this] show ?thesis by auto
  qed
qed

lemma reachable_ok: "reachable_manager s \<Longrightarrow> manager_ok s"
proof (induction rule: reachable_manager.induct)
  case initial
  then show ?case by (simp add: manager_ok_def thread_ok_def newManager_def)
next
  case (moves s t a u)
  then show ?case using thread_step_ok[of s t a "Inr u"] by simp
qed

section \<open>Properties\<close>

text \<open>C22. In every state that threads with nested lockers and unlockers can reach: a thread that runs within a locker,
  and not within an unlocker inside it, is the one that holds the mutex, \<^verbatim>\<open>IsLocked\<close> tells exactly
  that, and no other thread is in the same situation; a thread waits only while the mutex is free or its holder can move;
  and no check fails and no mutex is unlocked by a thread that does not hold it, unless an unlocker is created without
  the lock or destroyed at all.\<close>

theorem lockers_exclude:
  assumes "reachable_manager s" "0 < t"
  shows "let th = threads s t in
    (pc th = Running \<longrightarrow> IsLockedByCurrentThread t s = holds (frames th) \<and> (holds (frames th) = (mutex s = Some t))) \<and>
    (0 < u \<and> holds (frames th) \<and> pc th = Running \<and> holds (frames (threads s u)) \<and> pc (threads s u) = Running \<longrightarrow> t = u) \<and>
    (pc th = Locking \<longrightarrow> thread_step t Go s \<noteq> None \<or> (\<exists>h. 0 < h \<and> h \<noteq> t \<and> mutex s = Some h \<and> (\<exists>a. thread_step h a s \<noteq> None))) \<and>
    (\<forall>a f. thread_step t a s = Some (Inl f) \<longrightarrow> misuse a (frames th) f)"
proof -
  have ok: "manager_ok s" by (rule reachable_ok[OF assms(1)])
  have own: "thread_ok v s" if "0 < v" for v using ok that by (simp add: manager_ok_def)
  have "pc (threads s t) = Locking \<longrightarrow>
      thread_step t Go s \<noteq> None \<or> (\<exists>h. 0 < h \<and> h \<noteq> t \<and> mutex s = Some h \<and> (\<exists>a. thread_step h a s \<noteq> None))"
  proof
    assume l: "pc (threads s t) = Locking"
    show "thread_step t Go s \<noteq> None \<or> (\<exists>h. 0 < h \<and> h \<noteq> t \<and> mutex s = Some h \<and> (\<exists>a. thread_step h a s \<noteq> None))"
    proof (cases "mutex s")
      case None
      then show ?thesis using l by (simp add: thread_step_def)
    next
      case (Some h)
      then have h: "0 < h" using ok by (cases h) (auto simp: manager_ok_def)
      have m: "has_mutex (pc (threads s h)) (frames (threads s h))" using own[OF h] Some by (simp add: thread_ok_def Let_def)
      have "\<exists>a. thread_step h a s \<noteq> None"
      proof (cases "pc (threads s h) = Running")
        case True
        then show ?thesis by (intro exI[of _ NewLocker]) (simp add: thread_step_def)
      next
        case False
        then show ?thesis using m by (intro exI[of _ Go]) (cases "pc (threads s h)", auto simp: thread_step_def)
      qed
      moreover have "h \<noteq> t" using m l by auto
      ultimately show ?thesis using h Some by blast
    qed
  qed
  moreover have "misuse a (frames (threads s t)) f" if "thread_step t a s = Some (Inl f)" for a f
    using thread_step_ok[OF ok assms(2) that] by simp
  moreover have "t = u" if "0 < u" "holds (frames (threads s t))" "pc (threads s t) = Running" "holds (frames (threads s u))"
    "pc (threads s u) = Running" using own[OF assms(2)] own[OF that(1)] that by (simp add: thread_ok_def Let_def)
  ultimately show ?thesis using own[OF assms(2)]
    by (auto simp: Let_def thread_ok_def IsLockedByCurrentThread_def)
qed

definition one_locker :: manager where
  "one_locker = goto 1 [Locker True] Running (newManager\<lparr>mutex := Some 1, mutex_owner := 1\<rparr>)"

lemma goto_again: "goto t fs p (goto t gs q s) = goto t fs p s" "(goto t fs p s)\<lparr>mutex := m\<rparr> = goto t fs p (s\<lparr>mutex := m\<rparr>)"
  "(goto t fs p s)\<lparr>mutex_owner := r\<rparr> = goto t fs p (s\<lparr>mutex_owner := r\<rparr>)"
  by (simp_all add: goto_def)

lemma one_locker_reachable: "reachable_manager one_locker"
proof -
  note d = thread_step_def Locker_Initialize_def IsLockedByCurrentThread_def goto_again
  have f: "threads newManager t = \<lparr>frames = [], pc = Running\<rparr>" "mutex newManager = None" "mutex_owner newManager = 0" for t
    by (simp_all add: newManager_def)
  have 1: "reachable_manager (goto 1 [] Locking newManager)"
    by (rule moves[OF initial, of 1 NewLocker]) (simp_all add: d f)
  have 2: "reachable_manager (goto 1 [] Locked (newManager\<lparr>mutex := Some 1\<rparr>))"
    by (rule moves[OF 1, of 1 Go]) (simp_all add: d f)
  have 3: "reachable_manager (goto 1 [] Owned (newManager\<lparr>mutex := Some 1, mutex_owner := 1\<rparr>))"
    by (rule moves[OF 2, of 1 Go]) (simp_all add: d f)
  show ?thesis unfolding one_locker_def by (rule moves[OF 3, of 1 Go]) (simp_all add: d f)
qed

theorem lockers_exclude_witness:
  "IsLockedByCurrentThread 1 one_locker \<and> mutex one_locker = Some 1 \<and> thread_step 1 Leave one_locker \<noteq> Some (Inl CheckFailed)"
proof -
  have t: "threads one_locker 1 = \<lparr>frames = [Locker True], pc = Running\<rparr>" by (simp add: one_locker_def)
  note th = lockers_exclude[OF one_locker_reachable, of 1 2, unfolded t Let_def, simplified]
  have "thread_step 1 Leave one_locker \<noteq> Some (Inl CheckFailed)"
  proof
    assume "thread_step 1 Leave one_locker = Some (Inl CheckFailed)"
    then have "misuse Leave [Locker True] CheckFailed" using th by simp
    then show False by (simp add: misuse_def)
  qed
  then show ?thesis using th by simp
qed

end
