(* ===== verification/StackTrace.thy ===== *)
theory StackTrace
  imports Prelude Complex_Main
begin

text \<open>
  Stack traces: \<^verbatim>\<open>StackTrace\<close> of \<^verbatim>\<open>src/src/api/stack-trace.cc\<close> and
  \<^verbatim>\<open>stack-trace.h\<close>. The capture of call sites under the limit and the filter, the text of a stack, and the
  \<^verbatim>\<open>stack\<close> accessor with its cache and its callback. What the engine supplies (the frames of the call
  stack, the text of an error, the global \<^verbatim>\<open>Error\<close>) is a parameter.
\<close>

section \<open>The limit\<close>

text \<open>\<^verbatim>\<open>Evaluator::StackTraceData\<close> of a frame.\<close>

record frame_data =
  srcName :: string
  functionName :: string
  loc_line :: nat
  loc_column :: nat
  callee :: "nat option"

text \<open>A number of JavaScript, and what the global \<^verbatim>\<open>Error\<close> and its \<^verbatim>\<open>stackTraceLimit\<close> are.\<close>

datatype number = Num real | NaN | Infinity | NegInfinity

datatype error_global = NotObject | NotNumber | Limit number

definition getStackTraceLimit :: "error_global \<Rightarrow> number option res" where
  "getStackTraceLimit g = (case g of NotObject \<Rightarrow> Inl CheckFailed | NotNumber \<Rightarrow> Inr None | Limit l \<Rightarrow> Inr (Some l))"

text \<open>\<^verbatim>\<open>std::min(a, n)\<close> on doubles is \<open>a\<close> unless \<open>n < a\<close>.\<close>

fun min_limit :: "number \<Rightarrow> nat \<Rightarrow> number" where
  "min_limit (Num r) n = (if real n < r then Num (real n) else Num r)"
| "min_limit Infinity n = Num (real n)"
| "min_limit a n = a"

text \<open>Conversion to \<^verbatim>\<open>size_t\<close> truncates and is undefined when the result does not fit.\<close>

fun to_size_t :: "number \<Rightarrow> nat res" where
  "to_size_t (Num r) = (if -1 < r \<and> r < real size_max then Inr (nat \<lfloor>r\<rfloor>) else Inl UndefinedConversion)"
| "to_size_t _ = Inl UndefinedConversion"

definition maxPrintStackSize :: "number \<Rightarrow> frame_data list \<Rightarrow> nat res" where
  "maxPrintStackSize limit data = to_size_t (min_limit limit (length data))"

section \<open>Call sites\<close>

definition push_site :: "frame_data list \<Rightarrow> nat \<Rightarrow> frame_data list \<Rightarrow> frame_data list res" where
  "push_site data i sites = guard OutOfBounds (i < length data) (Inr (sites @ [data ! i]))"

definition genCallSites :: "error_global \<Rightarrow> frame_data list \<Rightarrow> frame_data list option res" where
  "genCallSites g data = rbind (getStackTraceLimit g) (\<lambda>limit. case limit of
       None \<Rightarrow> Inr None
     | Some l \<Rightarrow> rbind (maxPrintStackSize l data) (\<lambda>k. rbind (foldM (push_site data) [0..<k] []) (\<lambda>sites. Inr (Some sites))))"

definition checkFilter :: "nat option \<Rightarrow> frame_data \<Rightarrow> bool" where
  "checkFilter filterFunction d = (filterFunction \<noteq> None \<and> callee d \<noteq> None \<and> filterFunction = callee d)"

definition capture_step :: "frame_data list \<Rightarrow> nat \<Rightarrow> nat option \<times> frame_data list \<Rightarrow> (nat option \<times> frame_data list) res" where
  "capture_step data i = (\<lambda>(filterFunction, sites). guard OutOfBounds (i < length data)
     (if checkFilter filterFunction (data ! i) then Inr (None, [])
      else Inr (filterFunction, sites @ [data ! i])))"

definition capture_sites :: "error_global \<Rightarrow> nat option \<Rightarrow> frame_data list \<Rightarrow> frame_data list res" where
  "capture_sites g filterFunction data = rbind (getStackTraceLimit g) (\<lambda>limit. case limit of
       None \<Rightarrow> Inr []
     | Some l \<Rightarrow> rbind (maxPrintStackSize l data) (\<lambda>k.
         rbind (foldM (capture_step data) [0..<k] (filterFunction, [])) (\<lambda>(_, sites). Inr sites)))"

section \<open>The text of a stack\<close>

function dec :: "nat \<Rightarrow> string" where
  "dec n = (if n < 10 then [char_of (48 + n)] else dec (n div 10) @ [char_of (48 + n mod 10)])"
  by pat_completeness auto
termination
  by (relation "measure id") auto

definition formatStackTraceLine :: "frame_data \<Rightarrow> string" where
  "formatStackTraceLine line = (let
     stdFunctionName = (if functionName line = ''anonymous'' then '''' else functionName line);
     location = srcName line @ '':'' @ dec (loc_line line) @ '':'' @ dec (loc_column line) in
     if stdFunctionName = '''' then location else stdFunctionName @ '' ('' @ location @ '')'')"

definition endl :: string where
  "endl = [CHR 0x0A]"

definition formatStackTraceStringNodeStyle :: "string \<Rightarrow> frame_data list \<Rightarrow> string" where
  "formatStackTraceStringNodeStyle message sites =
     message @ (if sites = [] then '''' else endl) @ concat (map (\<lambda>s. ''    at '' @ formatStackTraceLine s @ endl) sites)"

section \<open>The accessor\<close>

datatype stack_value = Undefined | Text string | Object nat

record accessor =
  stackTrace :: "frame_data list option"
  stackValue :: "stack_value option"

record traces =
  accessors :: "nat \<Rightarrow> accessor"
  nextAccessor :: nat
  stack_property :: "nat \<Rightarrow> nat option"
  prepareStackTraceRecursion :: bool

definition setStackValue :: "nat \<Rightarrow> stack_value \<Rightarrow> traces \<Rightarrow> traces" where
  "setStackValue a v st = st\<lparr>accessors := (accessors st)(a := (accessors st a)\<lparr>stackValue := Some v\<rparr>)\<rparr>"

definition addStackProperty :: "nat \<Rightarrow> frame_data list option \<Rightarrow> traces \<Rightarrow> traces" where
  "addStackProperty e sites st = (let a = nextAccessor st in
     st\<lparr>accessors := (accessors st)(a := \<lparr>stackTrace = sites, stackValue = None\<rparr>), nextAccessor := Suc a,
       stack_property := (stack_property st)(e \<mapsto> a)\<rparr>)"

text \<open>The arguments are an object or another value, and the function to filter by, if the second one is a function.\<close>

definition captureStackTraceCallback ::
    "error_global \<Rightarrow> nat option \<Rightarrow> nat option \<Rightarrow> frame_data list \<Rightarrow> traces \<Rightarrow> traces res" where
  "captureStackTraceCallback g object filterFunction data st = (case object of
       None \<Rightarrow> Inr st
     | Some e \<Rightarrow> let st = st\<lparr>stack_property := (stack_property st)(e := None)\<rparr> in
         rbind (capture_sites g filterFunction data) (\<lambda>sites. Inr (addStackProperty e (Some sites) st)))"

text \<open>Errors get a stack when they are created.\<close>

definition addStackPropertyCallback :: "error_global \<Rightarrow> nat option \<Rightarrow> frame_data list \<Rightarrow> traces \<Rightarrow> traces res" where
  "addStackPropertyCallback g error data st = (case error of
       None \<Rightarrow> Inr st
     | Some e \<Rightarrow> rbind (genCallSites g data) (\<lambda>sites. Inr (addStackProperty e sites st)))"

text \<open>A callback of the embedder that prepares stacks: it may read and write the stacks of errors, add stacks, and
  returns a value or nothing.\<close>

datatype prepare =
    Return "stack_value option"
  | ReadStack nat "stack_value \<Rightarrow> prepare"
  | WriteStack nat stack_value prepare
  | AddStack nat "frame_data list" prepare

definition StackTraceSetter :: "nat \<Rightarrow> stack_value \<Rightarrow> traces \<Rightarrow> traces" where
  "StackTraceSetter a v st = setStackValue a v st"

text \<open>The getter, over what running the callback does.\<close>

definition getter_with :: "(nat \<Rightarrow> string) \<Rightarrow> (nat \<Rightarrow> frame_data list \<Rightarrow> traces \<Rightarrow> stack_value \<times> traces) option \<Rightarrow>
    nat \<Rightarrow> nat \<Rightarrow> traces \<Rightarrow> stack_value \<times> traces" where
  "getter_with message run self a st = (case stackValue (accessors st a) of
       Some v \<Rightarrow> (v, st)
     | None \<Rightarrow> (case stackTrace (accessors st a) of
           None \<Rightarrow> (Undefined, setStackValue a Undefined st)
         | Some sites \<Rightarrow> (let (formatted, st) = (case run of
                 Some f \<Rightarrow> if \<not> prepareStackTraceRecursion st
                   then let (v, st) = f self sites (st\<lparr>prepareStackTraceRecursion := True\<rparr>) in
                     (v, st\<lparr>prepareStackTraceRecursion := False\<rparr>)
                   else (Undefined, st)
               | None \<Rightarrow> (Undefined, st)) in
             if formatted \<noteq> Undefined then (formatted, setStackValue a formatted st)
             else let s = Text (formatStackTraceStringNodeStyle (message self) sites) in (s, setStackValue a s st))))"

primrec run_prepare :: "(nat \<Rightarrow> nat \<Rightarrow> traces \<Rightarrow> stack_value \<times> traces) \<Rightarrow> prepare \<Rightarrow> traces \<Rightarrow> stack_value \<times> traces" where
  "run_prepare getter (Return v) st = (case v of None \<Rightarrow> Undefined | Some v \<Rightarrow> v, st)"
| "run_prepare getter (ReadStack e k) st = (case stack_property st e of
     None \<Rightarrow> run_prepare getter (k Undefined) st
   | Some a \<Rightarrow> let (v, st) = getter e a st in run_prepare getter (k v) st)"
| "run_prepare getter (WriteStack e v k) st = (case stack_property st e of
     None \<Rightarrow> run_prepare getter k st
   | Some a \<Rightarrow> run_prepare getter k (StackTraceSetter a v st))"
| "run_prepare getter (AddStack e sites k) st = run_prepare getter k (addStackProperty e (Some sites) st)"

text \<open>The guard \<^verbatim>\<open>PrepareStackTraceScope\<close> keeps the callback from running within itself, so a getter that the
  callback runs has no callback.\<close>

definition StackTraceGetter :: "(nat \<Rightarrow> string) \<Rightarrow> (nat \<Rightarrow> frame_data list \<Rightarrow> prepare) option \<Rightarrow>
    nat \<Rightarrow> nat \<Rightarrow> traces \<Rightarrow> stack_value \<times> traces" where
  "StackTraceGetter message callback = getter_with message
     (map_option (\<lambda>cb self sites. run_prepare (getter_with message None) (cb self sites)) callback)"

section \<open>The recursion of the getter\<close>

text \<open>What the callback runs keeps the guard, and under it the callback is not used.\<close>

lemma accessor_ops_guard [simp]:
  "prepareStackTraceRecursion (setStackValue a v st) = prepareStackTraceRecursion st"
  "prepareStackTraceRecursion (addStackProperty e sites st) = prepareStackTraceRecursion st"
  "prepareStackTraceRecursion (StackTraceSetter a v st) = prepareStackTraceRecursion st"
  by (simp_all add: setStackValue_def addStackProperty_def StackTraceSetter_def Let_def)

lemma getter_guarded: "prepareStackTraceRecursion st \<Longrightarrow> getter_with message run e a st = getter_with message None e a st"
  by (simp add: getter_with_def split: option.splits)

lemma getter_keeps_guard:
  assumes "\<And>e sites st. prepareStackTraceRecursion (snd (f e sites st)) = prepareStackTraceRecursion st"
  shows "prepareStackTraceRecursion (snd (getter_with message (Some f) e a st)) = prepareStackTraceRecursion st"
  using assms by (auto simp: getter_with_def Let_def case_prod_beta split: option.splits)

lemma getter_None_guard [simp]: "prepareStackTraceRecursion (snd (getter_with message None e a st)) = prepareStackTraceRecursion st"
  by (auto simp: getter_with_def Let_def case_prod_beta split: option.splits)

lemma run_prepare_guard:
  assumes "\<And>e a st. prepareStackTraceRecursion (snd (getter e a st)) = prepareStackTraceRecursion st"
  shows "prepareStackTraceRecursion (snd (run_prepare getter p st)) = prepareStackTraceRecursion st"
proof (induction p arbitrary: st)
  case (ReadStack e k)
  have ih: "prepareStackTraceRecursion (snd (run_prepare getter (k v) u)) = prepareStackTraceRecursion u" for v u
    using ReadStack.IH by blast
  show ?case
  proof (cases "stack_property st e")
    case (Some a)
    obtain v u where g: "getter e a st = (v, u)" by (cases "getter e a st")
    then show ?thesis using Some ih[of v u] assms[of e a st] by simp
  qed (simp add: ih)
qed (auto split: option.splits)

lemma run_prepare_getter:
  assumes "\<And>e a st. prepareStackTraceRecursion st \<Longrightarrow> g e a st = h e a st"
    and "\<And>e a st. prepareStackTraceRecursion (snd (h e a st)) = prepareStackTraceRecursion st"
    and "prepareStackTraceRecursion st"
  shows "run_prepare g p st = run_prepare h p st"
  using assms(3)
proof (induction p arbitrary: st)
  case (ReadStack e k)
  have ih: "prepareStackTraceRecursion u \<Longrightarrow> run_prepare g (k v) u = run_prepare h (k v) u" for v u
    using ReadStack.IH by blast
  show ?case
  proof (cases "stack_property st e")
    case (Some a)
    obtain v u where h: "h e a st = (v, u)" by (cases "h e a st")
    have "prepareStackTraceRecursion u" using assms(2)[of e a st] h ReadStack.prems by simp
    then show ?thesis using Some assms(1)[OF ReadStack.prems, of e a] h ih[of u v] by simp
  qed (use ReadStack.prems in \<open>simp add: ih\<close>)
qed (auto split: option.splits)

lemma getter_cong:
  assumes "\<And>self sites st. prepareStackTraceRecursion st \<Longrightarrow> f self sites st = g self sites st"
  shows "getter_with message (Some f) e a st = getter_with message (Some g) e a st"
proof -
  have "f e sites (st\<lparr>prepareStackTraceRecursion := True\<rparr>) = g e sites (st\<lparr>prepareStackTraceRecursion := True\<rparr>)" for sites
    by (rule assms) simp
  then show ?thesis by (cases "stackValue (accessors st a)"; cases "stackTrace (accessors st a)") (simp_all add: getter_with_def)
qed

text \<open>The getter solves the equation that the recursive code is.\<close>

lemma StackTraceGetter_unfold:
  "StackTraceGetter message callback = getter_with message
     (map_option (\<lambda>cb self sites. run_prepare (StackTraceGetter message callback) (cb self sites)) callback)"
proof (cases callback)
  case (Some cb)
  let ?f = "\<lambda>g self sites. run_prepare g (cb self sites)"
  have guarded: "StackTraceGetter message callback e a st = getter_with message None e a st" if "prepareStackTraceRecursion st" for e a st
    unfolding StackTraceGetter_def using that by (rule getter_guarded)
  have "?f (getter_with message None) self sites st = ?f (StackTraceGetter message callback) self sites st"
    if "prepareStackTraceRecursion st" for self sites st
    using run_prepare_getter[OF guarded getter_None_guard that] by simp
  then have "getter_with message (Some (?f (getter_with message None))) e a st =
    getter_with message (Some (?f (StackTraceGetter message callback))) e a st" for e a st
    by (rule getter_cong)
  then have "getter_with message (Some (?f (getter_with message None))) =
    getter_with message (Some (?f (StackTraceGetter message callback)))" by (intro ext)
  moreover have "StackTraceGetter message callback = getter_with message (Some (?f (getter_with message None)))"
    unfolding StackTraceGetter_def by (simp only: Some option.map)
  ultimately have "StackTraceGetter message callback = getter_with message (Some (?f (StackTraceGetter message callback)))"
    by (rule trans[rotated])
  then show ?thesis by (rule trans) (simp only: Some option.map)
qed (simp add: StackTraceGetter_def)

section \<open>Loops\<close>

lemma push_sites:
  "k \<le> length data \<Longrightarrow> foldM (push_site data) [0..<k] [] = Inr (take k data)"
proof (induction k)
  case (Suc k)
  then show ?case by (simp add: foldM_snoc push_site_def take_Suc_conv_app_nth)
qed simp

text \<open>What captureStackTrace should give: the frames behind the first one of the filtered function.\<close>

definition below :: "nat option \<Rightarrow> frame_data list \<Rightarrow> frame_data list" where
  "below filterFunction data = (if \<exists>d \<in> set data. checkFilter filterFunction d
     then tl (dropWhile (\<lambda>d. \<not> checkFilter filterFunction d) data) else data)"

lemma checkFilter_None [simp]: "\<not> checkFilter None d"
  by (simp add: checkFilter_def)

lemma below_snoc:
  "below f (ds @ [d]) = (if \<exists>x \<in> set ds. checkFilter f x then below f ds @ [d] else if checkFilter f d then [] else ds @ [d])"
  by (auto simp: below_def dropWhile_append tl_append split: list.splits)

lemma capture_loop:
  "k \<le> length data \<Longrightarrow> foldM (capture_step data) [0..<k] (f, []) =
     Inr (if \<exists>d \<in> set (take k data). checkFilter f d then None else f, below f (take k data))"
proof (induction k)
  case 0
  then show ?case by (simp add: below_def)
next
  case (Suc k)
  then show ?case
    by (auto simp: foldM_snoc capture_step_def take_Suc_conv_app_nth below_snoc) (simp_all add: below_def)
qed

text \<open>How many frames a limit lets through; no number of them for limits that \<^verbatim>\<open>size_t\<close> cannot hold.\<close>

definition limited :: "number \<Rightarrow> nat \<Rightarrow> nat option" where
  "limited l n = (case l of Num r \<Rightarrow> if -1 < r then Some (min (nat \<lfloor>r\<rfloor>) n) else None | Infinity \<Rightarrow> Some n | _ \<Rightarrow> None)"

lemma floor_le_nat: "r \<le> real n \<Longrightarrow> nat \<lfloor>r\<rfloor> \<le> n"
  by linarith

lemma maxPrintStackSize_limited:
  assumes "length data < size_max"
  shows "maxPrintStackSize l data = (case limited l (length data) of None \<Rightarrow> Inl UndefinedConversion | Some k \<Rightarrow> Inr k)"
proof -
  have n: "real (length data) < real size_max" using assms by simp
  show ?thesis
  proof (cases l)
    case (Num r)
    show ?thesis
    proof (cases "real (length data) < r")
      case True
      then have "length data \<le> nat \<lfloor>r\<rfloor>" by linarith
      then show ?thesis using True n Num by (simp add: maxPrintStackSize_def limited_def)
    next
      case False
      then show ?thesis using n Num floor_le_nat[of r "length data"] by (simp add: maxPrintStackSize_def limited_def)
    qed
  qed (use n in \<open>simp_all add: maxPrintStackSize_def limited_def\<close>)
qed

lemma limited_le: "limited l n = Some k \<Longrightarrow> k \<le> n"
  by (auto simp: limited_def split: number.splits if_splits)

section \<open>Properties\<close>

text \<open>C24. The captured frames are the first ones of the call stack up to the limit and, when the function to filter by
  is among these, only those behind its first frame; when it lies beyond the limit nothing is filtered. A limit that is
  negative or no number converts to an undefined size, and an \<^verbatim>\<open>Error\<close> that the script has replaced by a
  value that is no object aborts.\<close>

theorem captured_frames:
  assumes "length data < size_max"
  shows "capture_sites g f data = (case g of NotObject \<Rightarrow> Inl CheckFailed | NotNumber \<Rightarrow> Inr []
       | Limit l \<Rightarrow> (case limited l (length data) of None \<Rightarrow> Inl UndefinedConversion | Some k \<Rightarrow> Inr (below f (take k data)))) \<and>
     genCallSites g data = (case g of NotObject \<Rightarrow> Inl CheckFailed | NotNumber \<Rightarrow> Inr None
       | Limit l \<Rightarrow> (case limited l (length data) of None \<Rightarrow> Inl UndefinedConversion | Some k \<Rightarrow> Inr (Some (take k data))))"
proof (cases g)
  case (Limit l)
  show ?thesis
  proof (cases "limited l (length data)")
    case None
    then show ?thesis using Limit
      by (simp add: capture_sites_def genCallSites_def getStackTraceLimit_def maxPrintStackSize_limited[OF assms])
  next
    case (Some k)
    then have "k \<le> length data" by (rule limited_le)
    then show ?thesis using Limit Some capture_loop[of k data f] push_sites[of k data]
      by (simp add: capture_sites_def genCallSites_def getStackTraceLimit_def maxPrintStackSize_limited[OF assms])
  qed
qed (simp_all add: capture_sites_def genCallSites_def getStackTraceLimit_def)

definition a_frame :: "nat \<Rightarrow> frame_data" where
  "a_frame c = \<lparr>srcName = ''a.js'', functionName = ''f'', loc_line = 1, loc_column = 2, callee = Some c\<rparr>"

theorem captured_frames_witness:
  "capture_sites (Limit (Num 2)) (Some 7) [a_frame 1, a_frame 2, a_frame 7, a_frame 3] = Inr [a_frame 1, a_frame 2] \<and>
   capture_sites (Limit (Num 4)) (Some 7) [a_frame 1, a_frame 2, a_frame 7, a_frame 3] = Inr [a_frame 3] \<and>
   genCallSites (Limit (Num (-1))) [a_frame 1] = Inl UndefinedConversion"
  using captured_frames[of "[a_frame 1, a_frame 2, a_frame 7, a_frame 3]" "Limit (Num 2)" "Some 7"]
    captured_frames[of "[a_frame 1, a_frame 2, a_frame 7, a_frame 3]" "Limit (Num 4)" "Some 7"]
    captured_frames[of "[a_frame 1]" "Limit (Num (-1))" None]
  by (simp add: size_max_def limited_def below_def checkFilter_def a_frame_def)

text \<open>C25. The text of a stack is settled by its first reader: whatever the callback does meanwhile, to this error or to
  others, later readers get the value that the first one got, whatever callback is then set, until a script sets the
  stack; without a callback, and within one, the value is the formatted text.\<close>

theorem stack_is_settled:
  assumes "StackTraceGetter message callback e a st = (v, u)"
  shows "StackTraceGetter message' callback' e' a u = (v, u) \<and>
    prepareStackTraceRecursion u = prepareStackTraceRecursion st \<and>
    fst (StackTraceGetter message' callback' e' a (StackTraceSetter a x u)) = x \<and>
    (stackValue (accessors st a) = None \<and> (callback = None \<or> prepareStackTraceRecursion st) \<longrightarrow>
      v = (case stackTrace (accessors st a) of None \<Rightarrow> Undefined
        | Some sites \<Rightarrow> Text (formatStackTraceStringNodeStyle (message e) sites)))"
proof -
  have cached: "stackValue (accessors u a) = Some v"
    using assms by (auto simp: StackTraceGetter_def getter_with_def setStackValue_def Let_def split: option.splits prod.splits if_splits)
  have set: "stackValue (accessors (StackTraceSetter a x u) a) = Some x" by (simp add: StackTraceSetter_def setStackValue_def)
  have "prepareStackTraceRecursion (snd (StackTraceGetter message callback e a st)) = prepareStackTraceRecursion st"
  proof (cases callback)
    case (Some cb)
    then show ?thesis unfolding StackTraceGetter_def
      by (simp add: getter_keeps_guard run_prepare_guard)
  qed (simp add: StackTraceGetter_def)
  moreover have "v = (case stackTrace (accessors st a) of None \<Rightarrow> Undefined
        | Some sites \<Rightarrow> Text (formatStackTraceStringNodeStyle (message e) sites))"
    if "stackValue (accessors st a) = None" "callback = None \<or> prepareStackTraceRecursion st"
    using assms that by (auto simp: StackTraceGetter_def getter_with_def Let_def split: option.splits)
  ultimately show ?thesis using assms cached set by (simp add: StackTraceGetter_def getter_with_def)
qed

definition one_stack :: traces where
  "one_stack = addStackProperty 0 (Some [a_frame 1])
     \<lparr>accessors = (\<lambda>_. \<lparr>stackTrace = None, stackValue = None\<rparr>), nextAccessor = 0, stack_property = (\<lambda>_. None), prepareStackTraceRecursion = False\<rparr>"

theorem stack_is_settled_witness:
  "\<exists>u. StackTraceGetter (\<lambda>_. ''E'') (Some (\<lambda>e sites. ReadStack e (\<lambda>v. Return (Some (Object 5))))) 0 0 one_stack = (Object 5, u) \<and>
     StackTraceGetter (\<lambda>_. ''F'') None 0 0 u = (Object 5, u)"
proof -
  let ?cb = "Some (\<lambda>e sites. ReadStack e (\<lambda>v. Return (Some (Object 5))))"
  obtain v u where g: "StackTraceGetter (\<lambda>_. ''E'') ?cb 0 0 one_stack = (v, u)" by fastforce
  then have "v = Object 5"
    by (auto simp: StackTraceGetter_def getter_with_def one_stack_def addStackProperty_def setStackValue_def case_prod_beta Let_def)
  then show ?thesis using g stack_is_settled[OF g, of "\<lambda>_. ''F''" None 0] by auto
qed

end
