(* ===== verification/Embedder.thy ===== *)
theory Embedder
  imports Prelude
begin

text \<open>
  What the embedder attaches to the runtime: the embedder data and the security token of a context,
  \<^verbatim>\<open>ContextWrap\<close> of \<^verbatim>\<open>src/src/api/context.cc\<close>, and the counters around its array
  buffer allocator, \<^verbatim>\<open>ArrayBufferAllocatorDecorator\<close> of
  \<^verbatim>\<open>src/src/api/arraybuffer-allocator.cc\<close>. Pointers and values are numbers, null is zero.
\<close>

section \<open>Context\<close>

record ctx_wrap =
  embedder_data :: "(int \<times> nat) list option"
  security_token :: nat
  global_object :: nat

definition newContext :: "nat \<Rightarrow> ctx_wrap" where
  "newContext global = \<lparr>embedder_data = None, security_token = 0, global_object = global\<rparr>"

text \<open>\<^verbatim>\<open>std::unordered_map::insert\<close> leaves an entry that exists as it is.\<close>

definition map_insert :: "int \<Rightarrow> nat \<Rightarrow> (int \<times> nat) list \<Rightarrow> (int \<times> nat) list" where
  "map_insert k v m = (if map_of m k = None then (k, v) # m else m)"

definition setEmbedderData :: "int \<Rightarrow> nat \<Rightarrow> ctx_wrap \<Rightarrow> ctx_wrap" where
  "setEmbedderData index v c = (let m = (case embedder_data c of None \<Rightarrow> [] | Some m \<Rightarrow> m) in
     c\<lparr>embedder_data := Some (map_insert index v m)\<rparr>)"

definition getEmbedderData :: "int \<Rightarrow> ctx_wrap \<Rightarrow> nat" where
  "getEmbedderData index c = (case embedder_data c of
       None \<Rightarrow> 0
     | Some m \<Rightarrow> (case map_of m index of None \<Rightarrow> 0 | Some v \<Rightarrow> v))"

definition SetEmbedderData :: "int \<Rightarrow> nat \<Rightarrow> ctx_wrap \<Rightarrow> ctx_wrap" where
  "SetEmbedderData = setEmbedderData"

definition GetEmbedderData :: "int \<Rightarrow> ctx_wrap \<Rightarrow> nat" where
  "GetEmbedderData = getEmbedderData"

definition SetAlignedPointerInEmbedderData :: "int \<Rightarrow> nat \<Rightarrow> ctx_wrap \<Rightarrow> ctx_wrap" where
  "SetAlignedPointerInEmbedderData = setEmbedderData"

definition GetAlignedPointerFromEmbedderData :: "int \<Rightarrow> ctx_wrap \<Rightarrow> nat" where
  "GetAlignedPointerFromEmbedderData = getEmbedderData"

definition GetNumberOfEmbedderDataFields :: "ctx_wrap \<Rightarrow> int res" where
  "GetNumberOfEmbedderDataFields c = (case embedder_data c of
       None \<Rightarrow> Inl NullDeref
     | Some m \<Rightarrow> Inr (foldl max (-1) (map fst m) + 1))"

text \<open>\<open>undefined_value\<close> is the engine's undefined.\<close>

definition SetSecurityToken :: "nat \<Rightarrow> ctx_wrap \<Rightarrow> ctx_wrap" where
  "SetSecurityToken token c = c\<lparr>security_token := token\<rparr>"

definition GetSecurityToken :: "nat \<Rightarrow> ctx_wrap \<Rightarrow> nat" where
  "GetSecurityToken undefined_value c = (if security_token c = 0 then undefined_value else security_token c)"

definition UseDefaultSecurityToken :: "ctx_wrap \<Rightarrow> ctx_wrap" where
  "UseDefaultSecurityToken c = c\<lparr>security_token := global_object c\<rparr>"

datatype context_op = SetData int nat | SetPointer int nat | SetToken nat | DefaultToken

fun context_exec :: "context_op \<Rightarrow> ctx_wrap \<Rightarrow> ctx_wrap" where
  "context_exec (SetData i v) c = SetEmbedderData i v c"
| "context_exec (SetPointer i v) c = SetAlignedPointerInEmbedderData i v c"
| "context_exec (SetToken t) c = SetSecurityToken t c"
| "context_exec DefaultToken c = UseDefaultSecurityToken c"

fun data_of :: "context_op \<Rightarrow> (int \<times> nat) option" where
  "data_of (SetData i v) = Some (i, v)"
| "data_of (SetPointer i v) = Some (i, v)"
| "data_of _ = None"

definition writes :: "context_op list \<Rightarrow> (int \<times> nat) list" where
  "writes ops = List.map_filter data_of ops"

definition entries :: "ctx_wrap \<Rightarrow> (int \<times> nat) list" where
  "entries c = (case embedder_data c of None \<Rightarrow> [] | Some m \<Rightarrow> m)"

lemma entries_exec:
  "entries (context_exec op c) = (case data_of op of None \<Rightarrow> entries c | Some (i, v) \<Rightarrow> map_insert i v (entries c))"
  by (cases op) (auto simp: entries_def SetEmbedderData_def SetAlignedPointerInEmbedderData_def setEmbedderData_def
    SetSecurityToken_def UseDefaultSecurityToken_def split: option.splits)

lemma map_of_map_insert: "map_of (map_insert k v m) i = (case map_of m i of None \<Rightarrow> (if i = k then Some v else None) | Some w \<Rightarrow> Some w)"
  by (auto simp: map_insert_def split: option.splits)

lemma entries_run:
  "map_of (entries (fold context_exec ops c)) i = (case map_of (entries c) i of None \<Rightarrow> map_of (writes ops) i | Some v \<Rightarrow> Some v)"
proof (induction ops arbitrary: c)
  case (Cons op ops)
  then show ?case
    by (auto simp: entries_exec writes_def map_filter_simps map_of_map_insert split: option.splits)
qed (simp add: writes_def map_filter_simps split: option.splits)

lemma embedder_data_None: "embedder_data (fold context_exec ops c) = None \<longleftrightarrow> embedder_data c = None \<and> writes ops = []"
proof (induction ops arbitrary: c)
  case (Cons op ops)
  then show ?case
    by (cases op) (auto simp: writes_def map_filter_simps SetEmbedderData_def SetAlignedPointerInEmbedderData_def setEmbedderData_def
      SetSecurityToken_def UseDefaultSecurityToken_def Let_def)
qed (simp add: writes_def map_filter_simps)

lemma getEmbedderData_entries: "getEmbedderData i c = (case map_of (entries c) i of None \<Rightarrow> 0 | Some v \<Rightarrow> v)"
  by (simp add: getEmbedderData_def entries_def split: option.splits)

lemma foldl_max: "foldl max (a :: int) xs = Max (insert a (set xs))"
proof (induction xs arbitrary: a)
  case (Cons x xs)
  then show ?case by (cases "xs = []") (simp_all add: max.assoc)
qed simp

section \<open>Allocator\<close>

text \<open>The client's allocator decides whether a block is given; the lengths of the blocks it gave are the client's to know.\<close>

record decorator =
  currentMemorySize :: nat
  peakMemorySize :: nat
  array_buffer_allocator :: bool

definition note_peak :: "decorator \<Rightarrow> decorator" where
  "note_peak d = (if currentMemorySize d > peakMemorySize d then d\<lparr>peakMemorySize := currentMemorySize d\<rparr> else d)"

definition Allocate :: "nat \<Rightarrow> decorator \<Rightarrow> decorator res" where
  "Allocate len d = check (array_buffer_allocator d) (Inr (note_peak (d\<lparr>currentMemorySize := add64 (currentMemorySize d) len\<rparr>)))"

definition AllocateUninitialized :: "nat \<Rightarrow> decorator \<Rightarrow> decorator res" where
  "AllocateUninitialized len d = check (array_buffer_allocator d) (Inr (note_peak (d\<lparr>currentMemorySize := add64 (currentMemorySize d) len\<rparr>)))"

definition Reallocate :: "nat \<Rightarrow> nat \<Rightarrow> decorator \<Rightarrow> decorator res" where
  "Reallocate old_length new_length d = check (array_buffer_allocator d)
     (Inr (note_peak (d\<lparr>currentMemorySize := add64 (sub64 (currentMemorySize d) old_length) new_length\<rparr>)))"

definition Free :: "nat \<Rightarrow> decorator \<Rightarrow> decorator res" where
  "Free len d = check (array_buffer_allocator d) (Inr (d\<lparr>currentMemorySize := sub64 (currentMemorySize d) len\<rparr>))"

text \<open>A client that frees and resizes its blocks with their lengths. \<open>ok\<close> is the answer of its allocator, and
  \<open>surplus\<close> what the refusals have added to the counter and not to the blocks.\<close>

datatype alloc_op = AllocOp bool nat bool | ReallocOp nat nat bool | FreeOp nat

record client =
  counters :: decorator
  live :: "nat list"
  surplus :: int

fun alloc_exec :: "alloc_op \<Rightarrow> client \<Rightarrow> client res" where
  "alloc_exec (AllocOp uninitialized len ok) c =
     rbind ((if uninitialized then AllocateUninitialized else Allocate) len (counters c)) (\<lambda>d.
       Inr (if ok then c\<lparr>counters := d, live := live c @ [len]\<rparr> else c\<lparr>counters := d, surplus := surplus c + int len\<rparr>))"
| "alloc_exec (ReallocOp i len ok) c = guard AssertFailed (i < length (live c))
     (rbind (Reallocate (live c ! i) len (counters c)) (\<lambda>d.
       Inr (if ok then c\<lparr>counters := d, live := (live c)[i := len]\<rparr>
         else c\<lparr>counters := d, surplus := surplus c + int len - int (live c ! i)\<rparr>)))"
| "alloc_exec (FreeOp i) c = guard AssertFailed (i < length (live c))
     (rbind (Free (live c ! i) (counters c)) (\<lambda>d.
       Inr (c\<lparr>counters := d, live := take i (live c) @ drop (Suc i) (live c)\<rparr>)))"

fun refuses :: "alloc_op \<Rightarrow> bool" where
  "refuses (AllocOp u len ok) = (\<not> ok)"
| "refuses (ReallocOp i len ok) = (\<not> ok)"
| "refuses (FreeOp i) = False"

definition newClient :: client where
  "newClient = \<lparr>counters = \<lparr>currentMemorySize = 0, peakMemorySize = 0, array_buffer_allocator = True\<rparr>, live = [], surplus = 0\<rparr>"

definition counts :: "client \<Rightarrow> bool" where
  "counts c = (array_buffer_allocator (counters c) \<and>
     int (currentMemorySize (counters c)) = (int (sum_list (live c)) + surplus c) mod int size_max \<and>
     (\<forall>l \<in> set (live c). l < size_max))"

lemma add64_int: "int (add64 a b) = (int a + int b) mod int size_max"
  by (simp add: add64_def zmod_int)

lemma sub64_int: "b < size_max \<Longrightarrow> int (sub64 a b) = (int a - int b) mod int size_max"
proof -
  assume "b < size_max"
  then have "int (a + size_max - b) = int a - int b + int size_max" by simp
  then show ?thesis by (simp add: sub64_def zmod_int)
qed

lemma note_peak_fields [simp]: "currentMemorySize (note_peak d) = currentMemorySize d"
  "array_buffer_allocator (note_peak d) = array_buffer_allocator d"
  by (simp_all add: note_peak_def)

lemma sum_list_remove:
  fixes xs :: "nat list"
  shows "i < length xs \<Longrightarrow> sum_list (take i xs @ drop (Suc i) xs) + xs ! i = sum_list xs"
  by (subst (4) id_take_nth_drop[of i xs]) (simp_all add: add.commute add.left_commute)

lemma sum_list_replace:
  fixes xs :: "nat list"
  shows "i < length xs \<Longrightarrow> sum_list (xs[i := y]) + xs ! i = sum_list xs + y"
  using sum_list_remove[of i xs] by (simp add: upd_conv_take_nth_drop)

fun op_fits :: "alloc_op \<Rightarrow> bool" where
  "op_fits (AllocOp u len ok) = (len < size_max)"
| "op_fits (ReallocOp i len ok) = (len < size_max)"
| "op_fits (FreeOp i) = True"

lemma counts_exec:
  assumes "counts c" "alloc_exec op c = Inr c'" "op_fits op"
  shows "counts c' \<and> (\<not> refuses op \<longrightarrow> surplus c' = surplus c)"
proof (cases op)
  case (AllocOp u len ok)
  have "int (add64 (currentMemorySize (counters c)) len) = (int (sum_list (live c)) + surplus c + int len) mod int size_max"
    using assms(1) by (simp add: add64_int counts_def mod_add_left_eq)
  then show ?thesis using assms AllocOp
    by (cases u; cases ok) (auto simp: counts_def Allocate_def AllocateUninitialized_def algebra_simps)
next
  case (ReallocOp i len ok)
  have i: "i < length (live c)" using assms(2) ReallocOp by (auto simp: guard_eq_Inr)
  then have l: "live c ! i < size_max" using assms(1) by (simp add: counts_def)
  have m: "int (add64 (sub64 (currentMemorySize (counters c)) (live c ! i)) len) =
      (int (sum_list (live c)) + surplus c - int (live c ! i) + int len) mod int size_max"
    using assms(1) by (simp add: add64_int sub64_int[OF l] counts_def mod_simps)
  have s: "int (sum_list ((live c)[i := len])) = int (sum_list (live c)) - int (live c ! i) + int len"
    using sum_list_replace[OF i, of len] by linarith
  have "int (add64 (sub64 (currentMemorySize (counters c)) (live c ! i)) len) = (int (sum_list ((live c)[i := len])) + surplus c) mod int size_max"
    unfolding m s by (simp add: algebra_simps)
  moreover have "int (add64 (sub64 (currentMemorySize (counters c)) (live c ! i)) len) =
      (int (sum_list (live c)) + (surplus c + int len - int (live c ! i))) mod int size_max"
    unfolding m by (simp add: algebra_simps)
  ultimately show ?thesis using assms ReallocOp i
    by (cases ok) (auto simp: counts_def Reallocate_def dest!: set_update_subset_insert[THEN subsetD])
next
  case (FreeOp i)
  have i: "i < length (live c)" using assms(2) FreeOp by (auto simp: guard_eq_Inr)
  then have l: "live c ! i < size_max" using assms(1) by (simp add: counts_def)
  have m: "int (sub64 (currentMemorySize (counters c)) (live c ! i)) = (int (sum_list (live c)) + surplus c - int (live c ! i)) mod int size_max"
    using assms(1) by (simp add: sub64_int[OF l] counts_def mod_simps)
  have s: "int (sum_list (take i (live c) @ drop (Suc i) (live c))) = int (sum_list (live c)) - int (live c ! i)"
    using sum_list_remove[OF i] by linarith
  have "int (sub64 (currentMemorySize (counters c)) (live c ! i)) =
      (int (sum_list (take i (live c) @ drop (Suc i) (live c))) + surplus c) mod int size_max"
    unfolding m s by (simp add: algebra_simps)
  moreover have "set (take i (live c) @ drop (Suc i) (live c)) \<subseteq> set (live c)"
    using set_take_subset[of i "live c"] set_drop_subset[of "Suc i" "live c"] by simp
  ultimately show ?thesis using assms FreeOp i by (auto simp: counts_def Free_def simp del: set_append)
qed

lemma counts_run:
  "counts c \<Longrightarrow> foldM alloc_exec ops c = Inr c' \<Longrightarrow> \<forall>op \<in> set ops. op_fits op \<Longrightarrow>
   counts c' \<and> ((\<forall>op \<in> set ops. \<not> refuses op) \<longrightarrow> surplus c' = surplus c)"
proof (induction ops arbitrary: c)
  case (Cons op ops)
  obtain d where d: "alloc_exec op c = Inr d" "foldM alloc_exec ops d = Inr c'" using Cons.prems(2) by (auto simp: rbind_eq_Inr)
  have "op_fits op" using Cons.prems(3) by simp
  note e = counts_exec[OF Cons.prems(1) d(1) this]
  then show ?case using Cons.IH[of d] d(2) Cons.prems(3) by auto
qed simp

section \<open>Properties\<close>

text \<open>The first value given for an index of the embedder data is the one that is read ever after, later ones
  are dropped, null included; values and aligned pointers share the indices; and the number of fields is one more than
  the largest index, but faults on a context that has none.\<close>

theorem first_embedder_data_wins:
  "GetEmbedderData i (fold context_exec ops (newContext g)) = (case map_of (writes ops) i of None \<Rightarrow> 0 | Some v \<Rightarrow> v) \<and>
   GetAlignedPointerFromEmbedderData i (fold context_exec ops (newContext g)) = (case map_of (writes ops) i of None \<Rightarrow> 0 | Some v \<Rightarrow> v) \<and>
   GetNumberOfEmbedderDataFields (fold context_exec ops (newContext g)) =
     (if writes ops = [] then Inl NullDeref else Inr (Max (insert (-1) (fst ` set (writes ops))) + 1))"
proof -
  let ?c = "fold context_exec ops (newContext g)"
  have e: "map_of (entries ?c) j = map_of (writes ops) j" for j
    using entries_run[of ops "newContext g" j] by (simp add: newContext_def entries_def)
  have "dom (map_of (entries ?c)) = dom (map_of (writes ops))" by (simp add: e dom_def)
  then have keys: "fst ` set (entries ?c) = fst ` set (writes ops)" by (simp add: dom_map_of_conv_image_fst)
  have n: "embedder_data ?c = None \<longleftrightarrow> writes ops = []" using embedder_data_None[of ops "newContext g"] by (simp add: newContext_def)
  have "GetNumberOfEmbedderDataFields ?c = (if writes ops = [] then Inl NullDeref else Inr (Max (insert (-1) (fst ` set (writes ops))) + 1))"
  proof (cases "embedder_data ?c")
    case (Some m)
    then have "entries ?c = m" by (simp add: entries_def)
    then show ?thesis using Some n keys by (simp add: GetNumberOfEmbedderDataFields_def foldl_max)
  qed (use n in \<open>simp add: GetNumberOfEmbedderDataFields_def\<close>)
  then show ?thesis by (simp add: GetEmbedderData_def GetAlignedPointerFromEmbedderData_def getEmbedderData_entries e)
qed

text \<open>The counter around the allocator holds, modulo the range of \<^verbatim>\<open>size_t\<close>, the lengths of the
  blocks that the client has, plus what refused requests have left in it; without refusals it is exact.\<close>

theorem allocator_counts:
  assumes "foldM alloc_exec ops newClient = Inr c" "\<forall>op \<in> set ops. op_fits op"
  shows "int (currentMemorySize (counters c)) = (int (sum_list (live c)) + surplus c) mod int size_max \<and>
    ((\<forall>op \<in> set ops. \<not> refuses op) \<and> sum_list (live c) < size_max \<longrightarrow> currentMemorySize (counters c) = sum_list (live c))"
proof -
  have "counts newClient" by (simp add: counts_def newClient_def)
  from counts_run[OF this assms] have c: "counts c" "(\<forall>op \<in> set ops. \<not> refuses op) \<longrightarrow> surplus c = 0"
    by (simp_all add: newClient_def)
  moreover have "surplus c = 0 \<Longrightarrow> sum_list (live c) < size_max \<Longrightarrow> currentMemorySize (counters c) = sum_list (live c)"
    using c(1) by (simp add: counts_def)
  ultimately show ?thesis by (auto simp: counts_def)
qed

theorem allocator_counts_witness:
  "\<exists>c. foldM alloc_exec [AllocOp False 8 True, AllocOp True 16 True, FreeOp 0] newClient = Inr c \<and> currentMemorySize (counters c) = 16"
proof -
  let ?ops = "[AllocOp False 8 True, AllocOp True 16 True, FreeOp 0]"
  obtain c where c: "foldM alloc_exec ?ops newClient = Inr c" "live c = [16]"
    by (simp add: newClient_def Allocate_def AllocateUninitialized_def Free_def)
  then show ?thesis using allocator_counts[OF c(1)] by (simp add: size_max_def)
qed

end
