(* ===== verification/Flags.thy ===== *)
theory Flags
  imports Prelude
begin

text \<open>
  Runtime flags: \<^verbatim>\<open>Flag\<close> and \<^verbatim>\<open>Flags\<close> of
  \<^verbatim>\<open>src/src/api/utils/logger/flags.h\<close> and \<^verbatim>\<open>flags.cc\<close>,
  \<^verbatim>\<open>strSplit\<close> of \<^verbatim>\<open>string-util.cc\<close> and
  \<^verbatim>\<open>V8::SetFlagsFromCommandLine\<close> of \<^verbatim>\<open>api.cc\<close>. A pointer to a flag object is its
  index among the valid flags. Negative values are never added by the program and are left out.
\<close>

section \<open>Flags\<close>

datatype flag_type = Empty | ExposeGC | UseStrict | DisableIdleGC | TopLevelWait | DisallowCodeGenerationFromStrings
  | AbortOnUncaughtException | ExposeExternalizeString | UnhandledRejections | TraceCall | TraceGC | InternalLog
  | LWNodeOther | DebugServer

datatype flag_class = PlainFlag | FlagWithValues | FlagWithNegativeValues

record flag =
  flag_name :: string
  flag_type :: flag_type
  useAsPrefix :: bool
  flag_class :: flag_class
  flag_values :: "string set"

text \<open>The set of flags that are on is ordered, and identified, by type.\<close>

record flags =
  validFlags :: "flag list"
  flags_on :: "flag_type \<Rightarrow> nat option"

definition addFlag :: "flag_class \<Rightarrow> string \<Rightarrow> flag_type \<Rightarrow> bool \<Rightarrow> flag" where
  "addFlag c n t p = \<lparr>flag_name = n, flag_type = t, useAsPrefix = p, flag_class = c, flag_values = {}\<rparr>"

definition initFlags :: "flag list" where
  "initFlags = [
     addFlag PlainFlag ''--expose-gc'' ExposeGC False,
     addFlag PlainFlag ''--use-strict'' UseStrict False,
     addFlag PlainFlag ''--off-idlegc'' DisableIdleGC False,
     addFlag PlainFlag ''--harmony-top-level-await'' TopLevelWait False,
     addFlag PlainFlag ''--disallow-code-generation-from-strings'' DisallowCodeGenerationFromStrings False,
     addFlag PlainFlag ''--abort-on-uncaught-exception'' AbortOnUncaughtException False,
     addFlag PlainFlag ''--expose-externalize-string'' ExposeExternalizeString False,
     addFlag FlagWithValues ''--unhandled-rejections='' UnhandledRejections False,
     addFlag PlainFlag ''--trace-debug'' LWNodeOther True,
     addFlag PlainFlag ''--debug'' LWNodeOther True,
     addFlag PlainFlag ''--stack-size='' LWNodeOther True,
     addFlag PlainFlag ''--nolazy'' LWNodeOther True,
     addFlag PlainFlag ''--trace-gc'' TraceGC False,
     addFlag FlagWithNegativeValues ''--trace-call='' TraceCall True,
     addFlag PlainFlag ''--internal-log'' InternalLog False,
     addFlag PlainFlag ''--start-debug-server'' DebugServer False]"

definition newFlags :: flags where
  "newFlags = \<lparr>validFlags = initFlags, flags_on = (\<lambda>_. None)\<rparr>"

section \<open>Operations\<close>

fun contains :: "'c list \<Rightarrow> 'c list \<Rightarrow> bool" where
  "contains sub [] = (sub = [])"
| "contains sub (c # cs) = (take (length sub) (c # cs) = sub \<or> contains sub cs)"

definition isPrefixOf :: "flag \<Rightarrow> string \<Rightarrow> bool" where
  "isPrefixOf f n = (useAsPrefix f \<and> contains (flag_name f) n)"

definition normalized :: "string \<Rightarrow> string" where
  "normalized n = map (\<lambda>c. if c = CHR ''_'' then CHR ''-'' else c) n"

definition flag_matches :: "string \<Rightarrow> flag \<Rightarrow> bool" where
  "flag_matches n f = (flag_name f = n \<or> isPrefixOf f n)"

definition findFlagObject :: "flags \<Rightarrow> string \<Rightarrow> nat option" where
  "findFlagObject fs n = List.find (\<lambda>i. flag_matches (normalized n) (validFlags fs ! i)) [0..<length (validFlags fs)]"

definition findFlagObject_type :: "flags \<Rightarrow> flag_type \<Rightarrow> nat option" where
  "findFlagObject_type fs t = List.find (\<lambda>i. flag_type (validFlags fs ! i) = t) [0..<length (validFlags fs)]"

definition add_flag :: "nat option \<Rightarrow> flags \<Rightarrow> flags" where
  "add_flag p fs = (case p of
       None \<Rightarrow> fs
     | Some i \<Rightarrow> let t = flag_type (validFlags fs ! i) in
         if t = LWNodeOther \<or> flags_on fs t \<noteq> None then fs else fs\<lparr>flags_on := (flags_on fs)(t \<mapsto> i)\<rparr>)"

definition add_type :: "flag_type \<Rightarrow> flags \<Rightarrow> flags" where
  "add_type t fs = add_flag (findFlagObject_type fs t) fs"

definition addValue :: "string \<Rightarrow> flag \<Rightarrow> flag" where
  "addValue v f = (if flag_class f = PlainFlag then f else f\<lparr>flag_values := insert v (flag_values f)\<rparr>)"

definition hasValue :: "string \<Rightarrow> flag \<Rightarrow> bool" where
  "hasValue v f = (flag_class f \<noteq> PlainFlag \<and> v \<in> flag_values f)"

function strSplit :: "'c list \<Rightarrow> 'c \<Rightarrow> 'c list list" where
  "strSplit s d = (if s = [] then []
     else takeWhile (\<lambda>c. c \<noteq> d) s # (case dropWhile (\<lambda>c. c \<noteq> d) s of [] \<Rightarrow> [] | _ # rest \<Rightarrow> strSplit rest d))"
  by pat_completeness auto
termination
proof (relation "measure (\<lambda>(s, _). length s)")
  fix s :: "'c list" and d c rest
  assume "dropWhile (\<lambda>c. c \<noteq> d) s = c # rest"
  then have "Suc (length rest) \<le> length s" by (metis length_Cons length_dropWhile_le)
  then show "((rest, d), s, d) \<in> measure (\<lambda>(s, _). length s)" by simp
qed simp

definition option_values :: "string \<Rightarrow> string list" where
  "option_values userOption = strSplit
     (if CHR ''='' \<in> set userOption then tl (dropWhile (\<lambda>c. c \<noteq> CHR ''='') userOption) else userOption) CHR '',''"

definition add :: "string \<Rightarrow> flags \<Rightarrow> flags" where
  "add userOption fs = (case findFlagObject fs userOption of
       None \<Rightarrow> fs
     | Some i \<Rightarrow> let t = flag_type (validFlags fs ! i) in
         if t = Empty then fs
         else let fs = add_flag (Some i) fs in
           if t = TraceCall \<or> t = UnhandledRejections
           then fs\<lparr>validFlags := (validFlags fs)[i := fold addValue (option_values userOption) (validFlags fs ! i)]\<rparr>
           else fs)"

definition getFlag :: "flag_type \<Rightarrow> flags \<Rightarrow> flag option" where
  "getFlag t fs = map_option ((!) (validFlags fs)) (flags_on fs t)"

definition isOn :: "flag_type \<Rightarrow> string \<Rightarrow> flags \<Rightarrow> bool" where
  "isOn t v fs = (case getFlag t fs of None \<Rightarrow> False | Some f \<Rightarrow> if v = '''' then True else hasValue v f)"

text \<open>The loop overwrites the list from the front and keeps the rest of it.\<close>

fun shrink_loop :: "nat list \<Rightarrow> 's option list \<Rightarrow> nat \<Rightarrow> nat \<times> 's option list" where
  "shrink_loop [] argv count = (count, argv)"
| "shrink_loop (idx # is) argv count = (if argv ! idx \<noteq> None then shrink_loop is (argv[count := argv ! idx]) (Suc count)
     else shrink_loop is argv count)"

definition shrinkArgumentList :: "nat \<Rightarrow> 's option list \<Rightarrow> nat \<times> 's option list" where
  "shrinkArgumentList argc argv = shrink_loop [0..<argc] argv 0"

fun command_line_loop :: "bool \<Rightarrow> nat list \<Rightarrow> string option list \<Rightarrow> flags \<Rightarrow> (string option list \<times> flags) res" where
  "command_line_loop remove_flags [] argv fs = Inr (argv, fs)"
| "command_line_loop remove_flags (i # is) argv fs = (case argv ! i of
       None \<Rightarrow> Inl NullDeref
     | Some userOption \<Rightarrow> command_line_loop remove_flags is (if remove_flags then argv[i := None] else argv) (add userOption fs))"

definition SetFlagsFromCommandLine :: "nat \<Rightarrow> string option list \<Rightarrow> bool \<Rightarrow> flags \<Rightarrow> (nat \<times> string option list \<times> flags) res" where
  "SetFlagsFromCommandLine argc argv remove_flags fs = rbind (command_line_loop remove_flags [1..<argc] argv fs)
     (\<lambda>(argv, fs). let (argc, argv) = if remove_flags then shrinkArgumentList argc argv else (argc, argv) in
       Inr (argc, argv, fs))"

section \<open>What options select\<close>

text \<open>Only the values of the valid flags change.\<close>

definition shape :: "flag \<Rightarrow> string \<times> flag_type \<times> bool \<times> flag_class" where
  "shape f = (flag_name f, flag_type f, useAsPrefix f, flag_class f)"

lemma shape_addValue [simp]: "shape (addValue v f) = shape f"
  by (simp add: shape_def addValue_def)

lemma shape_fold [simp]: "shape (fold addValue vs f) = shape f"
  by (induction vs arbitrary: f) simp_all

lemma shape_matches: "shape f = shape g \<Longrightarrow> flag_matches n f = flag_matches n g"
  by (simp add: shape_def flag_matches_def isPrefixOf_def)

lemma shape_values: "shape f = shape g \<Longrightarrow> flag_values f = flag_values g \<Longrightarrow> f = g"
  by (simp add: shape_def)

lemma fold_addValue:
  "flag_values (fold addValue vs f) = (if flag_class f = PlainFlag then flag_values f else flag_values f \<union> set vs)"
  by (induction vs arbitrary: f) (auto simp: addValue_def)

definition found :: "string \<Rightarrow> nat option" where
  "found o' = findFlagObject newFlags o'"

definition selects :: "string \<Rightarrow> flag_type option" where
  "selects o' = map_option (\<lambda>i. flag_type (initFlags ! i)) (found o')"

definition taken :: "flag_type \<Rightarrow> string list \<Rightarrow> bool" where
  "taken t os = (t \<noteq> LWNodeOther \<and> (\<exists>o' \<in> set os. selects o' = Some t))"

definition type_index :: "flag_type \<Rightarrow> nat option" where
  "type_index t = findFlagObject_type newFlags t"

lemma initFlags_facts:
  "list_all (\<lambda>i. let t = flag_type (initFlags ! i) in t \<noteq> Empty \<and> (t \<noteq> LWNodeOther \<longrightarrow> type_index t = Some i) \<and>
     (t = TraceCall \<or> t = UnhandledRejections) = (flag_class (initFlags ! i) \<noteq> PlainFlag)) [0..<length initFlags]"
  by code_simp

lemma initFlags_nth:
  assumes "i < length initFlags"
  shows "flag_type (initFlags ! i) \<noteq> Empty" "flag_type (initFlags ! i) \<noteq> LWNodeOther \<Longrightarrow> type_index (flag_type (initFlags ! i)) = Some i"
    "(flag_type (initFlags ! i) = TraceCall \<or> flag_type (initFlags ! i) = UnhandledRejections) = (flag_class (initFlags ! i) \<noteq> PlainFlag)"
    "flag_values (initFlags ! i) = {}"
proof -
  have "\<forall>i \<in> set [0..<length initFlags]. let t = flag_type (initFlags ! i) in t \<noteq> Empty \<and> (t \<noteq> LWNodeOther \<longrightarrow> type_index t = Some i) \<and>
     (t = TraceCall \<or> t = UnhandledRejections) = (flag_class (initFlags ! i) \<noteq> PlainFlag)"
    using initFlags_facts unfolding list_all_iff .
  then have "let t = flag_type (initFlags ! i) in t \<noteq> Empty \<and> (t \<noteq> LWNodeOther \<longrightarrow> type_index t = Some i) \<and>
     (t = TraceCall \<or> t = UnhandledRejections) = (flag_class (initFlags ! i) \<noteq> PlainFlag)"
    by (rule bspec) (use assms in simp)
  then show "flag_type (initFlags ! i) \<noteq> Empty" "flag_type (initFlags ! i) \<noteq> LWNodeOther \<Longrightarrow> type_index (flag_type (initFlags ! i)) = Some i"
    "(flag_type (initFlags ! i) = TraceCall \<or> flag_type (initFlags ! i) = UnhandledRejections) = (flag_class (initFlags ! i) \<noteq> PlainFlag)"
    unfolding Let_def by blast+
  have "\<forall>f \<in> set initFlags. flag_values f = {}" by (simp add: initFlags_def addFlag_def)
  then show "flag_values (initFlags ! i) = {}" using assms nth_mem by blast
qed

lemma find_Some: "List.find P xs = Some x \<Longrightarrow> x \<in> set xs \<and> P x"
  by (auto simp: find_Some_iff in_set_conv_nth)

lemma found_index: "found o' = Some i \<Longrightarrow> i < length initFlags"
  unfolding found_def findFlagObject_def by (drule find_Some) (simp add: newFlags_def)

text \<open>The state after the options \<open>os\<close>.\<close>

definition flags_rep :: "string list \<Rightarrow> flags \<Rightarrow> bool" where
  "flags_rep os fs = (map shape (validFlags fs) = map shape initFlags \<and>
     (\<forall>t. flags_on fs t = (if taken t os then type_index t else None)) \<and>
     (\<forall>i < length initFlags. flag_values (validFlags fs ! i) =
       (if flag_class (initFlags ! i) = PlainFlag then {} else {v. \<exists>o' \<in> set os. found o' = Some i \<and> v \<in> set (option_values o')})))"

lemma flags_rep_new: "flags_rep [] newFlags"
  by (simp add: flags_rep_def newFlags_def taken_def initFlags_nth(4))

lemma flags_rep_nth:
  assumes "flags_rep os fs" "i < length initFlags"
  shows "shape (validFlags fs ! i) = shape (initFlags ! i)" "length (validFlags fs) = length initFlags"
proof -
  have m: "map shape (validFlags fs) = map shape initFlags" using assms(1) by (simp add: flags_rep_def)
  then show l: "length (validFlags fs) = length initFlags" by (metis length_map)
  show "shape (validFlags fs ! i) = shape (initFlags ! i)" using m assms(2) l by (metis nth_map)
qed

lemma find_cong_list: "(\<And>x. x \<in> set xs \<Longrightarrow> P x = Q x) \<Longrightarrow> List.find P xs = List.find Q xs"
  by (induction xs) auto

lemma flags_rep_find:
  assumes "flags_rep os fs"
  shows "findFlagObject fs o' = found o'"
proof -
  have "0 < length initFlags" by (simp add: initFlags_def)
  then have l: "length (validFlags fs) = length initFlags" using flags_rep_nth(2)[OF assms] by blast
  show ?thesis unfolding findFlagObject_def found_def
    using flags_rep_nth(1)[OF assms] by (auto simp: l newFlags_def intro!: find_cong_list shape_matches)
qed

lemma taken_Cons: "taken t (o' # os) = (t \<noteq> LWNodeOther \<and> selects o' = Some t \<or> taken t os)"
  by (auto simp: taken_def)

lemma flags_rep_add:
  assumes "flags_rep os fs"
  shows "flags_rep (o' # os) (add o' fs)"
proof (cases "found o'")
  case None
  then have "add o' fs = fs" by (simp add: add_def flags_rep_find[OF assms])
  moreover have "taken t (o' # os) = taken t os" for t using None by (simp add: taken_Cons selects_def)
  ultimately show ?thesis using assms None by (simp add: flags_rep_def)
next
  case (Some i)
  then have i: "i < length initFlags" by (rule found_index)
  let ?t = "flag_type (initFlags ! i)"
  note n = initFlags_nth[OF i]
  have sh: "shape (validFlags fs ! i) = shape (initFlags ! i)" "length (validFlags fs) = length initFlags"
    using flags_rep_nth[OF assms i] by simp_all
  then have t: "flag_type (validFlags fs ! i) = ?t" "flag_class (validFlags fs ! i) = flag_class (initFlags ! i)" by (simp_all add: shape_def)
  have sel: "selects o' = Some ?t" using Some by (simp add: selects_def)
  let ?u = "add_flag (Some i) fs"
  have vu: "validFlags ?u = validFlags fs" by (simp add: add_flag_def Let_def)
  have on: "flags_on ?u s = (if taken s (o' # os) then type_index s else None)" for s
    using assms n(2) sel t by (auto simp: add_flag_def Let_def flags_rep_def taken_Cons taken_def)
  show ?thesis
  proof (cases "flag_class (initFlags ! i) = PlainFlag")
    case True
    then have "add o' fs = ?u" using n(1,3) t Some by (simp add: add_def flags_rep_find[OF assms])
    moreover have "{v. \<exists>x \<in> set (o' # os). found x = Some j \<and> v \<in> set (option_values x)} =
        {v. \<exists>x \<in> set os. found x = Some j \<and> v \<in> set (option_values x)}" if "flag_class (initFlags ! j) \<noteq> PlainFlag" for j
      using that True Some by auto
    ultimately show ?thesis using assms on by (simp add: flags_rep_def vu)
  next
    case False
    let ?f = "fold addValue (option_values o') (validFlags fs ! i)"
    have a: "add o' fs = ?u\<lparr>validFlags := (validFlags fs)[i := ?f]\<rparr>"
      using n(1,3) t Some False vu by (auto simp: add_def flags_rep_find[OF assms] Let_def)
    have upd: "(map shape initFlags)[i := shape (initFlags ! i)] = map shape initFlags" using i by (metis list_update_id nth_map)
    have "map shape ((validFlags fs)[i := ?f]) = map shape initFlags"
      using assms sh upd by (simp add: map_update flags_rep_def)
    moreover have "flag_values ((validFlags fs)[i := ?f] ! j) = (if flag_class (initFlags ! j) = PlainFlag then {}
        else {v. \<exists>x \<in> set (o' # os). found x = Some j \<and> v \<in> set (option_values x)})" if "j < length initFlags" for j
      using assms that i sh(2) t False Some by (cases "j = i") (auto simp: flags_rep_def fold_addValue)
    ultimately show ?thesis using on by (simp add: flags_rep_def a)
  qed
qed

lemma flags_rep_adds: "flags_rep os fs \<Longrightarrow> flags_rep (rev us @ os) (fold add us fs)"
proof (induction us arbitrary: os fs)
  case (Cons u us)
  then show ?case using Cons.IH[OF flags_rep_add[OF Cons.prems, of u]] by simp
qed simp

lemma found_selects:
  assumes "selects o' = Some t" "t \<noteq> LWNodeOther"
  shows "found o' = type_index t" "type_index t \<noteq> None"
proof -
  obtain i where i: "found o' = Some i" "flag_type (initFlags ! i) = t" using assms(1) by (auto simp: selects_def)
  then show "found o' = type_index t" "type_index t \<noteq> None" using initFlags_nth(2)[OF found_index[OF i(1)]] assms(2) by auto
qed

lemma type_index_nth: "type_index t = Some i \<Longrightarrow> i < length initFlags \<and> flag_type (initFlags ! i) = t"
  unfolding type_index_def findFlagObject_type_def by (drule find_Some) (simp add: newFlags_def)

lemma isOn_rep:
  assumes "flags_rep os fs"
  shows "isOn t v fs = (taken t os \<and> (v = '''' \<or> (\<exists>o' \<in> set os. selects o' = Some t \<and> (t = TraceCall \<or> t = UnhandledRejections) \<and> v \<in> set (option_values o'))))"
proof (cases "taken t os")
  case False
  then show ?thesis using assms by (simp add: isOn_def getFlag_def flags_rep_def)
next
  case True
  then obtain i where i: "type_index t = Some i" "t \<noteq> LWNodeOther" using found_selects(2) unfolding taken_def by blast
  have ti: "i < length initFlags" "flag_type (initFlags ! i) = t" using type_index_nth[OF i(1)] by auto
  have g: "getFlag t fs = Some (validFlags fs ! i)" using assms True i(1) by (simp add: getFlag_def flags_rep_def)
  have c: "flag_class (validFlags fs ! i) = flag_class (initFlags ! i)" using flags_rep_nth(1)[OF assms ti(1)] by (simp add: shape_def)
  have sel: "(selects o' = Some t) = (found o' = Some i)" for o'
    using found_selects[of o' t] i ti(2) by (auto simp: selects_def)
  show ?thesis
  proof (cases "flag_class (initFlags ! i) = PlainFlag")
    case True
    then show ?thesis using g c \<open>taken t os\<close> initFlags_nth(3)[OF ti(1)] ti(2) by (auto simp: isOn_def hasValue_def)
  next
    case False
    then have "flag_values (validFlags fs ! i) = {v. \<exists>o' \<in> set os. found o' = Some i \<and> v \<in> set (option_values o')}"
      using assms ti(1) by (simp add: flags_rep_def)
    then show ?thesis using g c \<open>taken t os\<close> initFlags_nth(3)[OF ti(1)] ti(2) False by (auto simp: isOn_def hasValue_def sel)
  qed
qed

section \<open>The command line\<close>

lemma command_line_loop_append:
  "command_line_loop r [length pre..<length pre + length os] (pre @ map Some os) fs =
     Inr (pre @ (if r then replicate (length os) None else map Some os), fold add os fs)"
proof (induction os arbitrary: pre fs)
  case (Cons u os)
  have "[length pre..<length pre + length (u # os)] = length pre # [Suc (length pre)..<Suc (length pre) + length os]"
    by (simp add: upt_conv_Cons del: upt_Suc)
  then show ?case using Cons.IH[of "pre @ [if r then None else Some u]" "add u fs"] by (cases r) (simp_all add: nth_append del: upt_Suc)
qed simp

lemma shrink_loop_skip: "\<forall>i \<in> set is. argv ! i = None \<Longrightarrow> shrink_loop is argv n = (n, argv)"
  by (induction "is") auto

lemma SetFlagsFromCommandLine_args:
  "SetFlagsFromCommandLine (Suc (length os)) (map Some (prog # os)) True fs = Inr (1, Some prog # replicate (length os) None, fold add os fs)"
proof -
  have "[0..<Suc (length os)] = 0 # [1..<Suc (length os)]" by (simp add: upt_conv_Cons del: upt_Suc)
  then have "shrinkArgumentList (Suc (length os)) (Some prog # replicate (length os) None) = (1, Some prog # replicate (length os) None)"
    by (auto simp: shrinkArgumentList_def nth_Cons' simp del: upt_Suc intro!: shrink_loop_skip)
  then show ?thesis using command_line_loop_append[of True "[Some prog]" os fs]
    by (simp add: SetFlagsFromCommandLine_def del: upt_Suc)
qed

lemma unhandled_rejections_values:
  assumes "selects o' = Some UnhandledRejections"
  shows "option_values o' = []"
proof -
  let ?n = "''--unhandled-rejections=''"
  have "type_index UnhandledRejections = Some 7" by code_simp
  then have f: "found o' = Some 7" using found_selects(1)[OF assms] by simp
  have "List.find (\<lambda>i. flag_matches (normalized o') (validFlags newFlags ! i)) [0..<length (validFlags newFlags)] = Some 7"
    using f by (simp only: found_def findFlagObject_def)
  from find_Some[OF this] have "flag_matches (normalized o') (initFlags ! 7)" by (simp add: newFlags_def)
  moreover have "initFlags ! 7 = addFlag FlagWithValues ?n UnhandledRejections False" by (simp add: initFlags_def)
  ultimately have "normalized o' = ?n" by (simp add: flag_matches_def isPrefixOf_def addFlag_def)
  then have n: "map (\<lambda>c. if c = CHR ''_'' then CHR ''-'' else c) o' = butlast ?n @ [CHR ''='']" by (simp add: normalized_def)
  then obtain xs c where xs: "o' = xs @ [c]" "map (\<lambda>c. if c = CHR ''_'' then CHR ''-'' else c) xs = butlast ?n" "(if c = CHR ''_'' then CHR ''-'' else c) = CHR ''=''"
    unfolding map_eq_append_conv by auto
  have c: "c = CHR ''=''" using xs(3) by (auto split: if_splits)
  have "CHR ''='' \<notin> set xs"
  proof
    assume "CHR ''='' \<in> set xs"
    then have "CHR ''='' \<in> set (map (\<lambda>c. if c = CHR ''_'' then CHR ''-'' else c) xs)" by force
    then show False unfolding xs(2) by simp
  qed
  then have "dropWhile (\<lambda>c. c \<noteq> CHR ''='') (xs @ [CHR ''='']) = [CHR ''='']" by (subst dropWhile_append2) auto
  then show ?thesis using c xs(1) by (simp add: option_values_def)
qed

section \<open>Properties\<close>



end
