(* ===== verification/Smaps.thy ===== *)
theory Smaps
  imports Flags "HOL-Library.AList"
begin

text \<open>
  Memory maps of the process: \<^verbatim>\<open>parseSmaps\<close> and the totals over its result, of
  \<^verbatim>\<open>src/src/api/utils/smaps.cc\<close>. A map of a mapping's fields is an association list. Whether a file
  exists is a parameter.
\<close>

type_synonym smap = "(string \<times> string) list"

section \<open>Strings\<close>

definition is_space :: "char \<Rightarrow> bool" where
  "is_space c = (c \<in> {CHR '' '', CHR 0x09, CHR 0x0A, CHR 0x0B, CHR 0x0C, CHR 0x0D})"

text \<open>\<^verbatim>\<open>tokenize(str)\<close>: the words between white space.\<close>

function tokenize :: "string \<Rightarrow> string list" where
  "tokenize s = (let r = dropWhile is_space s in
     if r = [] then [] else takeWhile (\<lambda>c. \<not> is_space c) r # tokenize (dropWhile (\<lambda>c. \<not> is_space c) r))"
  by pat_completeness auto
termination
proof (relation "measure length")
  fix s r :: string
  assume r: "r = dropWhile is_space s" "r \<noteq> []"
  then have "\<not> is_space (hd r)" using hd_dropWhile[of is_space s] by simp
  then have "length (dropWhile (\<lambda>c. \<not> is_space c) r) < length r" using r(2) length_dropWhile_le[of "\<lambda>c. \<not> is_space c" "tl r"] by (cases r) auto
  moreover have "length r \<le> length s" using r(1) length_dropWhile_le by simp
  ultimately show "(dropWhile (\<lambda>c. \<not> is_space c) r, s) \<in> measure length" by simp
qed simp

definition startsWith :: "string \<Rightarrow> string \<Rightarrow> bool" where
  "startsWith s prefix = (take (length prefix) s = prefix)"

definition trimString :: "string \<Rightarrow> string" where
  "trimString s = dropWhile is_space (rev (dropWhile is_space (rev s)))"

section \<open>Parsing\<close>

definition getMemoryRegionString :: "(string \<Rightarrow> bool) \<Rightarrow> string \<Rightarrow> string" where
  "getMemoryRegionString existsFile pathname =
     (if pathname = '''' \<or> hd pathname \<noteq> CHR ''/'' then
        if startsWith pathname ''[stack'' \<or> startsWith pathname ''[tstack'' then ''STACK''
        else if startsWith pathname ''[heap'' \<or> pathname = '''' then ''HEAP/MMAP''
        else if startsWith pathname ''[vdso'' then ''VDSO''
        else ''ANONYMOUS''
      else if existsFile pathname then ''LIBRARY'' else ''ANONYMOUS'')"

definition is_header :: "string \<Rightarrow> bool" where
  "is_header line = contains ''-'' line"

definition header_fields :: "(string \<Rightarrow> bool) \<Rightarrow> string \<Rightarrow> smap \<Rightarrow> smap res" where
  "header_fields existsFile line m = (let tokens = tokenize line in
     guard OutOfBounds (0 < length tokens) (let address = strSplit (tokens ! 0) CHR ''-'' in
     guard OutOfBounds (1 < length address \<and> 4 < length tokens) (let
       perms = tokens ! 1; pathname = (if length tokens = 6 then tokens ! 5 else '''') in
     Inr (fold (\<lambda>(k, v). AList.update k v)
       [(''StartingAddr'', address ! 0), (''EndingAddr'', address ! 1), (''Permissions'', last perms # butlast perms),
        (''Offset'', tokens ! 2), (''Dev'', tokens ! 3), (''Inode'', tokens ! 4), (''Pathname'', pathname),
        (''Region'', getMemoryRegionString existsFile pathname)] m))))"

definition field_line :: "string \<Rightarrow> smap \<Rightarrow> smap" where
  "field_line line m = (case strSplit line CHR '':'' of
       [name, v] \<Rightarrow> let count = trimString v;
           count = (if contains '' kB'' count then take (length count - 3) count else count) in
         AList.update (trimString name) count m
     | _ \<Rightarrow> m)"

record smaps_parser =
  result :: "smap list"
  current :: smap
  isHeaderFound :: bool

definition parse_line :: "(string \<Rightarrow> bool) \<Rightarrow> string \<Rightarrow> smaps_parser \<Rightarrow> smaps_parser res" where
  "parse_line existsFile line p = (if is_header line then
       let p = p\<lparr>isHeaderFound := True\<rparr>; p = (if current p \<noteq> [] then p\<lparr>result := result p @ [current p], current := []\<rparr> else p) in
       rbind (header_fields existsFile line (current p)) (\<lambda>m. Inr (p\<lparr>current := m\<rparr>))
     else if \<not> isHeaderFound p then Inr p
     else Inr (p\<lparr>current := field_line line (current p)\<rparr>))"

definition parseSmaps :: "(string \<Rightarrow> bool) \<Rightarrow> string \<Rightarrow> smap list res" where
  "parseSmaps existsFile input = rbind (foldM (parse_line existsFile) (strSplit input CHR 0x0A)
       \<lparr>result = [], current = [], isHeaderFound = False\<rparr>) (\<lambda>p. Inr (result p))"

section \<open>Totals\<close>

definition is_digit :: "char \<Rightarrow> bool" where
  "is_digit c = (48 \<le> (of_char c :: nat) \<and> (of_char c :: nat) \<le> 57)"

text \<open>\<^verbatim>\<open>std::stoull\<close> of the unsigned decimal numbers that the kernel writes: it throws without a digit and
  beyond the range.\<close>

definition stoull :: "string \<Rightarrow> nat res" where
  "stoull s = (let ds = takeWhile is_digit (dropWhile is_space s); n = foldl (\<lambda>n c. 10 * n + (of_char c - 48)) 0 ds in
     guard UncaughtException (ds \<noteq> [] \<and> n < size_max) (Inr n))"

definition entry :: "string \<Rightarrow> smap \<Rightarrow> string" where
  "entry key m = (case map_of m key of None \<Rightarrow> '''' | Some v \<Rightarrow> v)"

definition calculateTotal :: "string \<Rightarrow> smap list \<Rightarrow> nat res" where
  "calculateTotal key smaps = foldM (\<lambda>m total. rbind (stoull (entry key m)) (\<lambda>n. Inr (add64 total n))) smaps 0"

definition calculateTotalRss :: "smap list \<Rightarrow> nat res" where
  "calculateTotalRss smaps = foldM (\<lambda>m total. rbind (stoull (entry ''Rss'' m)) (\<lambda>n. Inr (add64 total n))) smaps 0"

definition calculateTotalPssSwap :: "smap list \<Rightarrow> nat res" where
  "calculateTotalPssSwap smaps = foldM (\<lambda>m total. rbind (stoull (entry ''Pss'' m)) (\<lambda>n.
     rbind (stoull (entry ''Swap'' m)) (\<lambda>k. Inr (add64 total (add64 n k))))) smaps 0"

section \<open>Sections\<close>

lemma strSplit_lines:
  "\<forall>l \<in> set ls. d \<notin> set l \<Longrightarrow> strSplit (concat (map (\<lambda>l. l @ [d]) ls)) d = ls"
proof (induction ls)
  case (Cons l ls)
  let ?rest = "concat (map (\<lambda>l. l @ [d]) ls)"
  have d: "d \<notin> set l" using Cons.prems by simp
  have t: "takeWhile (\<lambda>c. c \<noteq> d) (l @ d # ?rest) = l" using d by (subst takeWhile_append2) auto
  have r: "dropWhile (\<lambda>c. c \<noteq> d) (l @ d # ?rest) = d # ?rest" using d by (subst dropWhile_append2) auto
  have "strSplit (l @ d # ?rest) d = l # strSplit ?rest d"
    by (subst strSplit.simps) (simp add: t r del: strSplit.simps)
  then show ?case using Cons by (simp del: strSplit.simps)
qed simp

text \<open>A section of the file: the header of a mapping and its fields.\<close>

definition section_ok :: "(string \<Rightarrow> bool) \<Rightarrow> string \<times> string list \<Rightarrow> bool" where
  "section_ok existsFile s = (is_header (fst s) \<and> is_ok (header_fields existsFile (fst s) []) \<and> (\<forall>f \<in> set (snd s). \<not> is_header f) \<and>
     (\<forall>l \<in> set (fst s # snd s). CHR 0x0A \<notin> set l))"

definition section_map :: "(string \<Rightarrow> bool) \<Rightarrow> string \<times> string list \<Rightarrow> smap" where
  "section_map existsFile s = (case header_fields existsFile (fst s) [] of Inl _ \<Rightarrow> [] | Inr m \<Rightarrow> fold field_line (snd s) m)"

lemma update_nonempty [simp]: "AList.update k v m \<noteq> []"
  by (cases m) auto

lemma header_fields_nonempty: "header_fields existsFile h m = Inr u \<Longrightarrow> u \<noteq> []"
  by (auto simp: header_fields_def Let_def guard_eq_Inr)

lemma field_line_nonempty: "m \<noteq> [] \<Longrightarrow> field_line f m \<noteq> []"
  by (simp add: field_line_def Let_def split: list.split)

lemma fields_nonempty: "m \<noteq> [] \<Longrightarrow> fold field_line fs m \<noteq> []"
  by (induction fs arbitrary: m) (simp_all add: field_line_nonempty)

lemma parse_fields:
  "\<forall>f \<in> set fs. \<not> is_header f \<Longrightarrow> isHeaderFound p \<Longrightarrow>
   foldM (parse_line existsFile) fs p = Inr (p\<lparr>current := fold field_line fs (current p)\<rparr>)"
  by (induction fs arbitrary: p) (simp_all add: parse_line_def)

definition flushed :: "smaps_parser \<Rightarrow> smap list" where
  "flushed p = (if current p = [] then result p else result p @ [current p])"

lemma parse_section:
  assumes "section_ok existsFile s"
  shows "foldM (parse_line existsFile) (fst s # snd s) p =
      Inr \<lparr>result = flushed p, current = section_map existsFile s, isHeaderFound = True\<rparr>"
    "section_map existsFile s \<noteq> []"
proof -
  obtain m where m: "header_fields existsFile (fst s) [] = Inr m"
    using assms by (cases "header_fields existsFile (fst s) []") (auto simp: section_ok_def)
  show "section_map existsFile s \<noteq> []" using header_fields_nonempty[OF m] by (simp add: section_map_def m fields_nonempty)
  have "parse_line existsFile (fst s) p = Inr \<lparr>result = flushed p, current = m, isHeaderFound = True\<rparr>"
    using assms m by (simp add: parse_line_def section_ok_def flushed_def Let_def)
  then show "foldM (parse_line existsFile) (fst s # snd s) p =
      Inr \<lparr>result = flushed p, current = section_map existsFile s, isHeaderFound = True\<rparr>"
    using assms by (simp add: parse_fields section_ok_def section_map_def m)
qed

lemma parse_sections:
  assumes "\<forall>s \<in> set secs. section_ok existsFile s" "secs \<noteq> []"
  shows "foldM (parse_line existsFile) (concat (map (\<lambda>s. fst s # snd s) secs)) p =
    Inr \<lparr>result = flushed p @ map (section_map existsFile) (butlast secs), current = section_map existsFile (last secs), isHeaderFound = True\<rparr>"
  using assms
proof (induction secs arbitrary: p)
  case (Cons s secs)
  have s: "section_ok existsFile s" using Cons.prems by simp
  note one = parse_section[OF s]
  let ?q = "\<lparr>result = flushed p, current = section_map existsFile s, isHeaderFound = True\<rparr>"
  have "foldM (parse_line existsFile) ((fst s # snd s) @ concat (map (\<lambda>s. fst s # snd s) secs)) p =
      foldM (parse_line existsFile) (concat (map (\<lambda>s. fst s # snd s) secs)) ?q"
    using one(1)[of p] by (simp only: foldM_append rbind_Inr)
  then show ?case using Cons.IH[of ?q] Cons.prems one(2) by (cases "secs = []") (simp_all add: flushed_def)
qed simp

lemma skipped_lines: "\<forall>l \<in> set ls. \<not> is_header l \<Longrightarrow> \<not> isHeaderFound p \<Longrightarrow> foldM (parse_line existsFile) ls p = Inr p"
  by (induction ls) (simp_all add: parse_line_def)

section \<open>Properties\<close>

text \<open>The parser gives one map for each mapping of the file but the last one, which it never stores: lines before
  the first header are skipped, and each map holds the parts of its header and the fields below it.\<close>

theorem parse_drops_last_mapping:
  assumes "\<forall>s \<in> set secs. section_ok existsFile s" "\<forall>l \<in> set skipped. \<not> is_header l \<and> CHR 0x0A \<notin> set l"
  shows "parseSmaps existsFile (concat (map (\<lambda>l. l @ [CHR 0x0A]) (skipped @ concat (map (\<lambda>s. fst s # snd s) secs)))) =
    Inr (map (section_map existsFile) (butlast secs))"
proof -
  let ?ls = "skipped @ concat (map (\<lambda>s. fst s # snd s) secs)"
  let ?p = "\<lparr>result = [], current = [], isHeaderFound = False\<rparr>"
  have "\<forall>l \<in> set ?ls. CHR 0x0A \<notin> set l" using assms by (auto simp: section_ok_def)
  then have "strSplit (concat (map (\<lambda>l. l @ [CHR 0x0A]) ?ls)) CHR 0x0A = ?ls" by (rule strSplit_lines)
  moreover have "foldM (parse_line existsFile) ?ls ?p = foldM (parse_line existsFile) (concat (map (\<lambda>s. fst s # snd s) secs)) ?p"
    using skipped_lines[of skipped ?p existsFile] assms(2) by (simp add: foldM_append)
  ultimately show ?thesis
    using parse_sections[OF assms(1), of ?p] by (cases "secs = []") (simp_all add: parseSmaps_def flushed_def del: strSplit.simps)
qed

definition heap_section :: "string \<times> string list" where
  "heap_section = (''0804a000-0806b000 rw-p 00000000 00:00 0 [heap]'', [''Pss:                 374 kB''])"

theorem parse_drops_last_mapping_witness:
  "parseSmaps (\<lambda>_. True) (concat (map (\<lambda>l. l @ [CHR 0x0A]) (concat (map (\<lambda>s. fst s # snd s) [heap_section, heap_section])))) =
     Inr [section_map (\<lambda>_. True) heap_section]"
proof -
  have "section_ok (\<lambda>_. True) heap_section" by code_simp
  then show ?thesis using parse_drops_last_mapping[of "[heap_section, heap_section]" "\<lambda>_. True" "[]"] by simp
qed

end
