(* ===== verification/Spec2Isabelle.thy ===== *)
theory Spec2Isabelle
  imports SfVector SerialProps GcHeap TemplateSafety CallbackProps Scripts StringProps ObjectProps GcStrategy Loader Threads StackTrace Embedder Smaps
begin

text \<open>
  Verification of the core of LWNode, a Node.js runtime over the script engine Escargot. Node expects the V8 API;
  LWNode implements that API (\<^verbatim>\<open>src/src/api*.cc\<close>) by wrapper classes
  (\<^verbatim>\<open>src/src/api/\<close>) around the engine, and adds memory saving features of its own
  (\<^verbatim>\<open>src/src/lwnode/\<close>). The engine, the collector and Node itself are not modelled: their source is
  not in the repository or is third-party. What they compute is a parameter of the operations that use it, and a
  property that relies on their behaviour says so in its hypotheses.

  \<^bold>\<open>How the parts interact.\<close> Client code holds handles; a handle points to a wrapper of an engine value
  and lives in the handle scope that was open when it was made. Persistent handles keep their value in the tracing heap
  of the engine, global handles run the embedder's callbacks when a value dies. The isolate owns the scope stacks, the
  global slots, the symbol registries, the counts of backing stores and the exception state; a call of a function
  enters and leaves the call depth, runs the callback of a template on the extra data of the callee, which sees the call
  through an array of cells and answers in one of them, and settles the
  exception that it may leave in the chain of try-catch handlers. Errors get a stack when they are created. Serializers
  read and write values through a delegate. Several threads may share an isolate through lockers. Around the isolate,
  the loader gives script sources to the engine and takes them back, and the main loop collects garbage when it is idle.

  \<^bold>\<open>Theories and code.\<close>
  \<^item> \<^verbatim>\<open>Prelude\<close>: faults (failed checks, undefined accesses, uncaught exceptions), the result type and its
    bind, loops as \<open>foldM\<close>, arithmetic of \<^verbatim>\<open>size_t\<close>, lists written by index.
  \<^item> \<^verbatim>\<open>SfVector\<close>: \<^verbatim>\<open>api/utils/sf-vector.h\<close>, with its growth, insertion and erasure loops.
    Interface \<open>stack_store\<close>, met with and without the check of \<^verbatim>\<open>pop_back\<close>.
  \<^item> \<^verbatim>\<open>Serializer\<close>, \<^verbatim>\<open>Deserializer\<close>: \<^verbatim>\<open>api/serializer.cc\<close>.
    \<^verbatim>\<open>WireFormat\<close> inverts the primitive encodings, \<^verbatim>\<open>SerialWriter\<close> says what is
    written, \<^verbatim>\<open>SerialReader\<close> what is read and that reading ends, \<^verbatim>\<open>SerialProps\<close> holds the
    properties.
  \<^item> \<^verbatim>\<open>Handle\<close>: \<^verbatim>\<open>api/handle.cc\<close>, tagged wrappers and their checked casts.
  \<^item> \<^verbatim>\<open>GcHeap\<close>: \<^verbatim>\<open>api/engine.cc\<close> (\<^verbatim>\<open>GCHeap\<close>) and the persistent
    handles of \<^verbatim>\<open>api/handle.cc\<close>: a step relation, its reachable states and their invariant.
  \<^item> \<^verbatim>\<open>HandleScope\<close>: \<^verbatim>\<open>api/handlescope.cc\<close>, \<^verbatim>\<open>api-handles.cc\<close> and
    the scope stacks of \<^verbatim>\<open>api/isolate.cc\<close>. Interface \<open>scope_stack\<close>, met by handle scopes and
    by contexts.
  \<^item> \<^verbatim>\<open>GlobalHandles\<close>: \<^verbatim>\<open>api/global-handles.cc\<close>. Interface \<open>refcount\<close>, met here
    by the counted persistent values and in \<^verbatim>\<open>Isolate\<close> by the backing stores.
  \<^item> \<^verbatim>\<open>Isolate\<close>: the rest of \<^verbatim>\<open>api/isolate.cc\<close>. Interface
    \<open>symbol_registry\<close>.
  \<^item> \<^verbatim>\<open>Exceptions\<close>: the exception state of \<^verbatim>\<open>api/isolate.cc\<close> and
    \<^verbatim>\<open>api-exception.cc\<close>; \<^verbatim>\<open>TryBlocks\<close>: programs of nested try-catch blocks over it;
    \<^verbatim>\<open>Messages\<close>: the lines that messages quote.
  \<^item> \<^verbatim>\<open>ExtraData\<close>: \<^verbatim>\<open>api/extra-data.cc\<close> and the helpers of
    \<^verbatim>\<open>api/es-helper.cc\<close> that attach it; \<^verbatim>\<open>Templates\<close>:
    \<^verbatim>\<open>api-template.cc\<close> and the calls of \<^verbatim>\<open>api-data.cc\<close>;
    \<^verbatim>\<open>FieldProps\<close>, \<^verbatim>\<open>CallProps\<close> and \<^verbatim>\<open>TemplateSafety\<close>: their properties,
    the last one for every sequence of operations.
  \<^item> \<^verbatim>\<open>Callbacks\<close>: \<^verbatim>\<open>api/function.cc\<close> with the accessors of
    \<^verbatim>\<open>include/v8.h\<close>, the interceptors of \<^verbatim>\<open>api-template.cc\<close> and the native accessors of
    \<^verbatim>\<open>api/object.cc\<close>; \<^verbatim>\<open>CallbackProps\<close>: what callbacks see and what becomes of their
    results and exceptions. Interface \<open>name_source\<close>, met by the names and by the indices of properties.
  \<^item> \<^verbatim>\<open>Scripts\<close>: \<^verbatim>\<open>api-scripts.cc\<close>, compilation, shebangs and runs.
  \<^item> \<^verbatim>\<open>Strings\<close>: \<^verbatim>\<open>v8::String\<close> of \<^verbatim>\<open>api-data.cc\<close> and
    \<^verbatim>\<open>api-environment.cc\<close>, copies out of strings and new strings; \<^verbatim>\<open>StringProps\<close>: what is
    copied and what stays in the buffer. Interfaces \<open>slice_writer\<close>, met by the copies of one-byte and of two-byte
    units, and \<open>string_maker\<close>, met by the makers of strings of the three encodings.
  \<^item> \<^verbatim>\<open>Objects\<close>: the properties of \<^verbatim>\<open>v8::Object\<close> in
    \<^verbatim>\<open>api-data.cc\<close>, their helpers in \<^verbatim>\<open>api/es-helper.cc\<close> and the attributes of
    \<^verbatim>\<open>api/es-v8-helper.cc\<close>, over a record of the operations of the engine; \<^verbatim>\<open>ObjectProps\<close>:
    names, exceptions, attributes and private values.
  \<^item> \<^verbatim>\<open>StackTrace\<close>: \<^verbatim>\<open>api/stack-trace.cc\<close>.
  \<^item> \<^verbatim>\<open>Threads\<close>: \<^verbatim>\<open>execution/v8threads.cc\<close>, one step for each access to shared
    state, reachable states and their invariant.
  \<^item> \<^verbatim>\<open>Embedder\<close>: the embedder data of \<^verbatim>\<open>api/context.cc\<close> and
    \<^verbatim>\<open>api/arraybuffer-allocator.cc\<close>.
  \<^item> \<^verbatim>\<open>Flags\<close>: \<^verbatim>\<open>api/utils/logger/flags.cc\<close>; \<^verbatim>\<open>Smaps\<close>:
    \<^verbatim>\<open>api/utils/smaps.cc\<close>.
  \<^item> \<^verbatim>\<open>Utf8\<close>: \<^verbatim>\<open>api/utils/string-util.cc\<close>; \<^verbatim>\<open>Loader\<close>:
    \<^verbatim>\<open>lwnode/lwnode-loader.cc\<close>. Interface \<open>source_reader\<close>, which is
    \<^verbatim>\<open>SourceReaderInterface\<close> of the code, met by the reader of files.
  \<^item> \<^verbatim>\<open>GcStrategy\<close>: \<^verbatim>\<open>lwnode/lwnode-gc-strategy.cc\<close>, timer threads and the main loop as
    interleaved steps.

  State is passed explicitly. A class is a record whose fields have the names of its members; pointers are numbers, null
  is zero, and a store from pointers to records is a map where the code shares objects. A record that extends another
  one (\<open>scopes\<close>, \<open>isolate\<close>, \<open>exc\<close>, \<open>world\<close>) adds a component to the same isolate, so
  that the lemmas of the earlier components hold of the later ones.

  \<^bold>\<open>What the lemmas show.\<close> Each component has an invariant or a representation (\<open>vec_rep\<close>,
  \<open>exc_inv\<close>, \<open>sound\<close>, \<open>manager_ok\<close>, \<open>flags_rep\<close>,
  \<open>src_inv\<close>) and one lemma for each operation that it keeps it; the functional lemmas state what each operation
  does on every branch. Refinement: vectors and internal fields against lists, captured frames against a filter of the
  call stack, reloaded sources against the first load. Round trips: values through the wire format, variable-length
  integers, externals, text through UTF-8. Balance: scopes, try-catch blocks, call depth, backing stores and source buffers end where they
  began. Concurrency: lockers exclude each other, and a collection stays reachable. Where the code does not do what it
  means to, the property states what it does do.

  \<^bold>\<open>Bounds and fuel.\<close> Reading a value has the fuel \<open>2 * bytes + 1\<close>, and is proved to end within
  it on any input. The walk over the parents of a template may run forever on a cycle, so it is a partial function;
  that it ends is proved for acyclic parents. The walks along the prototypes of objects have fuel, and the names are collected
  with as much as the chain has objects. Sizes are below \<open>2 ^ 64\<close> and wrap where the code lets them; conversions
  of \<^verbatim>\<open>size_t\<close> to \<^verbatim>\<open>int\<close> are below \<open>2 ^ 31\<close>; lengths of vectors that hold scopes
  below \<open>2 ^ 30\<close>. The build is the release build: \<^verbatim>\<open>LWNODE_DCHECK\<close> is empty and
  \<^verbatim>\<open>LWNODE_CHECK\<close> aborts.

  \<^bold>\<open>Not modelled.\<close> Functions of the API that only forward to the engine, or that are unimplemented; logging; input
  and output beyond the reading of files; the collector and its wrappers; debugging. The status and
  evaluation of modules and all of tracing are unimplemented in the code.
\<close>

end
